(* ===== verification/Prelude.thy ===== *)
theory Prelude
  imports Main
begin

text \<open>
  Shared ground of the development: the collections of rewrite rules the component theories
  extend, names for the types every component uses, generic facts on lists, finds and sums, and
  the interfaces (locales) that several components implement.

  \<^item> \<open>codec\<close> is the contract of an encoder with a partial decoder (hex, Base64, UTF-8,
    JSON, the PII envelope);
  \<^item> \<open>constrained_table\<close> is the contract of a table with a UNIQUE constraint;
  \<^item> \<open>transition_system\<close> is the contract of a component that moves by steps, and \<open>simulation\<close>
    extends it by an abstract system that the component implements.
\<close>

named_theorems handler_simps \<open>unfolding rules of request handlers\<close>
named_theorems table_simps \<open>projections of table updates\<close>
named_theorems text_simps \<open>evaluation rules of the text operations\<close>

type_synonym timestamp = int

section \<open>Lists and finds\<close>

abbreviation unique_on :: "('a \<Rightarrow> 'k) \<Rightarrow> 'a list \<Rightarrow> bool" where
  "unique_on f xs \<equiv> distinct (map f xs)"

lemma find_Some_in:
  assumes "find P xs = Some x"
  shows "x \<in> set xs" and "P x"
  using assms by (auto simp: find_Some_iff)

lemma find_None_not:
  "find P xs = None \<Longrightarrow> x \<in> set xs \<Longrightarrow> \<not> P x"
  by (auto simp: find_None_iff)

lemma find_unique_key:
  assumes "unique_on f xs" and "x \<in> set xs"
  shows "find (\<lambda>y. f y = f x) xs = Some x"
  using assms by (induction xs) force+

lemma unique_on_eqD:
  assumes "unique_on f xs" and "x \<in> set xs" and "y \<in> set xs" and "f x = f y"
  shows "x = y"
  using assms by (auto simp: distinct_map inj_on_def)

lemma find_by_unique:
  assumes "unique_on k xs" and "x \<in> set xs" and "P x" and "\<And>y. P y \<Longrightarrow> k y = k x"
  shows "find P xs = Some x"
proof (cases "find P xs")
  case None
  then show ?thesis using assms(2,3) by (auto simp: find_None_iff)
next
  case (Some y)
  with assms(4) have "y \<in> set xs" "k y = k x" by (auto dest: find_Some_in)
  with assms(1,2) Some show ?thesis by (auto dest: unique_on_eqD)
qed

lemma unique_on_append_one [simp]:
  "unique_on f (xs @ [x]) \<longleftrightarrow> unique_on f xs \<and> f x \<notin> f ` set xs"
  by auto

lemma unique_on_filter: "unique_on f xs \<Longrightarrow> unique_on f (filter P xs)"
  by (simp add: distinct_map_filter)

lemma unique_on_count_le_1:
  assumes "unique_on f xs"
  shows "length (filter (\<lambda>x. f x = k) xs) \<le> 1"
  using assms
proof (induction xs)
  case Nil
  then show ?case by simp
next
  case (Cons a xs)
  show ?case
  proof (cases "f a = k")
    case True
    with Cons.prems have "\<forall>x \<in> set xs. f x \<noteq> k" by (force simp: image_iff)
    then have "filter (\<lambda>x. f x = k) xs = []" by (simp add: filter_empty_conv)
    with True show ?thesis by simp
  next
    case False
    with Cons show ?thesis by simp
  qed
qed

lemma length_filter_map_update [simp]:
  assumes "\<And>x. x \<in> set xs \<Longrightarrow> P (g x) = P x"
  shows "length (filter P (map g xs)) = length (filter P xs)"
  using assms by (induction xs) auto

lemma map_cond_id:
  assumes "\<And>x. x \<in> set xs \<Longrightarrow> f (g x) = f x"
  shows "map f (map g xs) = map f xs"
  using assms by simp

definition update_where :: "('r \<Rightarrow> bool) \<Rightarrow> ('r \<Rightarrow> 'r) \<Rightarrow> 'r list \<Rightarrow> 'r list" where
  "update_where P f rs = map (\<lambda>r. if P r then f r else r) rs"

lemma update_where_Nil [simp]: "update_where P f [] = []"
  by (simp add: update_where_def)

lemma update_where_Cons [simp]:
  "update_where P f (r # rs) = (if P r then f r else r) # update_where P f rs"
  by (simp add: update_where_def)

lemma map_update_where [simp]:
  assumes "\<And>r. P r \<Longrightarrow> g (f r) = g r"
  shows "map g (update_where P f rs) = map g rs"
  using assms by (induction rs) auto

lemma set_update_where:
  "x \<in> set (update_where P f rs) \<longleftrightarrow>
     (\<exists>r \<in> set rs. x = (if P r then f r else r))"
  by (auto simp: update_where_def)

lemma filter_update_where_out [simp]:
  assumes "\<And>r. P r \<Longrightarrow> \<not> Q r" and "\<And>r. P r \<Longrightarrow> \<not> Q (f r)"
  shows "filter Q (update_where P f rs) = filter Q rs"
  using assms by (induction rs) auto

lemma find_update_where:
  "find (\<lambda>x. k x = i) (update_where (\<lambda>x. k x = k r) (\<lambda>_. r) rs) =
     (if i = k r then map_option (\<lambda>_. r) (find (\<lambda>x. k x = i) rs) else find (\<lambda>x. k x = i) rs)"
  by (induction rs) auto

lemma in_update_where_const:
  "x \<in> set (update_where P (\<lambda>_. r) rs) \<longleftrightarrow>
     x \<in> set rs \<and> \<not> P x \<or> x = r \<and> (\<exists>y \<in> set rs. P y)"
  by (induction rs) auto

lemma find_update_where_hit:
  assumes "find P rs = Some c" and "P c'" and "k c' = k c" and "unique_on k rs"
  shows "find P (update_where (\<lambda>x. k x = k c') (\<lambda>_. c') rs) = Some c'"
  using assms
proof (induction rs)
  case (Cons r rs)
  show ?case
  proof (cases "P r")
    case True
    with Cons.prems show ?thesis by simp
  next
    case False
    with Cons.prems have "c \<in> set rs" by (auto dest: find_Some_in)
    with Cons.prems have "k r \<noteq> k c'" by (auto simp: image_iff)
    with False Cons show ?thesis by simp
  qed
qed simp

lemma filter_update_where_on:
  assumes "\<And>r. r \<in> set rs \<Longrightarrow> P r \<Longrightarrow> \<not> Q r \<and> \<not> Q (f r)"
  shows "filter Q (update_where P f rs) = filter Q rs"
  using assms by (induction rs) auto

section \<open>Fresh row identifiers\<close>

definition fresh_id :: "int list \<Rightarrow> int" where
  "fresh_id ids = 1 + foldr max ids 0"

lemma foldr_max_upper: "x \<in> set ids \<Longrightarrow> x \<le> foldr max ids (0::int)"
  by (induction ids) auto

lemma fresh_id_not_in [simp]: "fresh_id ids \<notin> set ids"
  using foldr_max_upper [of "fresh_id ids" ids] by (auto simp: fresh_id_def)

lemma fresh_id_pos: "1 \<le> fresh_id ids"
proof -
  have "0 \<le> foldr max ids (0::int)" by (induction ids) auto
  then show ?thesis by (simp add: fresh_id_def)
qed

section \<open>Interfaces\<close>

text \<open>An encoder and a decoder that inverts it; decoding is partial.\<close>

locale codec =
  fixes encode :: "'a \<Rightarrow> 'b"
    and decode :: "'b \<Rightarrow> 'a option"
    and ok :: "'a \<Rightarrow> bool"
  assumes decode_encode: "ok x \<Longrightarrow> decode (encode x) = Some x"
begin

lemma encode_inject: "ok x \<Longrightarrow> ok y \<Longrightarrow> encode x = encode y \<longleftrightarrow> x = y"
  by (metis decode_encode option.inject)

lemma encode_not_rejected: "ok x \<Longrightarrow> decode (encode x) \<noteq> None"
  by (simp add: decode_encode)

end

text \<open>
  A table of a larger store with a UNIQUE constraint on \<open>key\<close>: an accepted insertion yields a
  store that meets its constraints and whose table has the new row at its end. A client sees at
  most one row per key, and a second insertion with a taken key is refused.
\<close>

locale constrained_table =
  fixes ok :: "'db \<Rightarrow> bool"
    and table :: "'db \<Rightarrow> 'r list"
    and key :: "'r \<Rightarrow> 'k"
    and new_key :: "'x \<Rightarrow> 'k"
    and insert_row :: "'x \<Rightarrow> 'db \<Rightarrow> 'db option"
  assumes ok_unique: "ok db \<Longrightarrow> unique_on key (table db)"
    and insert_ok: "insert_row x db = Some db' \<Longrightarrow> ok db'"
    and insert_appends: "insert_row x db = Some db' \<Longrightarrow> \<exists>r. table db' = table db @ [r] \<and> key r = new_key x"
begin

lemma insert_taken_refused:
  assumes "new_key x \<in> key ` set (table db)"
  shows "insert_row x db = None"
proof (rule ccontr)
  assume "insert_row x db \<noteq> None"
  then obtain db' where db': "insert_row x db = Some db'" by auto
  obtain r where "table db' = table db @ [r]" "key r = new_key x" using insert_appends [OF db'] by blast
  with ok_unique [OF insert_ok [OF db']] assms show False by simp
qed

lemma insert_twice_refused:
  assumes "insert_row x db = Some db'" and "new_key y = new_key x"
  shows "insert_row y db' = None"
proof (rule insert_taken_refused)
  show "new_key y \<in> key ` set (table db')" using insert_appends [OF assms(1)] assms(2) by auto
qed

lemma at_most_one_per_key:
  assumes "ok db"
  shows "length (filter (\<lambda>r. key r = k) (table db)) \<le> 1"
  by (rule unique_on_count_le_1) (rule ok_unique [OF assms])

lemma insert_counts_one:
  assumes "insert_row x db = Some db'"
  shows "length (filter (\<lambda>r. key r = new_key x) (table db')) = 1"
proof -
  have "length (filter (\<lambda>r. key r = new_key x) (table db')) \<le> 1"
    by (rule at_most_one_per_key) (rule insert_ok [OF assms])
  then show ?thesis using insert_appends [OF assms] by auto
qed

end

text \<open>
  A component that moves by steps. An invariant that holds at the start and is kept by every step
  holds in every reachable state, and a fact once established that every step keeps is stable.
\<close>

locale transition_system =
  fixes init :: "'s \<Rightarrow> bool"
    and step :: "'s \<Rightarrow> 's \<Rightarrow> bool"
begin

lemma invariant_star:
  assumes "step\<^sup>*\<^sup>* s t" and "I s" and "\<And>x y. I x \<Longrightarrow> step x y \<Longrightarrow> I y"
  shows "I t"
  using assms by (induction rule: rtranclp_induct) blast+

lemma invariant_reachable:
  assumes "init s" and "step\<^sup>*\<^sup>* s t"
    and "\<And>x. init x \<Longrightarrow> I x" and "\<And>x y. I x \<Longrightarrow> step x y \<Longrightarrow> I y"
  shows "I t"
  by (rule invariant_star [where I = I, OF assms(2) assms(3) [OF assms(1)] assms(4)])

lemma stable_under_invariant:
  assumes "step\<^sup>*\<^sup>* s t" and "I s" and "P s"
    and "\<And>x y. I x \<Longrightarrow> step x y \<Longrightarrow> I y"
    and "\<And>x y. I x \<Longrightarrow> P x \<Longrightarrow> step x y \<Longrightarrow> P y"
  shows "P t"
proof -
  have "I t \<and> P t"
    by (rule invariant_star [where I = "\<lambda>x. I x \<and> P x", OF assms(1)])
      (use assms(2-5) in blast)+
  then show ?thesis ..
qed

end

text \<open>
  A system that implements an abstract one: every step from a state of the invariant is, seen
  through the abstraction, a step of the abstract system or no change.
\<close>

locale simulation = transition_system init step
  for init :: "'s \<Rightarrow> bool" and step :: "'s \<Rightarrow> 's \<Rightarrow> bool" +
  fixes abstract_init :: "'a \<Rightarrow> bool"
    and abstract_step :: "'a \<Rightarrow> 'a \<Rightarrow> bool"
    and abstraction :: "'s \<Rightarrow> 'a"
    and inv :: "'s \<Rightarrow> bool"
  assumes inv_init: "init s \<Longrightarrow> inv s"
    and inv_step: "inv s \<Longrightarrow> step s t \<Longrightarrow> inv t"
    and abstraction_init: "init s \<Longrightarrow> abstract_init (abstraction s)"
    and abstraction_step: "inv s \<Longrightarrow> step s t \<Longrightarrow>
      abstraction t = abstraction s \<or> abstract_step (abstraction s) (abstraction t)"
begin

lemma simulated:
  assumes "inv s" and "step\<^sup>*\<^sup>* s t"
  shows "abstract_step\<^sup>*\<^sup>* (abstraction s) (abstraction t) \<and> inv t"
  using assms(2,1)
proof (induction rule: rtranclp_induct)
  case (step y z)
  then have "inv y" and run: "abstract_step\<^sup>*\<^sup>* (abstraction s) (abstraction y)" by auto
  from abstraction_step [OF \<open>inv y\<close> step(2)] run inv_step [OF \<open>inv y\<close> step(2)] show ?case
    by (auto intro: rtranclp.rtrancl_into_rtrancl)
qed simp

lemma refines:
  assumes "init s" and "step\<^sup>*\<^sup>* s t"
  shows "abstract_init (abstraction s) \<and> abstract_step\<^sup>*\<^sup>* (abstraction s) (abstraction t)"
  using simulated [OF inv_init [OF assms(1)] assms(2)] abstraction_init [OF assms(1)] by blast

end

end
