(* ===== verification/Py_Text.thy ===== *)
theory Py_Text
  imports Prelude "HOL-Library.Word"
begin

text \<open>
  The text and byte operations of the Python language and its standard library that the
  program uses: \<open>str.strip\<close>, \<open>lower\<close>, \<open>upper\<close>, \<open>startswith\<close>, \<open>split\<close>, \<open>isdigit\<close>,
  \<open>int(s)\<close> and \<open>int(s, 16)\<close>, \<open>str(i)\<close>, \<open>hex(i)\<close>, \<open>bytes.hex\<close>, \<open>bytes.fromhex\<close>, the UTF-8
  codec and \<open>datetime.isoformat\<close>.

  A Python \<open>str\<close> is a \<open>string\<close> whose characters are the code points 0 to 255; code points
  above 255 are outside the model. A \<open>bytes\<close> object is a list of 8-bit words. A naive UTC
  \<open>datetime\<close> is the number of microseconds since the epoch (\<open>timestamp\<close>).
\<close>

type_synonym byte = "8 word"
type_synonym bytes = "byte list"

section \<open>Characters\<close>

definition ord :: "char \<Rightarrow> nat" where
  "ord c = of_char c"

lemma ord_less [simp]: "ord c < 256"
  unfolding ord_def by (rule of_char_mod_256 [THEN subst]) simp

lemma char_of_ord [simp]: "char_of (ord c) = c"
  by (simp add: ord_def)

lemma ord_char_of [simp]: "n < 256 \<Longrightarrow> ord (char_of n) = n"
  by (simp add: ord_def)

lemma ord_inject [simp]: "ord c = ord d \<longleftrightarrow> c = d"
  by (metis char_of_ord)

definition is_space :: "char \<Rightarrow> bool" where
  "is_space c \<longleftrightarrow> (let n = ord c in
     9 \<le> n \<and> n \<le> 13 \<or> 28 \<le> n \<and> n \<le> 32 \<or> n = 133 \<or> n = 160)"

definition is_ascii_digit :: "char \<Rightarrow> bool" where
  "is_ascii_digit c \<longleftrightarrow> 48 \<le> ord c \<and> ord c \<le> 57"

definition is_upper_ascii :: "char \<Rightarrow> bool" where
  "is_upper_ascii c \<longleftrightarrow> 65 \<le> ord c \<and> ord c \<le> 90"

definition is_lower_ascii :: "char \<Rightarrow> bool" where
  "is_lower_ascii c \<longleftrightarrow> 97 \<le> ord c \<and> ord c \<le> 122"

definition is_alnum_ascii :: "char \<Rightarrow> bool" where
  "is_alnum_ascii c \<longleftrightarrow> is_ascii_digit c \<or> is_upper_ascii c \<or> is_lower_ascii c"

definition is_lower_hex :: "char \<Rightarrow> bool" where
  "is_lower_hex c \<longleftrightarrow> is_ascii_digit c \<or> 97 \<le> ord c \<and> ord c \<le> 102"

text \<open>\<open>str.isdigit\<close> also accepts the superscript digits of Latin-1.\<close>

definition isdigit :: "string \<Rightarrow> bool" where
  "isdigit s \<longleftrightarrow> s \<noteq> [] \<and> list_all (\<lambda>c. is_ascii_digit c \<or> ord c \<in> {178, 179, 185}) s"

text \<open>
  Case conversion. The two Latin-1 letters whose upper case lies above code point 255 (micro
  sign and y with diaeresis) are left unchanged.
\<close>

definition upper_char :: "char \<Rightarrow> string" where
  "upper_char c = (let n = ord c in
     if is_lower_ascii c \<or> 224 \<le> n \<and> n \<le> 254 \<and> n \<noteq> 247 then [char_of (n - 32)]
     else if n = 223 then ''SS''
     else [c])"

definition lower_char :: "char \<Rightarrow> char" where
  "lower_char c = (let n = ord c in
     if is_upper_ascii c \<or> 192 \<le> n \<and> n \<le> 222 \<and> n \<noteq> 215 then char_of (n + 32) else c)"

definition upper :: "string \<Rightarrow> string" where
  "upper s = concat (map upper_char s)"

definition lower :: "string \<Rightarrow> string" where
  "lower s = map lower_char s"

section \<open>Strings\<close>

lemma upper_char_not_Nil [simp]: "upper_char c \<noteq> []"
  by (simp add: upper_char_def Let_def)

lemma upper_Nil_iff [simp]: "upper s = [] \<longleftrightarrow> s = []"
  by (cases s) (simp_all add: upper_def)

definition lstrip :: "string \<Rightarrow> string" where
  "lstrip s = dropWhile is_space s"

definition strip :: "string \<Rightarrow> string" where
  "strip s = rev (dropWhile is_space (rev (lstrip s)))"

definition startswith :: "string \<Rightarrow> string \<Rightarrow> bool" where
  "startswith s p \<longleftrightarrow> take (length p) s = p"

definition endswith :: "string \<Rightarrow> string \<Rightarrow> bool" where
  "endswith s p \<longleftrightarrow> startswith (rev s) (rev p)"

fun split_on :: "char \<Rightarrow> string \<Rightarrow> string list" where
  "split_on d [] = [[]]"
| "split_on d (c # cs) =
     (if c = d then [] # split_on d cs
      else (case split_on d cs of [] \<Rightarrow> [[c]] | w # ws \<Rightarrow> (c # w) # ws))"

fun contains :: "string \<Rightarrow> string \<Rightarrow> bool" where
  "contains [] p \<longleftrightarrow> p = []"
| "contains (c # cs) p \<longleftrightarrow> startswith (c # cs) p \<or> contains cs p"

fun join :: "string \<Rightarrow> string list \<Rightarrow> string" where
  "join sep [] = []"
| "join sep [w] = w"
| "join sep (w # ws) = w @ sep @ join sep ws"

lemma startswith_append [simp]: "startswith (p @ s) p"
  by (simp add: startswith_def)

lemma startswith_iff: "startswith s p \<longleftrightarrow> (\<exists>t. s = p @ t)"
  by (metis append_eq_conv_conj append_take_drop_id startswith_append startswith_def)

lemma dropWhile_no_hd: "dropWhile P xs \<noteq> [] \<Longrightarrow> \<not> P (hd (dropWhile P xs))"
  by (rule hd_dropWhile)

lemma strip_set: "set (strip s) \<subseteq> set s"
  unfolding strip_def lstrip_def by (metis set_dropWhileD set_rev subsetI)

lemma strip_id:
  assumes "s = [] \<or> (\<not> is_space (hd s) \<and> \<not> is_space (last s))"
  shows "strip s = s"
proof (cases "s = []")
  case False
  with assms obtain c cs d ds where "s = c # cs" "\<not> is_space c" "rev s = d # ds" "\<not> is_space d"
    by (metis hd_rev list.exhaust_sel rev_is_Nil_conv)
  then show ?thesis unfolding strip_def lstrip_def by (metis dropWhile.simps(2) rev_rev_ident)
qed (simp add: strip_def lstrip_def)

section \<open>Integers as text\<close>

definition digit_val :: "nat \<Rightarrow> char \<Rightarrow> int option" where
  "digit_val base c = (let n = ord c;
     d = (if is_ascii_digit c then n - 48
          else if is_lower_ascii c then n - 87
          else if is_upper_ascii c then n - 55
          else 255)
     in if d < base then Some (int d) else None)"

text \<open>Digits with single underscores between them, as Python accepts.\<close>

fun parse_digits :: "nat \<Rightarrow> int \<Rightarrow> bool \<Rightarrow> string \<Rightarrow> int option" where
  "parse_digits base acc seen [] = (if seen then Some acc else None)"
| "parse_digits base acc seen (c # cs) =
     (if c = CHR ''_'' then (if seen then parse_digits base acc False cs else None)
      else (case digit_val base c of
              None \<Rightarrow> None
            | Some d \<Rightarrow> parse_digits base (acc * int base + d) True cs))"

definition strip_0x :: "string \<Rightarrow> string" where
  "strip_0x s = (if startswith s ''0x'' \<or> startswith s ''0X''
     then (let t = drop 2 s in if startswith t ''_'' then tl t else t) else s)"

text \<open>\<open>int(s, base)\<close> on text: surrounding white space and a sign are accepted.\<close>

definition py_int :: "nat \<Rightarrow> string \<Rightarrow> int option" where
  "py_int base s = (let body = (if base = 16 then strip_0x else (\<lambda>t. t)); t = strip s in
     if startswith t ''-'' then map_option uminus (parse_digits base 0 False (body (tl t)))
     else if startswith t ''+'' then parse_digits base 0 False (body (tl t))
     else parse_digits base 0 False (body t))"

definition digit_char :: "nat \<Rightarrow> char" where
  "digit_char d = (if d < 10 then char_of (48 + d) else char_of (87 + d))"

fun show_nat :: "nat \<Rightarrow> nat \<Rightarrow> string" where
  "show_nat base n = (if base \<le> 1 \<or> n < base then [digit_char (n mod 36)]
     else show_nat base (n div base) @ [digit_char (n mod base)])"

declare show_nat.simps [simp del]

definition show_int :: "int \<Rightarrow> string" where
  "show_int i = (if i < 0 then ''-'' @ show_nat 10 (nat (- i)) else show_nat 10 (nat i))"

definition py_hex :: "int \<Rightarrow> string" where
  "py_hex i = (if i < 0 then ''-0x'' @ show_nat 16 (nat (- i)) else ''0x'' @ show_nat 16 (nat i))"


lemma digit_char_ord:
  "d < 36 \<Longrightarrow> ord (digit_char d) = (if d < 10 then 48 + d else 87 + d)"
  by (simp add: digit_char_def)

lemma digit_val_digit_char [simp]:
  "d < base \<Longrightarrow> base \<le> 36 \<Longrightarrow> digit_val base (digit_char d) = Some (int d)"
  by (auto simp: digit_val_def digit_char_ord is_ascii_digit_def is_lower_ascii_def Let_def)

lemma digit_char_neq:
  assumes "d < 36"
  shows "digit_char d \<noteq> CHR ''_''" and "digit_char d \<noteq> CHR ''-''"
    and "digit_char d \<noteq> CHR ''+''" and "\<not> is_space (digit_char d)"
proof -
  have o: "ord (digit_char d) \<in> {48..57} \<union> {97..122}"
    using digit_char_ord [OF assms] assms by auto
  have "ord (CHR ''_'') = 95" "ord (CHR ''-'') = 45" "ord (CHR ''+'') = 43"
    by (simp_all add: ord_def)
  with o show "digit_char d \<noteq> CHR ''_''"
    and "digit_char d \<noteq> CHR ''-''" and "digit_char d \<noteq> CHR ''+''"
    by force+
  from o show "\<not> is_space (digit_char d)"
    by (auto simp: is_space_def Let_def)
qed

lemma show_nat_not_Nil [simp]: "show_nat base n \<noteq> []"
  by (subst show_nat.simps) simp

lemma show_nat_small: "n < base \<Longrightarrow> base \<le> 36 \<Longrightarrow> show_nat base n = [digit_char n]"
  by (subst show_nat.simps) simp

lemma show_nat_big:
  "2 \<le> base \<Longrightarrow> base \<le> n \<Longrightarrow>
     show_nat base n = show_nat base (n div base) @ [digit_char (n mod base)]"
  by (subst show_nat.simps) simp

lemma show_nat_chars:
  assumes "2 \<le> base" and "base \<le> 36" and "c \<in> set (show_nat base n)"
  shows "\<exists>d < base. c = digit_char d"
  using assms(3)
proof (induction n rule: less_induct)
  case (less n)
  show ?case
  proof (cases "n < base")
    case True
    with less.prems assms show ?thesis by (auto simp: show_nat_small)
  next
    case False
    with assms have m: "n div base < n" and d: "n mod base < base" by simp_all
    from less.prems False assms
    consider "c = digit_char (n mod base)" | "c \<in> set (show_nat base (n div base))"
      by (auto simp: show_nat_big)
    then show ?thesis using d less.IH [OF m] by cases blast+
  qed
qed

lemma parse_digits_show_nat:
  assumes "2 \<le> base" and "base \<le> 36"
  shows "parse_digits base acc seen (show_nat base n @ rest) =
     parse_digits base (acc * int base ^ length (show_nat base n) + int n) True rest"
proof (induction n arbitrary: acc seen rest rule: less_induct)
  case (less n)
  show ?case
  proof (cases "n < base")
    case True
    with assms digit_char_neq(1) [of n] show ?thesis by (simp add: show_nat_small)
  next
    case False
    let ?m = "n div base" and ?d = "n mod base"
    from False assms have m: "?m < n" and d: "?d < base" by simp_all
    have split: "int n = int ?m * int base + int ?d"
      by (metis div_mult_mod_eq of_nat_add of_nat_mult)
    from d assms have "?d < 36" by linarith
    then have "digit_char ?d \<noteq> CHR ''_''" by (rule digit_char_neq(1))
    with False assms d show ?thesis
      by (simp add: show_nat_big less.IH [OF m] split algebra_simps)
  qed
qed

lemma show_nat_hd_last:
  assumes "2 \<le> base" and "base \<le> 36"
  shows "\<exists>d < base. hd (show_nat base n) = digit_char d"
    and "\<exists>d < base. last (show_nat base n) = digit_char d"
  by (rule show_nat_chars [OF assms, of _ n], simp)+

lemma py_int_10_nat:
  "py_int 10 (show_nat 10 n) = Some (int n)"
proof -
  obtain d e where d: "d < 10" "hd (show_nat 10 n) = digit_char d"
    and e: "e < 10" "last (show_nat 10 n) = digit_char e"
    using show_nat_hd_last [of 10 n] by auto
  have "strip (show_nat 10 n) = show_nat 10 n"
    using d e by (intro strip_id) (simp add: digit_char_neq(4))
  moreover from d have "hd (show_nat 10 n) \<noteq> CHR ''-''" "hd (show_nat 10 n) \<noteq> CHR ''+''"
    by (simp_all add: digit_char_neq)
  moreover have "parse_digits 10 0 False (show_nat 10 n) = Some (int n)"
    using parse_digits_show_nat [of 10 0 False n "[]"] by simp
  moreover obtain c cs where "show_nat 10 n = c # cs"
    by (meson neq_Nil_conv show_nat_not_Nil)
  ultimately show ?thesis
    by (simp add: py_int_def startswith_def)
qed

lemma py_int_show_int [simp]: "py_int 10 (show_int i) = Some i"
proof (cases "i < 0")
  case False
  then show ?thesis by (simp add: show_int_def py_int_10_nat)
next
  case True
  let ?s = "CHR ''-'' # show_nat 10 (nat (- i))"
  have "last ?s = last (show_nat 10 (nat (- i)))" by simp
  then have "\<not> is_space (last ?s)"
    using show_nat_hd_last(2) [of 10 "nat (- i)"] digit_char_neq(4) by fastforce
  then have "strip ?s = ?s"
    by (intro strip_id) (simp add: is_space_def ord_def)
  with True show ?thesis
    using parse_digits_show_nat [of 10 0 False "nat (- i)" "[]"]
    by (simp add: show_int_def py_int_def startswith_def)
qed

lemma show_int_inject [simp]: "show_int i = show_int j \<longleftrightarrow> i = j"
  by (metis option.inject py_int_show_int)

lemma py_int_16_digits:
  assumes "s \<noteq> []" and "\<And>c. c \<in> set s \<Longrightarrow> \<exists>d < 16. c = digit_char d"
  shows "py_int 16 s = parse_digits 16 0 False s"
proof -
  have hl: "hd s \<in> set s" "last s \<in> set s" using assms(1) by simp_all
  obtain d e where d: "d < 16" "hd s = digit_char d" and e: "e < 16" "last s = digit_char e"
    using assms(2) [OF hl(1)] assms(2) [OF hl(2)] by auto
  have "strip s = s" using d e by (intro strip_id) (simp add: digit_char_neq(4))
  moreover have "hd s \<noteq> CHR ''-''" "hd s \<noteq> CHR ''+''" using d by (simp_all add: digit_char_neq)
  moreover have no_x: "c \<noteq> CHR ''x'' \<and> c \<noteq> CHR ''X''" if c: "c \<in> set s" for c
  proof -
    obtain k where "k < 16" "c = digit_char k" using assms(2) [OF c] by auto
    then have "ord c < 103 \<and> ord c \<noteq> 88" using digit_char_ord [of k] by auto
    then show ?thesis by (auto simp: ord_def)
  qed
  moreover have "strip_0x s = s"
  proof (cases s)
    case (Cons a t)
    then show ?thesis using no_x by (cases t) (auto simp: strip_0x_def startswith_def)
  qed (simp add: strip_0x_def startswith_def)
  ultimately show ?thesis
    using assms(1) by (cases s) (simp_all add: py_int_def startswith_def)
qed

lemma py_int_py_hex_nonneg: "py_int 16 (''0x'' @ show_nat 16 n) = Some (int n)"
proof -
  let ?s = "''0x'' @ show_nat 16 n"
  obtain d e where d: "d < 16" "hd (show_nat 16 n) = digit_char d"
    and e: "e < 16" "last (show_nat 16 n) = digit_char e"
    using show_nat_hd_last [of 16 n] by auto
  obtain c cs where c: "show_nat 16 n = c # cs" by (meson neq_Nil_conv show_nat_not_Nil)
  have "\<not> is_space (last ?s)" using e by (simp add: digit_char_neq(4))
  then have "strip ?s = ?s" by (intro strip_id) (simp add: is_space_def ord_def)
  moreover have "c \<noteq> CHR ''_''" using d c digit_char_neq(1) [of d] by simp
  moreover have "parse_digits 16 0 False (c # cs) = Some (int n)"
    using parse_digits_show_nat [of 16 0 False n "[]"] c by simp
  ultimately show ?thesis
    using c by (simp add: py_int_def startswith_def strip_0x_def Let_def)
qed

lemma py_int_py_hex: "0 \<le> i \<Longrightarrow> py_int 16 (py_hex i) = Some i"
  using py_int_py_hex_nonneg [of "nat i"] by (simp add: py_hex_def)

section \<open>Bytes\<close>

lemma unat_byte_less: "unat (b :: byte) < 256"
  using unsigned_less [of b, where ?'a = nat] by simp

lemma unat_of_nat_byte: "n < 256 \<Longrightarrow> unat (word_of_nat n :: byte) = n"
  by (simp add: unat_of_nat)

definition hex_of_byte :: "byte \<Rightarrow> string" where
  "hex_of_byte b = [digit_char (unat b div 16), digit_char (unat b mod 16)]"

text \<open>\<open>bytes.hex()\<close>, also the form of \<open>hexdigest()\<close> and \<open>secrets.token_hex\<close>.\<close>

definition hex_of_bytes :: "bytes \<Rightarrow> string" where
  "hex_of_bytes bs = concat (map hex_of_byte bs)"

text \<open>\<open>bytes.fromhex\<close>: pairs of hex digits, ASCII white space between them is skipped.\<close>

fun fromhex :: "string \<Rightarrow> bytes option" where
  "fromhex [] = Some []"
| "fromhex [c] = (if ord c \<in> {9, 10, 11, 12, 13, 32} then Some [] else None)"
| "fromhex (c # d # ds) =
     (if ord c \<in> {9, 10, 11, 12, 13, 32} then fromhex (d # ds)
      else (case digit_val 16 c of
              None \<Rightarrow> None
            | Some h \<Rightarrow> (case digit_val 16 d of
                None \<Rightarrow> None
              | Some l \<Rightarrow> map_option ((#) (word_of_int (16 * h + l))) (fromhex ds))))"

lemma digit_char_not_blank: "d < 36 \<Longrightarrow> ord (digit_char d) \<notin> {9, 10, 11, 12, 13, 32}"
  using digit_char_ord [of d] by auto

lemma fromhex_hex_of_bytes [simp]: "fromhex (hex_of_bytes bs) = Some bs"
proof (induction bs)
  case Nil
  then show ?case by (simp add: hex_of_bytes_def)
next
  case (Cons b bs)
  have b: "unat b < 256" by (rule unat_byte_less)
  then have "unat b div 16 < 16" "unat b mod 16 < 16" by auto
  moreover have "word_of_int (16 * int (unat b div 16) + int (unat b mod 16)) = b"
  proof -
    have "16 * int (unat b div 16) + int (unat b mod 16) = int (unat b)"
      by (metis mult_div_mod_eq of_nat_add of_nat_mult of_nat_numeral)
    then show ?thesis by simp
  qed
  ultimately show ?case
    using Cons digit_char_not_blank [of "unat b div 16"]
    by (simp add: hex_of_bytes_def hex_of_byte_def)
qed

lemma length_hex_of_bytes [simp]: "length (hex_of_bytes bs) = 2 * length bs"
  by (induction bs) (simp_all add: hex_of_bytes_def hex_of_byte_def)

lemma hex_of_bytes_lower: "list_all is_lower_hex (hex_of_bytes bs)"
proof (induction bs)
  case (Cons b bs)
  have "unat b < 256" by (rule unat_byte_less)
  then have "unat b div 16 < 16" "unat b mod 16 < 16" by auto
  with Cons show ?case
    using digit_char_ord [of "unat b div 16"] digit_char_ord [of "unat b mod 16"]
    by (auto simp: hex_of_bytes_def hex_of_byte_def is_lower_hex_def is_ascii_digit_def)
qed (simp add: hex_of_bytes_def)

text \<open>The UTF-8 codec on code points below 256.\<close>

definition utf8_char :: "char \<Rightarrow> bytes" where
  "utf8_char c = (let n = ord c in
     if n < 128 then [word_of_nat n] else [word_of_nat (192 + n div 64), word_of_nat (128 + n mod 64)])"

definition utf8_encode :: "string \<Rightarrow> bytes" where
  "utf8_encode s = concat (map utf8_char s)"

fun utf8_decode :: "bytes \<Rightarrow> string option" where
  "utf8_decode [] = Some []"
| "utf8_decode (b # bs) =
     (if unat b < 128 then map_option ((#) (char_of (unat b))) (utf8_decode bs)
      else if unat b \<in> {194, 195} then
        (case bs of
           [] \<Rightarrow> None
         | c # cs \<Rightarrow>
             if 128 \<le> unat c \<and> unat c < 192
             then map_option ((#) (char_of ((unat b - 192) * 64 + (unat c - 128)))) (utf8_decode cs)
             else None)
      else None)"

lemma utf8_decode_encode [simp]: "utf8_decode (utf8_encode s) = Some s"
proof (induction s)
  case Nil
  then show ?case by (simp add: utf8_encode_def)
next
  case (Cons c s)
  show ?case
  proof (cases "ord c < 128")
    case True
    then have "unat (word_of_nat (ord c) :: byte) = ord c"
      by (simp add: unat_of_nat)
    with True Cons show ?thesis by (simp add: utf8_encode_def utf8_char_def)
  next
    case False
    define h where "h = 192 + ord c div 64"
    define l where "l = 128 + ord c mod 64"
    have "ord c div 64 = 2 \<or> ord c div 64 = 3"
      using False ord_less [of c] by arith
    then have h: "h = 194 \<or> h = 195" by (auto simp: h_def)
    have l: "128 \<le> l" "l < 192" by (simp_all add: l_def)
    have joined: "(h - 192) * 64 + (l - 128) = ord c" by (simp add: h_def l_def)
    have "unat (word_of_nat h :: byte) = h" "unat (word_of_nat l :: byte) = l"
      using h l by (auto intro!: unat_of_nat_byte simp del: of_nat_numeral)
    with h l have "utf8_decode (word_of_nat h # word_of_nat l # utf8_encode s) =
        Some (char_of ((h - 192) * 64 + (l - 128)) # s)"
      using Cons by (auto simp del: of_nat_numeral)
    moreover have "utf8_encode (c # s) = word_of_nat h # word_of_nat l # utf8_encode s"
      using False by (simp add: utf8_encode_def utf8_char_def h_def l_def Let_def)
    ultimately show ?thesis by (simp only: joined char_of_ord)
  qed
qed

interpretation hexc: codec hex_of_bytes fromhex "\<lambda>_. True"
  by unfold_locales simp

interpretation utf8: codec utf8_encode utf8_decode "\<lambda>_. True"
  by unfold_locales simp

interpretation decimal: codec show_int "py_int 10" "\<lambda>_. True"
  by unfold_locales simp

interpretation hexint: codec py_hex "py_int 16" "\<lambda>i. 0 \<le> i"
  by unfold_locales (rule py_int_py_hex)

lemma length_utf8_bounds: "length s \<le> length (utf8_encode s) \<and> length (utf8_encode s) \<le> 2 * length s"
  by (induction s) (auto simp: utf8_encode_def utf8_char_def Let_def)

section \<open>Time stamps\<close>

definition seconds :: "int \<Rightarrow> timestamp" where
  "seconds n = 1000000 * n"

definition minutes :: "int \<Rightarrow> timestamp" where
  "minutes n = seconds (60 * n)"

definition days :: "int \<Rightarrow> timestamp" where
  "days n = seconds (86400 * n)"

text \<open>The proleptic Gregorian date of a day number counted from 1970-01-01.\<close>

definition civil_from_days :: "int \<Rightarrow> int \<times> int \<times> int" where
  "civil_from_days day = (let z = day + 719468; era = z div 146097; doe = z mod 146097;
     yoe = (doe - doe div 1460 + doe div 36524 - doe div 146096) div 365;
     doy = doe - (365 * yoe + yoe div 4 - yoe div 100);
     mp = (5 * doy + 2) div 153;
     d = doy - (153 * mp + 2) div 5 + 1;
     m = (if mp < 10 then mp + 3 else mp - 9)
     in (yoe + era * 400 + (if m \<le> 2 then 1 else 0), m, d))"

definition zpad :: "nat \<Rightarrow> int \<Rightarrow> string" where
  "zpad w i = (let s = show_int i in replicate (w - length s) (CHR ''0'') @ s)"

text \<open>\<open>datetime.isoformat()\<close> of an aware UTC value.\<close>

definition isoformat_utc :: "timestamp \<Rightarrow> string" where
  "isoformat_utc t = (let sec = t div 1000000; us = t mod 1000000;
     (y, m, d) = civil_from_days (sec div 86400); r = sec mod 86400
     in zpad 4 y @ ''-'' @ zpad 2 m @ ''-'' @ zpad 2 d @ ''T'' @
        zpad 2 (r div 3600) @ '':'' @ zpad 2 (r mod 3600 div 60) @ '':'' @ zpad 2 (r mod 60) @
        (if us = 0 then [] else ''.'' @ zpad 6 us) @ ''+00:00'')"

lemma isoformat_utc_example: "isoformat_utc 1752494400000001 = ''2025-07-14T12:00:00.000001+00:00''"
  by code_simp

end
