(* ===== verification/Hashlib.thy ===== *)
theory Hashlib
  imports Py_Text
begin

text \<open>
  \<open>hashlib.sha256\<close> and \<open>hmac.new(key, msg, sha256)\<close> of the standard library on byte lists,
  computed on 32-bit words as FIPS 180-4 and FIPS 198-1 prescribe. The components use the
  digests through their length, their hexadecimal form and, where they compare two digests,
  through equality; collision resistance is never assumed as a fact, it appears as an explicit
  alternative in the statements that need it.
\<close>

unbundle bit_operations_syntax

type_synonym w32 = "32 word"
type_synonym sha_state = "w32 \<times> w32 \<times> w32 \<times> w32 \<times> w32 \<times> w32 \<times> w32 \<times> w32"

definition sha_constants :: "w32 list" where
  "sha_constants =
    [1116352408, 1899447441, 3049323471, 3921009573, 961987163, 1508970993, 2453635748, 2870763221,
     3624381080, 310598401, 607225278, 1426881987, 1925078388, 2162078206, 2614888103, 3248222580,
     3835390401, 4022224774, 264347078, 604807628, 770255983, 1249150122, 1555081692, 1996064986,
     2554220882, 2821834349, 2952996808, 3210313671, 3336571891, 3584528711, 113926993, 338241895,
     666307205, 773529912, 1294757372, 1396182291, 1695183700, 1986661051, 2177026350, 2456956037,
     2730485921, 2820302411, 3259730800, 3345764771, 3516065817, 3600352804, 4094571909, 275423344,
     430227734, 506948616, 659060556, 883997877, 958139571, 1322822218, 1537002063, 1747873779,
     1955562222, 2024104815, 2227730452, 2361852424, 2428436474, 2756734187, 3204031479, 3329325298]"

definition sha_init :: sha_state where
  "sha_init = (1779033703, 3144134277, 1013904242, 2773480762,
               1359893119, 2600822924, 528734635, 1541459225)"

definition rotr :: "nat \<Rightarrow> w32 \<Rightarrow> w32" where
  "rotr n x = drop_bit n x OR push_bit (32 - n) x"

definition sha_ch :: "w32 \<Rightarrow> w32 \<Rightarrow> w32 \<Rightarrow> w32" where
  "sha_ch x y z = (x AND y) XOR (NOT x AND z)"

definition sha_maj :: "w32 \<Rightarrow> w32 \<Rightarrow> w32 \<Rightarrow> w32" where
  "sha_maj x y z = (x AND y) XOR (x AND z) XOR (y AND z)"

definition big_sigma0 :: "w32 \<Rightarrow> w32" where
  "big_sigma0 x = rotr 2 x XOR rotr 13 x XOR rotr 22 x"

definition big_sigma1 :: "w32 \<Rightarrow> w32" where
  "big_sigma1 x = rotr 6 x XOR rotr 11 x XOR rotr 25 x"

definition small_sigma0 :: "w32 \<Rightarrow> w32" where
  "small_sigma0 x = rotr 7 x XOR rotr 18 x XOR drop_bit 3 x"

definition small_sigma1 :: "w32 \<Rightarrow> w32" where
  "small_sigma1 x = rotr 17 x XOR rotr 19 x XOR drop_bit 10 x"

fun sha_round :: "sha_state \<Rightarrow> w32 \<times> w32 \<Rightarrow> sha_state" where
  "sha_round (a, b, c, d, e, f, g, h) (k, w) =
     (let t1 = h + big_sigma1 e + sha_ch e f g + k + w;
          t2 = big_sigma0 a + sha_maj a b c
      in (t1 + t2, a, b, c, d + t1, e, f, g))"

text \<open>The message schedule, kept with the newest word first.\<close>

fun sha_schedule :: "nat \<Rightarrow> w32 list \<Rightarrow> w32 list" where
  "sha_schedule 0 ws = rev ws"
| "sha_schedule (Suc n) ws =
     sha_schedule n
       ((small_sigma1 (ws ! 1) + ws ! 6 + small_sigma0 (ws ! 14) + ws ! 15) # ws)"

fun chunks :: "nat \<Rightarrow> 'a list \<Rightarrow> 'a list list" where
  "chunks 0 xs = []"
| "chunks n [] = []"
| "chunks (Suc n) xs = take (Suc n) xs # chunks (Suc n) (drop (Suc n) xs)"

definition be32 :: "bytes \<Rightarrow> w32" where
  "be32 bs = foldl (\<lambda>a b. push_bit 8 a OR ucast b) 0 bs"

definition bytes_of_w32 :: "w32 \<Rightarrow> bytes" where
  "bytes_of_w32 w = [ucast (drop_bit 24 w), ucast (drop_bit 16 w), ucast (drop_bit 8 w), ucast w]"

definition bytes_of_w64 :: "64 word \<Rightarrow> bytes" where
  "bytes_of_w64 w = bytes_of_w32 (ucast (drop_bit 32 w)) @ bytes_of_w32 (ucast w)"

fun sha_add :: "sha_state \<Rightarrow> sha_state \<Rightarrow> sha_state" where
  "sha_add (a, b, c, d, e, f, g, h) (a', b', c', d', e', f', g', h') =
     (a + a', b + b', c + c', d + d', e + e', f + f', g + g', h + h')"

definition sha_block :: "sha_state \<Rightarrow> bytes \<Rightarrow> sha_state" where
  "sha_block s blk =
     sha_add s (foldl sha_round s
       (zip sha_constants (sha_schedule 48 (rev (map be32 (chunks 4 blk))))))"

definition sha_pad :: "bytes \<Rightarrow> bytes" where
  "sha_pad m = m @ [0x80] @ replicate ((119 - length m mod 64) mod 64) 0 @
     bytes_of_w64 (word_of_nat (8 * length m))"

fun sha_output :: "sha_state \<Rightarrow> bytes" where
  "sha_output (a, b, c, d, e, f, g, h) = concat (map bytes_of_w32 [a, b, c, d, e, f, g, h])"

definition sha256 :: "bytes \<Rightarrow> bytes" where
  "sha256 m = sha_output (foldl sha_block sha_init (chunks 64 (sha_pad m)))"

definition sha256_hex :: "bytes \<Rightarrow> string" where
  "sha256_hex m = hex_of_bytes (sha256 m)"

section \<open>HMAC\<close>

definition hmac_key_block :: "bytes \<Rightarrow> bytes" where
  "hmac_key_block key = (let k = (if 64 < length key then sha256 key else key)
     in k @ replicate (64 - length k) 0)"

definition hmac_sha256 :: "bytes \<Rightarrow> bytes \<Rightarrow> bytes" where
  "hmac_sha256 key msg = (let k = hmac_key_block key
     in sha256 (map (\<lambda>b. b XOR 0x5c) k @ sha256 (map (\<lambda>b. b XOR 0x36) k @ msg)))"

definition hmac_hex :: "bytes \<Rightarrow> bytes \<Rightarrow> string" where
  "hmac_hex key msg = hex_of_bytes (hmac_sha256 key msg)"

section \<open>Shape of the digests\<close>

lemma length_bytes_of_w32 [simp]: "length (bytes_of_w32 w) = 4"
  by (simp add: bytes_of_w32_def)

lemma length_sha_output [simp]: "length (sha_output s) = 32"
  by (induction s rule: sha_output.induct) simp

lemma length_sha256 [simp]: "length (sha256 m) = 32"
  by (simp add: sha256_def)

lemma length_sha_pad: "length (sha_pad m) mod 64 = 0"
proof -
  have "length (sha_pad m) = length m + 9 + (119 - length m mod 64) mod 64"
    by (simp add: sha_pad_def bytes_of_w64_def)
  moreover have "(length m + 9 + (119 - length m mod 64) mod 64) mod 64 = 0"
  proof -
    define r where "r = length m mod 64"
    have r: "r < 64" by (simp add: r_def)
    have "(length m + 9 + (119 - r) mod 64) mod 64 = (r + 9 + (119 - r)) mod 64"
      unfolding r_def by (metis (no_types, opaque_lifting) mod_add_eq mod_mod_trivial)
    also have "r + 9 + (119 - r) = 128" using r by simp
    finally show ?thesis by (simp add: r_def)
  qed
  ultimately show ?thesis by simp
qed

lemma length_sha256_hex [simp]: "length (sha256_hex m) = 64"
  by (simp add: sha256_hex_def)

lemma sha256_hex_lower: "list_all is_lower_hex (sha256_hex m)"
  by (simp add: sha256_hex_def hex_of_bytes_lower)

lemma length_hmac_hex [simp]: "length (hmac_hex key msg) = 64"
  by (simp add: hmac_hex_def hmac_sha256_def Let_def)

lemma length_hmac_key_block [simp]: "length (hmac_key_block key) = 64"
  by (simp add: hmac_key_block_def Let_def)

lemma sha256_hex_inject: "sha256_hex a = sha256_hex b \<longleftrightarrow> sha256 a = sha256 b"
  unfolding sha256_hex_def by (rule hexc.encode_inject) simp_all

lemma hmac_hex_inject: "hmac_hex k a = hmac_hex k b \<longleftrightarrow> hmac_sha256 k a = hmac_sha256 k b"
  unfolding hmac_hex_def by (rule hexc.encode_inject) simp_all

text \<open>
  Two different messages with the same digest. Statements that rest on the strength of the hash
  name such a pair as the alternative to their conclusion.
\<close>

definition sha256_collision :: "bytes \<Rightarrow> bytes \<Rightarrow> bool" where
  "sha256_collision a b \<longleftrightarrow> a \<noteq> b \<and> sha256 a = sha256 b"

definition hmac_collision :: "bytes \<Rightarrow> bytes \<Rightarrow> bytes \<Rightarrow> bool" where
  "hmac_collision k a b \<longleftrightarrow> a \<noteq> b \<and> hmac_sha256 k a = hmac_sha256 k b"

end
