(* ===== verification/Password_Policy.thy ===== *)
theory Password_Policy
  imports Py_Text
begin

text \<open>
  The password rules of \<^verbatim>\<open>app/security/password_validator.py\<close>: the validator that every path to
  \<open>User.set_password\<close> runs, its raising variant and the strength score shown to the user. The
  regular expressions are single character classes, so \<open>re.search\<close> is an existential scan.
  The score counts half points, because the length bonus is 0.5.
\<close>

definition is_special :: "char \<Rightarrow> bool" where
  "is_special c \<longleftrightarrow> c \<in> set ''!@#$%^&*()_+-=[]{}|;:,.<>?''"

definition has_upper :: "string \<Rightarrow> bool" where
  "has_upper p \<longleftrightarrow> list_ex is_upper_ascii p"

definition has_lower :: "string \<Rightarrow> bool" where
  "has_lower p \<longleftrightarrow> list_ex is_lower_ascii p"

definition has_special :: "string \<Rightarrow> bool" where
  "has_special p \<longleftrightarrow> list_ex is_special p"

definition validate_password_strength :: "string \<Rightarrow> bool \<times> string option" where
  "validate_password_strength password =
     (if password = [] then (False, Some ''Password cannot be empty'')
      else
        (let errors =
           (if length password < 12 then [''Password must be at least 12 characters long''] else []) @
           (if \<not> has_upper password then [''Password must contain at least 1 uppercase letter''] else []) @
           (if \<not> has_lower password then [''Password must contain at least 1 lowercase letter''] else []) @
           (if \<not> has_special password
            then [''Password must contain at least 1 special character (!@#$%^&*()_+-=[]{}|;:,.<>?)''] else [])
         in if errors \<noteq> [] then (False, Some (join ''; '' errors)) else (True, None)))"

datatype password_error = PasswordValidationError string

definition validate_password_strength_strict :: "string \<Rightarrow> password_error + bool" where
  "validate_password_strength_strict password =
     (case validate_password_strength password of
        (is_valid, error_message) \<Rightarrow>
          if \<not> is_valid
          then Inl (PasswordValidationError (case error_message of None \<Rightarrow> [] | Some m \<Rightarrow> m))
          else Inr True)"

record strength_report =
  half_points :: int
  strength :: string
  meets_requirements :: bool
  feedback :: "string list"

definition strength_label :: "int \<Rightarrow> string" where
  "strength_label i =
     (if i = 0 then ''Very Weak'' else if i = 1 then ''Weak'' else if i = 2 then ''Fair''
      else if i = 3 then ''Strong'' else if i = 4 then ''Very Strong'' else ''Very Weak'')"

definition check_password_strength_score :: "string \<Rightarrow> strength_report" where
  "check_password_strength_score password =
     (let base = (if 12 \<le> length password then 2 else 0) + (if has_upper password then 2 else 0)
           + (if has_lower password then 2 else 0) + (if has_special password then 2 else 0);
          score = (if 16 \<le> length password then min (base + 1) 8 else base);
          notes =
           (if 12 \<le> length password then []
            else [''Increase length to at least 12 characters (current: '' @
                  show_int (int (length password)) @ '')'']) @
           (if has_upper password then [] else [''Add at least 1 uppercase letter'']) @
           (if has_lower password then [] else [''Add at least 1 lowercase letter'']) @
           (if has_special password then [] else [''Add at least 1 special character''])
      in \<lparr>half_points = score, strength = strength_label (score div 2),
          meets_requirements = (8 \<le> score), feedback = notes\<rparr>)"

section \<open>Properties\<close>

lemma validate_accepts_iff:
  "validate_password_strength p = (True, None) \<longleftrightarrow>
     12 \<le> length p \<and> has_upper p \<and> has_lower p \<and> has_special p"
  by (auto simp: validate_password_strength_def Let_def split: if_splits)

lemma validate_result_cases:
  "validate_password_strength p = (True, None) \<or> (\<exists>m. validate_password_strength p = (False, Some m))"
  by (auto simp: validate_password_strength_def Let_def)

lemma fst_validate_iff:
  "fst (validate_password_strength p) \<longleftrightarrow> validate_password_strength p = (True, None)"
  using validate_result_cases [of p] by auto

lemma strict_agrees:
  "validate_password_strength_strict p = Inr True \<longleftrightarrow> fst (validate_password_strength p)"
  using validate_result_cases [of p] by (auto simp: validate_password_strength_strict_def)

lemma half_points_bounds:
  "0 \<le> half_points (check_password_strength_score p) \<and> half_points (check_password_strength_score p) \<le> 8"
  by (simp add: check_password_strength_score_def Let_def)

text \<open>
  C16: the strength meter and the validator agree: \<open>check_password_strength_score\<close> reports
  \<open>meets_requirements\<close> exactly for the passwords \<open>validate_password_strength\<close> accepts.
\<close>

lemma score_agrees_with_validator:
  "meets_requirements (check_password_strength_score p) = fst (validate_password_strength p)"
  by (auto simp: fst_validate_iff validate_accepts_iff check_password_strength_score_def Let_def)

end
