(* ===== verification/Models.thy ===== *)
theory Models
  imports Hashlib Password_Policy
begin

text \<open>
  The persistent state: \<^verbatim>\<open>app/models.py\<close>. One record per table, the database as the record of
  its tables, the declared constraints as the executable predicate \<open>db_ok\<close>, and \<open>commit\<close>, which
  accepts the pending rows when the constraints hold and raises \<open>IntegrityError\<close> otherwise. A column
  declared NOT NULL that a handler may leave unset (the licence blind index, the region of an
  enrolment) is an option here and \<open>db_ok\<close> refuses \<open>None\<close>. Encrypted columns hold the decrypted
  value the ORM shows; the envelope is the subject of theory \<open>Encryption\<close>.
\<close>

section \<open>Rows\<close>

record role =
  r_id :: int
  r_name :: string
  r_description :: "string option"

record region =
  g_id :: int
  g_name :: string

record user =
  u_id :: int
  username :: string
  email :: "string option"
  password_hash :: string
  driver_lic_no :: string
  driver_lic_hash :: "string option"
  driver_lic_state :: "string option"
  u_role_id :: int
  account_status :: string
  email_verified :: bool
  u_created_at :: timestamp
  password_changed_at :: "timestamp option"
  session_version :: int
  failed_login_attempts :: int
  account_locked_until :: "timestamp option"

record electoral_roll =
  er_id :: int
  roll_number :: string
  driver_license_number :: string
  driver_license_hash :: "string option"
  full_name :: string
  date_of_birth :: string
  address_line1 :: string
  address_line2 :: "string option"
  suburb :: string
  er_state :: string
  postcode :: string
  er_region_id :: "int option"
  er_status :: string
  verified :: bool
  verified_at :: "timestamp option"
  er_user_id :: "int option"

record election =
  el_id :: int
  el_name :: string
  el_status :: string
  open_at :: "timestamp option"
  close_at :: "timestamp option"
  blind_signing_key_id :: "string option"
  blind_key_recovery_required :: bool
  created_by :: "int option"
  el_created_at :: timestamp

record candidate =
  c_id :: int
  c_name :: string
  party :: "string option"
  c_position :: string
  c_region_id :: int
  c_election_id :: int

record vote =
  v_id :: int
  voter_token :: string
  v_candidate_id :: int
  v_election_id :: int
  v_position :: string
  vote_hash :: "string option"
  v_created_at :: timestamp

record vote_receipt =
  vr_id :: int
  vr_user_id :: int
  vr_election_id :: int
  voted_at :: timestamp

record blind_signature_token =
  bt_id :: int
  bt_user_id :: int
  bt_election_id :: int

record spent_ballot_nullifier =
  sn_id :: int
  sn_election_id :: int
  nullifier_hash :: string
  spent_at :: timestamp

record result_signing_public_key =
  pk_key_id :: string
  pk_algorithm :: string
  public_key_pem :: string

record signed_election_result =
  sr_id :: int
  sr_election_id :: int
  sr_payload :: string
  sr_signature :: string
  signer_backend :: string
  signature_algorithm :: string
  signing_key_id :: string
  signing_key_version :: "int option"
  signed_at :: timestamp
  signed_by :: "int option"

record otp_challenge =
  oc_id :: string
  oc_user_id :: int
  purpose :: string
  code_digest :: string
  expires_at :: timestamp
  failed_attempts :: int
  consumed_at :: "timestamp option"
  oc_created_at :: timestamp

record database =
  roles :: "role list"
  regions :: "region list"
  users :: "user list"
  electoral_rolls :: "electoral_roll list"
  elections :: "election list"
  candidates :: "candidate list"
  votes :: "vote list"
  vote_receipts :: "vote_receipt list"
  blind_tokens :: "blind_signature_token list"
  nullifiers :: "spent_ballot_nullifier list"
  result_keys :: "result_signing_public_key list"
  signed_results :: "signed_election_result list"
  otp_challenges :: "otp_challenge list"

section \<open>Constraints\<close>

abbreviation present :: "'a option list \<Rightarrow> 'a list" where
  "present xs \<equiv> List.map_filter (\<lambda>x. x) xs"

definition role_ids :: "database \<Rightarrow> int set" where
  "role_ids db = r_id ` set (roles db)"

definition region_ids :: "database \<Rightarrow> int set" where
  "region_ids db = g_id ` set (regions db)"

definition user_ids :: "database \<Rightarrow> int set" where
  "user_ids db = u_id ` set (users db)"

definition election_ids :: "database \<Rightarrow> int set" where
  "election_ids db = el_id ` set (elections db)"

definition refs_ok :: "('r \<Rightarrow> 'k) \<Rightarrow> 'r list \<Rightarrow> 'k set \<Rightarrow> bool" where
  "refs_ok f rs ids \<longleftrightarrow> list_all (\<lambda>r. f r \<in> ids) rs"

definition opt_refs_ok :: "('r \<Rightarrow> 'k option) \<Rightarrow> 'r list \<Rightarrow> 'k set \<Rightarrow> bool" where
  "opt_refs_ok f rs ids \<longleftrightarrow> list_all (\<lambda>r. case f r of None \<Rightarrow> True | Some k \<Rightarrow> k \<in> ids) rs"

definition roles_ok :: "database \<Rightarrow> bool" where
  "roles_ok db \<longleftrightarrow> unique_on r_id (roles db) \<and> unique_on r_name (roles db)"

definition regions_ok :: "database \<Rightarrow> bool" where
  "regions_ok db \<longleftrightarrow> unique_on g_id (regions db) \<and> unique_on g_name (regions db)"

definition users_ok :: "database \<Rightarrow> bool" where
  "users_ok db \<longleftrightarrow> unique_on u_id (users db) \<and> unique_on username (users db)
     \<and> distinct (present (map email (users db)))
     \<and> list_all (\<lambda>u. driver_lic_hash u \<noteq> None) (users db) \<and> unique_on driver_lic_hash (users db)
     \<and> refs_ok u_role_id (users db) (role_ids db)"

definition electoral_rolls_ok :: "database \<Rightarrow> bool" where
  "electoral_rolls_ok db \<longleftrightarrow> unique_on er_id (electoral_rolls db)
     \<and> unique_on roll_number (electoral_rolls db)
     \<and> list_all (\<lambda>r. driver_license_hash r \<noteq> None \<and> er_region_id r \<noteq> None) (electoral_rolls db)
     \<and> unique_on driver_license_hash (electoral_rolls db)
     \<and> opt_refs_ok er_region_id (electoral_rolls db) (region_ids db)
     \<and> distinct (present (map er_user_id (electoral_rolls db)))
     \<and> opt_refs_ok er_user_id (electoral_rolls db) (user_ids db)"

definition elections_ok :: "database \<Rightarrow> bool" where
  "elections_ok db \<longleftrightarrow> unique_on el_id (elections db)
     \<and> list_all (\<lambda>e. el_status e \<in> {''draft'', ''open'', ''closed''}) (elections db)
     \<and> opt_refs_ok created_by (elections db) (user_ids db)"

definition candidates_ok :: "database \<Rightarrow> bool" where
  "candidates_ok db \<longleftrightarrow> unique_on c_id (candidates db)
     \<and> unique_on (\<lambda>c. (c_id c, c_election_id c)) (candidates db)
     \<and> refs_ok c_region_id (candidates db) (region_ids db)
     \<and> refs_ok c_election_id (candidates db) (election_ids db)"

definition votes_ok :: "database \<Rightarrow> bool" where
  "votes_ok db \<longleftrightarrow> unique_on v_id (votes db) \<and> unique_on voter_token (votes db)
     \<and> refs_ok (\<lambda>v. (v_candidate_id v, v_election_id v)) (votes db)
         ((\<lambda>c. (c_id c, c_election_id c)) ` set (candidates db))
     \<and> refs_ok v_election_id (votes db) (election_ids db)"

definition vote_receipts_ok :: "database \<Rightarrow> bool" where
  "vote_receipts_ok db \<longleftrightarrow> unique_on vr_id (vote_receipts db)
     \<and> unique_on (\<lambda>r. (vr_user_id r, vr_election_id r)) (vote_receipts db)
     \<and> refs_ok vr_user_id (vote_receipts db) (user_ids db)
     \<and> refs_ok vr_election_id (vote_receipts db) (election_ids db)"

definition blind_tokens_ok :: "database \<Rightarrow> bool" where
  "blind_tokens_ok db \<longleftrightarrow> unique_on bt_id (blind_tokens db)
     \<and> unique_on (\<lambda>t. (bt_user_id t, bt_election_id t)) (blind_tokens db)
     \<and> refs_ok bt_user_id (blind_tokens db) (user_ids db)
     \<and> refs_ok bt_election_id (blind_tokens db) (election_ids db)"

definition nullifiers_ok :: "database \<Rightarrow> bool" where
  "nullifiers_ok db \<longleftrightarrow> unique_on sn_id (nullifiers db)
     \<and> unique_on (\<lambda>n. (sn_election_id n, nullifier_hash n)) (nullifiers db)
     \<and> refs_ok sn_election_id (nullifiers db) (election_ids db)"

definition result_keys_ok :: "database \<Rightarrow> bool" where
  "result_keys_ok db \<longleftrightarrow> unique_on pk_key_id (result_keys db)"

definition signed_results_ok :: "database \<Rightarrow> bool" where
  "signed_results_ok db \<longleftrightarrow> unique_on sr_id (signed_results db)
     \<and> unique_on sr_election_id (signed_results db)
     \<and> refs_ok sr_election_id (signed_results db) (election_ids db)
     \<and> opt_refs_ok signed_by (signed_results db) (user_ids db)"

definition otp_challenges_ok :: "database \<Rightarrow> bool" where
  "otp_challenges_ok db \<longleftrightarrow> unique_on oc_id (otp_challenges db)
     \<and> unique_on (\<lambda>c. (oc_user_id c, purpose c)) (otp_challenges db)
     \<and> list_all (\<lambda>c. 0 \<le> failed_attempts c \<and> failed_attempts c \<le> 5) (otp_challenges db)
     \<and> refs_ok oc_user_id (otp_challenges db) (user_ids db)"

definition db_ok :: "database \<Rightarrow> bool" where
  "db_ok db \<longleftrightarrow> roles_ok db \<and> regions_ok db \<and> users_ok db \<and> electoral_rolls_ok db
     \<and> elections_ok db \<and> candidates_ok db \<and> votes_ok db \<and> vote_receipts_ok db
     \<and> blind_tokens_ok db \<and> nullifiers_ok db \<and> result_keys_ok db \<and> signed_results_ok db
     \<and> otp_challenges_ok db"

lemmas constraint_defs =
  roles_ok_def regions_ok_def users_ok_def electoral_rolls_ok_def elections_ok_def
  candidates_ok_def votes_ok_def vote_receipts_ok_def blind_tokens_ok_def nullifiers_ok_def
  result_keys_ok_def signed_results_ok_def otp_challenges_ok_def
  refs_ok_def opt_refs_ok_def role_ids_def region_ids_def user_ids_def election_ids_def

text \<open>
  \<open>session.commit()\<close>: the rows of the session become the database when every constraint holds;
  \<open>None\<close> is \<open>IntegrityError\<close>, after which the handlers roll back to the database before it.
\<close>

definition commit :: "database \<Rightarrow> database option" where
  "commit db = (if db_ok db then Some db else None)"

lemma commit_SomeD: "commit db = Some db' \<Longrightarrow> db' = db \<and> db_ok db"
  by (simp add: commit_def split: if_splits)

lemma commit_ok: "db_ok db \<Longrightarrow> commit db = Some db"
  by (simp add: commit_def)


section \<open>Users\<close>

text \<open>
  \<open>werkzeug.security\<close> is a parameter: \<open>pw_generate salt password\<close> and \<open>pw_check stored password\<close>.
\<close>

record password_lib =
  pw_generate :: "string \<Rightarrow> string \<Rightarrow> string"
  pw_check :: "string \<Rightarrow> string \<Rightarrow> bool"

text \<open>Documented behaviour of the library: the hash of a password accepts exactly that password.\<close>

definition password_lib_ok :: "password_lib \<Rightarrow> bool" where
  "password_lib_ok lib \<longleftrightarrow> (\<forall>salt p q. pw_check lib (pw_generate lib salt p) q \<longleftrightarrow> q = p)"

definition set_password ::
  "password_lib \<Rightarrow> string \<Rightarrow> timestamp \<Rightarrow> user \<Rightarrow> string \<Rightarrow> password_error + user" where
  "set_password lib salt now u password =
     (case validate_password_strength password of
        (is_valid, error_message) \<Rightarrow>
          if \<not> is_valid
          then Inl (PasswordValidationError (case error_message of None \<Rightarrow> [] | Some m \<Rightarrow> m))
          else Inr (u\<lparr>password_hash := pw_generate lib salt password,
                      password_changed_at := Some now,
                      session_version := session_version u + 1,
                      failed_login_attempts := 0,
                      account_locked_until := None\<rparr>))"

definition check_password :: "password_lib \<Rightarrow> user \<Rightarrow> string \<Rightarrow> bool" where
  "check_password lib u password = pw_check lib (password_hash u) password"

definition is_account_locked :: "timestamp \<Rightarrow> user \<Rightarrow> bool" where
  "is_account_locked now u =
     (case account_locked_until u of None \<Rightarrow> False | Some t \<Rightarrow> now < t)"

definition record_failed_login :: "timestamp \<Rightarrow> int \<Rightarrow> int \<Rightarrow> user \<Rightarrow> user" where
  "record_failed_login now max_attempts lockout_minutes u =
     (let u1 = u\<lparr>failed_login_attempts := failed_login_attempts u + 1\<rparr> in
      if failed_login_attempts u1 \<ge> max_attempts
      then u1\<lparr>account_locked_until := Some (now + minutes lockout_minutes)\<rparr> else u1)"

definition reset_failed_logins :: "user \<Rightarrow> user" where
  "reset_failed_logins u = u\<lparr>failed_login_attempts := 0, account_locked_until := None\<rparr>"

definition is_password_expired :: "timestamp \<Rightarrow> int \<Rightarrow> user \<Rightarrow> bool" where
  "is_password_expired now expiration_days u =
     (case password_changed_at u of None \<Rightarrow> True | Some t \<Rightarrow> now > t + days expiration_days)"

definition role_of :: "database \<Rightarrow> user \<Rightarrow> role option" where
  "role_of db u = find (\<lambda>r. r_id r = u_role_id u) (roles db)"

definition has_role :: "database \<Rightarrow> user \<Rightarrow> string list \<Rightarrow> bool" where
  "has_role db u names =
     (case role_of db u of None \<Rightarrow> False | Some r \<Rightarrow> r_name r \<in> set names)"

definition is_manager :: "database \<Rightarrow> user \<Rightarrow> bool" where
  "is_manager db u = has_role db u [''manager'']"

definition is_approved :: "user \<Rightarrow> bool" where
  "is_approved u \<longleftrightarrow> lower (account_status u) = ''approved''"

section \<open>Licence blind index\<close>

definition normalize_lic :: "string option \<Rightarrow> string option" where
  "normalize_lic lic =
     (case lic of
        None \<Rightarrow> None
      | Some l \<Rightarrow> if l = [] then None else Some (upper (filter (\<lambda>c. \<not> is_space c) l)))"

record pepper_config =
  env_pepper :: string
  cfg_testing :: bool
  cfg_secret_key :: "string option"

datatype runtime_error = RuntimeError string

definition get_hash_pepper :: "pepper_config \<Rightarrow> runtime_error + bytes" where
  "get_hash_pepper cfg =
     (if env_pepper cfg = [] then
        (if \<not> cfg_testing cfg
         then Inl (RuntimeError ''LICENSE_HASH_PEPPER is required outside test mode'')
         else (case cfg_secret_key cfg of
                 None \<Rightarrow> Inl (RuntimeError ''A test SECRET_KEY is required for licence hashing'')
               | Some k \<Rightarrow> if k = []
                   then Inl (RuntimeError ''A test SECRET_KEY is required for licence hashing'')
                   else Inr (utf8_encode k)))
      else Inr (utf8_encode (env_pepper cfg)))"

definition hash_lic :: "pepper_config \<Rightarrow> string option \<Rightarrow> runtime_error + string option" where
  "hash_lic cfg lic =
     (case normalize_lic lic of
        None \<Rightarrow> Inr None
      | Some norm \<Rightarrow> if norm = [] then Inr None
          else (case get_hash_pepper cfg of
                  Inl e \<Rightarrow> Inl e
                | Inr pepper \<Rightarrow> Inr (Some (hmac_hex pepper (utf8_encode norm)))))"

text \<open>\<open>x or y\<close> on optional strings: the empty string is false.\<close>

definition or_else :: "string option \<Rightarrow> string option \<Rightarrow> string option" where
  "or_else x y = (case x of None \<Rightarrow> y | Some s \<Rightarrow> if s = [] then y else x)"

definition user_set_lic_hash_before_insert :: "pepper_config \<Rightarrow> user \<Rightarrow> runtime_error + user" where
  "user_set_lic_hash_before_insert cfg u =
     (case hash_lic cfg (Some (driver_lic_no u)) of
        Inl e \<Rightarrow> Inl e
      | Inr h \<Rightarrow> Inr (u\<lparr>driver_lic_hash := or_else h (driver_lic_hash u)\<rparr>))"

definition user_set_lic_hash_before_update ::
  "pepper_config \<Rightarrow> user \<Rightarrow> user \<Rightarrow> runtime_error + user" where
  "user_set_lic_hash_before_update cfg old u =
     (if driver_lic_no old = driver_lic_no u then Inr u
      else if normalize_lic (Some (driver_lic_no old)) = normalize_lic (Some (driver_lic_no u))
      then Inr u
      else (case hash_lic cfg (Some (driver_lic_no u)) of
              Inl e \<Rightarrow> Inl e
            | Inr h \<Rightarrow> Inr (u\<lparr>driver_lic_hash := or_else h (driver_lic_hash u)\<rparr>)))"

definition roll_set_lic_hash ::
  "pepper_config \<Rightarrow> electoral_roll \<Rightarrow> runtime_error + electoral_roll" where
  "roll_set_lic_hash cfg r =
     (case hash_lic cfg (Some (driver_license_number r)) of
        Inl e \<Rightarrow> Inl e
      | Inr h \<Rightarrow> Inr (r\<lparr>driver_license_hash := or_else h (driver_license_hash r)\<rparr>))"

section \<open>Elections and lookups\<close>

definition is_open :: "timestamp \<Rightarrow> election \<Rightarrow> bool" where
  "is_open now e =
     (if el_status e \<noteq> ''open'' \<or> blind_key_recovery_required e then False
      else if (case open_at e of None \<Rightarrow> False | Some t \<Rightarrow> now < t) then False
      else if (case close_at e of None \<Rightarrow> False | Some t \<Rightarrow> now > t) then False
      else True)"

definition get_user :: "database \<Rightarrow> int \<Rightarrow> user option" where
  "get_user db i = find (\<lambda>u. u_id u = i) (users db)"

definition get_election :: "database \<Rightarrow> int \<Rightarrow> election option" where
  "get_election db i = find (\<lambda>e. el_id e = i) (elections db)"

definition get_candidate :: "database \<Rightarrow> int \<Rightarrow> candidate option" where
  "get_candidate db i = find (\<lambda>c. c_id c = i) (candidates db)"

definition enrolment_of :: "database \<Rightarrow> int \<Rightarrow> electoral_roll option" where
  "enrolment_of db uid = find (\<lambda>r. er_user_id r = Some uid) (electoral_rolls db)"

definition candidates_of :: "database \<Rightarrow> int \<Rightarrow> candidate list" where
  "candidates_of db eid = filter (\<lambda>c. c_election_id c = eid) (candidates db)"

definition update_user :: "user \<Rightarrow> database \<Rightarrow> database" where
  "update_user u db = db\<lparr>users := update_where (\<lambda>x. u_id x = u_id u) (\<lambda>_. u) (users db)\<rparr>"

definition update_election :: "election \<Rightarrow> database \<Rightarrow> database" where
  "update_election e db =
     db\<lparr>elections := update_where (\<lambda>x. el_id x = el_id e) (\<lambda>_. e) (elections db)\<rparr>"

definition update_roll :: "electoral_roll \<Rightarrow> database \<Rightarrow> database" where
  "update_roll r db =
     db\<lparr>electoral_rolls := update_where (\<lambda>x. er_id x = er_id r) (\<lambda>_. r) (electoral_rolls db)\<rparr>"

text \<open>Listeners on the immutable tables: an update or a delete raises.\<close>

datatype immutable_error = ImmutableRow string

definition prevent_result_key_archive_mutation ::
  "result_signing_public_key \<Rightarrow> immutable_error + result_signing_public_key" where
  "prevent_result_key_archive_mutation target =
     Inl (ImmutableRow ''Archived result-signing public keys are immutable'')"

definition prevent_signed_result_mutation ::
  "signed_election_result \<Rightarrow> immutable_error + signed_election_result" where
  "prevent_signed_result_mutation target =
     Inl (ImmutableRow ''Persisted signed election results are immutable'')"


section \<open>Lemmas on rows and lookups\<close>

lemma get_user_SomeD: "get_user db i = Some u \<Longrightarrow> u \<in> set (users db) \<and> u_id u = i"
  by (auto simp: get_user_def dest: find_Some_in)

lemma get_election_SomeD: "get_election db i = Some e \<Longrightarrow> e \<in> set (elections db) \<and> el_id e = i"
  by (auto simp: get_election_def dest: find_Some_in)

lemma get_candidate_SomeD: "get_candidate db i = Some c \<Longrightarrow> c \<in> set (candidates db) \<and> c_id c = i"
  by (auto simp: get_candidate_def dest: find_Some_in)

lemma enrolment_of_SomeD:
  "enrolment_of db i = Some r \<Longrightarrow> r \<in> set (electoral_rolls db) \<and> er_user_id r = Some i"
  by (auto simp: enrolment_of_def dest: find_Some_in)

lemma in_candidates_of [simp]:
  "c \<in> set (candidates_of db e) \<longleftrightarrow> c \<in> set (candidates db) \<and> c_election_id c = e"
  by (auto simp: candidates_of_def)

lemma is_open_status: "is_open now e \<Longrightarrow> el_status e = ''open'' \<and> \<not> blind_key_recovery_required e"
  by (simp add: is_open_def split: if_splits)

lemma is_open_iff:
  "is_open now e \<longleftrightarrow> el_status e = ''open'' \<and> \<not> blind_key_recovery_required e
     \<and> (\<forall>t. open_at e = Some t \<longrightarrow> t \<le> now) \<and> (\<forall>t. close_at e = Some t \<longrightarrow> now \<le> t)"
  by (auto simp: is_open_def not_less split: option.splits)

lemma commit_Some_iff: "commit db = Some db' \<longleftrightarrow> db' = db \<and> db_ok db"
  by (auto simp: commit_def)

lemma update_user_simps [table_simps, simp]:
  "roles (update_user u db) = roles db" "regions (update_user u db) = regions db"
  "electoral_rolls (update_user u db) = electoral_rolls db" "elections (update_user u db) = elections db"
  "candidates (update_user u db) = candidates db" "votes (update_user u db) = votes db"
  "vote_receipts (update_user u db) = vote_receipts db" "blind_tokens (update_user u db) = blind_tokens db"
  "nullifiers (update_user u db) = nullifiers db" "result_keys (update_user u db) = result_keys db"
  "signed_results (update_user u db) = signed_results db"
  "otp_challenges (update_user u db) = otp_challenges db"
  by (simp_all add: update_user_def)

lemma update_election_simps [table_simps, simp]:
  "roles (update_election e db) = roles db" "regions (update_election e db) = regions db"
  "electoral_rolls (update_election e db) = electoral_rolls db" "users (update_election e db) = users db"
  "candidates (update_election e db) = candidates db" "votes (update_election e db) = votes db"
  "vote_receipts (update_election e db) = vote_receipts db"
  "blind_tokens (update_election e db) = blind_tokens db"
  "nullifiers (update_election e db) = nullifiers db" "result_keys (update_election e db) = result_keys db"
  "signed_results (update_election e db) = signed_results db"
  "otp_challenges (update_election e db) = otp_challenges db"
  by (simp_all add: update_election_def)

lemma update_roll_simps [table_simps, simp]:
  "roles (update_roll r db) = roles db" "regions (update_roll r db) = regions db"
  "users (update_roll r db) = users db" "elections (update_roll r db) = elections db"
  "candidates (update_roll r db) = candidates db" "votes (update_roll r db) = votes db"
  "vote_receipts (update_roll r db) = vote_receipts db"
  "blind_tokens (update_roll r db) = blind_tokens db"
  "nullifiers (update_roll r db) = nullifiers db" "result_keys (update_roll r db) = result_keys db"
  "signed_results (update_roll r db) = signed_results db"
  "otp_challenges (update_roll r db) = otp_challenges db"
  by (simp_all add: update_roll_def)

lemma get_user_update:
  "get_user (update_user u db) i =
     (if i = u_id u then map_option (\<lambda>_. u) (get_user db i) else get_user db i)"
  by (simp add: get_user_def update_user_def find_update_where)

lemma get_election_update:
  "get_election (update_election e db) i =
     (if i = el_id e then map_option (\<lambda>_. e) (get_election db i) else get_election db i)"
  by (simp add: get_election_def update_election_def find_update_where)

section \<open>Password changes, lockout and the blind index\<close>

lemma set_password_cases:
  "set_password lib salt now u p =
     (if fst (validate_password_strength p)
      then Inr (u\<lparr>password_hash := pw_generate lib salt p, password_changed_at := Some now,
             session_version := session_version u + 1, failed_login_attempts := 0,
             account_locked_until := None\<rparr>)
      else Inl (PasswordValidationError (the (snd (validate_password_strength p)))))"
  using validate_result_cases [of p] by (auto simp: set_password_def)

lemma record_failures_count:
  "failed_login_attempts ((record_failed_login now m l ^^ n) u) = failed_login_attempts u + int n"
  by (induction n) (auto simp: record_failed_login_def Let_def)

lemma record_failed_login_locks:
  "account_locked_until (record_failed_login now m l u) =
     (if m \<le> failed_login_attempts u + 1 then Some (now + minutes l) else account_locked_until u)"
  by (simp add: record_failed_login_def Let_def)

fun failures :: "timestamp list \<Rightarrow> user \<Rightarrow> user" where
  "failures [] u = u"
| "failures (t # ts) u = failures ts (record_failed_login t 5 30 u)"

lemma failures_count: "failed_login_attempts (failures ts u) = failed_login_attempts u + int (length ts)"
  by (induction ts arbitrary: u) (auto simp: record_failed_login_def Let_def)

lemma failures_snoc: "failures (ts @ [t]) u = record_failed_login t 5 30 (failures ts u)"
  by (induction ts arbitrary: u) simp_all

lemma failures_below_no_lock:
  assumes "failed_login_attempts u + int (length ts) < 5"
  shows "account_locked_until (failures ts u) = account_locked_until u"
  using assms
proof (induction ts rule: rev_induct)
  case (snoc t ts)
  then show ?case by (simp add: failures_snoc record_failed_login_locks failures_count)
qed simp

lemma failures_lock:
  assumes "5 \<le> failed_login_attempts u + 1 + int (length ts)"
  shows "account_locked_until (failures (ts @ [t]) u) = Some (t + minutes 30)"
  using assms by (simp add: failures_snoc record_failed_login_locks failures_count)

lemma hash_lic_same_norm:
  "normalize_lic a = normalize_lic b \<Longrightarrow> hash_lic cfg a = hash_lic cfg b"
  by (simp add: hash_lic_def)

definition lic_index_in_sync :: "pepper_config \<Rightarrow> user \<Rightarrow> bool" where
  "lic_index_in_sync cfg u \<longleftrightarrow> hash_lic cfg (Some (driver_lic_no u)) = Inr (driver_lic_hash u)"

lemma hmac_hex_not_Nil [simp]: "hmac_hex k m \<noteq> []"
proof
  assume "hmac_hex k m = []"
  then have "length (hmac_hex k m) = 0" by simp
  then show False by simp
qed

lemma hash_lic_Some_not_Nil: "hash_lic cfg l = Inr (Some h) \<Longrightarrow> h \<noteq> []"
  by (auto simp: hash_lic_def split: option.splits sum.splits if_splits)

lemma before_update_in_sync:
  assumes "lic_index_in_sync cfg old" and "driver_lic_hash u = driver_lic_hash old"
    and "filter (\<lambda>c. \<not> is_space c) (driver_lic_no u) \<noteq> []"
    and "user_set_lic_hash_before_update cfg old u = Inr u'"
  shows "lic_index_in_sync cfg u'"
proof (cases "normalize_lic (Some (driver_lic_no old)) = normalize_lic (Some (driver_lic_no u))")
  case True
  then have "u' = u" using assms(4) by (auto simp: user_set_lic_hash_before_update_def split: if_splits)
  then show ?thesis
    using assms(1,2) hash_lic_same_norm [OF True, of cfg] by (simp add: lic_index_in_sync_def)
next
  case False
  then have ne: "driver_lic_no old \<noteq> driver_lic_no u" by metis
  from assms(4) obtain h where h: "hash_lic cfg (Some (driver_lic_no u)) = Inr h"
    and u': "u' = u\<lparr>driver_lic_hash := or_else h (driver_lic_hash u)\<rparr>"
    unfolding user_set_lic_hash_before_update_def if_not_P [OF ne] if_not_P [OF False]
    by (cases "hash_lic cfg (Some (driver_lic_no u))") simp_all
  have "h \<noteq> None"
  proof
    assume "h = None"
    with h have "upper (filter (\<lambda>c. \<not> is_space c) (driver_lic_no u)) = []"
      using assms(3) by (simp add: hash_lic_def normalize_lic_def split: if_splits sum.splits)
    with assms(3) show False by simp
  qed
  then have "or_else h (driver_lic_hash u) = h"
    using h by (auto simp: or_else_def dest: hash_lic_Some_not_Nil)
  then show ?thesis using h u' by (simp add: lic_index_in_sync_def)
qed

text \<open>
  C27: \<open>User.set_password\<close> accepts exactly the passwords of the policy. On acceptance only the new
  password opens the account, the authentication epoch moves by one, any lock is gone at every
  time, the password expires strictly after 90 days, and name, role and status are untouched.
\<close>

theorem set_password_effect:
  assumes "password_lib_ok lib" and "set_password lib salt now u p = Inr u'"
  shows "12 \<le> length p \<and> has_upper p \<and> has_lower p \<and> has_special p
    \<and> (\<forall>q. check_password lib u' q \<longleftrightarrow> q = p)
    \<and> session_version u' = session_version u + 1
    \<and> (\<forall>t. \<not> is_account_locked t u')
    \<and> (\<forall>t. is_password_expired t 90 u' \<longleftrightarrow> now + days 90 < t)
    \<and> (u_id u', username u', u_role_id u', account_status u', email_verified u') =
         (u_id u, username u, u_role_id u, account_status u, email_verified u)"
proof -
  have strong: "fst (validate_password_strength p)"
    and u': "u' = u\<lparr>password_hash := pw_generate lib salt p, password_changed_at := Some now,
             session_version := session_version u + 1, failed_login_attempts := 0,
             account_locked_until := None\<rparr>"
    using assms(2) by (auto simp: set_password_cases split: if_splits)
  from strong have "12 \<le> length p \<and> has_upper p \<and> has_lower p \<and> has_special p"
    by (simp add: fst_validate_iff validate_accepts_iff)
  moreover from assms(1) have "\<forall>q. check_password lib u' q \<longleftrightarrow> q = p"
    by (simp add: u' check_password_def password_lib_ok_def)
  ultimately show ?thesis
    by (simp add: u' is_account_locked_def is_password_expired_def)
qed

definition demo_password_lib :: password_lib where
  "demo_password_lib = \<lparr>pw_generate = (\<lambda>salt p. p), pw_check = (\<lambda>stored p. stored = p)\<rparr>"

lemma demo_password_lib_ok: "password_lib_ok demo_password_lib"
  by (auto simp: password_lib_ok_def demo_password_lib_def)

definition demo_user :: user where
  "demo_user = \<lparr>u_id = 7, username = ''alice'', email = Some ''alice@example.org'',
     password_hash = ''x'', driver_lic_no = ''ABC 123'', driver_lic_hash = Some ''h7'',
     driver_lic_state = Some ''NSW'', u_role_id = 1, account_status = ''approved'',
     email_verified = True, u_created_at = 0, password_changed_at = Some 0, session_version = 3,
     failed_login_attempts = 0, account_locked_until = Some 99\<rparr>"

theorem set_password_effect_witness:
  "\<exists>u'. set_password demo_password_lib ''s'' 50 demo_user ''Correct-Horse-9'' = Inr u'
     \<and> check_password demo_password_lib u' ''Correct-Horse-9''
     \<and> session_version u' = 4 \<and> \<not> is_account_locked 60 u'"
proof -
  define u' where "u' = projr (set_password demo_password_lib ''s'' 50 demo_user ''Correct-Horse-9'')"
  have "validate_password_strength ''Correct-Horse-9'' = (True, None)"
    by (simp add: validate_accepts_iff has_upper_def has_lower_def has_special_def is_special_def
        is_upper_ascii_def is_lower_ascii_def ord_def)
  then have eq: "set_password demo_password_lib ''s'' 50 demo_user ''Correct-Horse-9'' = Inr u'"
    by (simp add: u'_def set_password_cases)
  note facts = set_password_effect [OF demo_password_lib_ok eq]
  show ?thesis
    using eq facts by (auto simp: demo_user_def)
qed

text \<open>
  Lockout of \<open>record_failed_login\<close> with its defaults. Counting from no failure, fewer than five
  failures leave the lock field alone, and every failure from the fifth on, at time \<open>t\<close>, locks the
  account for exactly the following 30 minutes; once that lock has run out one more failure
  locks it again.
\<close>

theorem lockout_after_five_failures:
  assumes "failed_login_attempts u = 0"
  shows "(length ts < 5 \<longrightarrow> account_locked_until (failures ts u) = account_locked_until u)
    \<and> (4 \<le> length ts \<longrightarrow>
         (\<forall>t now. is_account_locked now (failures (ts @ [t]) u) \<longleftrightarrow> now < t + minutes 30))
    \<and> failed_login_attempts (failures ts u) = int (length ts)"
  using failures_below_no_lock [of u ts] failures_lock [of u ts] assms
  by (simp add: is_account_locked_def failures_count)

theorem lockout_after_five_failures_witness:
  "is_account_locked 1800000003 (failures [0, 1, 2, 3, 4] demo_user)
     \<and> \<not> is_account_locked 1800000004 (failures [0, 1, 2, 3, 4] demo_user)
     \<and> account_locked_until (failures [0, 1, 2, 3] demo_user) = Some 99"
proof -
  have "failed_login_attempts demo_user = 0" by (simp add: demo_user_def)
  from lockout_after_five_failures [OF this, of "[0, 1, 2, 3]"] show ?thesis
    by (simp add: demo_user_def minutes_def seconds_def)
qed

text \<open>
  The licence blind index. Spellings of one licence that differ in white space or case get one
  index; two licences with one index are the same licence after normalisation or exhibit an
  HMAC-SHA256 collision under the pepper.
\<close>

theorem licence_index_identifies:
  assumes "hash_lic cfg a = Inr (Some h)" and "hash_lic cfg b = Inr (Some h')"
  shows "(normalize_lic a = normalize_lic b \<longrightarrow> h = h')
    \<and> (h = h' \<longrightarrow> normalize_lic a = normalize_lic b \<or>
           (\<exists>pepper x y. x \<noteq> y \<and> hmac_sha256 pepper x = hmac_sha256 pepper y))"
proof -
  obtain na where na: "normalize_lic a = Some na"
    using assms(1) by (auto simp: hash_lic_def split: option.splits)
  obtain nb where nb: "normalize_lic b = Some nb"
    using assms(2) by (auto simp: hash_lic_def split: option.splits)
  obtain k where k: "get_hash_pepper cfg = Inr k"
    using assms(1) na by (cases "get_hash_pepper cfg") (auto simp: hash_lic_def split: if_splits)
  have h: "h = hmac_hex k (utf8_encode na)" "h' = hmac_hex k (utf8_encode nb)"
    using assms na nb k by (auto simp: hash_lic_def split: if_splits)
  have same: "h = h' \<longleftrightarrow> hmac_sha256 k (utf8_encode na) = hmac_sha256 k (utf8_encode nb)"
    unfolding h by (rule hmac_hex_inject)
  show ?thesis
  proof (cases "na = nb")
    case True
    then show ?thesis using na nb h by simp
  next
    case False
    then have "utf8_encode na \<noteq> utf8_encode nb" by (simp add: utf8.encode_inject)
    then have "h = h' \<Longrightarrow> \<exists>pepper x y. x \<noteq> y \<and> hmac_sha256 pepper x = hmac_sha256 pepper y"
      unfolding same by blast
    with False na nb show ?thesis by simp
  qed
qed

definition demo_pepper :: pepper_config where
  "demo_pepper = \<lparr>env_pepper = ''pepper'', cfg_testing = False, cfg_secret_key = None\<rparr>"

theorem licence_index_identifies_witness:
  "\<exists>h. hash_lic demo_pepper (Some ''AB 12'') = Inr (Some h)
     \<and> hash_lic demo_pepper (Some ''ab12'') = Inr (Some h)"
proof -
  have norm: "normalize_lic (Some ''AB 12'') = Some ''AB12''" "normalize_lic (Some ''ab12'') = Some ''AB12''"
    by (code_simp, code_simp)
  obtain h where a: "hash_lic demo_pepper (Some ''AB 12'') = Inr (Some h)"
    using norm by (auto simp: hash_lic_def get_hash_pepper_def demo_pepper_def)
  obtain h' where b: "hash_lic demo_pepper (Some ''ab12'') = Inr (Some h')"
    using norm by (auto simp: hash_lic_def get_hash_pepper_def demo_pepper_def)
  from licence_index_identifies [OF a b] norm have "h = h'" by simp
  with a b show ?thesis by auto
qed


section \<open>A small database for witnesses\<close>

definition demo_manager :: user where
  "demo_manager = demo_user\<lparr>u_id := 8, username := ''boss'', email := Some ''boss@example.org'',
     driver_lic_no := ''XY 999'', driver_lic_hash := Some ''h8'', u_role_id := 3,
     account_locked_until := None\<rparr>"

definition demo_roll :: electoral_roll where
  "demo_roll = \<lparr>er_id = 1, roll_number = ''ER-0007'', driver_license_number = ''ABC 123'',
     driver_license_hash = Some ''h7'', full_name = ''alice'', date_of_birth = ''1995-01-01'',
     address_line1 = ''N/A'', address_line2 = None, suburb = ''N/A'', er_state = ''NSW'',
     postcode = ''0000'', er_region_id = Some 1, er_status = ''active'', verified = True,
     verified_at = Some 0, er_user_id = Some 7\<rparr>"

definition demo_election :: election where
  "demo_election = \<lparr>el_id = 1, el_name = ''General'', el_status = ''open'', open_at = Some 0,
     close_at = None, blind_signing_key_id = None, blind_key_recovery_required = False,
     created_by = Some 8, el_created_at = 0\<rparr>"

definition demo_candidate :: "int \<Rightarrow> string \<Rightarrow> candidate" where
  "demo_candidate i nm = \<lparr>c_id = i, c_name = nm, party = None, c_position = ''Mayor'',
     c_region_id = 1, c_election_id = 1\<rparr>"

definition demo_db :: database where
  "demo_db = \<lparr>roles = [\<lparr>r_id = 1, r_name = ''voter'', r_description = None\<rparr>,
       \<lparr>r_id = 2, r_name = ''delegate'', r_description = None\<rparr>,
       \<lparr>r_id = 3, r_name = ''manager'', r_description = None\<rparr>],
     regions = [\<lparr>g_id = 1, g_name = ''Sydney''\<rparr>], users = [demo_user, demo_manager],
     electoral_rolls = [demo_roll], elections = [demo_election],
     candidates = [demo_candidate 1 ''Ann'', demo_candidate 2 ''Bob''], votes = [],
     vote_receipts = [], blind_tokens = [], nullifiers = [], result_keys = [],
     signed_results = [], otp_challenges = []\<rparr>"

lemmas demo_defs = demo_db_def demo_user_def demo_manager_def demo_roll_def demo_election_def
  demo_candidate_def

lemma demo_db_ok: "db_ok demo_db"
  by (simp add: db_ok_def constraint_defs demo_defs map_filter_simps)

end
