(* ===== verification/Json.thy ===== *)
theory Json
  imports Py_Text "HOL-Library.Char_ord" "HOL-Library.List_Lexorder"
begin

text \<open>
  The JSON values the program exchanges and the part of the standard library's \<open>json\<close> module it
  uses: \<open>dumps\<close> (with \<open>sort_keys\<close>, \<open>separators\<close> and \<open>ensure_ascii\<close>) and \<open>loads\<close>. A dictionary is an
  association list in insertion order. A float literal is kept as its decimal mantissa and
  exponent, without the rounding to binary; \<open>NaN\<close> and \<open>Infinity\<close> are the extra literals that
  \<open>loads\<close> accepts. The recursion limit of the interpreter is not modelled.

  The main result is the round trip: parsing what \<open>dumps\<close> printed gives the value back, for every
  value without floats whose dictionaries have distinct keys.
\<close>

datatype json =
    JNull
  | JBool bool
  | JInt int
  | JFloat int int
  | JInf bool
  | JNaN
  | JStr string
  | JList "json list"
  | JObj "(string \<times> json) list"

section \<open>Python operations on decoded values\<close>

definition dict_set :: "string \<Rightarrow> 'v \<Rightarrow> (string \<times> 'v) list \<Rightarrow> (string \<times> 'v) list" where
  "dict_set k v kvs =
     (if k \<in> fst ` set kvs then map (\<lambda>(k', v'). (k', if k' = k then v else v')) kvs
      else kvs @ [(k, v)])"

text \<open>\<open>d.get(k)\<close> on a dictionary.\<close>

definition dict_get :: "(string \<times> json) list \<Rightarrow> string \<Rightarrow> json" where
  "dict_get kvs k = (case map_of kvs k of None \<Rightarrow> JNull | Some v \<Rightarrow> v)"

definition dict_pop :: "string \<Rightarrow> (string \<times> 'v) list \<Rightarrow> (string \<times> 'v) list" where
  "dict_pop k kvs = filter (\<lambda>(k', _). k' \<noteq> k) kvs"

fun truthy :: "json \<Rightarrow> bool" where
  "truthy JNull = False"
| "truthy (JBool b) = b"
| "truthy (JInt i) = (i \<noteq> 0)"
| "truthy (JFloat m e) = (m \<noteq> 0)"
| "truthy (JInf b) = True"
| "truthy JNaN = True"
| "truthy (JStr s) = (s \<noteq> [])"
| "truthy (JList xs) = (xs \<noteq> [])"
| "truthy (JObj kvs) = (kvs \<noteq> [])"

datatype py_exc = TypeError | ValueError | OverflowError

definition trunc_decimal :: "int \<Rightarrow> int \<Rightarrow> int" where
  "trunc_decimal m e =
     (if 0 \<le> e then m * 10 ^ nat e else sgn m * (\<bar>m\<bar> div 10 ^ nat (- e)))"

text \<open>\<open>int(x)\<close> on a decoded value.\<close>

fun int_of_json :: "json \<Rightarrow> py_exc + int" where
  "int_of_json (JInt i) = Inr i"
| "int_of_json (JBool b) = Inr (if b then 1 else 0)"
| "int_of_json (JFloat m e) = Inr (trunc_decimal m e)"
| "int_of_json (JInf b) = Inl OverflowError"
| "int_of_json JNaN = Inl ValueError"
| "int_of_json (JStr s) = (case py_int 10 s of None \<Rightarrow> Inl ValueError | Some i \<Rightarrow> Inr i)"
| "int_of_json JNull = Inl TypeError"
| "int_of_json (JList xs) = Inl TypeError"
| "int_of_json (JObj kvs) = Inl TypeError"

text \<open>\<open>int(x, 16)\<close>: only text is accepted with an explicit base.\<close>

fun int16_of_json :: "json \<Rightarrow> py_exc + int" where
  "int16_of_json (JStr s) = (case py_int 16 s of None \<Rightarrow> Inl ValueError | Some i \<Rightarrow> Inr i)"
| "int16_of_json _ = Inl TypeError"

section \<open>Printing\<close>

definition hex4 :: "nat \<Rightarrow> string" where
  "hex4 n = [digit_char (n div 4096 mod 16), digit_char (n div 256 mod 16),
             digit_char (n div 16 mod 16), digit_char (n mod 16)]"

definition escape_char :: "bool \<Rightarrow> char \<Rightarrow> string" where
  "escape_char ascii c = (let n = ord c in
     if n = 34 then [char_of (92::nat), char_of (34::nat)]
     else if n = 92 then [char_of (92::nat), char_of (92::nat)]
     else if n = 10 then [char_of (92::nat), CHR ''n'']
     else if n = 13 then [char_of (92::nat), CHR ''r'']
     else if n = 9 then [char_of (92::nat), CHR ''t'']
     else if n = 12 then [char_of (92::nat), CHR ''f'']
     else if n = 8 then [char_of (92::nat), CHR ''b'']
     else if n < 32 \<or> ascii \<and> 126 < n then char_of (92::nat) # CHR ''u'' # hex4 n
     else [c])"

definition dump_str :: "bool \<Rightarrow> string \<Rightarrow> string" where
  "dump_str ascii s = char_of (34::nat) # concat (map (escape_char ascii) s) @ [char_of (34::nat)]"

record dump_style =
  item_sep :: string
  key_sep :: string
  ensure_ascii :: bool

fun dump :: "dump_style \<Rightarrow> json \<Rightarrow> string" where
  "dump st JNull = ''null''"
| "dump st (JBool b) = (if b then ''true'' else ''false'')"
| "dump st (JInt i) = show_int i"
| "dump st (JFloat m e) = show_int m @ ''e'' @ show_int e"
| "dump st (JInf b) = (if b then ''Infinity'' else ''-Infinity'')"
| "dump st JNaN = ''NaN''"
| "dump st (JStr s) = dump_str (ensure_ascii st) s"
| "dump st (JList xs) = ''['' @ join (item_sep st) (map (dump st) xs) @ '']''"
| "dump st (JObj kvs) =
     ''{'' @ join (item_sep st)
       (map (\<lambda>(k, v). dump_str (ensure_ascii st) k @ key_sep st @ dump st v) kvs) @ ''}''"

fun sort_json :: "json \<Rightarrow> json" where
  "sort_json (JList xs) = JList (map sort_json xs)"
| "sort_json (JObj kvs) = JObj (sort_key fst (map (\<lambda>(k, v). (k, sort_json v)) kvs))"
| "sort_json j = j"

definition compact :: dump_style where
  "compact = \<lparr>item_sep = '','', key_sep = '':'', ensure_ascii = True\<rparr>"

definition plain_utf8 :: dump_style where
  "plain_utf8 = \<lparr>item_sep = '', '', key_sep = '': '', ensure_ascii = False\<rparr>"

text \<open>\<open>json.dumps(x, sort_keys=True, separators=(",", ":"))\<close>\<close>

definition dumps_canonical :: "json \<Rightarrow> string" where
  "dumps_canonical j = dump compact (sort_json j)"

text \<open>\<open>json.dumps(x, ensure_ascii=False)\<close>\<close>

definition dumps_utf8 :: "json \<Rightarrow> string" where
  "dumps_utf8 j = dump plain_utf8 j"

section \<open>Parsing\<close>

definition is_json_ws :: "char \<Rightarrow> bool" where
  "is_json_ws c \<longleftrightarrow> ord c \<in> {9, 10, 13, 32}"

definition skip_ws :: "string \<Rightarrow> string" where
  "skip_ws s = dropWhile is_json_ws s"

definition simple_escape :: "char \<Rightarrow> char option" where
  "simple_escape c = (let n = ord c in
     if n = 34 \<or> n = 92 \<or> n = 47 then Some c
     else if n = 98 then Some (char_of (8::nat))
     else if n = 102 then Some (char_of (12::nat))
     else if n = 110 then Some (char_of (10::nat))
     else if n = 114 then Some (char_of (13::nat))
     else if n = 116 then Some (char_of (9::nat))
     else None)"

definition unhex4 :: "char \<Rightarrow> char \<Rightarrow> char \<Rightarrow> char \<Rightarrow> char option" where
  "unhex4 a b c d =
     (case map (digit_val 16) [a, b, c, d] of
        [Some w, Some x, Some y, Some z] \<Rightarrow>
          (let n = nat (4096 * w + 256 * x + 16 * y + z) in if n < 256 then Some (char_of n) else None)
      | _ \<Rightarrow> None)"

fun scan_str :: "string \<Rightarrow> (string \<times> string) option" where
  "scan_str [] = None"
| "scan_str (c # cs) =
     (if ord c = 34 then Some ([], cs)
      else if ord c = 92 then
        (case cs of
           [] \<Rightarrow> None
         | d # ds \<Rightarrow>
             if ord d = 117 then
               (case ds of
                  h1 # h2 # h3 # h4 # r \<Rightarrow>
                    (case unhex4 h1 h2 h3 h4 of
                       None \<Rightarrow> None
                     | Some x \<Rightarrow> map_option (apfst ((#) x)) (scan_str r))
                | _ \<Rightarrow> None)
             else (case simple_escape d of
                None \<Rightarrow> None
              | Some x \<Rightarrow> map_option (apfst ((#) x)) (scan_str ds)))
      else if ord c < 32 then None
      else map_option (apfst ((#) c)) (scan_str cs))"

text \<open>A number: the integer part, then a fraction and an exponent when they are well formed.\<close>

definition scan_frac :: "string \<Rightarrow> string \<times> string" where
  "scan_frac s = (if startswith s ''.'' \<and> takeWhile is_ascii_digit (tl s) \<noteq> []
     then (takeWhile is_ascii_digit (tl s), dropWhile is_ascii_digit (tl s)) else ([], s))"

definition scan_exp :: "string \<Rightarrow> int option \<times> string" where
  "scan_exp s = (if startswith s ''e'' \<or> startswith s ''E'' then
     (let t = tl s; neg = startswith t ''-'';
          u = (if neg \<or> startswith t ''+'' then tl t else t);
          ds = takeWhile is_ascii_digit u
      in case parse_digits 10 0 False ds of
           None \<Rightarrow> (None, s)
         | Some e \<Rightarrow> (Some (if neg then - e else e), dropWhile is_ascii_digit u))
     else (None, s))"

definition scan_num :: "string \<Rightarrow> (json \<times> string) option" where
  "scan_num s = (let neg = startswith s ''-''; t = (if neg then tl s else s);
     ds = (if startswith t ''0'' then ''0'' else takeWhile is_ascii_digit t);
     rest = drop (length ds) t in
     case parse_digits 10 0 False ds of
       None \<Rightarrow> None
     | Some i \<Rightarrow>
         (let (fr, r1) = scan_frac rest; (ex, r2) = scan_exp r1;
              signed = (\<lambda>x::int. if neg then - x else x)
          in if fr = [] \<and> ex = None then Some (JInt (signed i), r2)
             else (case parse_digits 10 i True fr of
                     None \<Rightarrow> None
                   | Some m \<Rightarrow>
                       Some (JFloat (signed m)
                         ((case ex of None \<Rightarrow> 0 | Some e \<Rightarrow> e) - int (length fr)), r2))))"

fun scan_value :: "nat \<Rightarrow> string \<Rightarrow> (json \<times> string) option"
  and scan_items :: "nat \<Rightarrow> json list \<Rightarrow> string \<Rightarrow> (json \<times> string) option"
  and scan_members :: "nat \<Rightarrow> (string \<times> json) list \<Rightarrow> string \<Rightarrow> (json \<times> string) option" where
  "scan_value 0 s = None"
| "scan_value (Suc f) s =
     (if s = [] then None
      else if ord (hd s) = 34 then map_option (apfst JStr) (scan_str (tl s))
      else if startswith s ''{'' then
        (let r = skip_ws (tl s) in
         if startswith r ''}'' then Some (JObj [], tl r) else scan_members f [] r)
      else if startswith s ''['' then
        (let r = skip_ws (tl s) in
         if startswith r '']'' then Some (JList [], tl r) else scan_items f [] r)
      else if startswith s ''null'' then Some (JNull, drop 4 s)
      else if startswith s ''true'' then Some (JBool True, drop 4 s)
      else if startswith s ''false'' then Some (JBool False, drop 5 s)
      else (case scan_num s of
              Some x \<Rightarrow> Some x
            | None \<Rightarrow>
                if startswith s ''NaN'' then Some (JNaN, drop 3 s)
                else if startswith s ''Infinity'' then Some (JInf True, drop 8 s)
                else if startswith s ''-Infinity'' then Some (JInf False, drop 9 s)
                else None))"
| "scan_items 0 acc s = None"
| "scan_items (Suc f) acc s =
     (case scan_value f s of
        None \<Rightarrow> None
      | Some (v, r) \<Rightarrow>
          (let r' = skip_ws r in
           if startswith r' '','' then scan_items f (acc @ [v]) (skip_ws (tl r'))
           else if startswith r' '']'' then Some (JList (acc @ [v]), tl r')
           else None))"
| "scan_members 0 acc s = None"
| "scan_members (Suc f) acc s =
     (if s = [] \<or> ord (hd s) \<noteq> 34 then None
      else (case scan_str (tl s) of
         None \<Rightarrow> None
       | Some (k, r) \<Rightarrow>
           (let r' = skip_ws r in
            if \<not> startswith r' '':'' then None
            else (case scan_value f (skip_ws (tl r')) of
               None \<Rightarrow> None
             | Some (v, q) \<Rightarrow>
                 (let q' = skip_ws q in
                  if startswith q' '','' then scan_members f (dict_set k v acc) (skip_ws (tl q'))
                  else if startswith q' ''}'' then Some (JObj (dict_set k v acc), tl q')
                  else None)))))"

text \<open>
  \<open>json.loads(s)\<close>. Every recursive call of the scanner is made on a strictly shorter text, so the
  length of the text is enough fuel.
\<close>

definition loads :: "string \<Rightarrow> json option" where
  "loads s = (case scan_value (Suc (length s)) (skip_ws s) of
     None \<Rightarrow> None
   | Some (v, r) \<Rightarrow> if skip_ws r = [] then Some v else None)"

section \<open>Scanning printed text\<close>

lemma ord_eqD: "ord c = n \<Longrightarrow> c = char_of n"
  by (metis char_of_ord)

lemma unhex4_hex4:
  assumes "n < 256"
  shows "hex4 n = [a, b, c, d] \<Longrightarrow> unhex4 a b c d = Some (char_of n)"
proof -
  assume h: "hex4 n = [a, b, c, d]"
  have "nat (4096 * int (n div 4096 mod 16) + 256 * int (n div 256 mod 16) +
      16 * int (n div 16 mod 16) + int (n mod 16)) = n"
    using assms by (simp add: nat_eq_iff) presburger
  with h assms show ?thesis by (auto simp: hex4_def unhex4_def)
qed

lemma scan_str_escape:
  "scan_str (escape_char ascii c @ rest) = map_option (apfst ((#) c)) (scan_str rest)"
proof -
  consider "ord c = 34" | "ord c = 92" | "ord c = 10" | "ord c = 13" | "ord c = 9" | "ord c = 12"
    | "ord c = 8" | "ord c \<notin> {34, 92, 10, 13, 9, 12, 8}" "ord c < 32 \<or> ascii \<and> 126 < ord c"
    | "ord c \<notin> {34, 92, 10, 13, 9, 12, 8}" "\<not> (ord c < 32 \<or> ascii \<and> 126 < ord c)"
    by blast
  then show ?thesis
  proof cases
    case 8
    obtain a b x y where h: "hex4 (ord c) = [a, b, x, y]" by (simp add: hex4_def)
    from 8 have "escape_char ascii c = char_of (92::nat) # CHR ''u'' # hex4 (ord c)"
      by (simp add: escape_char_def Let_def)
    with h show ?thesis using unhex4_hex4 [OF ord_less h] by (simp add: ord_def)
  next
    case 9
    then have "escape_char ascii c = [c]" by (auto simp add: escape_char_def Let_def)
    with 9 show ?thesis by auto
  qed (drule ord_eqD, simp add: escape_char_def simple_escape_def Let_def ord_def)+
qed

lemma scan_str_dump:
  "scan_str (concat (map (escape_char ascii) s) @ char_of (34::nat) # rest) = Some (s, rest)"
  by (induction s) (simp_all add: scan_str_escape del: scan_str.simps(2), simp add: ord_def)


definition ends_value :: "string \<Rightarrow> bool" where
  "ends_value r \<longleftrightarrow> r = [] \<or> ord (hd r) \<in> {44, 93, 125}"

lemma takeWhile_digits:
  assumes "list_all is_ascii_digit ds" and "r = [] \<or> \<not> is_ascii_digit (hd r)"
  shows "takeWhile is_ascii_digit (ds @ r) = ds" and "dropWhile is_ascii_digit (ds @ r) = r"
  using assms by (induction ds) (cases r; auto)+

lemma show_nat_10_digits: "list_all is_ascii_digit (show_nat 10 n)"
  unfolding list_all_iff
proof
  fix c assume "c \<in> set (show_nat 10 n)"
  then obtain d where "d < 10" "c = digit_char d" using show_nat_chars [of 10 c n] by auto
  then show "is_ascii_digit c" using digit_char_ord [of d] by (simp add: is_ascii_digit_def)
qed

lemma digit_char_0 [simp]: "digit_char 0 = CHR ''0''"
  by code_simp

lemma show_nat_10_hd0: "hd (show_nat 10 n) = CHR ''0'' \<longleftrightarrow> n = 0"
proof (induction n rule: less_induct)
  case (less n)
  show ?case
  proof (cases "n < 10")
    case True
    have "digit_char n = CHR ''0'' \<longleftrightarrow> n = 0"
    proof
      assume "digit_char n = CHR ''0''"
      then have "ord (digit_char n) = 48" by (simp add: ord_def)
      with True digit_char_ord [of n] show "n = 0" by simp
    qed simp
    with True show ?thesis by (simp add: show_nat_small)
  next
    case False
    then have "n div 10 < n" "n div 10 \<noteq> 0" by auto
    with less [of "n div 10"] False show ?thesis by (simp add: show_nat_big)
  qed
qed

lemma ends_value_digits: "ends_value r \<Longrightarrow> r = [] \<or> \<not> is_ascii_digit (hd r)"
  by (auto simp: ends_value_def is_ascii_digit_def)

lemma ends_value_starts:
  assumes "ends_value r" and "ord c \<notin> {44, 93, 125}"
  shows "\<not> startswith r [c]"
  using assms by (cases r) (auto simp: ends_value_def startswith_def)

lemma scan_num_nat:
  assumes "ends_value r"
  shows "(if startswith (show_nat 10 n @ r) ''0'' then ''0''
          else takeWhile is_ascii_digit (show_nat 10 n @ r)) = show_nat 10 n"
proof (cases "n = 0")
  case True
  then have "show_nat 10 n = ''0''" by (simp add: show_nat_small)
  then show ?thesis by (simp add: startswith_def)
next
  case False
  obtain c cs where c: "show_nat 10 n = c # cs" by (meson neq_Nil_conv show_nat_not_Nil)
  from False have "c \<noteq> CHR ''0''" using show_nat_10_hd0 [of n] c by simp
  then have "\<not> startswith (show_nat 10 n @ r) ''0''" by (simp add: c startswith_def)
  then show ?thesis
    using takeWhile_digits(1) [OF show_nat_10_digits ends_value_digits [OF assms]] by simp
qed

lemma scan_num_show_int:
  assumes "ends_value r"
  shows "scan_num (show_int i @ r) = Some (JInt i, r)"
proof -
  define n where "n = nat \<bar>i\<bar>"
  define t where "t = show_nat 10 n @ r"
  define neg where "neg = (i < 0)"
  have s: "show_int i @ r = (if neg then ''-'' @ t else t)"
    by (simp add: show_int_def n_def t_def neg_def)
  obtain d where d: "d < 10" "hd (show_nat 10 n) = digit_char d"
    using show_nat_hd_last(1) [of 10 n] by auto
  then have "\<not> startswith t ''-''"
    using digit_char_neq(2) [of d] by (cases "show_nat 10 n") (simp_all add: t_def startswith_def)
  then have neg: "startswith (show_int i @ r) ''-'' = neg" and tl: "(if neg then tl (show_int i @ r) else show_int i @ r) = t"
    by (auto simp: s startswith_def)
  have ds: "(if startswith t ''0'' then ''0'' else takeWhile is_ascii_digit t) = show_nat 10 n"
    and dr: "drop (length (show_nat 10 n)) t = r"
    unfolding t_def by (rule scan_num_nat [OF assms]) simp
  have pd: "parse_digits 10 0 False (show_nat 10 n) = Some (int n)"
    using parse_digits_show_nat [of 10 0 False n "[]"] by simp
  have "\<not> startswith r ''.''" "\<not> startswith r ''e''" "\<not> startswith r ''E''"
    by (rule ends_value_starts [OF assms], simp add: ord_def)+
  then have fr: "scan_frac r = ([], r)" and ex: "scan_exp r = (None, r)"
    by (simp_all add: scan_frac_def scan_exp_def)
  show ?thesis
    unfolding scan_num_def Let_def neg tl ds dr pd
    by (simp add: fr ex neg_def n_def)
qed

section \<open>The round trip\<close>

text \<open>Values \<open>dumps\<close> prints without loss: no floats, no repeated keys.\<close>

fun json_ok :: "json \<Rightarrow> bool" where
  "json_ok (JFloat m e) = False"
| "json_ok (JInf b) = False"
| "json_ok JNaN = False"
| "json_ok (JList xs) = list_all json_ok xs"
| "json_ok (JObj kvs) = (distinct (map fst kvs) \<and> list_all (\<lambda>(k, v). json_ok v) kvs)"
| "json_ok j = True"

definition style_ok :: "dump_style \<Rightarrow> bool" where
  "style_ok st \<longleftrightarrow> item_sep st \<noteq> [] \<and> hd (item_sep st) = CHR '','' \<and> list_all is_json_ws (tl (item_sep st))
     \<and> key_sep st \<noteq> [] \<and> hd (key_sep st) = CHR '':'' \<and> list_all is_json_ws (tl (key_sep st))"

lemma style_ok_compact [simp]: "style_ok compact" and style_ok_plain [simp]: "style_ok plain_utf8"
  by (simp_all add: style_ok_def compact_def plain_utf8_def is_json_ws_def ord_def)

lemma skip_ws_ws: "list_all is_json_ws w \<Longrightarrow> skip_ws (w @ s) = skip_ws s"
  by (induction w) (simp_all add: skip_ws_def)

lemma skip_ws_id: "s \<noteq> [] \<Longrightarrow> \<not> is_json_ws (hd s) \<Longrightarrow> skip_ws s = s"
  by (cases s) (simp_all add: skip_ws_def)

lemma item_sep_step:
  assumes "style_ok st" and "s \<noteq> []" and "\<not> is_json_ws (hd s)"
  shows "skip_ws (item_sep st @ s) = item_sep st @ s" and "startswith (item_sep st @ s) '',''"
    and "skip_ws (tl (item_sep st @ s)) = s" and "ends_value (item_sep st @ s)"
proof -
  from assms(1) obtain w where w: "item_sep st = CHR '','' # w" "list_all is_json_ws w"
    by (metis list.exhaust_sel style_ok_def)
  then show "skip_ws (item_sep st @ s) = item_sep st @ s" and "startswith (item_sep st @ s) '',''"
    and "skip_ws (tl (item_sep st @ s)) = s" and "ends_value (item_sep st @ s)"
    using assms(2,3)
    by (auto simp: skip_ws_ws skip_ws_id startswith_def is_json_ws_def ends_value_def ord_def)
qed

lemma key_sep_step:
  assumes "style_ok st" and "s \<noteq> []" and "\<not> is_json_ws (hd s)"
  shows "skip_ws (key_sep st @ s) = key_sep st @ s" and "startswith (key_sep st @ s) '':''"
    and "skip_ws (tl (key_sep st @ s)) = s"
proof -
  from assms(1) obtain w where w: "key_sep st = CHR '':'' # w" "list_all is_json_ws w"
    by (metis list.exhaust_sel style_ok_def)
  then show "skip_ws (key_sep st @ s) = key_sep st @ s" and "startswith (key_sep st @ s) '':''"
    and "skip_ws (tl (key_sep st @ s)) = s"
    using assms(2,3)
    by (auto simp: skip_ws_ws skip_ws_id startswith_def is_json_ws_def ord_def)
qed

lemma show_int_start: "show_int i \<noteq> [] \<and> (hd (show_int i) = CHR ''-'' \<or> is_ascii_digit (hd (show_int i)))"
  using show_nat_10_digits [of "nat i"] hd_in_set [OF show_nat_not_Nil [of 10 "nat i"]]
  by (simp add: show_int_def list_all_iff)

lemma dump_start:
  assumes "json_ok j"
  shows "dump st j \<noteq> [] \<and>
    (ord (hd (dump st j)) \<in> {34, 45, 91, 102, 110, 116, 123} \<or> is_ascii_digit (hd (dump st j)))"
proof (cases j)
  case (JInt i)
  then show ?thesis using show_int_start [of i] by (auto simp: ord_def)
qed (use assms in \<open>simp_all add: dump_str_def ord_def\<close>)

lemma dump_start_plain:
  assumes "json_ok j"
  shows "\<not> is_json_ws (hd (dump st j @ s))" and "\<not> startswith (dump st j @ s) '']''"
    and "dump st j @ s \<noteq> []" and "dump st j \<noteq> []"
proof -
  obtain c cs where c: "dump st j = c # cs" using dump_start [OF assms] by (meson neq_Nil_conv)
  with dump_start [OF assms, of st] have "ord c \<in> {34, 45, 91, 102, 110, 116, 123} \<or> 48 \<le> ord c \<and> ord c \<le> 57"
    by (simp add: is_ascii_digit_def)
  then have "\<not> is_json_ws c" "ord c \<noteq> 93" by (auto simp: is_json_ws_def)
  then show "\<not> is_json_ws (hd (dump st j @ s))" and "\<not> startswith (dump st j @ s) '']''"
    and "dump st j @ s \<noteq> []" and "dump st j \<noteq> []"
    by (auto simp: c startswith_def ord_def)
qed

lemma scan_value_int:
  assumes "ends_value r"
  shows "scan_value (Suc f) (show_int i @ r) = Some (JInt i, r)"
proof -
  obtain c cs where c: "show_int i = c # cs" using show_int_start [of i] by (meson neq_Nil_conv)
  with show_int_start [of i] have "ord c = 45 \<or> 48 \<le> ord c \<and> ord c \<le> 57"
    by (auto simp: is_ascii_digit_def ord_def)
  then have "ord c \<noteq> 34" "c \<noteq> CHR ''{''" "c \<noteq> CHR ''[''" "c \<noteq> CHR ''n''" "c \<noteq> CHR ''t''" "c \<noteq> CHR ''f''"
    by (auto simp: ord_def)
  then show ?thesis using scan_num_show_int [OF assms, of i] c by (simp add: startswith_def)
qed

lemma scan_items_dump:
  assumes "style_ok st"
    and IH: "\<And>x f r. x \<in> set xs \<Longrightarrow> length (dump st x) \<le> f \<Longrightarrow> ends_value r \<Longrightarrow>
          scan_value f (dump st x @ r) = Some (x, r)"
    and "list_all json_ok xs" and "xs \<noteq> []"
    and "length (join (item_sep st) (map (dump st) xs)) < f"
  shows "scan_items f acc (join (item_sep st) (map (dump st) xs) @ '']'' @ r) = Some (JList (acc @ xs), r)"
  using assms(2-5)
proof (induction xs arbitrary: f acc)
  case Nil
  then show ?case by simp
next
  case (Cons x xs)
  from Cons.prems(4) obtain g where f: "f = Suc g" by (cases f) simp_all
  show ?case
  proof (cases xs)
    case Nil
    have "scan_value g (dump st x @ '']'' @ r) = Some (x, '']'' @ r)"
      using Cons.prems f Nil by (intro Cons.prems(1)) (simp_all add: ends_value_def ord_def)
    with f Nil show ?thesis by (simp add: skip_ws_def is_json_ws_def ord_def startswith_def)
  next
    case (Cons y ys)
    let ?rest = "join (item_sep st) (map (dump st) xs) @ '']'' @ r"
    have y: "json_ok y" using Cons.prems(2) \<open>xs = y # ys\<close> by simp
    have ne: "?rest \<noteq> []" "\<not> is_json_ws (hd ?rest)"
      using dump_start_plain [OF y] \<open>xs = y # ys\<close> by (cases ys; simp)+
    note sep = item_sep_step [OF assms(1) ne]
    have shape: "join (item_sep st) (map (dump st) (x # xs)) @ '']'' @ r = dump st x @ item_sep st @ ?rest"
      using \<open>xs = y # ys\<close> by simp
    have len: "length (dump st x) \<le> g" "length (join (item_sep st) (map (dump st) xs)) < g"
      using Cons.prems(2,4) f dump_start_plain(4) [of x st] assms(1) \<open>xs = y # ys\<close>
      by (auto simp: style_ok_def neq_Nil_conv)
    have v: "scan_value g (dump st x @ item_sep st @ ?rest) = Some (x, item_sep st @ ?rest)"
      using len sep(4) by (intro Cons.prems(1)) simp_all
    have "scan_items g (acc @ [x]) ?rest = Some (JList ((acc @ [x]) @ xs), r)"
      using Cons.prems \<open>xs = y # ys\<close> len by (intro Cons.IH) auto
    with v sep have "scan_items f acc (dump st x @ item_sep st @ ?rest) = Some (JList (acc @ x # xs), r)"
      by (simp add: f)
    then show ?thesis by (simp only: shape)
  qed
qed


abbreviation dump_member :: "dump_style \<Rightarrow> string \<times> json \<Rightarrow> string" where
  "dump_member st \<equiv> \<lambda>(k, v). dump_str (ensure_ascii st) k @ key_sep st @ dump st v"

lemma scan_member_key:
  "scan_str (tl (dump_str ascii k @ r)) = Some (k, r)" and "ord (hd (dump_str ascii k @ r)) = 34"
  using scan_str_dump [of ascii k r] by (simp_all add: dump_str_def ord_def)

lemma members_start:
  assumes "kvs \<noteq> []"
  shows "\<exists>u. join sep (map (dump_member st) kvs) @ s = char_of (34::nat) # u"
proof -
  obtain k v ys where "kvs = (k, v) # ys" using assms by (metis list.exhaust_sel prod.exhaust)
  then show ?thesis by (cases ys) (simp_all add: dump_str_def)
qed

lemma members_start_plain:
  assumes "kvs \<noteq> []"
  shows "join sep (map (dump_member st) kvs) @ s \<noteq> []"
    and "\<not> is_json_ws (hd (join sep (map (dump_member st) kvs) @ s))"
    and "\<not> startswith (join sep (map (dump_member st) kvs) @ s) ''}''"
proof -
  obtain u where u: "join sep (map (dump_member st) kvs) @ s = char_of (34::nat) # u"
    using members_start [OF assms] by blast
  have "char_of (34::nat) \<noteq> CHR ''}''" by code_simp
  with u show "join sep (map (dump_member st) kvs) @ s \<noteq> []"
    and "\<not> is_json_ws (hd (join sep (map (dump_member st) kvs) @ s))"
    and "\<not> startswith (join sep (map (dump_member st) kvs) @ s) ''}''"
    by (simp_all add: is_json_ws_def startswith_def)
qed

lemma scan_members_dump:
  assumes "style_ok st"
    and IH: "\<And>k x f r. (k, x) \<in> set kvs \<Longrightarrow> length (dump st x) \<le> f \<Longrightarrow> ends_value r \<Longrightarrow>
          scan_value f (dump st x @ r) = Some (x, r)"
    and "list_all (\<lambda>(k, v). json_ok v) kvs" and "kvs \<noteq> []"
    and "distinct (map fst (acc @ kvs))"
    and "length (join (item_sep st) (map (dump_member st) kvs)) < f"
  shows "scan_members f acc (join (item_sep st) (map (dump_member st) kvs) @ ''}'' @ r) = Some (JObj (acc @ kvs), r)"
  using assms(2-6)
proof (induction kvs arbitrary: f acc)
  case Nil
  then show ?case by simp
next
  case (Cons kv kvs)
  obtain k x where kv: "kv = (k, x)" by (cases kv)
  have x: "json_ok x" using Cons.prems(2) kv by simp
  have ds: "dict_set k x acc = acc @ [(k, x)]"
    using Cons.prems(4) kv by (force simp: dict_set_def)
  from Cons.prems(5) obtain g where f: "f = Suc g" by (cases f) simp_all
  note vstart = dump_start_plain [OF x]
  have step: "scan_members f acc (dump_str (ensure_ascii st) k @ key_sep st @ dump st x @ q) =
      (let q' = skip_ws q in
       if startswith q' '','' then scan_members g (acc @ [(k, x)]) (skip_ws (tl q'))
       else if startswith q' ''}'' then Some (JObj (acc @ [(k, x)]), tl q') else None)"
    if q: "ends_value q" and len: "length (dump st x) \<le> g" for q
  proof -
    have "scan_value g (dump st x @ q) = Some (x, q)"
      using q len kv by (intro Cons.prems(1) [of k]) simp_all
    then show ?thesis
      using key_sep_step [OF assms(1) vstart(3) [of st q] vstart(1) [of st q]]
        scan_member_key [of "ensure_ascii st" k "key_sep st @ dump st x @ q"]
      by (simp add: f ds dump_str_def Let_def)
  qed
  show ?case
  proof (cases kvs)
    case Nil
    have "length (dump st x) \<le> g" using Cons.prems(5) f Nil kv by simp
    with Nil kv step [of "''}'' @ r"] show ?thesis
      by (simp add: skip_ws_def is_json_ws_def ord_def startswith_def ends_value_def)
  next
    case (Cons y ys)
    let ?rest = "join (item_sep st) (map (dump_member st) kvs) @ ''}'' @ r"
    have ne: "?rest \<noteq> []" "\<not> is_json_ws (hd ?rest)"
      by (rule members_start_plain, simp add: \<open>kvs = y # ys\<close>)+
    note sep = item_sep_step [OF assms(1) ne]
    have shape: "join (item_sep st) (map (dump_member st) (kv # kvs)) @ ''}'' @ r =
        dump_str (ensure_ascii st) k @ key_sep st @ dump st x @ item_sep st @ ?rest"
      using \<open>kvs = y # ys\<close> kv by simp
    have len: "length (dump st x) \<le> g" "length (join (item_sep st) (map (dump_member st) kvs)) < g"
      using Cons.prems(5) f vstart(4) [of st] assms(1) \<open>kvs = y # ys\<close> kv
      by (auto simp: style_ok_def neq_Nil_conv)
    have "scan_members g (acc @ [(k, x)]) ?rest = Some (JObj ((acc @ [(k, x)]) @ kvs), r)"
      using Cons.prems \<open>kvs = y # ys\<close> len kv by (intro Cons.IH) auto
    with step [OF sep(4) len(1)] sep
    have "scan_members f acc (dump_str (ensure_ascii st) k @ key_sep st @ dump st x @ item_sep st @ ?rest) =
        Some (JObj (acc @ kv # kvs), r)"
      by (simp add: Let_def kv)
    then show ?thesis by (simp only: shape)
  qed
qed

lemma scan_value_dump:
  assumes "style_ok st"
  shows "json_ok j \<Longrightarrow> length (dump st j) \<le> f \<Longrightarrow> ends_value r \<Longrightarrow>
    scan_value f (dump st j @ r) = Some (j, r)"
proof (induction j arbitrary: f r)
  case (JInt i)
  then obtain g where "f = Suc g" using show_int_start [of i] by (cases f) auto
  with JInt show ?case by (simp add: scan_value_int del: scan_value.simps)
next
  case (JStr s)
  then obtain g where "f = Suc g" by (cases f) (auto simp: dump_str_def)
  then show ?case using scan_member_key [of "ensure_ascii st" s r] by (simp add: dump_str_def)
next
  case (JList xs)
  then obtain g where f: "f = Suc g" by (cases f) auto
  show ?case
  proof (cases "xs = []")
    case True
    with f show ?thesis by (simp add: skip_ws_def is_json_ws_def ord_def startswith_def)
  next
    case False
    let ?t = "join (item_sep st) (map (dump st) xs) @ '']'' @ r"
    obtain y ys where xs: "xs = y # ys" using False by (meson neq_Nil_conv)
    have y: "json_ok y" using JList.prems(1) xs by simp
    have "?t \<noteq> []" "\<not> is_json_ws (hd ?t)" "\<not> startswith ?t '']''"
      using dump_start_plain [OF y] xs by (cases ys; simp)+
    then have ws: "skip_ws ?t = ?t" "\<not> startswith ?t '']''" by (simp_all add: skip_ws_id)
    have "scan_items g [] ?t = Some (JList ([] @ xs), r)"
      using assms JList False f by (intro scan_items_dump) (auto simp: list_all_iff)
    with f ws show ?thesis by (simp add: startswith_def ord_def)
  qed
next
  case (JObj kvs)
  then obtain g where f: "f = Suc g" by (cases f) auto
  show ?case
  proof (cases "kvs = []")
    case True
    with f show ?thesis by (simp add: skip_ws_def is_json_ws_def ord_def startswith_def)
  next
    case False
    let ?t = "join (item_sep st) (map (dump_member st) kvs) @ ''}'' @ r"
    have ws: "skip_ws ?t = ?t" "\<not> startswith ?t ''}''"
      by (rule skip_ws_id; rule members_start_plain [OF False]) (rule members_start_plain(3) [OF False])
    have IH: "scan_value h (dump st x @ q) = Some (x, q)"
      if "(k, x) \<in> set kvs" "length (dump st x) \<le> h" "ends_value q" for k x h q
    proof -
      have "json_ok x" using that(1) JObj.prems(1) by (force simp: list_all_iff)
      with that show ?thesis by (intro JObj.IH [of "(k, x)" x]) simp_all
    qed
    have "scan_members g [] ?t = Some (JObj ([] @ kvs), r)"
    proof (rule scan_members_dump [OF assms IH])
      show "length (join (item_sep st) (map (dump_member st) kvs)) < g"
        using JObj.prems(2) f by simp
    qed (use JObj.prems(1) False in simp_all)
    with f ws show ?thesis by (simp add: startswith_def ord_def)
  qed
next
  case JNull
  then obtain g where "f = Suc g" by (cases f) auto
  then show ?case by (simp add: startswith_def ord_def)
next
  case (JBool b)
  then obtain g where "f = Suc g" by (cases f) (auto split: if_splits)
  then show ?case by (simp add: startswith_def ord_def)
qed simp_all

theorem loads_dump:
  assumes "style_ok st" and "json_ok j"
  shows "loads (dump st j) = Some j"
proof -
  have "skip_ws (dump st j) = dump st j"
    using dump_start_plain(1,3) [OF assms(2), of st "[]"] by (intro skip_ws_id) simp_all
  moreover have "scan_value (Suc (length (dump st j))) (dump st j) = Some (j, [])"
    using scan_value_dump [OF assms, where f = "Suc (length (dump st j))" and r = "[]"] by (simp add: ends_value_def)
  ultimately show ?thesis by (simp add: loads_def skip_ws_def del: scan_value.simps)
qed


subsection \<open>Canonical form\<close>

lemma json_ok_sort_json: "json_ok j \<Longrightarrow> json_ok (sort_json j)"
proof (induction j)
  case (JObj kvs)
  have "distinct (map fst (sort_key fst (map (\<lambda>(k, v). (k, sort_json v)) kvs)))"
    using JObj.prems by (auto simp: distinct_map comp_def case_prod_beta inj_on_def)
  moreover have "json_ok (sort_json v)" if "(k, v) \<in> set kvs" for k v
  proof -
    have "json_ok v" using JObj.prems that by (force simp: list_all_iff)
    with that show ?thesis by (intro JObj.IH [of "(k, v)" v]) simp_all
  qed
  ultimately show ?case by (auto simp: list_all_iff)
qed (auto simp: list_all_iff)

lemma sort_json_idem [simp]: "sort_json (sort_json j) = sort_json j"
proof (induction j)
  case (JObj kvs)
  have "map (\<lambda>(k, v). (k, sort_json v)) (sort_key fst (map (\<lambda>(k, v). (k, sort_json v)) kvs)) =
      sort_key fst (map (\<lambda>(k, v). (k, sort_json v)) kvs)"
  proof (rule map_idI)
    fix kv assume "kv \<in> set (sort_key fst (map (\<lambda>(k, v). (k, sort_json v)) kvs))"
    then obtain k v where "kv = (k, sort_json v)" "(k, v) \<in> set kvs" by auto
    moreover from this have "sort_json (sort_json v) = sort_json v"
      by (intro JObj.IH [of "(k, v)" v]) simp_all
    ultimately show "(case kv of (k, v) \<Rightarrow> (k, sort_json v)) = kv" by simp
  qed
  then show ?case by (simp add: sorted_sort_id sort_key_id_if_sorted)
qed (simp_all add: map_idI)

theorem loads_dumps_canonical: "json_ok j \<Longrightarrow> loads (dumps_canonical j) = Some (sort_json j)"
  unfolding dumps_canonical_def by (simp add: loads_dump json_ok_sort_json)

lemma dumps_canonical_stable:
  "json_ok j \<Longrightarrow> loads (dumps_canonical j) = Some j' \<Longrightarrow> dumps_canonical j' = dumps_canonical j"
  by (auto simp: loads_dumps_canonical) (simp add: dumps_canonical_def)

lemma loads_dumps_utf8: "json_ok j \<Longrightarrow> loads (dumps_utf8 j) = Some j"
  unfolding dumps_utf8_def by (simp add: loads_dump)

interpretation utf8_json: codec dumps_utf8 loads json_ok
  by unfold_locales (rule loads_dumps_utf8)

interpretation canonical_json: codec dumps_canonical loads "\<lambda>j. json_ok j \<and> sort_json j = j"
  by unfold_locales (simp add: loads_dumps_canonical)

lemma dict_get_Cons [simp]:
  "dict_get [] k = JNull"
  "dict_get ((k', v) # kvs) k = (if k' = k then v else dict_get kvs k)"
  by (simp_all add: dict_get_def)

end
