(* ===== verification/Web.thy ===== *)
theory Web
  imports Models Json
begin

text \<open>
  What every request handler shares: the replies, the cookie session, \<open>flash_once\<close>
  (\<^verbatim>\<open>app/helpers.py\<close>), the access decorators (\<^verbatim>\<open>app/utils/auth_decorators.py\<close>) and the CSRF guard
  (\<^verbatim>\<open>app/security/csrf.py\<close>). A handler is a function from the request, the clock and the random
  values it draws to a reply and the new state; an exception the handler does not catch is the
  reply \<open>Abort 500\<close> with the state of the last commit.
\<close>

section \<open>Replies and the session\<close>

datatype reply =
    Json_reply int json
  | Redirect string "string list"
  | Redirect_path string
  | Page string "string list"
  | Abort int

text \<open>
  \<open>Redirect\<close> names an endpoint of the application, \<open>Redirect_path\<close> is a redirect to a location taken
  from the request.
\<close>

definition json_error :: "int \<Rightarrow> string \<Rightarrow> reply" where
  "json_error status msg = Json_reply status (JObj [(''error'', JStr msg)])"

record web_session =
  s_flashes :: "(string \<times> string) list"
  s_csrf_token :: "string option"
  s_user_id :: "int option"
  s_used_nonces :: "string list"
  s_mfa_pending_user_id :: "int option"
  s_mfa_pending_next :: "string option"
  s_mfa_challenge_id :: "string option"

definition empty_session :: web_session where
  "empty_session = \<lparr>s_flashes = [], s_csrf_token = None, s_user_id = None, s_used_nonces = [],
     s_mfa_pending_user_id = None, s_mfa_pending_next = None, s_mfa_challenge_id = None\<rparr>"

definition flash :: "string \<Rightarrow> string \<Rightarrow> web_session \<Rightarrow> web_session" where
  "flash message category s = s\<lparr>s_flashes := s_flashes s @ [(category, message)]\<rparr>"

definition flash_once :: "string \<Rightarrow> string \<Rightarrow> web_session \<Rightarrow> web_session" where
  "flash_once message category s =
     (if (category, message) \<in> set (s_flashes s) then s
      else s\<lparr>s_flashes := s_flashes s @ [(category, message)]\<rparr>)"

lemma flash_once_idem: "flash_once m c (flash_once m c s) = flash_once m c s"
  by (simp add: flash_once_def)

section \<open>Access decorators\<close>

definition login_required :: "user option \<Rightarrow> 's \<Rightarrow> (user \<Rightarrow> reply \<times> 's) \<Rightarrow> reply \<times> 's" where
  "login_required current_user s fn =
     (case current_user of None \<Rightarrow> (Redirect ''auth.login'' [], s) | Some u \<Rightarrow> fn u)"

definition roles_required ::
  "database \<Rightarrow> string list \<Rightarrow> user option \<Rightarrow> 's \<Rightarrow> (user \<Rightarrow> reply \<times> 's) \<Rightarrow> reply \<times> 's" where
  "roles_required db allowed current_user s fn =
     login_required current_user s
       (\<lambda>u. if \<not> has_role db u allowed then (Abort 403, s) else fn u)"

definition admin_only ::
  "database \<Rightarrow> user option \<Rightarrow> 's \<Rightarrow> (user \<Rightarrow> reply \<times> 's) \<Rightarrow> reply \<times> 's" where
  "admin_only db current_user s fn =
     login_required current_user s
       (\<lambda>u. if \<not> is_manager db u then (Redirect ''main.dashboard'' [''Access denied: Admin only.''], s)
            else fn u)"

lemma roles_required_effect:
  assumes "roles_required db allowed cu s fn = (r, s')" and "s' \<noteq> s"
  shows "\<exists>u. cu = Some u \<and> has_role db u allowed \<and> fn u = (r, s')"
  using assms by (auto simp: roles_required_def login_required_def split: option.splits if_splits)

lemma admin_only_effect:
  assumes "admin_only db cu s fn = (r, s')" and "s' \<noteq> s"
  shows "\<exists>u. cu = Some u \<and> is_manager db u \<and> fn u = (r, s')"
  using assms by (auto simp: admin_only_def login_required_def split: option.splits if_splits)

section \<open>CSRF guard\<close>

record http_request =
  rq_method :: string
  rq_endpoint :: string
  rq_form_csrf :: "string option"
  rq_header_csrf :: "string option"

definition exempt_endpoints :: "string list" where
  "exempt_endpoints =
     [''results.verify_election_results'', ''results.get_latest_results'', ''health.healthz'',
      ''health.ready'', ''health.live'', ''auth.login_nonce'', ''main.cast_anonymous_ballot'',
      ''main.blind_signing_public_key'']"

definition get_csrf_token :: "string \<Rightarrow> web_session \<Rightarrow> string \<times> web_session" where
  "get_csrf_token fresh_hex s =
     (case s_csrf_token s of
        None \<Rightarrow> (fresh_hex, s\<lparr>s_csrf_token := Some fresh_hex\<rparr>)
      | Some t \<Rightarrow> (t, s))"

text \<open>\<open>None\<close> lets the request through to its handler.\<close>

definition validate_csrf ::
  "bool \<Rightarrow> bool option \<Rightarrow> http_request \<Rightarrow> web_session \<Rightarrow> reply option" where
  "validate_csrf testing csrf_enabled rq s =
     (if rq_method rq \<notin> {''POST'', ''PUT'', ''DELETE'', ''PATCH''} then None
      else if testing \<or> csrf_enabled = Some False then None
      else if rq_endpoint rq \<in> set exempt_endpoints then None
      else
        (let token = or_else (rq_form_csrf rq) (rq_header_csrf rq); expected = s_csrf_token s in
         case (token, expected) of
           (Some t, Some e) \<Rightarrow> if t = [] \<or> e = [] \<or> t \<noteq> e then Some (Abort 403) else None
         | _ \<Rightarrow> Some (Abort 403)))"

text \<open>
  The CSRF guard. Outside test mode, a state-changing request to a non-exempt endpoint reaches
  its handler only when its form field, or its header if the field is absent or empty, is the
  non-empty token of its own session; and it does reach it with that token.
\<close>

theorem csrf_guard:
  assumes "rq_method rq \<in> {''POST'', ''PUT'', ''DELETE'', ''PATCH''}"
    and "rq_endpoint rq \<notin> set exempt_endpoints"
  shows "validate_csrf False None rq s = None \<longleftrightarrow>
    (\<exists>t. t \<noteq> [] \<and> s_csrf_token s = Some t \<and> or_else (rq_form_csrf rq) (rq_header_csrf rq) = Some t)"
  using assms by (auto simp: validate_csrf_def Let_def split: option.splits)

theorem csrf_guard_witness:
  "validate_csrf False None
     \<lparr>rq_method = ''POST'', rq_endpoint = ''results.sign_election_results'', rq_form_csrf = Some [],
      rq_header_csrf = Some ''abc''\<rparr>
     (empty_session\<lparr>s_csrf_token := Some ''abc''\<rparr>) = None"
  by (subst csrf_guard) (auto simp: exempt_endpoints_def or_else_def)

end
