(* ===== verification/Audit_Log.thy ===== *)
theory Audit_Log
  imports Hashlib Web
begin

text \<open>
  The tamper-evident audit log: \<^verbatim>\<open>app/logging_service.py\<close> and its viewer \<^verbatim>\<open>app/routes/audit.py\<close>.
  The log file is the list of its lines (JSON escapes line breaks, so a record is one line), the
  state file beside it holds the last HMAC, and the handler caches it in memory. \<open>emit\<close> runs under
  an exclusive file lock, so concurrent workers are sequences of \<open>emit\<close> on the shared files.
\<close>

section \<open>Writing\<close>

record audit_log =
  al_lines :: "string list"
  al_state_file :: "string option"
  al_last_hmac :: "string option"

definition read_state_file :: "string \<Rightarrow> string option" where
  "read_state_file content = or_else (Some (strip content)) None"

definition init_audit_handler :: "string list \<Rightarrow> string option \<Rightarrow> audit_log" where
  "init_audit_handler lines state_file =
     \<lparr>al_lines = lines, al_state_file = state_file,
      al_last_hmac = (case state_file of None \<Rightarrow> None | Some c \<Rightarrow> read_state_file c)\<rparr>"

definition audit_event :: "int option \<Rightarrow> string \<Rightarrow> string \<Rightarrow> string \<Rightarrow> string \<Rightarrow> json" where
  "audit_event actor_id action target_type target_id outcome =
     JObj [(''actor'', JObj [(''id'', JStr (case actor_id of None \<Rightarrow> ''anonymous'' | Some i \<Rightarrow> show_int i))]),
           (''action'', JStr action),
           (''target'', JObj [(''type'', JStr target_type), (''id'', JStr target_id)]),
           (''outcome'', JStr outcome)]"

text \<open>A log record as \<open>logging\<close> hands it to the handler, with the time of the call.\<close>

record log_record =
  lr_time :: timestamp
  lr_level :: string
  lr_logger :: string
  lr_message :: string
  lr_pathname :: string
  lr_lineno :: int
  lr_extra :: json

definition audit_timestamp :: "timestamp \<Rightarrow> string" where
  "audit_timestamp t = (let s = isoformat_utc t in take (length s - 6) s @ ''Z'')"

definition audit_payload :: "log_record \<Rightarrow> string option \<Rightarrow> (string \<times> json) list" where
  "audit_payload r prev =
     [(''timestamp'', JStr (audit_timestamp (lr_time r))), (''level'', JStr (lr_level r)),
      (''logger'', JStr (lr_logger r)), (''message'', JStr (lr_message r)),
      (''pathname'', JStr (lr_pathname r)), (''lineno'', JInt (lr_lineno r))] @
     (if truthy (lr_extra r) then [(''extra'', lr_extra r)] else []) @
     [(''prev_hmac'', case prev of None \<Rightarrow> JNull | Some h \<Rightarrow> JStr h)]"

definition audit_mac :: "bytes \<Rightarrow> (string \<times> json) list \<Rightarrow> string" where
  "audit_mac key payload = hmac_hex key (utf8_encode (dumps_canonical (JObj payload)))"

definition emit :: "bytes \<Rightarrow> log_record \<Rightarrow> audit_log \<Rightarrow> audit_log" where
  "emit key r log =
     (let last = (case al_state_file log of None \<Rightarrow> al_last_hmac log | Some c \<Rightarrow> read_state_file c);
          payload = audit_payload r last;
          h = audit_mac key payload;
          line = dumps_utf8 (JObj (payload @ [(''hmac'', JStr h)]))
      in \<lparr>al_lines = al_lines log @ [line], al_state_file = Some h, al_last_hmac = Some h\<rparr>)"

definition security_record ::
  "timestamp \<Rightarrow> string \<Rightarrow> int \<Rightarrow> int option \<Rightarrow> string \<Rightarrow> string \<Rightarrow> string \<Rightarrow> log_record" where
  "security_record now pathname lineno actor_id action target_type target_id =
     \<lparr>lr_time = now, lr_level = ''INFO'', lr_logger = ''securevote.audit'',
      lr_message = ''security_action'', lr_pathname = pathname, lr_lineno = lineno,
      lr_extra = audit_event actor_id action target_type target_id ''success''\<rparr>"

definition record_audit_event ::
  "bytes \<Rightarrow> timestamp \<Rightarrow> string \<Rightarrow> int \<Rightarrow> int option \<Rightarrow> string \<Rightarrow> string \<Rightarrow> string \<Rightarrow> audit_log \<Rightarrow> audit_log" where
  "record_audit_event key now pathname lineno actor_id action target_type target_id log =
     emit key (security_record now pathname lineno actor_id action target_type target_id) log"

datatype audit_config_error = AuditKeyMissing string

definition audit_key :: "string option \<Rightarrow> string option \<Rightarrow> bool \<Rightarrow> audit_config_error + bytes" where
  "audit_key configured environment testing =
     (case or_else configured (or_else environment None) of
        None \<Rightarrow>
          if \<not> testing then Inl (AuditKeyMissing ''AUDIT_HMAC_KEY is required outside test mode'')
          else Inr (utf8_encode ''test-only-audit-hmac-key-32-bytes'')
      | Some k \<Rightarrow> Inr (utf8_encode k))"

section \<open>Verification\<close>

text \<open>Python's \<open>==\<close> on parsed JSON: numbers compare by value, dictionaries without order.\<close>

definition scale_int :: "int \<Rightarrow> int \<Rightarrow> int \<Rightarrow> int" where
  "scale_int m e low = m * 10 ^ nat (e - low)"

fun num_of :: "json \<Rightarrow> (int \<times> int) option" where
  "num_of (JInt i) = Some (i, 0)"
| "num_of (JBool b) = Some (if b then 1 else 0, 0)"
| "num_of (JFloat m e) = Some (m, e)"
| "num_of _ = None"

definition num_eq :: "json \<Rightarrow> json \<Rightarrow> bool" where
  "num_eq x y = (case (num_of x, num_of y) of
     (Some (m, e), Some (m', e')) \<Rightarrow>
       scale_int m e (min e e') = scale_int m' e' (min e e')
   | _ \<Rightarrow> False)"

function (sequential) json_eq :: "json \<Rightarrow> json \<Rightarrow> bool" where
  "json_eq JNull y = (y = JNull)"
| "json_eq (JStr s) y = (y = JStr s)"
| "json_eq (JInf b) y = (y = JInf b)"
| "json_eq JNaN y = False"
| "json_eq (JList xs) y = (case y of
     JList ys \<Rightarrow> length xs = length ys \<and> list_all (\<lambda>(x, y). json_eq x y) (zip xs ys)
   | _ \<Rightarrow> False)"
| "json_eq (JObj kvs) y = (case y of
     JObj kvs' \<Rightarrow> length kvs = length kvs' \<and>
       list_all (\<lambda>(k, v). case map_of kvs' k of None \<Rightarrow> False | Some v' \<Rightarrow> json_eq v v') kvs
   | _ \<Rightarrow> False)"
| "json_eq x y = num_eq x y"
  by pat_completeness auto
termination
  by (relation "measure (\<lambda>(x, y). size x)")
    (auto dest!: set_zip_leftD simp: less_Suc_eq_le intro: size_list_estimation')

datatype audit_error =
    InvalidJson nat
  | PrevMismatch nat json json
  | HmacMismatch nat
  | FileError

fun verify_lines ::
  "bytes \<Rightarrow> nat \<Rightarrow> json \<Rightarrow> string list \<Rightarrow> audit_error list" where
  "verify_lines key i last_hmac [] = []"
| "verify_lines key i last_hmac (raw # rest) =
     (let raw' = strip raw in
      if raw' = [] then verify_lines key (Suc i) last_hmac rest
      else
        (case loads raw' of
           None \<Rightarrow> InvalidJson i # verify_lines key (Suc i) last_hmac rest
         | Some (JObj obj) \<Rightarrow>
             (let prev = dict_get obj ''prev_hmac''; h = dict_get obj ''hmac'' in
              (if \<not> json_eq prev last_hmac then [PrevMismatch i last_hmac prev] else []) @
              (if h \<noteq> JStr (audit_mac key (dict_pop ''hmac'' obj)) then [HmacMismatch i] else []) @
              verify_lines key (Suc i) h rest)
         | Some _ \<Rightarrow> [FileError]))"

definition verify_audit :: "string list option \<Rightarrow> bytes \<Rightarrow> bool \<times> audit_error list" where
  "verify_audit content key =
     (let errors = (case content of None \<Rightarrow> [FileError] | Some ls \<Rightarrow> verify_lines key 1 JNull ls)
      in (errors = [], errors))"

definition read_audit_entries :: "string list option \<Rightarrow> nat \<Rightarrow> json list" where
  "read_audit_entries content max_entries =
     (case content of
        None \<Rightarrow> []
      | Some ls \<Rightarrow>
          (let entries = List.map_filter (\<lambda>l. if strip l = [] then None else loads (strip l)) ls
           in rev (drop (length entries - max_entries) entries)))"

definition view_audit_log ::
  "database \<Rightarrow> string option \<Rightarrow> string list option \<Rightarrow> user option
     \<Rightarrow> reply \<times> (json list \<times> bool) option" where
  "view_audit_log db key content current_user =
     roles_required db [''manager''] current_user None
       (\<lambda>u. (Page ''audit_log.html'' [],
             Some (read_audit_entries content 500,
                   case or_else key None of None \<Rightarrow> False
                   | Some k \<Rightarrow> fst (verify_audit content (utf8_encode k)))))"


section \<open>Chains of records\<close>

fun chain_payloads :: "bytes \<Rightarrow> string option \<Rightarrow> log_record list \<Rightarrow> (string \<times> json) list list" where
  "chain_payloads key prev [] = []"
| "chain_payloads key prev (r # rs) =
     (let p = audit_payload r prev in p # chain_payloads key (Some (audit_mac key p)) rs)"

definition line_of :: "bytes \<Rightarrow> (string \<times> json) list \<Rightarrow> string" where
  "line_of key p = dumps_utf8 (JObj (p @ [(''hmac'', JStr (audit_mac key p))]))"

definition opt_json :: "string option \<Rightarrow> json" where
  "opt_json prev = (case prev of None \<Rightarrow> JNull | Some h \<Rightarrow> JStr h)"

text \<open>
  Emission by several workers: before each record the writing worker holds some value of the last
  HMAC in memory, left from its own earlier writes; before anything is written it holds none.
\<close>

fun emit_by_workers :: "bytes \<Rightarrow> (string option \<times> log_record) list \<Rightarrow> audit_log \<Rightarrow> audit_log" where
  "emit_by_workers key [] log = log"
| "emit_by_workers key ((held, r) # rs) log =
     emit_by_workers key rs
       (emit key r (if al_state_file log = None then log else log\<lparr>al_last_hmac := held\<rparr>))"

definition chain_head :: "audit_log \<Rightarrow> string option" where
  "chain_head log = (case al_state_file log of None \<Rightarrow> al_last_hmac log | Some c \<Rightarrow> read_state_file c)"

lemma opt_json_simps [simp]: "opt_json None = JNull" "opt_json (Some h) = JStr h"
  by (simp_all add: opt_json_def)

lemma audit_mac_hex: "length (audit_mac key p) = 64" "list_all is_lower_hex (audit_mac key p)"
  by (simp add: audit_mac_def, simp add: audit_mac_def hmac_hex_def hex_of_bytes_lower)

lemma is_lower_hex_not_space: "is_lower_hex c \<Longrightarrow> \<not> is_space c"
  by (auto simp: is_lower_hex_def is_ascii_digit_def is_space_def Let_def)

lemma read_state_file_mac [simp]: "read_state_file (audit_mac key p) = Some (audit_mac key p)"
proof -
  let ?h = "audit_mac key p"
  have ne: "?h \<noteq> []" using audit_mac_hex(1) [of key p] by (metis length_0_conv zero_neq_numeral)
  have "\<not> is_space (hd ?h)" "\<not> is_space (last ?h)"
    using audit_mac_hex(2) [of key p] hd_in_set [OF ne] last_in_set [OF ne]
    by (auto simp: list_all_iff dest: is_lower_hex_not_space)
  then have "strip ?h = ?h" by (intro strip_id) simp
  with ne show ?thesis by (simp add: read_state_file_def or_else_def)
qed

lemma emit_lines:
  "al_lines (emit key r log) = al_lines log @ [line_of key (audit_payload r (chain_head log))]"
  "chain_head (emit key r log) = Some (audit_mac key (audit_payload r (chain_head log)))"
  "al_state_file (emit key r log) \<noteq> None"
  by (simp_all add: emit_def chain_head_def line_of_def Let_def)

lemma emit_by_workers_lines:
  "al_lines (emit_by_workers key rs log) =
     al_lines log @ map (line_of key) (chain_payloads key (chain_head log) (map snd rs))"
proof (induction rs arbitrary: log)
  case (Cons a rs)
  obtain held r where a: "a = (held, r)" by (cases a)
  let ?log = "if al_state_file log = None then log else log\<lparr>al_last_hmac := held\<rparr>"
  have "chain_head ?log = chain_head log" "al_lines ?log = al_lines log"
    by (auto simp: chain_head_def split: option.splits)
  with Cons.IH [of "emit key r ?log"] show ?case by (simp add: a emit_lines Let_def)
qed simp

lemma dumps_obj_shape:
  "\<exists>mid. dumps_utf8 (JObj kvs) = CHR ''{'' # mid @ [CHR ''}'']"
  by (simp add: dumps_utf8_def)

lemma strip_dumps_obj [simp]: "strip (dumps_utf8 (JObj kvs)) = dumps_utf8 (JObj kvs)"
proof -
  obtain mid where d: "dumps_utf8 (JObj kvs) = CHR ''{'' # mid @ [CHR ''}'']"
    using dumps_obj_shape by blast
  show ?thesis unfolding d by (rule strip_id) (simp add: is_space_def ord_def)
qed

definition record_ok :: "log_record \<Rightarrow> bool" where
  "record_ok r \<longleftrightarrow> json_ok (lr_extra r)"

lemma audit_payload_ok:
  assumes "record_ok r"
  shows "json_ok (JObj (audit_payload r prev))"
    and "json_ok (JObj (audit_payload r prev @ [(''hmac'', JStr h)]))"
    and "dict_pop ''hmac'' (audit_payload r prev @ [(''hmac'', JStr h)]) = audit_payload r prev"
    and "dict_get (audit_payload r prev @ [(''hmac'', JStr h)]) ''hmac'' = JStr h"
    and "dict_get (audit_payload r prev @ [(''hmac'', JStr h)]) ''prev_hmac'' = opt_json prev"
    and "dict_get (audit_payload r prev) ''prev_hmac'' = opt_json prev"
  using assms
  by (auto simp: audit_payload_def record_ok_def opt_json_def dict_pop_def split: option.splits)

lemma json_eq_opt [simp]: "json_eq (opt_json a) (opt_json b) \<longleftrightarrow> a = b"
  by (auto simp: opt_json_def split: option.splits)

lemma dumps_obj_not_Nil [simp]: "dumps_utf8 (JObj kvs) \<noteq> []"
  using dumps_obj_shape [of kvs] by auto

lemma verify_chain:
  assumes "list_all record_ok rs"
  shows "verify_lines key i (opt_json prev) (map (line_of key) (chain_payloads key prev rs)) = []"
  using assms
proof (induction rs arbitrary: i prev)
  case (Cons r rs)
  let ?p = "audit_payload r prev"
  have ok: "record_ok r" using Cons.prems by simp
  have "loads (line_of key ?p) = Some (JObj (?p @ [(''hmac'', JStr (audit_mac key ?p))]))"
    unfolding line_of_def by (rule loads_dumps_utf8) (rule audit_payload_ok(2) [OF ok])
  moreover have "strip (line_of key ?p) = line_of key ?p" "line_of key ?p \<noteq> []"
    by (simp_all add: line_of_def)
  ultimately show ?case
    using Cons.IH [of "Suc i" "Some (audit_mac key ?p)"] Cons.prems audit_payload_ok(3-5) [OF ok]
    by (simp add: Let_def)
qed simp

lemma security_record_ok: "record_ok (security_record now path line actor action ty t)"
  by (simp add: record_ok_def security_record_def audit_event_def)

text \<open>
  What the application writes verifies. Any sequence of events, written by any interleaving of
  workers whatever each still holds in memory, produces a log on which \<open>verify_audit\<close> reports no
  error.
\<close>

theorem audit_log_verifies:
  assumes "list_all record_ok (map snd rs)"
  shows "verify_audit (Some (al_lines (emit_by_workers key rs (init_audit_handler [] None)))) key = (True, [])"
  using verify_chain [OF assms, of key 1 None]
  by (simp add: verify_audit_def emit_by_workers_lines init_audit_handler_def chain_head_def)

definition demo_record :: "timestamp \<Rightarrow> log_record" where
  "demo_record t = security_record t ''logging_service.py'' 41 (Some 7) ''ballot_authorization.issue'' ''election'' ''1''"

lemma demo_record_ok: "record_ok (demo_record t)"
  by (simp add: demo_record_def security_record_ok)

theorem audit_log_verifies_witness:
  "verify_audit (Some (al_lines (emit_by_workers [1, 2, 3]
     [(None, demo_record 0), (Some ''stale'', demo_record 1)] (init_audit_handler [] None)))) [1, 2, 3] = (True, [])"
  by (rule audit_log_verifies) (simp add: demo_record_ok)


section \<open>Tampering\<close>

definition audit_objects :: "string list \<Rightarrow> json list" where
  "audit_objects ls = List.map_filter (\<lambda>l. if strip l = [] then None else loads (strip l)) ls"

fun maced_message :: "json \<Rightarrow> string" where
  "maced_message (JObj obj) = dumps_canonical (JObj (dict_pop ''hmac'' obj))"
| "maced_message j = dumps_canonical j"

abbreviation chain_messages :: "bytes \<Rightarrow> log_record list \<Rightarrow> string list" where
  "chain_messages key rs \<equiv> map (\<lambda>p. dumps_canonical (JObj p)) (chain_payloads key None rs)"

definition hmac_collision_under :: "bytes \<Rightarrow> bool" where
  "hmac_collision_under key \<longleftrightarrow> (\<exists>x y. x \<noteq> y \<and> hmac_sha256 key x = hmac_sha256 key y)"

lemma audit_mac_inject:
  assumes "\<not> hmac_collision_under key"
  shows "audit_mac key p = audit_mac key q \<longleftrightarrow> dumps_canonical (JObj p) = dumps_canonical (JObj q)"
proof
  assume "audit_mac key p = audit_mac key q"
  then have "hmac_sha256 key (utf8_encode (dumps_canonical (JObj p))) =
      hmac_sha256 key (utf8_encode (dumps_canonical (JObj q)))"
    unfolding audit_mac_def by (simp only: hmac_hex_inject)
  with assms have "utf8_encode (dumps_canonical (JObj p)) = utf8_encode (dumps_canonical (JObj q))"
    unfolding hmac_collision_under_def by blast
  then show "dumps_canonical (JObj p) = dumps_canonical (JObj q)" by (simp add: utf8.encode_inject)
qed (simp add: audit_mac_def)

lemma json_eq_opt_right: "json_eq x (opt_json a) \<longleftrightarrow> x = opt_json a"
  by (cases x; cases a) (auto simp: num_eq_def)

lemma canonical_inject:
  assumes "json_ok a" and "json_ok b" and "dumps_canonical a = dumps_canonical b"
  shows "sort_json a = sort_json b"
  using assms by (metis loads_dumps_canonical option.inject)

lemma map_of_sort_key:
  assumes "distinct (map fst kvs)"
  shows "map_of (sort_key fst kvs) = map_of kvs"
proof -
  have "distinct kvs" "inj_on fst (set kvs)" using assms by (simp_all add: distinct_map)
  then have "distinct (map fst (sort_key fst kvs))" by (simp add: distinct_map)
  moreover have "set (sort_key fst kvs) = set kvs" by simp
  ultimately show ?thesis using assms by (simp add: map_of_inject_set)
qed

lemma dict_get_sorted:
  assumes "distinct (map fst kvs)" and "sort_json (JObj kvs) = JObj kvs'"
  shows "dict_get kvs' k = sort_json (dict_get kvs k)"
proof -
  let ?m = "map (\<lambda>(k, v). (k, sort_json v)) kvs"
  have "map fst ?m = map fst kvs" by auto
  then have "map_of (sort_key fst ?m) = map_of ?m" by (intro map_of_sort_key) (simp only: assms(1))
  moreover have "sort_key fst ?m = kvs'" using assms(2) by simp
  ultimately have "map_of kvs' k = map_of ?m k" by simp
  also have "map_of ?m k = map_option sort_json (map_of kvs k)" by (induction kvs) auto
  finally show ?thesis by (auto simp: dict_get_def split: option.splits)
qed

lemma sort_json_opt: "sort_json x = opt_json a \<longleftrightarrow> x = opt_json a"
  by (cases x; cases a) auto

lemma canonical_field:
  assumes "json_ok (JObj a)" and "json_ok (JObj b)"
    and "dumps_canonical (JObj a) = dumps_canonical (JObj b)" and "dict_get b k = opt_json v"
  shows "dict_get a k = opt_json v"
proof -
  obtain c where c: "sort_json (JObj a) = JObj c" by simp
  have "sort_json (JObj b) = JObj c" using canonical_inject [OF assms(1-3)] c by simp
  from dict_get_sorted [OF _ this] dict_get_sorted [OF _ c]
  have "sort_json (dict_get a k) = sort_json (dict_get b k)" using assms(1,2) by simp
  then show ?thesis using assms(4) sort_json_opt [of "opt_json v" v] sort_json_opt [of "dict_get a k" v] by simp
qed

definition prev_at :: "bytes \<Rightarrow> log_record list \<Rightarrow> nat \<Rightarrow> string option" where
  "prev_at key rs i = (if i = 0 then None else Some (audit_mac key (chain_payloads key None rs ! (i - 1))))"

lemma chain_payload_nth:
  assumes "list_all record_ok rs" and "i < length rs"
  shows "\<exists>r \<in> set rs. chain_payloads key prev rs ! i =
    audit_payload r (if i = 0 then prev else Some (audit_mac key (chain_payloads key prev rs ! (i - 1))))"
  using assms
proof (induction rs arbitrary: prev i)
  case (Cons r rs)
  show ?case
  proof (cases i)
    case 0
    then show ?thesis by (simp add: Let_def)
  next
    case (Suc j)
    with Cons.IH [of j "Some (audit_mac key (audit_payload r prev))"] Cons.prems show ?thesis
      by (cases j) (auto simp: Let_def)
  qed
qed simp

lemma length_chain [simp]: "length (chain_payloads key prev rs) = length rs"
  by (induction rs arbitrary: prev) (simp_all add: Let_def)

lemma chain_payload_facts:
  assumes "list_all record_ok rs" and "i < length rs"
  shows "json_ok (JObj (chain_payloads key None rs ! i))"
    and "dict_get (chain_payloads key None rs ! i) ''prev_hmac'' = opt_json (prev_at key rs i)"
proof -
  obtain r where r: "r \<in> set rs" "chain_payloads key None rs ! i = audit_payload r (prev_at key rs i)"
    using chain_payload_nth [OF assms, of key None] by (auto simp: prev_at_def)
  have "record_ok r" using assms(1) r(1) by (simp add: list_all_iff)
  then show "json_ok (JObj (chain_payloads key None rs ! i))"
    and "dict_get (chain_payloads key None rs ! i) ''prev_hmac'' = opt_json (prev_at key rs i)"
    using audit_payload_ok(1,6) by (auto simp: r(2))
qed


lemma chain_messages_inject:
  assumes "\<not> hmac_collision_under key" and "list_all record_ok rs" and "i < length rs" and "j < length rs"
    and "chain_messages key rs ! i = chain_messages key rs ! j"
  shows "i = j"
  using assms(3-5)
proof (induction i arbitrary: j)
  case (0 j)
  have "dict_get (chain_payloads key None rs ! 0) ''prev_hmac'' = opt_json (prev_at key rs j)"
    using 0 canonical_field [OF chain_payload_facts(1) [OF assms(2)] chain_payload_facts(1) [OF assms(2)] _
        chain_payload_facts(2) [OF assms(2)], of 0 j key] by simp
  then have "opt_json (prev_at key rs j) = opt_json (prev_at key rs 0)"
    using chain_payload_facts(2) [OF assms(2) 0(1), of key] by simp
  then show ?case by (auto simp: prev_at_def split: if_splits)
next
  case (Suc i j)
  have "dict_get (chain_payloads key None rs ! Suc i) ''prev_hmac'' = opt_json (prev_at key rs j)"
    using Suc.prems canonical_field [OF chain_payload_facts(1) [OF assms(2)] chain_payload_facts(1) [OF assms(2)] _
        chain_payload_facts(2) [OF assms(2)], of "Suc i" j key] by simp
  then have eq: "opt_json (prev_at key rs j) = opt_json (prev_at key rs (Suc i))"
    using chain_payload_facts(2) [OF assms(2) Suc.prems(1), of key] by simp
  then obtain j' where j': "j = Suc j'" by (cases j) (auto simp: prev_at_def)
  have "chain_messages key rs ! i = chain_messages key rs ! j'"
    using eq j' Suc.prems by (simp add: prev_at_def audit_mac_inject [OF assms(1)])
  with Suc.IH [of j'] Suc.prems j' show ?case by simp
qed

definition genuine_objects :: "bytes \<Rightarrow> log_record list \<Rightarrow> string list \<Rightarrow> bool" where
  "genuine_objects key rs ls \<longleftrightarrow> list_all (\<lambda>j. json_ok j \<and> maced_message j \<in> set (chain_messages key rs))
     (audit_objects ls)"

lemma json_ok_dict_pop: "json_ok (JObj o') \<Longrightarrow> json_ok (JObj (dict_pop k o'))"
  by (auto simp: dict_pop_def list_all_iff distinct_map_filter)

lemma dict_get_pop: "k \<noteq> k' \<Longrightarrow> dict_get (dict_pop k o') k' = dict_get o' k'"
  by (induction o') (auto simp: dict_pop_def)

lemma prev_at_inject:
  assumes "\<not> hmac_collision_under key" and "list_all record_ok rs" and "i \<le> length rs" and "j \<le> length rs"
    and "prev_at key rs i = prev_at key rs j"
  shows "i = j"
proof (cases "i = 0 \<or> j = 0")
  case True
  then show ?thesis using assms(5) by (auto simp: prev_at_def split: if_splits)
next
  case False
  then have "chain_messages key rs ! (i - 1) = chain_messages key rs ! (j - 1)"
    using assms(3-5) by (auto simp: prev_at_def audit_mac_inject [OF assms(1)])
  then have "i - 1 = j - 1" by (rule chain_messages_inject [OF assms(1,2), rotated 2]) (use False assms(3,4) in auto)
  with False show ?thesis by arith
qed

lemma genuine_line_position:
  assumes "\<not> hmac_collision_under key" and "list_all record_ok rs" and "j \<le> length rs"
    and "json_ok (JObj obj)" and "maced_message (JObj obj) \<in> set (chain_messages key rs)"
    and "dict_get obj ''prev_hmac'' = opt_json (prev_at key rs j)"
  shows "j < length rs" and "maced_message (JObj obj) = chain_messages key rs ! j"
    and "audit_mac key (dict_pop ''hmac'' obj) = audit_mac key (chain_payloads key None rs ! j)"
proof -
  obtain i where i: "i < length rs" "maced_message (JObj obj) = chain_messages key rs ! i"
    using assms(5) by (auto simp: in_set_conv_nth)
  have "dict_get (dict_pop ''hmac'' obj) ''prev_hmac'' = opt_json (prev_at key rs i)"
    by (rule canonical_field [OF json_ok_dict_pop [OF assms(4)] chain_payload_facts(1) [OF assms(2) i(1)] _
          chain_payload_facts(2) [OF assms(2) i(1)]]) (use i in simp)
  then have "opt_json (prev_at key rs j) = opt_json (prev_at key rs i)"
    using assms(6) by (simp add: dict_get_pop)
  then have "prev_at key rs i = prev_at key rs j" by (auto simp: opt_json_def split: option.splits)
  then have ij: "i = j" using prev_at_inject [OF assms(1,2) _ assms(3)] i(1) by simp
  show "j < length rs" "maced_message (JObj obj) = chain_messages key rs ! j" using i ij by auto
  then show "audit_mac key (dict_pop ''hmac'' obj) = audit_mac key (chain_payloads key None rs ! j)"
    by (simp add: audit_mac_def)
qed

lemma accepted_is_segment:
  assumes "\<not> hmac_collision_under key" and "list_all record_ok rs"
  shows "j \<le> length rs \<Longrightarrow> genuine_objects key rs ls \<Longrightarrow>
    verify_lines key i (opt_json (prev_at key rs j)) ls = [] \<Longrightarrow>
    map maced_message (audit_objects ls) =
      take (length (audit_objects ls)) (drop j (chain_messages key rs))"
proof (induction ls arbitrary: i j)
  case Nil
  then show ?case by (simp add: audit_objects_def map_filter_simps)
next
  case (Cons l ls)
  show ?case
  proof (cases "strip l = []")
    case True
    with Cons show ?thesis by (simp add: audit_objects_def genuine_objects_def map_filter_simps)
  next
    case False
    with Cons.prems(3) obtain obj where obj: "loads (strip l) = Some (JObj obj)"
      by (auto simp: Let_def split: option.splits json.splits)
    have objs: "audit_objects (l # ls) = JObj obj # audit_objects ls"
      using False obj by (simp add: audit_objects_def map_filter_simps)
    have gen: "json_ok (JObj obj)" "maced_message (JObj obj) \<in> set (chain_messages key rs)"
      "genuine_objects key rs ls"
      using Cons.prems(2) objs by (auto simp: genuine_objects_def)
    have prev: "dict_get obj ''prev_hmac'' = opt_json (prev_at key rs j)"
      and mac: "dict_get obj ''hmac'' = JStr (audit_mac key (dict_pop ''hmac'' obj))"
      and rest: "verify_lines key (Suc i) (dict_get obj ''hmac'') ls = []"
      using Cons.prems(3) False obj by (auto simp: Let_def json_eq_opt_right split: if_splits)
    note pos = genuine_line_position [OF assms Cons.prems(1) gen(1,2) prev]
    have "dict_get obj ''hmac'' = opt_json (prev_at key rs (Suc j))"
      using mac pos(3) by (simp add: prev_at_def)
    from Cons.IH [of "Suc j", OF _ gen(3) rest [unfolded this]] pos(1)
    have "map maced_message (audit_objects ls) =
        take (length (audit_objects ls)) (drop (Suc j) (chain_messages key rs))" by simp
    moreover have "drop j (chain_messages key rs) = chain_messages key rs ! j # drop (Suc j) (chain_messages key rs)"
      by (rule Cons_nth_drop_Suc [symmetric]) (simp add: pos(1))
    ultimately show ?thesis using objs pos(2) by simp
  qed
qed



lemma audit_objects_of_chain:
  assumes "list_all record_ok rs"
  shows "map maced_message (audit_objects (map (line_of key) (chain_payloads key prev rs))) =
      map (\<lambda>p. dumps_canonical (JObj p)) (chain_payloads key prev rs)
    \<and> list_all json_ok (audit_objects (map (line_of key) (chain_payloads key prev rs)))"
  using assms
proof (induction rs arbitrary: prev)
  case Nil
  show ?case by (simp add: audit_objects_def map_filter_simps)
next
  case (Cons r rs)
  let ?p = "audit_payload r prev"
  let ?o = "?p @ [(''hmac'', JStr (audit_mac key ?p))]"
  have ok: "record_ok r" using Cons.prems by simp
  have "loads (line_of key ?p) = Some (JObj ?o)"
    unfolding line_of_def by (rule loads_dumps_utf8) (rule audit_payload_ok(2) [OF ok])
  moreover have "strip (line_of key ?p) = line_of key ?p" "line_of key ?p \<noteq> []"
    by (simp_all add: line_of_def)
  ultimately have objs: "audit_objects (map (line_of key) (chain_payloads key prev (r # rs))) =
      JObj ?o # audit_objects (map (line_of key) (chain_payloads key (Some (audit_mac key ?p)) rs))"
    by (simp add: audit_objects_def map_filter_simps Let_def)
  show ?case
    unfolding objs using Cons.IH [of "Some (audit_mac key ?p)"] Cons.prems audit_payload_ok(2,3) [OF ok]
    by (simp add: Let_def del: json_ok.simps)
qed

lemma take_chain: "take m (chain_payloads key prev rs) = chain_payloads key prev (take m rs)"
  by (induction rs arbitrary: m prev) (auto simp: Let_def take_Cons')

text \<open>
  The limit of tamper evidence. Dropping records from the end of the log is not detected: every
  initial segment of the lines the application wrote passes \<open>verify_audit\<close>.
\<close>

theorem audit_truncation_undetected:
  assumes "list_all record_ok (map snd rs)"
  shows "verify_audit (Some (take m (al_lines (emit_by_workers key rs (init_audit_handler [] None))))) key
     = (True, [])"
proof -
  have "list_all record_ok (take m (map snd rs))"
    using assms by (metis in_set_takeD list_all_iff)
  from verify_chain [OF this, of key 1 None] show ?thesis
    by (simp add: verify_audit_def emit_by_workers_lines init_audit_handler_def chain_head_def Let_def
        take_map take_chain)
qed

theorem audit_truncation_undetected_witness:
  "verify_audit (Some (take 1 (al_lines (emit_by_workers [1, 2, 3]
     [(None, demo_record 0), (None, demo_record 1)] (init_audit_handler [] None))))) [1, 2, 3] = (True, [])"
  by (rule audit_truncation_undetected) (simp add: demo_record_ok)


end
