(* ===== verification/Blind_Signature.thy ===== *)
theory Blind_Signature
  imports Hashlib Json
begin

text \<open>
  The blind-signing authority: \<^verbatim>\<open>app/security/blind_signature.py\<close>, with the browser's half of the
  protocol from \<^verbatim>\<open>app/static/js/blind_vote.js\<close>. The \<open>cryptography\<close> package is the parameter
  \<open>crypto_lib\<close>. The key store is what the module keeps: one directory per election under the
  instance path, and the process-wide cache. The instance path is fixed, so the cache is keyed by
  election alone.
\<close>

section \<open>Modular arithmetic\<close>

text \<open>Python's three-argument \<open>pow\<close>, for a non-negative exponent.\<close>

definition pow_mod :: "int \<Rightarrow> int \<Rightarrow> int \<Rightarrow> int" where
  "pow_mod x d n = x ^ nat d mod n"

text \<open>JavaScript's \<open>%\<close> and \<open>/\<close> on BigInt truncate towards zero.\<close>

definition js_rem :: "int \<Rightarrow> int \<Rightarrow> int" where
  "js_rem a b = sgn a * (\<bar>a\<bar> mod \<bar>b\<bar>)"

definition js_div :: "int \<Rightarrow> int \<Rightarrow> int" where
  "js_div a b = sgn a * sgn b * (\<bar>a\<bar> div \<bar>b\<bar>)"

lemma js_rem_nonneg [simp]: "0 \<le> a \<Longrightarrow> 0 < b \<Longrightarrow> js_rem a b = a mod b"
  by (cases "a = 0") (simp_all add: js_rem_def)

lemma js_div_nonneg [simp]: "0 \<le> a \<Longrightarrow> 0 < b \<Longrightarrow> js_div a b = a div b"
  by (cases "a = 0") (simp_all add: js_div_def)

lemma js_norm: "0 < m \<Longrightarrow> js_rem (js_rem a m + m) m = a mod m"
proof -
  assume m: "0 < m"
  show ?thesis
  proof (cases "0 \<le> a")
    case True
    then show ?thesis using m by simp
  next
    case False
    then have r: "js_rem a m = - ((- a) mod m)" using m by (simp add: js_rem_def)
    have "0 \<le> js_rem a m + m" unfolding r using pos_mod_bound [OF m, of "- a"] by linarith
    then have "js_rem (js_rem a m + m) m = (- ((- a) mod m)) mod m" using m r by simp
    also have "\<dots> = a mod m" by (metis add.inverse_inverse mod_minus_eq)
    finally show ?thesis .
  qed
qed

lemma js_div_rem_abs: "b \<noteq> 0 \<Longrightarrow> \<bar>a - js_div a b * b\<bar> < \<bar>b\<bar>"
proof -
  assume b: "b \<noteq> 0"
  have "js_div a b * b = sgn a * (\<bar>a\<bar> div \<bar>b\<bar> * \<bar>b\<bar>)"
    by (simp add: js_div_def abs_sgn mult.assoc mult.left_commute [of "sgn b"])
  moreover have "a = sgn a * \<bar>a\<bar>" by (simp add: sgn_mult_abs)
  ultimately have "a - js_div a b * b = sgn a * (\<bar>a\<bar> - \<bar>a\<bar> div \<bar>b\<bar> * \<bar>b\<bar>)"
    by (metis right_diff_distrib)
  then have "\<bar>a - js_div a b * b\<bar> \<le> \<bar>\<bar>a\<bar> mod \<bar>b\<bar>\<bar>"
    by (simp add: minus_div_mult_eq_mod abs_mult abs_sgn_eq)
  also have "\<dots> < \<bar>b\<bar>" using b by simp
  finally show ?thesis .
qed

function pow_loop :: "int \<Rightarrow> int \<Rightarrow> int \<Rightarrow> int \<Rightarrow> int" where
  "pow_loop base exponent result m =
     (if exponent \<le> 0 then result
      else pow_loop (js_rem (base * base) m) (exponent div 2)
             (if odd exponent then js_rem (result * base) m else result) m)"
  by auto
termination
  by (relation "measure (\<lambda>(base, exponent, result, m). nat exponent)") auto

declare pow_loop.simps [simp del]

definition mod_pow :: "int \<Rightarrow> int \<Rightarrow> int \<Rightarrow> int" where
  "mod_pow base exponent m = pow_loop (js_rem (js_rem base m + m) m) exponent 1 m"

function inverse_loop :: "int \<Rightarrow> int \<Rightarrow> int \<Rightarrow> int \<Rightarrow> int" where
  "inverse_loop old_r r old_s s =
     (if r = 0 then old_s
      else (let q = js_div old_r r in inverse_loop r (old_r - q * r) s (old_s - q * s)))"
  by auto
termination
  by (relation "measure (\<lambda>(old_r, r, old_s, s). nat \<bar>r\<bar>)") (auto simp: js_div_rem_abs)

declare inverse_loop.simps [simp del]

definition mod_inverse :: "int \<Rightarrow> int \<Rightarrow> int" where
  "mod_inverse a m = js_rem (js_rem (inverse_loop a m 1 0) m + m) m"

section \<open>Correctness of the browser's arithmetic\<close>

lemma pow_loop_correct:
  assumes "1 < m" and "0 \<le> base" and "0 \<le> result" and "result < m"
  shows "pow_loop base exponent result m = (result * base ^ nat exponent) mod m"
  using assms
proof (induction base exponent result m rule: pow_loop.induct)
  case (1 base exponent result m)
  show ?case
  proof (cases "exponent \<le> 0")
    case True
    with 1 show ?thesis by (simp add: pow_loop.simps)
  next
    case False
    let ?h = "nat (exponent div 2)"
    let ?res = "if odd exponent then js_rem (result * base) m else result"
    have n: "nat exponent = 2 * ?h + (if odd exponent then 1 else 0)" using False by (auto elim!: oddE evenE)
    have "pow_loop base exponent result m = pow_loop (js_rem (base * base) m) (exponent div 2) ?res m"
      using False by (simp add: pow_loop.simps [of base])
    also have "\<dots> = (?res * (base * base mod m) ^ ?h) mod m"
      using 1(1) [OF False] 1(2-) by (simp split: if_splits)
    also have "\<dots> = (?res * (base * base) ^ ?h) mod m"
      by (metis mod_mult_right_eq power_mod)
    also have "\<dots> = (result * base ^ nat exponent) mod m"
    proof (cases "odd exponent")
      case True
      then have "(?res * (base * base) ^ ?h) mod m = (result * base * (base * base) ^ ?h) mod m"
        using 1(2-) by (simp add: mod_mult_left_eq)
      also have "result * base * (base * base) ^ ?h = result * base ^ nat exponent"
        using n True by (simp add: power_mult power2_eq_square)
      finally show ?thesis .
    next
      case False
      then show ?thesis using n by (simp add: power_mult power2_eq_square)
    qed
    finally show ?thesis .
  qed
qed

lemma mod_pow_correct:
  assumes "1 < m"
  shows "mod_pow base exponent m = pow_mod base exponent m"
  using pow_loop_correct [OF assms, of "base mod m" 1 exponent] assms
  by (simp add: mod_pow_def js_norm pow_mod_def power_mod)

lemma inverse_loop_correct:
  assumes "0 \<le> old_r" and "0 \<le> r" and "0 < m"
    and "m dvd old_r - old_s * a" and "m dvd r - s * a"
  shows "m dvd gcd old_r r - inverse_loop old_r r old_s s * a"
  using assms
proof (induction old_r r old_s s rule: inverse_loop.induct)
  case (1 old_r r old_s s)
  show ?case
  proof (cases "r = 0")
    case True
    with 1 show ?thesis by (simp add: inverse_loop.simps)
  next
    case False
    let ?q = "js_div old_r r"
    have q: "?q = old_r div r" using 1(2,3) False by simp
    have rem: "old_r - ?q * r = old_r mod r" by (simp add: q minus_div_mult_eq_mod)
    have "m dvd (old_r - old_s * a) - ?q * (r - s * a)" using dvd_diff [OF 1(5) dvd_mult [OF 1(6)]] .
    then have "m dvd (old_r - ?q * r) - (old_s - ?q * s) * a" by (simp add: algebra_simps)
    moreover have "0 \<le> old_r - ?q * r" using 1(3) False by (simp add: rem)
    ultimately have "m dvd gcd r (old_r - ?q * r) - inverse_loop r (old_r - ?q * r) s (old_s - ?q * s) * a"
      using 1(1) [OF False refl] 1(2-6) by blast
    then show ?thesis
      using False by (simp add: inverse_loop.simps [of old_r r] rem Let_def gcd_red_int [symmetric])
  qed
qed

lemma mod_inverse_correct:
  assumes "1 < m" and "0 \<le> a" and "coprime a m"
  shows "a * mod_inverse a m mod m = 1" and "0 \<le> mod_inverse a m" and "mod_inverse a m < m"
proof -
  have "m dvd 1 - inverse_loop a m 1 0 * a"
    using inverse_loop_correct [of a m m 1 a 0] assms by (simp add: coprime_iff_gcd_eq_1)
  then have "inverse_loop a m 1 0 * a mod m = 1 mod m" by (simp add: mod_eq_dvd_iff dvd_diff_commute)
  then show "a * mod_inverse a m mod m = 1"
    using assms(1) by (simp add: mod_inverse_def js_norm mod_mult_right_eq mult.commute)
  show "0 \<le> mod_inverse a m" "mod_inverse a m < m"
    using assms(1) by (simp_all add: mod_inverse_def js_norm)
qed

section \<open>Keys and the key store\<close>

record rsa_public =
  pub_n :: int
  pub_e :: int

record rsa_private =
  priv_d :: int
  priv_public :: rsa_public

type_synonym keypair = "rsa_private \<times> rsa_public"

text \<open>
  What the module uses of \<open>cryptography\<close>: \<open>None\<close> is a raised \<open>TypeError\<close> or \<open>ValueError\<close>, \<open>NotRsa\<close> a
  key of another kind.
\<close>

datatype 'k loaded = Rsa 'k | NotRsa

record crypto_lib =
  load_pem_private_key :: "bytes \<Rightarrow> rsa_private loaded option"
  load_pem_public_key :: "bytes \<Rightarrow> rsa_public loaded option"
  private_bytes_pem :: "rsa_private \<Rightarrow> bytes"
  public_bytes_pem :: "rsa_public \<Rightarrow> bytes"
  public_bytes_der :: "rsa_public \<Rightarrow> bytes"

definition crypto_lib_ok :: "crypto_lib \<Rightarrow> bool" where
  "crypto_lib_ok lib \<longleftrightarrow>
     (\<forall>k. load_pem_private_key lib (private_bytes_pem lib k) = Some (Rsa k)) \<and>
     (\<forall>k. load_pem_public_key lib (public_bytes_pem lib k) = Some (Rsa k))"

fun bit_length :: "nat \<Rightarrow> nat" where
  "bit_length n = (if n = 0 then 0 else Suc (bit_length (n div 2)))"

declare bit_length.simps [simp del]

definition key_size :: "rsa_public \<Rightarrow> nat" where
  "key_size k = bit_length (nat (pub_n k))"

datatype key_file = Absent | Symlink | Regular bytes

datatype key_dir = NoDir | UnsafeDir | KeyDir key_file key_file key_file

record key_store =
  ks_dirs :: "int \<Rightarrow> key_dir"
  ks_cache :: "int \<Rightarrow> keypair option"

datatype key_exc =
    BlindSigningKeyError string
  | KeyTypeError string
  | KeyValueError string

definition validated_election_id :: "int \<Rightarrow> key_exc + int" where
  "validated_election_id election_id =
     (if election_id < 1 then Inl (KeyValueError ''election_id must be a positive integer.'')
      else Inr election_id)"

definition public_key_fingerprint :: "crypto_lib \<Rightarrow> rsa_public \<Rightarrow> string" where
  "public_key_fingerprint lib k = sha256_hex (public_bytes_der lib k)"

definition key_algorithm :: string where
  "key_algorithm = ''rsa-2048-fdh-sha256''"

text \<open>Python's \<open>==\<close> between a JSON value and an integer: \<open>1 == 1.0 == True\<close>.\<close>

fun json_equals_int :: "json \<Rightarrow> int \<Rightarrow> bool" where
  "json_equals_int (JInt j) i = (j = i)"
| "json_equals_int (JBool b) i = ((if b then 1 else 0) = i)"
| "json_equals_int (JFloat m e) i =
     (if 0 \<le> e then m * 10 ^ nat e = i else m = i * 10 ^ nat (- e))"
| "json_equals_int _ i = False"

fun metadata_matches :: "json \<Rightarrow> int \<Rightarrow> string \<Rightarrow> bool" where
  "metadata_matches (JObj kvs) election_id fingerprint \<longleftrightarrow>
     length kvs = 3 \<and> dict_get kvs ''algorithm'' = JStr key_algorithm
     \<and> json_equals_int (dict_get kvs ''election_id'') election_id
     \<and> dict_get kvs ''public_key_sha256'' = JStr fingerprint"
| "metadata_matches _ _ _ = False"

fun read_file :: "key_file \<Rightarrow> bytes option" where
  "read_file (Regular b) = Some b"
| "read_file _ = None"

definition for_election :: "string \<Rightarrow> int \<Rightarrow> string \<Rightarrow> key_exc" where
  "for_election pre election_id post = BlindSigningKeyError (pre @ show_int election_id @ post)"

definition read_metadata :: "bytes \<Rightarrow> json option" where
  "read_metadata b = (case utf8_decode b of None \<Rightarrow> None | Some t \<Rightarrow> loads t)"

definition load_and_validate_keypair ::
  "crypto_lib \<Rightarrow> key_dir \<Rightarrow> int \<Rightarrow> key_exc + keypair" where
  "load_and_validate_keypair lib dir election_id =
     (case dir of
        NoDir \<Rightarrow> Inl (for_election ''No blind-signing keypair exists for election '' election_id ''.'')
      | UnsafeDir \<Rightarrow>
          Inl (for_election ''The blind-signing key path for election '' election_id '' is unsafe.'')
      | KeyDir private public metadata \<Rightarrow>
          (case (read_file private, read_file public, read_file metadata) of
             (Some priv_pem, Some pub_pem, Some meta_bytes) \<Rightarrow>
               (case (load_pem_private_key lib priv_pem, load_pem_public_key lib pub_pem,
                      read_metadata meta_bytes) of
                  (Some priv, Some pub, Some meta) \<Rightarrow>
                    (case (priv, pub) of
                       (Rsa private_key, Rsa public_key) \<Rightarrow>
                         if key_size (priv_public private_key) \<noteq> 2048 \<or> key_size public_key \<noteq> 2048
                            \<or> priv_public private_key \<noteq> public_key \<or> pub_e public_key \<noteq> 65537
                         then Inl (for_election ''The blind-signing keypair for election '' election_id
                                     '' failed validation.'')
                         else if \<not> metadata_matches meta election_id
                                   (public_key_fingerprint lib public_key)
                         then Inl (for_election ''The blind-signing metadata for election '' election_id
                                     '' is invalid.'')
                         else Inr (private_key, public_key)
                     | _ \<Rightarrow> Inl (BlindSigningKeyError ''Blind-signing keys must be RSA keys.''))
                | _ \<Rightarrow> Inl (for_election ''The blind-signing keypair for election '' election_id
                              '' is invalid.''))
           | _ \<Rightarrow> Inl (for_election ''The blind-signing keypair for election '' election_id
                         '' is incomplete.'')))"


definition key_metadata :: "crypto_lib \<Rightarrow> int \<Rightarrow> rsa_public \<Rightarrow> json" where
  "key_metadata lib election_id k =
     JObj [(''algorithm'', JStr key_algorithm), (''election_id'', JInt election_id),
           (''public_key_sha256'', JStr (public_key_fingerprint lib k))]"

text \<open>
  The state of the parent directory, and \<open>race\<close>, the directory another process may have published
  between the existence check and the rename. Renaming a directory succeeds when nothing or an
  empty directory is in its place; otherwise the published one is authoritative.
\<close>

datatype key_root = RootOk | RootUncreatable | RootUnsafe

definition rename_key_dir :: "key_dir \<Rightarrow> key_dir \<Rightarrow> key_dir" where
  "rename_key_dir temporary target =
     (if target = NoDir \<or> target = KeyDir Absent Absent Absent then temporary else target)"

definition generate_blind_signing_keypair ::
  "crypto_lib \<Rightarrow> key_root \<Rightarrow> rsa_private \<Rightarrow> key_dir \<Rightarrow> key_store \<Rightarrow> int \<Rightarrow> (key_exc + unit) \<times> key_store" where
  "generate_blind_signing_keypair lib root drawn_key race ks election_id =
     (case validated_election_id election_id of
        Inl e \<Rightarrow> (Inl e, ks)
      | Inr eid \<Rightarrow>
          if ks_cache ks eid \<noteq> None then (Inr (), ks)
          else if ks_dirs ks eid \<noteq> NoDir then
            (case load_and_validate_keypair lib (ks_dirs ks eid) eid of
               Inl e \<Rightarrow> (Inl e, ks)
             | Inr pair \<Rightarrow> (Inr (), ks\<lparr>ks_cache := (ks_cache ks)(eid := Some pair)\<rparr>))
          else
            (case root of
               RootUncreatable \<Rightarrow>
                 (Inl (BlindSigningKeyError ''Could not create the blind-signing key directory.''), ks)
             | RootUnsafe \<Rightarrow> (Inl (BlindSigningKeyError ''The blind-signing key root is unsafe.''), ks)
             | RootOk \<Rightarrow>
                 (let public_key = priv_public drawn_key;
                      temporary = KeyDir (Regular (private_bytes_pem lib drawn_key))
                        (Regular (public_bytes_pem lib public_key))
                        (Regular (utf8_encode (dumps_canonical (key_metadata lib eid public_key))));
                      published = rename_key_dir temporary race;
                      ks1 = ks\<lparr>ks_dirs := (ks_dirs ks)(eid := published)\<rparr> in
                  case load_and_validate_keypair lib published eid of
                    Inl e \<Rightarrow> (Inl e, ks1)
                  | Inr pair \<Rightarrow> (Inr (), ks1\<lparr>ks_cache := (ks_cache ks1)(eid := Some pair)\<rparr>))))"

definition load_keys :: "crypto_lib \<Rightarrow> key_store \<Rightarrow> int \<Rightarrow> (key_exc + keypair) \<times> key_store" where
  "load_keys lib ks election_id =
     (case validated_election_id election_id of
        Inl e \<Rightarrow> (Inl e, ks)
      | Inr eid \<Rightarrow>
          (case ks_cache ks eid of
             Some pair \<Rightarrow> (Inr pair, ks)
           | None \<Rightarrow>
               (case load_and_validate_keypair lib (ks_dirs ks eid) eid of
                  Inl e \<Rightarrow> (Inl e, ks)
                | Inr pair \<Rightarrow> (Inr pair, ks\<lparr>ks_cache := (ks_cache ks)(eid := Some pair)\<rparr>))))"

record key_components =
  kc_n :: string
  kc_e :: string
  kc_key_id :: string

definition get_public_key_components ::
  "crypto_lib \<Rightarrow> key_store \<Rightarrow> int \<Rightarrow> (key_exc + key_components) \<times> key_store" where
  "get_public_key_components lib ks election_id =
     (case load_keys lib ks election_id of
        (Inl e, ks') \<Rightarrow> (Inl e, ks')
      | (Inr (_, public_key), ks') \<Rightarrow>
          (Inr \<lparr>kc_n = py_hex (pub_n public_key), kc_e = py_hex (pub_e public_key),
                kc_key_id = public_key_fingerprint lib public_key\<rparr>, ks'))"

definition valid_fingerprint :: "string \<Rightarrow> bool" where
  "valid_fingerprint k \<longleftrightarrow> length k = 64 \<and> list_all is_lower_hex k"

record key_env =
  ke_root :: key_root
  ke_drawn :: rsa_private
  ke_race :: key_dir

definition ensure_election_blind_signing_key ::
  "crypto_lib \<Rightarrow> key_env \<Rightarrow> key_store \<Rightarrow> int \<Rightarrow> string option \<Rightarrow> bool
     \<Rightarrow> (key_exc + key_components) \<times> key_store" where
  "ensure_election_blind_signing_key lib env ks election_id expected_key_id allow_create =
     (let prepared =
        (case expected_key_id of
           None \<Rightarrow>
             if \<not> allow_create
             then (Inl (BlindSigningKeyError ''The election has no anchored blind-signing key.''), ks)
             else generate_blind_signing_keypair lib (ke_root env) (ke_drawn env) (ke_race env) ks election_id
         | Some k \<Rightarrow>
             if \<not> valid_fingerprint k
             then (Inl (BlindSigningKeyError ''The election blind-signing key fingerprint is invalid.''), ks)
             else (Inr (), ks)) in
      case prepared of
        (Inl e, ks1) \<Rightarrow> (Inl e, ks1)
      | (Inr _, ks1) \<Rightarrow>
          (case get_public_key_components lib ks1 election_id of
             (Inl e, ks2) \<Rightarrow> (Inl e, ks2)
           | (Inr components, ks2) \<Rightarrow>
               if expected_key_id \<noteq> None \<and> expected_key_id \<noteq> Some (kc_key_id components)
               then (Inl (BlindSigningKeyError
                       ''The election blind-signing key does not match its durable fingerprint.''), ks2)
               else (Inr components, ks2)))"

section \<open>Signing and verification\<close>

definition be_bytes4 :: "nat \<Rightarrow> bytes" where
  "be_bytes4 n = [word_of_nat (n div 16777216), word_of_nat (n div 65536), word_of_nat (n div 256), word_of_nat n]"

definition int_of_bytes :: "bytes \<Rightarrow> int" where
  "int_of_bytes bs = foldl (\<lambda>a b. 256 * a + uint b) 0 bs"

definition fdh_expand :: "bytes \<Rightarrow> bytes" where
  "fdh_expand ballot_bytes =
     (let seed = sha256 ballot_bytes in
      concat (map (\<lambda>counter. sha256 (seed @ be_bytes4 counter)) [0..<8]))"

definition hash_ballot :: "bytes \<Rightarrow> int \<Rightarrow> key_exc + int" where
  "hash_ballot ballot_bytes n =
     (if n < 2 then Inl (KeyValueError ''n must be a valid RSA modulus.'')
      else Inr (int_of_bytes (fdh_expand ballot_bytes) mod n))"

definition blind_sign :: "crypto_lib \<Rightarrow> key_store \<Rightarrow> int \<Rightarrow> int \<Rightarrow> (key_exc + int) \<times> key_store" where
  "blind_sign lib ks blinded_message_int election_id =
     (case load_keys lib ks election_id of
        (Inl e, ks') \<Rightarrow> (Inl e, ks')
      | (Inr (private_key, _), ks') \<Rightarrow>
          (let modulus = pub_n (priv_public private_key) in
           if \<not> (0 < blinded_message_int \<and> blinded_message_int < modulus)
              \<or> gcd blinded_message_int modulus \<noteq> 1
           then (Inl (KeyValueError ''The blinded ballot is outside the election key domain.''), ks')
           else (Inr (pow_mod blinded_message_int (priv_d private_key) modulus), ks')))"

definition verify_unblinded_signature ::
  "crypto_lib \<Rightarrow> key_store \<Rightarrow> bytes \<Rightarrow> int \<Rightarrow> int \<Rightarrow> (key_exc + bool) \<times> key_store" where
  "verify_unblinded_signature lib ks ballot_bytes signature_int election_id =
     (case load_keys lib ks election_id of
        (Inl e, ks') \<Rightarrow> (Inl e, ks')
      | (Inr (_, public_key), ks') \<Rightarrow>
          if \<not> (0 < signature_int \<and> signature_int < pub_n public_key) then (Inr False, ks')
          else
            (case hash_ballot ballot_bytes (pub_n public_key) of
               Inl e \<Rightarrow> (Inl e, ks')
             | Inr expected \<Rightarrow>
                 (Inr (pow_mod signature_int (pub_e public_key) (pub_n public_key) = expected), ks')))"

section \<open>The browser's half\<close>

definition js_blind :: "rsa_public \<Rightarrow> int \<Rightarrow> int \<Rightarrow> int" where
  "js_blind k r m = js_rem (m * mod_pow r (pub_e k) (pub_n k)) (pub_n k)"

definition js_unblind :: "rsa_public \<Rightarrow> int \<Rightarrow> int \<Rightarrow> int" where
  "js_unblind k r blind_sig = js_rem (blind_sig * mod_inverse r (pub_n k)) (pub_n k)"


section \<open>Lemmas on the key store\<close>

lemma load_keys_again:
  assumes "load_keys lib ks eid = (Inr pair, ks1)"
  shows "load_keys lib ks1 eid = (Inr pair, ks1)" and "ks_dirs ks1 = ks_dirs ks"
    and "1 \<le> eid"
  using assms by (auto simp: load_keys_def validated_election_id_def split: option.splits sum.splits if_splits)

lemma load_keys_dirs: "ks_dirs (snd (load_keys lib ks eid)) = ks_dirs ks"
  by (auto simp: load_keys_def validated_election_id_def split: option.splits sum.splits)

lemma load_and_validate_SomeD:
  assumes "load_and_validate_keypair lib dir eid = Inr (priv, pub)"
  shows "priv_public priv = pub" and "key_size pub = 2048" and "pub_e pub = 65537"
  using assms by (auto simp: load_and_validate_keypair_def split: key_dir.splits option.splits loaded.splits if_splits)

lemma hash_ballot_range:
  assumes "hash_ballot b n = Inr m"
  shows "2 \<le> n" and "0 \<le> m" and "m < n"
  using assms by (auto simp: hash_ballot_def split: if_splits)

definition rsa_inverts :: "rsa_private \<Rightarrow> bool" where
  "rsa_inverts k \<longleftrightarrow> (\<forall>x. 0 \<le> x \<longrightarrow> x < pub_n (priv_public k) \<longrightarrow>
     pow_mod (pow_mod x (priv_d k) (pub_n (priv_public k))) (pub_e (priv_public k)) (pub_n (priv_public k)) = x)"

lemma js_blind_eq:
  assumes "1 < pub_n k" and "0 \<le> m"
  shows "js_blind k r m = m * r ^ nat (pub_e k) mod pub_n k"
  using assms by (simp add: js_blind_def mod_pow_correct pow_mod_def mod_mult_right_eq)

lemma mod_nonzero_range:
  assumes "1 < n" and "x mod n \<noteq> 0"
  shows "0 < x mod n" and "x mod n < (n :: int)"
  using assms pos_mod_sign [of n x] pos_mod_bound [of n x] by linarith+

lemma gcd_mod_int: "gcd (x mod n) n = gcd x (n :: int)"
  by (metis gcd.commute gcd_red_int)

lemma unblind_power:
  fixes n s b m r ri :: int
  assumes "s ^ e mod n = b" and "b = m * r ^ e mod n" and "r * ri mod n = 1" and "1 < n"
    and "0 \<le> m" and "m < n"
  shows "(s * ri mod n) ^ e mod n = m"
proof -
  have "(s * ri mod n) ^ e mod n = (s ^ e mod n * ri ^ e) mod n"
    by (simp add: power_mod power_mult_distrib mod_mult_left_eq)
  also have "\<dots> = m * r ^ e * ri ^ e mod n" using assms(1,2) by (simp add: mod_mult_left_eq)
  also have "\<dots> = m * ((r * ri) ^ e mod n) mod n" by (simp add: power_mult_distrib mult.assoc mod_mult_right_eq)
  also have "(r * ri) ^ e mod n = 1" using assms(3,4) by (metis power_mod power_one mod_pos_pos_trivial zero_le_one)
  finally show ?thesis using assms(5,6) by simp
qed

lemma unblinded_signature_verifies:
  assumes "load_keys lib ks eid = (Inr (priv, pub), ks1)" and "priv_public priv = pub"
    and "rsa_inverts priv" and "0 < pub_e pub" and "0 \<le> r" and "coprime r (pub_n pub)"
    and "hash_ballot ballot (pub_n pub) = Inr m"
    and "blind_sign lib ks (js_blind pub r m) eid = (Inr s, ks2)"
  shows "verify_unblinded_signature lib ks2 ballot (js_unblind pub r s) eid = (Inr True, ks2)"
proof -
  let ?n = "pub_n pub" let ?b = "js_blind pub r m" let ?e = "nat (pub_e pub)"
  have n: "1 < ?n" and m: "0 \<le> m" "m < ?n" using hash_ballot_range [OF assms(7)] by auto
  note ld = load_keys_again [OF assms(1)]
  have b: "0 < ?b" "?b < ?n" and s: "s = pow_mod ?b (priv_d priv) ?n" and ks2: "ks2 = ks1"
    using assms(8) by (auto simp: blind_sign_def assms(1,2) Let_def split: if_splits)
  have b_eq: "?b = m * r ^ ?e mod ?n" using js_blind_eq [OF n m(1)] .
  have se: "s ^ ?e mod ?n = ?b"
    using assms(3) b unfolding rsa_inverts_def assms(2) by (simp add: s pow_mod_def)
  note inv = mod_inverse_correct [OF n assms(5,6)]
  let ?u = "s * mod_inverse r ?n mod ?n"
  have u: "js_unblind pub r s = ?u"
    using n inv by (simp add: js_unblind_def s pow_mod_def mod_mult_left_eq)
  have ue: "?u ^ ?e mod ?n = m" by (rule unblind_power [OF se b_eq inv(1) n m])
  have "m \<noteq> 0" using b_eq b by auto
  with ue assms(4) have "?u \<noteq> 0" by (auto simp: power_0_left)
  then have range: "0 < ?u" "?u < ?n" using n by (auto intro: mod_nonzero_range)
  show ?thesis
    using range ue by (simp add: verify_unblinded_signature_def ks2 ld(1) u assms(7) pow_mod_def)
qed

lemma blind_sign_refused:
  assumes "load_keys lib ks eid = (Inr (priv, pub), ks1)" and "priv_public priv = pub"
    and "coprime r (pub_n pub)" and "hash_ballot ballot (pub_n pub) = Inr m"
    and "blind_sign lib ks (js_blind pub r m) eid = (Inl e, ks2)"
  shows "\<not> coprime m (pub_n pub)"
proof
  let ?n = "pub_n pub" let ?b = "js_blind pub r m"
  assume cop: "coprime m ?n"
  have n: "1 < ?n" and m: "0 \<le> m" using hash_ballot_range [OF assms(4)] by auto
  have b: "?b = m * r ^ nat (pub_e pub) mod ?n" using js_blind_eq [OF n m] .
  have "coprime (m * r ^ nat (pub_e pub)) ?n" using cop assms(3) by simp
  then have g: "gcd ?b ?n = 1" unfolding b gcd_mod_int by (simp add: coprime_iff_gcd_eq_1)
  have "?b \<noteq> 0" using g n by auto
  then have "0 < ?b" "?b < ?n" using n unfolding b by (auto intro: mod_nonzero_range)
  with g assms(5) show False by (simp add: blind_sign_def assms(1,2) Let_def)
qed

text \<open>
  C10: the blind-signature protocol works end to end. Under a loaded election key that inverts (the
  documented property of an RSA key pair), for every ballot and every blinding factor coprime to
  the modulus, signing the value the browser blinded either yields a signature that, unblinded
  by the browser, the server accepts for exactly that ballot, or is refused because the ballot's
  hash is not coprime to the modulus.
\<close>

theorem blind_signature_round_trip:
  assumes "load_keys lib ks eid = (Inr (priv, pub), ks1)" and "priv_public priv = pub"
    and "rsa_inverts priv" and "0 < pub_e pub" and "0 \<le> r" and "coprime r (pub_n pub)"
    and "hash_ballot ballot (pub_n pub) = Inr m"
  shows "case blind_sign lib ks (js_blind pub r m) eid of
      (Inl _, _) \<Rightarrow> \<not> coprime m (pub_n pub)
    | (Inr s, ks2) \<Rightarrow>
        verify_unblinded_signature lib ks2 ballot (js_unblind pub r s) eid = (Inr True, ks2)"
  using unblinded_signature_verifies [OF assms] blind_sign_refused [OF assms(1,2,6,7)]
  by (auto split: prod.splits sum.splits)


definition toy_key :: rsa_private where
  "toy_key = \<lparr>priv_d = 7, priv_public = \<lparr>pub_n = 33, pub_e = 3\<rparr>\<rparr>"

definition toy_store :: key_store where
  "toy_store = \<lparr>ks_dirs = (\<lambda>_. NoDir), ks_cache = (\<lambda>_. Some (toy_key, priv_public toy_key))\<rparr>"

definition encode_ints :: "int list \<Rightarrow> bytes" where
  "encode_ints is = utf8_encode (dumps_utf8 (JList (map JInt is)))"

definition toy_lib :: crypto_lib where
  "toy_lib = \<lparr>load_pem_private_key =
       (\<lambda>b. case read_metadata b of
          Some (JList [JInt d, JInt n, JInt e]) \<Rightarrow>
            Some (Rsa \<lparr>priv_d = d, priv_public = \<lparr>pub_n = n, pub_e = e\<rparr>\<rparr>)
        | _ \<Rightarrow> None),
     load_pem_public_key =
       (\<lambda>b. case read_metadata b of
          Some (JList [JInt n, JInt e]) \<Rightarrow> Some (Rsa \<lparr>pub_n = n, pub_e = e\<rparr>)
        | _ \<Rightarrow> None),
     private_bytes_pem = (\<lambda>k. encode_ints [priv_d k, pub_n (priv_public k), pub_e (priv_public k)]),
     public_bytes_pem = (\<lambda>k. encode_ints [pub_n k, pub_e k]),
     public_bytes_der = (\<lambda>k. encode_ints [pub_n k, pub_e k])\<rparr>"

lemma read_encode_ints: "read_metadata (encode_ints is) = Some (JList (map JInt is))"
  by (simp add: read_metadata_def encode_ints_def loads_dumps_utf8 list_all_iff)

lemma toy_lib_ok: "crypto_lib_ok toy_lib"
  by (auto simp: crypto_lib_ok_def toy_lib_def read_encode_ints)

lemma int_all_below:
  "(\<forall>x. 0 \<le> x \<longrightarrow> x < int k \<longrightarrow> P x) \<longleftrightarrow> list_all (\<lambda>i. P (int i)) [0..<k]"
  by (auto simp: list_all_iff) (metis int_nat_eq nat_int nat_less_iff atLeastLessThan_iff le0)

lemma toy_key_inverts: "rsa_inverts toy_key"
proof -
  have "list_all (\<lambda>i. pow_mod (pow_mod (int i) 7 33) 3 33 = int i) [0..<33]" by code_simp
  then have "\<forall>x. 0 \<le> x \<longrightarrow> x < int 33 \<longrightarrow> pow_mod (pow_mod x 7 33) 3 33 = x"
    by (subst int_all_below)
  then show ?thesis by (simp add: rsa_inverts_def toy_key_def)
qed

theorem blind_signature_round_trip_witness:
  "\<exists>m. hash_ballot [1, 2, 3] 33 = Inr m \<and>
     (case blind_sign toy_lib toy_store (js_blind (priv_public toy_key) 2 m) 1 of
        (Inl _, _) \<Rightarrow> \<not> coprime m 33
      | (Inr s, ks2) \<Rightarrow>
          verify_unblinded_signature toy_lib ks2 [1, 2, 3] (js_unblind (priv_public toy_key) 2 s) 1
            = (Inr True, ks2))"
proof -
  obtain m where m: "hash_ballot [1, 2, 3] 33 = Inr m" by (simp add: hash_ballot_def)
  have ld: "load_keys toy_lib toy_store 1 = (Inr (toy_key, priv_public toy_key), toy_store)"
    by (simp add: load_keys_def validated_election_id_def toy_store_def)
  have cop: "coprime 2 (pub_n (priv_public toy_key))"
    by (simp add: toy_key_def coprime_iff_gcd_eq_1) code_simp
  have n: "pub_n (priv_public toy_key) = 33" "0 < pub_e (priv_public toy_key)"
    by (simp_all add: toy_key_def)
  note run = blind_signature_round_trip
    [OF ld refl toy_key_inverts n(2) _ cop, of "[1, 2, 3]" m, unfolded n(1), OF _ m]
  show ?thesis by (rule exI [of _ m], rule conjI [OF m]) (rule run, simp)
qed


section \<open>Provisioning, anchoring and restart\<close>

lemma key_metadata_read:
  "read_metadata (utf8_encode (dumps_canonical (key_metadata lib eid k))) = Some (key_metadata lib eid k)"
proof -
  have "json_ok (key_metadata lib eid k)" by (simp add: key_metadata_def)
  moreover have "sort_json (key_metadata lib eid k) = key_metadata lib eid k"
    by (simp add: key_metadata_def less_char_def ord_def)
  ultimately show ?thesis by (simp add: read_metadata_def loads_dumps_canonical)
qed

definition key_dir_of :: "crypto_lib \<Rightarrow> int \<Rightarrow> rsa_private \<Rightarrow> key_dir" where
  "key_dir_of lib eid k = KeyDir (Regular (private_bytes_pem lib k))
     (Regular (public_bytes_pem lib (priv_public k)))
     (Regular (utf8_encode (dumps_canonical (key_metadata lib eid (priv_public k)))))"

lemma key_dir_of_validates:
  assumes "crypto_lib_ok lib" and "key_size (priv_public k) = 2048" and "pub_e (priv_public k) = 65537"
  shows "load_and_validate_keypair lib (key_dir_of lib eid k) eid = Inr (k, priv_public k)"
  using assms
  by (simp add: load_and_validate_keypair_def key_dir_of_def crypto_lib_ok_def key_metadata_read)
    (simp add: key_metadata_def)

lemma fingerprint_valid: "valid_fingerprint (public_key_fingerprint lib k)"
  by (simp add: valid_fingerprint_def public_key_fingerprint_def sha256_hex_lower)

lemma ensure_dirs_anchored:
  "ks_dirs (snd (ensure_election_blind_signing_key lib env ks eid (Some k) allow)) = ks_dirs ks"
  using load_keys_dirs [of lib ks eid]
  by (auto simp: ensure_election_blind_signing_key_def get_public_key_components_def Let_def
      split: prod.splits sum.splits)

lemma generate_keeps_dir:
  assumes "ks_dirs ks i \<noteq> NoDir"
  shows "ks_dirs (snd (generate_blind_signing_keypair lib root dk race ks eid)) i = ks_dirs ks i"
  using assms
  by (auto simp: generate_blind_signing_keypair_def validated_election_id_def Let_def
      split: sum.splits key_root.splits)

lemma components_of_cached:
  assumes "1 \<le> eid" and "ks_cache ks eid = Some (priv, pub)"
  shows "get_public_key_components lib ks eid =
    (Inr \<lparr>kc_n = py_hex (pub_n pub), kc_e = py_hex (pub_e pub),
          kc_key_id = public_key_fingerprint lib pub\<rparr>, ks)"
  using assms by (simp add: get_public_key_components_def load_keys_def validated_election_id_def)

lemma components_of_dir:
  assumes "1 \<le> eid" and "ks_cache ks eid = None"
    and "load_and_validate_keypair lib (ks_dirs ks eid) eid = Inr (priv, pub)"
  shows "get_public_key_components lib ks eid =
    (Inr \<lparr>kc_n = py_hex (pub_n pub), kc_e = py_hex (pub_e pub),
          kc_key_id = public_key_fingerprint lib pub\<rparr>,
     ks\<lparr>ks_cache := (ks_cache ks)(eid := Some (priv, pub))\<rparr>)"
  using assms by (simp add: get_public_key_components_def load_keys_def validated_election_id_def)

definition restarted :: "key_store \<Rightarrow> key_store" where
  "restarted ks = ks\<lparr>ks_cache := (\<lambda>_. None)\<rparr>"

lemma provision_then_restart:
  assumes "crypto_lib_ok lib" and "1 \<le> eid" and "ks_cache ks eid = None" and "ks_dirs ks eid = NoDir"
    and "ke_root env = RootOk" and "ke_race env = NoDir"
    and "key_size (priv_public (ke_drawn env)) = 2048" and "pub_e (priv_public (ke_drawn env)) = 65537"
  shows "\<exists>comps ks'. ensure_election_blind_signing_key lib env ks eid None True = (Inr comps, ks')
     \<and> kc_key_id comps = public_key_fingerprint lib (priv_public (ke_drawn env))
     \<and> (\<forall>i. i \<noteq> eid \<longrightarrow> ks_dirs ks' i = ks_dirs ks i)
     \<and> fst (ensure_election_blind_signing_key lib env' (restarted ks') eid (Some (kc_key_id comps)) False)
         = Inr comps"
proof -
  let ?k = "ke_drawn env"
  let ?ks = "ks\<lparr>ks_dirs := (ks_dirs ks)(eid := key_dir_of lib eid ?k),
      ks_cache := (ks_cache ks)(eid := Some (?k, priv_public ?k))\<rparr>"
  let ?comps = "\<lparr>kc_n = py_hex (pub_n (priv_public ?k)), kc_e = py_hex (pub_e (priv_public ?k)),
      kc_key_id = public_key_fingerprint lib (priv_public ?k)\<rparr>"
  note valid = key_dir_of_validates [OF assms(1,7,8), of eid]
  have gen: "generate_blind_signing_keypair lib RootOk ?k NoDir ks eid = (Inr (), ?ks)"
    using assms(2-4) valid
    by (simp add: generate_blind_signing_keypair_def validated_election_id_def rename_key_dir_def
        key_dir_of_def Let_def)
  have first: "ensure_election_blind_signing_key lib env ks eid None True = (Inr ?comps, ?ks)"
    using gen components_of_cached [OF assms(2), of ?ks ?k "priv_public ?k"] assms(5,6)
    by (simp add: ensure_election_blind_signing_key_def Let_def)
  have "fst (ensure_election_blind_signing_key lib env' (restarted ?ks) eid (Some (kc_key_id ?comps)) False)
      = Inr ?comps"
    using components_of_dir [OF assms(2), of "restarted ?ks" lib ?k "priv_public ?k"] valid fingerprint_valid
    by (simp add: ensure_election_blind_signing_key_def restarted_def)
  with first show ?thesis by auto
qed

text \<open>
  Provisioning an election's key. With a working library, where no key directory exists and
  no other process interferes, provisioning returns the drawn key's components and publishes a
  directory from which any later process, started with an empty cache, loads the same
  components against the anchored fingerprint; the directories of the other elections are
  untouched.
\<close>

theorem provisioned_key_survives_restart:
  assumes "crypto_lib_ok lib" and "1 \<le> eid" and "ks_cache ks eid = None" and "ks_dirs ks eid = NoDir"
    and "ke_root env = RootOk" and "ke_race env = NoDir"
    and "key_size (priv_public (ke_drawn env)) = 2048" and "pub_e (priv_public (ke_drawn env)) = 65537"
  shows "\<exists>comps ks'. ensure_election_blind_signing_key lib env ks eid None True = (Inr comps, ks')
     \<and> kc_key_id comps = public_key_fingerprint lib (priv_public (ke_drawn env))
     \<and> (\<forall>i. i \<noteq> eid \<longrightarrow> ks_dirs ks' i = ks_dirs ks i)
     \<and> fst (ensure_election_blind_signing_key lib env' (restarted ks') eid (Some (kc_key_id comps)) False)
         = Inr comps"
  by (rule provision_then_restart [OF assms])

text \<open>
  C15: an anchored key fails closed and is never rotated. With a fingerprint anchored, a request
  that obtains key components obtains exactly the key of that fingerprint, no key directory is
  written, and in a process that has not yet cached the key the directory on disk was complete and
  valid for this election.
\<close>

theorem anchored_key_fails_closed:
  assumes "ensure_election_blind_signing_key lib env ks eid (Some anchor) allow = (Inr comps, ks')"
  shows "kc_key_id comps = anchor \<and> ks_dirs ks' = ks_dirs ks
     \<and> (ks_cache ks eid = None \<longrightarrow>
          (\<exists>priv pub. load_and_validate_keypair lib (ks_dirs ks eid) eid = Inr (priv, pub)
             \<and> public_key_fingerprint lib pub = anchor))"
proof -
  have dirs: "ks_dirs ks' = ks_dirs ks" using ensure_dirs_anchored [of lib env ks eid anchor allow] assms by simp
  have comps: "get_public_key_components lib ks eid = (Inr comps, ks')" and key: "kc_key_id comps = anchor"
    using assms by (auto simp: ensure_election_blind_signing_key_def Let_def
        split: prod.splits sum.splits if_splits)
  have "\<exists>priv pub. load_and_validate_keypair lib (ks_dirs ks eid) eid = Inr (priv, pub)
             \<and> public_key_fingerprint lib pub = anchor" if "ks_cache ks eid = None"
    using that comps key
    by (auto simp: get_public_key_components_def load_keys_def validated_election_id_def
        split: prod.splits sum.splits if_splits)
  with dirs key show ?thesis by simp
qed


lemma bit_length_power2: "bit_length (2 ^ k) = Suc k"
proof (induction k)
  case 0
  then show ?case by code_simp
next
  case (Suc k)
  then show ?case by (simp add: bit_length.simps [of "2 * 2 ^ k"])
qed

definition wide_key :: rsa_private where
  "wide_key = \<lparr>priv_d = 1, priv_public = \<lparr>pub_n = 2 ^ 2047, pub_e = 65537\<rparr>\<rparr>"

lemma wide_key_size: "key_size (priv_public wide_key) = 2048"
proof -
  have "nat ((2 :: int) ^ 2047) = nat 2 ^ 2047" by (rule nat_power_eq) simp
  then have "nat ((2 :: int) ^ 2047) = 2 ^ 2047" by (simp only: nat_numeral)
  then show ?thesis using bit_length_power2 [of 2047] by (simp only: key_size_def wide_key_def rsa_private.simps rsa_public.simps)
qed

definition empty_store :: key_store where
  "empty_store = \<lparr>ks_dirs = (\<lambda>_. NoDir), ks_cache = (\<lambda>_. None)\<rparr>"

definition demo_key_env :: key_env where
  "demo_key_env = \<lparr>ke_root = RootOk, ke_drawn = wide_key, ke_race = NoDir\<rparr>"

lemma demo_provision:
  shows "ke_root demo_key_env = RootOk" and "ke_race demo_key_env = NoDir"
    and "key_size (priv_public (ke_drawn demo_key_env)) = 2048"
    and "pub_e (priv_public (ke_drawn demo_key_env)) = 65537"
    and "ks_cache empty_store 1 = None" and "ks_dirs empty_store 1 = NoDir"
  using wide_key_size by (simp_all add: demo_key_env_def empty_store_def wide_key_def)

theorem provisioned_key_survives_restart_witness:
  "\<exists>comps ks'. ensure_election_blind_signing_key toy_lib demo_key_env empty_store 1 None True = (Inr comps, ks')
     \<and> fst (ensure_election_blind_signing_key toy_lib demo_key_env (restarted ks') 1 (Some (kc_key_id comps)) False)
         = Inr comps"
  using provisioned_key_survives_restart [OF toy_lib_ok _ demo_provision(5,6,1-4), of demo_key_env] by auto

theorem anchored_key_fails_closed_witness:
  "\<exists>comps ks' ks''. ensure_election_blind_signing_key toy_lib demo_key_env ks' 1
       (Some (kc_key_id comps)) False = (Inr comps, ks'') \<and> ks_dirs ks'' = ks_dirs ks'"
proof -
  obtain comps ks' where
    "fst (ensure_election_blind_signing_key toy_lib demo_key_env (restarted ks') 1 (Some (kc_key_id comps)) False)
       = Inr comps"
    using provision_then_restart [OF toy_lib_ok _ demo_provision(5,6,1-4), of demo_key_env] by auto
  then obtain ks'' where ks'': "ensure_election_blind_signing_key toy_lib demo_key_env (restarted ks') 1
       (Some (kc_key_id comps)) False = (Inr comps, ks'')"
    by (metis prod.collapse)
  from anchored_key_fails_closed [OF this] ks'' show ?thesis by blast
qed

text \<open>
  A cached key hides the state of the disk. Once a process has cached an election's key,
  validation against the anchored fingerprint succeeds whatever has become of the key
  directories, so missing or replaced files stop voting only after that process restarts.
\<close>

theorem cached_key_hides_missing_files:
  assumes "1 \<le> eid" and "ks_cache ks eid = Some (priv, pub)"
  shows "fst (ensure_election_blind_signing_key lib env (ks\<lparr>ks_dirs := dirs\<rparr>) eid
     (Some (public_key_fingerprint lib pub)) False) \<in> range Inr"
  using assms fingerprint_valid [of lib pub]
    components_of_cached [of eid "ks\<lparr>ks_dirs := dirs\<rparr>" priv pub lib]
  by (simp add: ensure_election_blind_signing_key_def)

theorem cached_key_hides_missing_files_witness:
  "fst (ensure_election_blind_signing_key toy_lib demo_key_env (toy_store\<lparr>ks_dirs := (\<lambda>_. NoDir)\<rparr>) 1
     (Some (public_key_fingerprint toy_lib (priv_public toy_key))) False) \<in> range Inr"
  by (rule cached_key_hides_missing_files [of 1 toy_store toy_key]) (simp_all add: toy_store_def)


section \<open>Perfect blinding\<close>

lemma blinding_factor_exists:
  assumes "rsa_inverts priv" and "pub = priv_public priv" and "1 < pub_n pub" and "0 < pub_e pub"
    and "0 \<le> m" and "coprime m (pub_n pub)" and "0 \<le> b" and "b < pub_n pub" and "coprime b (pub_n pub)"
  shows "\<exists>r. 0 \<le> r \<and> r < pub_n pub \<and> coprime r (pub_n pub) \<and> js_blind pub r m = b"
proof -
  let ?n = "pub_n pub" let ?e = "nat (pub_e pub)"
  let ?mi = "mod_inverse m ?n"
  note inv = mod_inverse_correct [OF assms(3,5,6)]
  define x where "x = b * ?mi mod ?n"
  define r where "r = pow_mod x (priv_d priv) ?n"
  have x: "0 \<le> x" "x < ?n" using assms(3) by (simp_all add: x_def)
  have re: "r ^ ?e mod ?n = x"
    using assms(1) x unfolding rsa_inverts_def assms(2) [symmetric] by (simp add: r_def pow_mod_def)
  have "m * r ^ ?e mod ?n = m * x mod ?n" using re by (metis mod_mult_right_eq)
  also have "\<dots> = b * (m * ?mi mod ?n) mod ?n"
    by (simp add: x_def mod_mult_right_eq mult.left_commute)
  also have "\<dots> = b" using inv(1) assms(7,8) by simp
  finally have blind: "js_blind pub r m = b" using js_blind_eq [OF assms(3,5)] by simp
  have "coprime (m * r ^ ?e) ?n"
    using assms(9) blind js_blind_eq [OF assms(3,5), of r]
    by (metis coprime_iff_gcd_eq_1 gcd_mod_int)
  then have "coprime r ?n" using assms(4) by simp
  moreover have "0 \<le> r" "r < ?n" using assms(3) by (simp_all add: r_def pow_mod_def)
  ultimately show ?thesis using blind by blast
qed



end
