(* ===== verification/App_State.thy ===== *)
theory App_State
  imports Audit_Log Blind_Signature
begin

text \<open>
  The state the request handlers share (the database, the blind-signing key store of the process
  and the audit log) and what a request takes from its environment: the clock, the random values
  it draws, the library and the configuration. A request reads the clock once.
\<close>

record app_state =
  a_db :: database
  a_keys :: key_store
  a_audit :: audit_log

record app_env =
  e_lib :: crypto_lib
  e_key_env :: key_env
  e_audit_key :: bytes
  e_audit_path :: string
  e_audit_lineno :: int
  e_now :: timestamp
  e_token_hex :: string

definition audit_action ::
  "app_env \<Rightarrow> int option \<Rightarrow> string \<Rightarrow> string \<Rightarrow> int \<Rightarrow> app_state \<Rightarrow> app_state" where
  "audit_action env actor_id action target_type target_id st =
     st\<lparr>a_audit := record_audit_event (e_audit_key env) (e_now env) (e_audit_path env)
          (e_audit_lineno env) actor_id action target_type (show_int target_id) (a_audit st)\<rparr>"

lemma audit_action_simps [table_simps, simp]:
  "a_db (audit_action env actor action ty t st) = a_db st"
  "a_keys (audit_action env actor action ty t st) = a_keys st"
  by (simp_all add: audit_action_def)

lemma audit_action_record:
  "\<exists>r. record_ok r \<and> a_audit (audit_action env actor action ty t st) = emit (e_audit_key env) r (a_audit st)"
  by (auto simp: audit_action_def record_audit_event_def intro: security_record_ok)

end
