(* ===== verification/Voting.thy ===== *)
theory Voting
  imports App_State
begin

text \<open>
  Voter-facing routes: \<^verbatim>\<open>app/routes/main.py\<close> and \<^verbatim>\<open>app/vote_service.py\<close>. The two phases of the blind
  ballot, \<open>request_blind_token\<close> and \<open>cast_anonymous_ballot\<close>, are each a part that reads and decides
  and a part that writes: the handler runs one after the other, while concurrent requests may
  run any number of other writes between the two (theory \<open>Spec2Isabelle\<close>).
\<close>

section \<open>Eligibility\<close>

definition election_regions :: "database \<Rightarrow> int \<Rightarrow> int list" where
  "election_regions db eid = remdups (map c_region_id (candidates_of db eid))"

definition election_positions :: "database \<Rightarrow> int \<Rightarrow> string list" where
  "election_positions db eid = remdups (map c_position (candidates_of db eid))"

definition single_contest :: "database \<Rightarrow> int \<Rightarrow> bool" where
  "single_contest db eid \<longleftrightarrow>
     length (election_regions db eid) = 1 \<and> length (election_positions db eid) = 1"

definition enrolled_in :: "electoral_roll \<Rightarrow> int list \<Rightarrow> bool" where
  "enrolled_in enrol rs = (case er_region_id enrol of None \<Rightarrow> False | Some r \<Rightarrow> r \<in> set rs)"

definition has_receipt :: "database \<Rightarrow> int \<Rightarrow> int \<Rightarrow> bool" where
  "has_receipt db uid eid \<longleftrightarrow>
     find (\<lambda>r. vr_user_id r = uid \<and> vr_election_id r = eid) (vote_receipts db) \<noteq> None"

definition has_authorization :: "database \<Rightarrow> int \<Rightarrow> int \<Rightarrow> bool" where
  "has_authorization db uid eid \<longleftrightarrow>
     find (\<lambda>t. bt_user_id t = uid \<and> bt_election_id t = eid) (blind_tokens db) \<noteq> None"

definition user_is_eligible_to_vote :: "database \<Rightarrow> user \<Rightarrow> election option \<Rightarrow> bool" where
  "user_is_eligible_to_vote db u election =
     (case enrolment_of db (u_id u) of
        None \<Rightarrow> False
      | Some enrol \<Rightarrow>
          if \<not> (is_approved u \<and> email_verified u \<and> has_role db u [''voter'']
                \<and> er_status enrol = ''active'' \<and> verified enrol) then False
          else
            (case election of
               None \<Rightarrow> True
             | Some e \<Rightarrow>
                 if \<not> single_contest db (el_id e) \<or> \<not> enrolled_in enrol (election_regions db (el_id e))
                 then False
                 else \<not> (has_receipt db (u_id u) (el_id e) \<or> has_authorization db (u_id u) (el_id e))))"

datatype vote_exc =
    AlreadyVotedError string
  | InvalidElectionError string
  | IneligibleVoterError string

definition lock_and_validate_voter :: "database \<Rightarrow> int \<Rightarrow> vote_exc + user \<times> electoral_roll" where
  "lock_and_validate_voter db user_id =
     (case get_user db user_id of
        None \<Rightarrow> Inl (IneligibleVoterError ''Voter record is unavailable'')
      | Some locked_user \<Rightarrow>
          (case enrolment_of db (u_id locked_user) of
             None \<Rightarrow> Inl (IneligibleVoterError ''Voter is not currently eligible'')
           | Some enrolment \<Rightarrow>
               if \<not> is_approved locked_user \<or> \<not> email_verified locked_user
                  \<or> \<not> has_role db locked_user [''voter'']
                  \<or> er_status enrolment \<noteq> ''active'' \<or> \<not> verified enrolment
               then Inl (IneligibleVoterError ''Voter is not currently eligible'')
               else Inr (locked_user, enrolment)))"

section \<open>Rows the voting routes write\<close>

definition insert_token :: "int \<times> int \<Rightarrow> database \<Rightarrow> database option" where
  "insert_token ue db =
     commit (db\<lparr>blind_tokens := blind_tokens db @
       [\<lparr>bt_id = fresh_id (map bt_id (blind_tokens db)), bt_user_id = fst ue, bt_election_id = snd ue\<rparr>]\<rparr>)"

record ballot =
  b_voter_token :: string
  b_candidate_id :: int
  b_election_id :: int
  b_position :: string
  b_vote_hash :: string
  b_nonce_hash :: string
  b_time :: timestamp

definition vote_row :: "ballot \<Rightarrow> database \<Rightarrow> vote" where
  "vote_row b db = \<lparr>v_id = fresh_id (map v_id (votes db)), voter_token = b_voter_token b,
     v_candidate_id = b_candidate_id b, v_election_id = b_election_id b, v_position = b_position b,
     vote_hash = Some (b_vote_hash b), v_created_at = b_time b\<rparr>"

definition nullifier_row :: "ballot \<Rightarrow> database \<Rightarrow> spent_ballot_nullifier" where
  "nullifier_row b db = \<lparr>sn_id = fresh_id (map sn_id (nullifiers db)),
     sn_election_id = b_election_id b, nullifier_hash = b_nonce_hash b, spent_at = b_time b\<rparr>"

definition insert_ballot :: "ballot \<Rightarrow> database \<Rightarrow> database option" where
  "insert_ballot b db =
     commit (db\<lparr>votes := votes db @ [vote_row b db], nullifiers := nullifiers db @ [nullifier_row b db]\<rparr>)"

definition vote_hash_of :: "string \<Rightarrow> int \<Rightarrow> int \<Rightarrow> timestamp \<Rightarrow> string" where
  "vote_hash_of ballot_nonce eid cid ts =
     sha256_hex (utf8_encode (ballot_nonce @ '':'' @ show_int eid @ '':'' @ show_int cid @ '':'' @ isoformat_utc ts))"

section \<open>The retired direct path\<close>

definition cast_anonymous_vote ::
  "timestamp \<Rightarrow> string \<Rightarrow> database \<Rightarrow> int \<Rightarrow> candidate \<Rightarrow> election option \<Rightarrow> vote_exc + database" where
  "cast_anonymous_vote now token_hex db user_id candidate election0 =
     (case (case election0 of None \<Rightarrow> get_election db (c_election_id candidate) | Some e \<Rightarrow> Some e) of
        None \<Rightarrow> Inl (InvalidElectionError ''Candidate does not belong to this election'')
      | Some e \<Rightarrow>
          if c_election_id candidate \<noteq> el_id e
          then Inl (InvalidElectionError ''Candidate does not belong to this election'')
          else
            (case get_election db (el_id e) of
               None \<Rightarrow> Inl (InvalidElectionError ''Election is not open'')
             | Some locked \<Rightarrow>
                 if \<not> is_open now locked then Inl (InvalidElectionError ''Election is not open'')
                 else
                   (case lock_and_validate_voter db user_id of
                      Inl x \<Rightarrow> Inl x
                    | Inr (locked_user, enrolment) \<Rightarrow>
                        if er_region_id enrolment \<noteq> Some (c_region_id candidate)
                        then Inl (IneligibleVoterError ''Candidate is outside the voter's enrolled region'')
                        else if has_receipt db (u_id locked_user) (el_id locked)
                        then Inl (AlreadyVotedError ''User has already voted in this election'')
                        else if has_authorization db (u_id locked_user) (el_id locked)
                        then Inl (AlreadyVotedError ''A blind-ballot authorization was already issued for this election'')
                        else
                          (let row = \<lparr>v_id = fresh_id (map v_id (votes db)), voter_token = token_hex,
                                 v_candidate_id = c_id candidate, v_election_id = el_id locked,
                                 v_position = c_position candidate,
                                 vote_hash = Some (vote_hash_of token_hex (el_id locked) (c_id candidate) now),
                                 v_created_at = now\<rparr>;
                               receipt = \<lparr>vr_id = fresh_id (map vr_id (vote_receipts db)),
                                 vr_user_id = u_id locked_user, vr_election_id = el_id locked, voted_at = now\<rparr> in
                           case commit (db\<lparr>votes := votes db @ [row], vote_receipts := vote_receipts db @ [receipt]\<rparr>) of
                             None \<Rightarrow> Inl (AlreadyVotedError
                               ''Concurrent vote detected and blocked by the election receipt constraint'')
                           | Some db' \<Rightarrow> Inr db'))))"

section \<open>Phase one: a blind authorization\<close>

text \<open>
  \<open>required.issubset(data)\<close> on the parsed body: iterating a dictionary gives its keys; a number or a
  boolean is not iterable and a list with a list or dictionary in it has no set, and both raise
  \<open>TypeError\<close>; the characters of a string are shorter than either name.
\<close>

fun hashable :: "json \<Rightarrow> bool" where
  "hashable (JList xs) = False"
| "hashable (JObj kvs) = False"
| "hashable j = True"

fun required_subset :: "string list \<Rightarrow> json \<Rightarrow> py_exc + bool" where
  "required_subset required (JObj kvs) = Inr (list_all (\<lambda>k. k \<in> fst ` set kvs) required)"
| "required_subset required (JList xs) =
     (if list_all hashable xs then Inr (list_all (\<lambda>k. JStr k \<in> set xs) required) else Inl TypeError)"
| "required_subset required (JStr s) = Inr (list_all (\<lambda>k. length k = 1 \<and> set k \<subseteq> set s) required)"
| "required_subset required j = Inl TypeError"

fun item_of :: "json \<Rightarrow> string \<Rightarrow> py_exc + json" where
  "item_of (JObj kvs) k = Inr (dict_get kvs k)"
| "item_of j k = Inl TypeError"

record authorization =
  au_user_id :: int
  au_election_id :: int
  au_signature :: int

definition sign_for_election ::
  "app_env \<Rightarrow> key_store \<Rightarrow> election \<Rightarrow> int \<Rightarrow> (reply + int) \<times> key_store" where
  "sign_for_election env ks e blinded_int =
     (case ensure_election_blind_signing_key (e_lib env) (e_key_env env) ks (el_id e)
             (blind_signing_key_id e) False of
        (Inl (BlindSigningKeyError _), ks1) \<Rightarrow>
          (Inl (json_error 503 ''Election signing key is unavailable''), ks1)
      | (Inl _, ks1) \<Rightarrow> (Inl (json_error 400 ''Invalid blinded ballot value''), ks1)
      | (Inr _, ks1) \<Rightarrow>
          (case blind_sign (e_lib env) ks1 blinded_int (el_id e) of
             (Inl (BlindSigningKeyError _), ks2) \<Rightarrow>
               (Inl (json_error 503 ''Election signing key is unavailable''), ks2)
           | (Inl _, ks2) \<Rightarrow> (Inl (json_error 400 ''Invalid blinded ballot value''), ks2)
           | (Inr s, ks2) \<Rightarrow> (Inr s, ks2)))"

definition prepare_blind_token ::
  "app_env \<Rightarrow> user \<Rightarrow> json \<Rightarrow> app_state \<Rightarrow> (reply + authorization) \<times> key_store" where
  "prepare_blind_token env current_user data st =
     (let db = a_db st; ks = a_keys st; stop = (\<lambda>r. (Inl r, ks)) in
      if \<not> truthy data then stop (json_error 400 ''Missing blinded_ballot or election_id'')
      else
        (case required_subset [''blinded_ballot'', ''election_id''] data of
           Inl _ \<Rightarrow> stop (Abort 500)
         | Inr False \<Rightarrow> stop (json_error 400 ''Missing blinded_ballot or election_id'')
         | Inr True \<Rightarrow>
             (case (case item_of data ''election_id'' of Inl e \<Rightarrow> Inl e | Inr v \<Rightarrow> int_of_json v) of
                Inl OverflowError \<Rightarrow> stop (Abort 500)
              | Inl _ \<Rightarrow> stop (json_error 400 ''Invalid election_id'')
              | Inr election_id \<Rightarrow>
                  (case get_election db election_id of
                     None \<Rightarrow> stop (json_error 409 ''Election is not open'')
                   | Some e \<Rightarrow>
                       if \<not> is_open (e_now env) e then stop (json_error 409 ''Election is not open'')
                       else
                         (case lock_and_validate_voter db (u_id current_user) of
                            Inl _ \<Rightarrow> stop (json_error 403 ''Not eligible to vote'')
                          | Inr (locked_user, enrolment) \<Rightarrow>
                              if \<not> single_contest db (el_id e)
                              then stop (json_error 409 ''Election is not a single-region, single-contest ballot'')
                              else if \<not> enrolled_in enrolment (election_regions db (el_id e))
                              then stop (json_error 403 ''Election is outside your enrolled region'')
                              else
                                (case (case item_of data ''blinded_ballot'' of
                                         Inl x \<Rightarrow> Inl x | Inr v \<Rightarrow> int16_of_json v) of
                                   Inl _ \<Rightarrow> stop (json_error 400 ''Invalid blinded_ballot format'')
                                 | Inr blinded_int \<Rightarrow>
                                     if has_authorization db (u_id locked_user) (el_id e)
                                     then stop (json_error 409
                                       ''A ballot authorization was already issued for this election'')
                                     else if has_receipt db (u_id locked_user) (el_id e)
                                     then stop (json_error 409 ''Already voted in this election'')
                                     else
                                       (case sign_for_election env ks e blinded_int of
                                          (Inl r, ks') \<Rightarrow> (Inl r, ks')
                                        | (Inr s, ks') \<Rightarrow>
                                            (Inr \<lparr>au_user_id = u_id locked_user, au_election_id = el_id e,
                                                  au_signature = s\<rparr>, ks'))))))))"

definition commit_blind_token :: "app_env \<Rightarrow> authorization \<Rightarrow> app_state \<Rightarrow> reply \<times> app_state" where
  "commit_blind_token env au st =
     (case insert_token (au_user_id au, au_election_id au) (a_db st) of
        None \<Rightarrow> (json_error 409 ''Already voted'', st)
      | Some db' \<Rightarrow>
          (Json_reply 200 (JObj [(''blind_signature'', JStr (py_hex (au_signature au))),
                                 (''election_id'', JInt (au_election_id au))]),
           audit_action env (Some (au_user_id au)) ''ballot_authorization.issue'' ''election''
             (au_election_id au) (st\<lparr>a_db := db'\<rparr>)))"

definition request_blind_token ::
  "app_env \<Rightarrow> user option \<Rightarrow> json \<Rightarrow> app_state \<Rightarrow> reply \<times> app_state" where
  "request_blind_token env current_user data st =
     login_required current_user st
       (\<lambda>u. case prepare_blind_token env u data st of
               (Inl r, ks) \<Rightarrow> (r, st\<lparr>a_keys := ks\<rparr>)
             | (Inr au, ks) \<Rightarrow> commit_blind_token env au (st\<lparr>a_keys := ks\<rparr>))"

section \<open>Phase two: the anonymous ballot\<close>

definition parse_ballot :: "json \<Rightarrow> (bytes \<times> json \<times> int) option" where
  "parse_ballot data =
     (case data of
        JObj kvs \<Rightarrow>
          (case dict_get kvs ''ballot'' of
             JStr ballot_hex \<Rightarrow>
               (case fromhex ballot_hex of
                  None \<Rightarrow> None
                | Some ballot_bytes \<Rightarrow>
                    (case utf8_decode ballot_bytes of
                       None \<Rightarrow> None
                     | Some text \<Rightarrow>
                         (case (loads text, int16_of_json (dict_get kvs ''signature'')) of
                            (Some ballot_json, Inr sig) \<Rightarrow> Some (ballot_bytes, ballot_json, sig)
                          | _ \<Rightarrow> None)))
           | _ \<Rightarrow> None)
      | _ \<Rightarrow> None)"

definition has_fields :: "string list \<Rightarrow> json \<Rightarrow> bool" where
  "has_fields ks data = (case data of JObj kvs \<Rightarrow> list_all (\<lambda>k. k \<in> fst ` set kvs) ks | _ \<Rightarrow> False)"

definition valid_nonce :: "json \<Rightarrow> bool" where
  "valid_nonce nonce = (case nonce of JStr s \<Rightarrow> length s = 64 \<and> list_all is_lower_hex s | _ \<Rightarrow> False)"

definition ballot_for ::
  "app_env \<Rightarrow> election \<Rightarrow> candidate \<Rightarrow> string \<Rightarrow> ballot" where
  "ballot_for env e c nonce =
     \<lparr>b_voter_token = e_token_hex env, b_candidate_id = c_id c, b_election_id = el_id e,
      b_position = c_position c,
      b_vote_hash = vote_hash_of (e_token_hex env) (el_id e) (c_id c) (e_now env),
      b_nonce_hash = sha256_hex (utf8_encode nonce), b_time = e_now env\<rparr>"

definition check_ballot_signature ::
  "app_env \<Rightarrow> key_store \<Rightarrow> election \<Rightarrow> bytes \<Rightarrow> int \<Rightarrow> (reply + bool) \<times> key_store" where
  "check_ballot_signature env ks e ballot_bytes sig =
     (case ensure_election_blind_signing_key (e_lib env) (e_key_env env) ks (el_id e)
             (blind_signing_key_id e) False of
        (Inl (BlindSigningKeyError _), ks1) \<Rightarrow>
          (Inl (json_error 503 ''Election signing key is unavailable''), ks1)
      | (Inl _, ks1) \<Rightarrow> (Inl (Abort 500), ks1)
      | (Inr _, ks1) \<Rightarrow>
          (case verify_unblinded_signature (e_lib env) ks1 ballot_bytes sig (el_id e) of
             (Inl (BlindSigningKeyError _), ks2) \<Rightarrow>
               (Inl (json_error 503 ''Election signing key is unavailable''), ks2)
           | (Inl _, ks2) \<Rightarrow> (Inl (Abort 500), ks2)
           | (Inr ok, ks2) \<Rightarrow> (Inr ok, ks2)))"


definition prepare_ballot :: "app_env \<Rightarrow> json \<Rightarrow> app_state \<Rightarrow> (reply + ballot) \<times> key_store" where
  "prepare_ballot env data st =
     (let db = a_db st; ks = a_keys st; stop = (\<lambda>r. (Inl r, ks)) in
      if \<not> has_fields [''ballot'', ''signature''] data
      then stop (json_error 400 ''Missing ballot or signature'')
      else
        (case parse_ballot data of
           None \<Rightarrow> stop (json_error 400 ''Invalid ballot or signature format'')
         | Some (ballot_bytes, JObj kvs, sig_int) \<Rightarrow>
             (let candidate_id = dict_get kvs ''candidate_id'';
                  election_id = dict_get kvs ''election_id''; nonce = dict_get kvs ''nonce'' in
              if \<not> truthy candidate_id \<or> \<not> truthy election_id \<or> \<not> truthy nonce
              then stop (json_error 400 ''Malformed ballot'')
              else
                (case (int_of_json candidate_id, int_of_json election_id) of
                   (Inl OverflowError, _) \<Rightarrow> stop (Abort 500)
                 | (Inl _, _) \<Rightarrow> stop (json_error 400 ''Malformed ballot'')
                 | (Inr _, Inl OverflowError) \<Rightarrow> stop (Abort 500)
                 | (Inr _, Inl _) \<Rightarrow> stop (json_error 400 ''Malformed ballot'')
                 | (Inr cid, Inr eid) \<Rightarrow>
                     (case nonce of
                        JStr nonce_text \<Rightarrow>
                          if \<not> valid_nonce nonce then stop (json_error 400 ''Malformed ballot nullifier'')
                          else
                            (case get_election db eid of
                               None \<Rightarrow> stop (json_error 409 ''Election is not open'')
                             | Some e \<Rightarrow>
                                 if \<not> is_open (e_now env) e then stop (json_error 409 ''Election is not open'')
                                 else
                                   (case check_ballot_signature env ks e ballot_bytes sig_int of
                                      (Inl r, ks') \<Rightarrow> (Inl r, ks')
                                    | (Inr False, ks') \<Rightarrow> (Inl (json_error 403 ''Invalid signature''), ks')
                                    | (Inr True, ks') \<Rightarrow>
                                        (case find (\<lambda>c. c_id c = cid \<and> c_election_id c = el_id e) (candidates db) of
                                           None \<Rightarrow> (Inl (json_error 400 ''Candidate is not in this election''), ks')
                                         | Some c \<Rightarrow>
                                             if \<not> single_contest db (el_id e)
                                             then (Inl (json_error 409
                                               ''Election is not a single-region, single-contest ballot''), ks')
                                             else (Inr (ballot_for env e c nonce_text), ks'))))
                      | _ \<Rightarrow> stop (json_error 400 ''Malformed ballot nullifier''))))
         | Some _ \<Rightarrow> stop (json_error 400 ''Malformed ballot'')))"

definition commit_ballot :: "app_env \<Rightarrow> ballot \<Rightarrow> app_state \<Rightarrow> reply \<times> app_state" where
  "commit_ballot env b st =
     (case insert_ballot b (a_db st) of
        None \<Rightarrow> (json_error 409 ''Ballot was already submitted or is invalid'', st)
      | Some db' \<Rightarrow>
          (Json_reply 200 (JObj [(''status'', JStr ''ok''),
                                 (''message'', JStr ''Your anonymous ballot has been recorded.'')]),
           audit_action env None ''ballot.cast'' ''election'' (b_election_id b) (st\<lparr>a_db := db'\<rparr>)))"

definition cast_anonymous_ballot :: "app_env \<Rightarrow> json \<Rightarrow> app_state \<Rightarrow> reply \<times> app_state" where
  "cast_anonymous_ballot env data st =
     (case prepare_ballot env data st of
        (Inl r, ks) \<Rightarrow> (r, st\<lparr>a_keys := ks\<rparr>)
      | (Inr b, ks) \<Rightarrow> commit_ballot env b (st\<lparr>a_keys := ks\<rparr>))"

section \<open>Read-only routes\<close>

definition blind_signing_public_key ::
  "app_env \<Rightarrow> string option \<Rightarrow> app_state \<Rightarrow> reply \<times> app_state" where
  "blind_signing_public_key env raw_election_id st =
     (case (case raw_election_id of None \<Rightarrow> None | Some s \<Rightarrow> py_int 10 s) of
        None \<Rightarrow> (json_error 400 ''A valid election_id is required'', st)
      | Some election_id \<Rightarrow>
          if election_id < 1 then (json_error 400 ''A valid election_id is required'', st)
          else
            (case get_election (a_db st) election_id of
               None \<Rightarrow> (json_error 404 ''Election not found'', st)
             | Some e \<Rightarrow>
                 if \<not> is_open (e_now env) e then (json_error 409 ''Election is not open'', st)
                 else
                   (case ensure_election_blind_signing_key (e_lib env) (e_key_env env) (a_keys st)
                           (el_id e) (blind_signing_key_id e) False of
                      (Inl (BlindSigningKeyError _), ks) \<Rightarrow>
                        (json_error 503 ''Election signing key is unavailable'', st\<lparr>a_keys := ks\<rparr>)
                    | (Inl _, ks) \<Rightarrow> (Abort 500, st\<lparr>a_keys := ks\<rparr>)
                    | (Inr k, ks) \<Rightarrow>
                        (Json_reply 200 (JObj [(''n'', JStr (kc_n k)), (''e'', JStr (kc_e k)),
                            (''key_id'', JStr (kc_key_id k)), (''election_id'', JInt (el_id e))]),
                         st\<lparr>a_keys := ks\<rparr>))))"

definition vote_route :: "user option \<Rightarrow> app_state \<Rightarrow> reply \<times> app_state" where
  "vote_route current_user st =
     login_required current_user st
       (\<lambda>_. (json_error 410 ''Direct ballot submission is disabled. Use the browser blind-ballot flow.'', st))"

text \<open>
  The election the dashboard shows: among the rows with status open, the one with the latest
  opening time, then the largest id. A missing opening time sorts as the smallest.
\<close>

definition newer :: "election \<Rightarrow> election \<Rightarrow> bool" where
  "newer a b \<longleftrightarrow>
     (case (open_at a, open_at b) of
        (None, None) \<Rightarrow> el_id a > el_id b
      | (None, Some _) \<Rightarrow> False
      | (Some _, None) \<Rightarrow> True
      | (Some x, Some y) \<Rightarrow> x > y \<or> x = y \<and> el_id a > el_id b)"

fun newest :: "election list \<Rightarrow> election option" where
  "newest [] = None"
| "newest (e # es) = (case newest es of None \<Rightarrow> Some e | Some b \<Rightarrow> if newer b e then Some b else Some e)"

record dashboard_view =
  dv_candidates :: "candidate list"
  dv_eligible :: bool
  dv_election_open :: bool
  dv_active_election :: "election option"
  dv_has_voted :: bool
  dv_has_authorization :: bool
  dv_roster_valid :: bool
  dv_region_match :: bool

definition dashboard :: "timestamp \<Rightarrow> database \<Rightarrow> user \<Rightarrow> dashboard_view" where
  "dashboard now db u =
     (let active_election = newest (filter (\<lambda>e. el_status e = ''open'') (elections db));
          election_open = (case active_election of None \<Rightarrow> False | Some e \<Rightarrow> is_open now e);
          shown = (case active_election of
                     Some e \<Rightarrow> if election_open then sort_key c_name (candidates_of db (el_id e)) else []
                   | None \<Rightarrow> []);
          rs = remdups (map c_region_id shown);
          roster_valid = (length rs = 1 \<and> length (remdups (map c_position shown)) = 1)
      in \<lparr>dv_candidates = shown, dv_eligible = user_is_eligible_to_vote db u active_election,
          dv_election_open = election_open, dv_active_election = active_election,
          dv_has_voted = (case active_election of None \<Rightarrow> False | Some e \<Rightarrow> has_receipt db (u_id u) (el_id e)),
          dv_has_authorization =
            (case active_election of None \<Rightarrow> False | Some e \<Rightarrow> has_authorization db (u_id u) (el_id e)),
          dv_roster_valid = roster_valid,
          dv_region_match = (roster_valid \<and>
            (case enrolment_of db (u_id u) of None \<Rightarrow> False | Some r \<Rightarrow> enrolled_in r rs))\<rparr>)"

definition profile_participation_count :: "database \<Rightarrow> user \<Rightarrow> nat" where
  "profile_participation_count db u = length (filter (\<lambda>r. vr_user_id r = u_id u) (vote_receipts db))"

definition delegate_candidates :: "database \<Rightarrow> user \<Rightarrow> candidate list" where
  "delegate_candidates db u =
     (let delegate_region = (case enrolment_of db (u_id u) of None \<Rightarrow> None | Some r \<Rightarrow> er_region_id r) in
      case delegate_region of
        None \<Rightarrow> sort_key c_name (candidates db)
      | Some g \<Rightarrow> if is_manager db u then sort_key c_name (candidates db)
          else sort_key c_name (filter (\<lambda>c. c_region_id c = g) (candidates db)))"


section \<open>Constraints as interfaces\<close>

interpretation tokens: constrained_table db_ok blind_tokens "\<lambda>t. (bt_user_id t, bt_election_id t)"
  "\<lambda>ue. ue" insert_token
  by unfold_locales (auto simp: insert_token_def commit_Some_iff db_ok_def blind_tokens_ok_def)

interpretation spent: constrained_table db_ok nullifiers "\<lambda>n. (sn_election_id n, nullifier_hash n)"
  "\<lambda>b. (b_election_id b, b_nonce_hash b)" insert_ballot
  by unfold_locales
    (auto simp: insert_ballot_def commit_Some_iff db_ok_def nullifiers_ok_def nullifier_row_def)

interpretation recorded: constrained_table db_ok votes voter_token b_voter_token insert_ballot
  by unfold_locales (auto simp: insert_ballot_def commit_Some_iff db_ok_def votes_ok_def vote_row_def)

section \<open>What an accepted request read\<close>

lemma lock_and_validate_SomeD:
  assumes "lock_and_validate_voter db uid = Inr (u, r)"
  shows "get_user db uid = Some u" and "u_id u = uid" and "is_approved u" and "email_verified u"
    and "has_role db u [''voter'']" and "enrolment_of db uid = Some r" and "er_status r = ''active''"
    and "verified r"
  using assms get_user_SomeD [of db uid]
  by (auto simp: lock_and_validate_voter_def split: option.splits if_splits)

lemma prepare_blind_token_SomeD:
  assumes "prepare_blind_token env u data st = (Inr au, ks)"
  obtains e r where "get_election (a_db st) (au_election_id au) = Some e" and "is_open (e_now env) e"
    and "el_id e = au_election_id au" and "au_user_id au = u_id u"
    and "lock_and_validate_voter (a_db st) (u_id u) = Inr r"
    and "single_contest (a_db st) (au_election_id au)"
    and "enrolled_in (snd r) (election_regions (a_db st) (au_election_id au))"
    and "\<not> has_authorization (a_db st) (u_id u) (au_election_id au)"
    and "\<not> has_receipt (a_db st) (u_id u) (au_election_id au)"
proof -
  from assms obtain eid e lu r s where
    e: "get_election (a_db st) eid = Some e" "is_open (e_now env) e" and
    v: "lock_and_validate_voter (a_db st) (u_id u) = Inr (lu, r)" and
    c: "single_contest (a_db st) (el_id e)" "enrolled_in r (election_regions (a_db st) (el_id e))"
      "\<not> has_authorization (a_db st) (u_id lu) (el_id e)" "\<not> has_receipt (a_db st) (u_id lu) (el_id e)" and
    au: "au = \<lparr>au_user_id = u_id lu, au_election_id = el_id e, au_signature = s\<rparr>"
    by (auto simp: prepare_blind_token_def Let_def
        split: if_splits sum.splits py_exc.splits option.splits bool.splits prod.splits)
  have "el_id e = eid" using get_election_SomeD [OF e(1)] by simp
  moreover have "u_id lu = u_id u" using lock_and_validate_SomeD(2) [OF v] .
  ultimately show thesis using that [of e "(lu, r)"] e v c by (simp add: au)
qed

lemma prepare_ballot_SomeD:
  assumes "prepare_ballot env data st = (Inr b, ks)"
  obtains bytes kvs sig eid cid nonce e c where "parse_ballot data = Some (bytes, JObj kvs, sig)"
    and "int_of_json (dict_get kvs ''candidate_id'') = Inr cid"
    and "int_of_json (dict_get kvs ''election_id'') = Inr eid"
    and "dict_get kvs ''nonce'' = JStr nonce" and "valid_nonce (JStr nonce)"
    and "get_election (a_db st) eid = Some e" and "is_open (e_now env) e"
    and "check_ballot_signature env (a_keys st) e bytes sig = (Inr True, ks)"
    and "find (\<lambda>c. c_id c = cid \<and> c_election_id c = el_id e) (candidates (a_db st)) = Some c"
    and "single_contest (a_db st) (el_id e)" and "b = ballot_for env e c nonce"
  using assms
  by (auto simp: prepare_ballot_def Let_def valid_nonce_def
      split: if_splits sum.splits py_exc.splits option.splits bool.splits prod.splits json.splits)


section \<open>When the writes are accepted\<close>

lemma insert_token_Some_iff:
  assumes "db_ok db"
  shows "insert_token (uid, eid) db \<noteq> None \<longleftrightarrow>
    uid \<in> user_ids db \<and> eid \<in> election_ids db \<and> \<not> has_authorization db uid eid"
proof -
  let ?t = "\<lparr>bt_id = fresh_id (map bt_id (blind_tokens db)), bt_user_id = uid, bt_election_id = eid\<rparr>"
  let ?db = "db\<lparr>blind_tokens := blind_tokens db @ [?t]\<rparr>"
  have "insert_token (uid, eid) db \<noteq> None \<longleftrightarrow> db_ok ?db"
    by (simp add: insert_token_def commit_def)
  also have "\<dots> \<longleftrightarrow> blind_tokens_ok ?db"
    using assms by (simp add: db_ok_def constraint_defs)
  also have "\<dots> \<longleftrightarrow> uid \<in> user_ids db \<and> eid \<in> election_ids db
      \<and> (uid, eid) \<notin> (\<lambda>t. (bt_user_id t, bt_election_id t)) ` set (blind_tokens db)"
    using assms fresh_id_not_in [of "map bt_id (blind_tokens db)"]
    by (auto simp: db_ok_def blind_tokens_ok_def refs_ok_def user_ids_def election_ids_def)
  also have "(uid, eid) \<notin> (\<lambda>t. (bt_user_id t, bt_election_id t)) ` set (blind_tokens db)
      \<longleftrightarrow> \<not> has_authorization db uid eid"
    by (auto simp: has_authorization_def find_None_iff)
  finally show ?thesis .
qed

lemma insert_ballot_Some_iff:
  assumes "db_ok db"
  shows "insert_ballot b db \<noteq> None \<longleftrightarrow>
    (b_candidate_id b, b_election_id b) \<in> (\<lambda>c. (c_id c, c_election_id c)) ` set (candidates db)
    \<and> b_election_id b \<in> election_ids db \<and> b_voter_token b \<notin> voter_token ` set (votes db)
    \<and> (b_election_id b, b_nonce_hash b) \<notin> (\<lambda>n. (sn_election_id n, nullifier_hash n)) ` set (nullifiers db)"
proof -
  let ?db = "db\<lparr>votes := votes db @ [vote_row b db], nullifiers := nullifiers db @ [nullifier_row b db]\<rparr>"
  have "insert_ballot b db \<noteq> None \<longleftrightarrow> db_ok ?db"
    by (simp add: insert_ballot_def commit_def)
  also have "\<dots> \<longleftrightarrow> votes_ok ?db \<and> nullifiers_ok ?db"
    using assms by (auto simp: db_ok_def constraint_defs)
  also have "votes_ok ?db \<longleftrightarrow>
      (b_candidate_id b, b_election_id b) \<in> (\<lambda>c. (c_id c, c_election_id c)) ` set (candidates db)
      \<and> b_election_id b \<in> election_ids db \<and> b_voter_token b \<notin> voter_token ` set (votes db)"
    using assms fresh_id_not_in [of "map v_id (votes db)"]
    by (auto simp: db_ok_def votes_ok_def refs_ok_def election_ids_def vote_row_def)
  also have "nullifiers_ok ?db \<longleftrightarrow> b_election_id b \<in> election_ids db \<and>
      (b_election_id b, b_nonce_hash b) \<notin> (\<lambda>n. (sn_election_id n, nullifier_hash n)) ` set (nullifiers db)"
    using assms fresh_id_not_in [of "map sn_id (nullifiers db)"]
    by (auto simp: db_ok_def nullifiers_ok_def refs_ok_def election_ids_def nullifier_row_def)
  finally show ?thesis by blast
qed

lemma insert_token_SomeD:
  assumes "insert_token ue db = Some db'"
  shows "db_ok db'" and "db' = db\<lparr>blind_tokens := blind_tokens db @
    [\<lparr>bt_id = fresh_id (map bt_id (blind_tokens db)), bt_user_id = fst ue, bt_election_id = snd ue\<rparr>]\<rparr>"
  using assms by (auto simp: insert_token_def commit_Some_iff)

lemma insert_ballot_SomeD:
  assumes "insert_ballot b db = Some db'"
  shows "db_ok db'" and "db' = db\<lparr>votes := votes db @ [vote_row b db],
    nullifiers := nullifiers db @ [nullifier_row b db]\<rparr>"
  using assms by (auto simp: insert_ballot_def commit_Some_iff)

lemma commit_blind_token_cases:
  "(\<exists>db'. insert_token (au_user_id au, au_election_id au) (a_db st) = Some db'
      \<and> a_db (snd (commit_blind_token env au st)) = db' \<and> fst (commit_blind_token env au st) =
        Json_reply 200 (JObj [(''blind_signature'', JStr (py_hex (au_signature au))),
                              (''election_id'', JInt (au_election_id au))]))
   \<or> insert_token (au_user_id au, au_election_id au) (a_db st) = None
      \<and> commit_blind_token env au st = (json_error 409 ''Already voted'', st)"
  by (cases "insert_token (au_user_id au, au_election_id au) (a_db st)") (simp_all add: commit_blind_token_def)

lemma commit_ballot_cases:
  "(\<exists>db'. insert_ballot b (a_db st) = Some db' \<and> a_db (snd (commit_ballot env b st)) = db'
      \<and> fst (commit_ballot env b st) = Json_reply 200 (JObj [(''status'', JStr ''ok''),
          (''message'', JStr ''Your anonymous ballot has been recorded.'')]))
   \<or> insert_ballot b (a_db st) = None
      \<and> commit_ballot env b st = (json_error 409 ''Ballot was already submitted or is invalid'', st)"
  by (cases "insert_ballot b (a_db st)") (simp_all add: commit_ballot_def)

lemma commit_keeps_keys [simp]:
  "a_keys (snd (commit_blind_token env au st)) = a_keys st"
  "a_keys (snd (commit_ballot env b st)) = a_keys st"
  by (auto simp: commit_blind_token_def commit_ballot_def split: option.splits)


lemma prepare_token_no_200:
  assumes "prepare_blind_token env u data st = (Inl r, ks)"
  shows "r \<noteq> Json_reply 200 body"
  using assms
  by (auto simp: prepare_blind_token_def Let_def json_error_def sign_for_election_def
      split: if_splits sum.splits py_exc.splits option.splits bool.splits prod.splits key_exc.splits)

lemma prepare_ballot_no_200:
  assumes "prepare_ballot env data st = (Inl r, ks)"
  shows "r \<noteq> Json_reply 200 body"
  using assms
  by (auto simp: prepare_ballot_def Let_def json_error_def check_ballot_signature_def
      split: if_splits sum.splits py_exc.splits option.splits bool.splits prod.splits json.splits key_exc.splits)

lemma request_blind_token_200:
  assumes "request_blind_token env (Some u) data st = (Json_reply 200 body, st')"
  obtains au ks where "prepare_blind_token env u data st = (Inr au, ks)"
    and "insert_token (u_id u, au_election_id au) (a_db st) = Some (a_db st')"
    and "body = JObj [(''blind_signature'', JStr (py_hex (au_signature au))),
                      (''election_id'', JInt (au_election_id au))]"
    and "au_user_id au = u_id u" and "a_keys st' = ks"
proof -
  obtain res ks where prep: "prepare_blind_token env u data st = (res, ks)" by fastforce
  show thesis
  proof (cases res)
    case (Inl r)
    with assms prep prepare_token_no_200 [of env u data st r ks] show thesis
      by (simp add: request_blind_token_def login_required_def)
  next
    case (Inr au)
    have uid: "au_user_id au = u_id u"
      using prepare_blind_token_SomeD [OF prep [unfolded Inr]] by blast
    have run: "commit_blind_token env au (st\<lparr>a_keys := ks\<rparr>) = (Json_reply 200 body, st')"
      using assms prep Inr by (simp add: request_blind_token_def login_required_def)
    then show thesis
      using commit_blind_token_cases [of au "st\<lparr>a_keys := ks\<rparr>" env] uid
        commit_keeps_keys(1) [of env au "st\<lparr>a_keys := ks\<rparr>"] that [OF prep [unfolded Inr]]
      by (auto simp: json_error_def)
  qed
qed

text \<open>
  C7: an authorization is issued only to an eligible voter. If the request of user \<open>u\<close> is answered
  with success, some election was open at that time, the stored record of \<open>u\<close> was eligible for it
  (approved, verified, a voter with an active verified enrolment in its region, not yet voted
  or authorized), and the only change to the database is one token row for this user and
  election, of which there is now exactly one.
\<close>

theorem authorization_only_for_eligible:
  assumes "request_blind_token env (Some u) data st = (Json_reply 200 body, st')"
  shows "\<exists>e v. get_election (a_db st) (el_id e) = Some e \<and> is_open (e_now env) e
     \<and> get_user (a_db st) (u_id u) = Some v \<and> user_is_eligible_to_vote (a_db st) v (Some e)
     \<and> length (filter (\<lambda>t. (bt_user_id t, bt_election_id t) = (u_id u, el_id e)) (blind_tokens (a_db st'))) = 1
     \<and> (\<exists>t. a_db st' = (a_db st)\<lparr>blind_tokens := blind_tokens (a_db st) @ [t]\<rparr>)"
proof -
  obtain au ks where prep: "prepare_blind_token env u data st = (Inr au, ks)"
    and ins: "insert_token (u_id u, au_election_id au) (a_db st) = Some (a_db st')"
    by (rule request_blind_token_200 [OF assms])
  obtain e r where e: "get_election (a_db st) (au_election_id au) = Some e" "is_open (e_now env) e"
    "el_id e = au_election_id au" and r: "lock_and_validate_voter (a_db st) (u_id u) = Inr r"
    and sc: "single_contest (a_db st) (au_election_id au)"
    and en: "enrolled_in (snd r) (election_regions (a_db st) (au_election_id au))"
    and no: "\<not> has_authorization (a_db st) (u_id u) (au_election_id au)"
      "\<not> has_receipt (a_db st) (u_id u) (au_election_id au)"
    by (rule prepare_blind_token_SomeD [OF prep])
  obtain v roll where vr: "r = (v, roll)" by (cases r)
  note ok = lock_and_validate_SomeD [OF r [unfolded vr]]
  have "user_is_eligible_to_vote (a_db st) v (Some e)"
    using ok sc en no e(3) vr by (simp add: user_is_eligible_to_vote_def)
  moreover have "length (filter (\<lambda>t. (bt_user_id t, bt_election_id t) = (u_id u, el_id e)) (blind_tokens (a_db st'))) = 1"
    using tokens.insert_counts_one [OF ins] e(3) by simp
  moreover have "\<exists>t. a_db st' = (a_db st)\<lparr>blind_tokens := blind_tokens (a_db st) @ [t]\<rparr>"
    using insert_token_SomeD(2) [OF ins] by blast
  ultimately show ?thesis using e ok(1) by (intro exI [of _ e] exI [of _ v] conjI) simp_all
qed

text \<open>
  The identity side learns nothing of the ballot. Two successful requests of one user from one
  state that name the same election, whatever blinded values they carry, leave the same database
  and the same audit log.
\<close>

theorem authorization_independent_of_ballot:
  assumes "request_blind_token env (Some u) (JObj [(''blinded_ballot'', JStr x), (''election_id'', JInt eid)]) st
       = (Json_reply 200 body, st1)"
    and "request_blind_token env (Some u) (JObj [(''blinded_ballot'', JStr y), (''election_id'', JInt eid)]) st
       = (Json_reply 200 body', st2)"
  shows "a_db st1 = a_db st2 \<and> a_audit st1 = a_audit st2"
proof -
  have main: "a_db st' = the (insert_token (u_id u, eid) (a_db st)) \<and>
      a_audit st' = a_audit (audit_action env (Some (u_id u)) ''ballot_authorization.issue'' ''election'' eid st)"
    if run: "request_blind_token env (Some u) (JObj [(''blinded_ballot'', JStr z), (''election_id'', JInt eid)]) st
       = (Json_reply 200 b, st')" for z b st'
  proof -
    obtain au ks where prep: "prepare_blind_token env u (JObj [(''blinded_ballot'', JStr z), (''election_id'', JInt eid)]) st
          = (Inr au, ks)"
      and ins: "insert_token (u_id u, au_election_id au) (a_db st) = Some (a_db st')"
      and uid: "au_user_id au = u_id u"
      by (rule request_blind_token_200 [OF run])
    have "au_election_id au = eid"
      using prep get_election_SomeD [of "a_db st" eid]
      by (auto simp: prepare_blind_token_def Let_def
          split: if_splits sum.splits option.splits prod.splits)
    moreover have "st' = audit_action env (Some (au_user_id au)) ''ballot_authorization.issue'' ''election''
        (au_election_id au) (st\<lparr>a_keys := ks, a_db := a_db st'\<rparr>)"
      using run prep ins uid by (simp add: request_blind_token_def login_required_def commit_blind_token_def)
    then have "a_audit st' = a_audit (audit_action env (Some (au_user_id au)) ''ballot_authorization.issue'' ''election''
        (au_election_id au) (st\<lparr>a_keys := ks, a_db := a_db st'\<rparr>))" by (rule arg_cong)
    ultimately show ?thesis using ins uid by (simp add: audit_action_def)
  qed
  from main [OF assms(1)] main [OF assms(2)] show ?thesis by simp
qed


lemma cast_200:
  assumes "cast_anonymous_ballot env data st = (Json_reply 200 body, st')"
  obtains b ks where "prepare_ballot env data st = (Inr b, ks)"
    and "insert_ballot b (a_db st) = Some (a_db st')" and "a_keys st' = ks"
proof -
  obtain res ks where prep: "prepare_ballot env data st = (res, ks)" by fastforce
  show thesis
  proof (cases res)
    case (Inl r)
    with assms prep prepare_ballot_no_200 [of env data st r ks] show thesis
      by (simp add: cast_anonymous_ballot_def)
  next
    case (Inr b)
    have run: "commit_ballot env b (st\<lparr>a_keys := ks\<rparr>) = (Json_reply 200 body, st')"
      using assms prep Inr by (simp add: cast_anonymous_ballot_def)
    then show thesis
      using commit_ballot_cases [of b "st\<lparr>a_keys := ks\<rparr>" env]
        commit_keeps_keys(2) [of env b "st\<lparr>a_keys := ks\<rparr>"] that [OF prep [unfolded Inr]]
      by (auto simp: json_error_def)
  qed
qed

lemma cast_refused_keeps_db:
  assumes "cast_anonymous_ballot env data st = (r, st')" and "\<And>body. r \<noteq> Json_reply 200 body"
  shows "a_db st' = a_db st"
proof -
  obtain res ks where prep: "prepare_ballot env data st = (res, ks)" by fastforce
  show ?thesis
  proof (cases res)
    case (Inl x)
    with assms(1) prep show ?thesis by (auto simp: cast_anonymous_ballot_def)
  next
    case (Inr b)
    with assms prep commit_ballot_cases [of b "st\<lparr>a_keys := ks\<rparr>" env] show ?thesis
      by (auto simp: cast_anonymous_ballot_def json_error_def)
  qed
qed

lemma check_ballot_signature_True:
  assumes "check_ballot_signature env ks e bytes sig = (Inr True, ks')"
  shows "\<exists>k ks1. ensure_election_blind_signing_key (e_lib env) (e_key_env env) ks (el_id e)
        (blind_signing_key_id e) False = (Inr k, ks1)
     \<and> verify_unblinded_signature (e_lib env) ks1 bytes sig (el_id e) = (Inr True, ks')"
  using assms by (auto simp: check_ballot_signature_def split: prod.splits sum.splits key_exc.splits)



section \<open>The browser's requests\<close>

definition bigint_to_hex :: "int \<Rightarrow> string" where
  "bigint_to_hex n = (let h = show_nat 16 (nat n) in if odd (length h) then ''0'' @ h else h)"

definition js_json :: dump_style where
  "js_json = \<lparr>item_sep = '','', key_sep = '':'', ensure_ascii = False\<rparr>"

definition js_ballot :: "int \<Rightarrow> string \<Rightarrow> int \<Rightarrow> json" where
  "js_ballot candidate_id nonce election_id =
     JObj [(''candidate_id'', JInt candidate_id), (''nonce'', JStr nonce), (''election_id'', JInt election_id)]"

definition js_ballot_bytes :: "int \<Rightarrow> string \<Rightarrow> int \<Rightarrow> bytes" where
  "js_ballot_bytes candidate_id nonce election_id =
     utf8_encode (dump js_json (js_ballot candidate_id nonce election_id))"

definition js_token_request :: "int \<Rightarrow> int \<Rightarrow> json" where
  "js_token_request blinded election_id =
     JObj [(''blinded_ballot'', JStr (bigint_to_hex blinded)), (''election_id'', JInt election_id)]"

definition js_cast_request :: "bytes \<Rightarrow> int \<Rightarrow> json" where
  "js_cast_request ballot_bytes signature =
     JObj [(''ballot'', JStr (hex_of_bytes ballot_bytes)), (''signature'', JStr (bigint_to_hex signature))]"

lemma bigint_to_hex_read: "0 \<le> i \<Longrightarrow> py_int 16 (bigint_to_hex i) = Some i"
proof -
  assume i: "0 \<le> i"
  let ?h = "show_nat 16 (nat i)"
  have digits: "\<exists>d < 16. c = digit_char d" if "c \<in> set (bigint_to_hex i)" for c
    using that show_nat_chars [of 16 c "nat i"] exI [of "\<lambda>d. d < 16 \<and> CHR ''0'' = digit_char d" 0]
    by (auto simp: bigint_to_hex_def Let_def split: if_splits)
  have "parse_digits 16 0 False ?h = Some i"
    using parse_digits_show_nat [of 16 0 False "nat i" "[]"] i by simp
  moreover have "parse_digits 16 0 False (CHR ''0'' # ?h) = Some i"
    using parse_digits_show_nat [of 16 0 True "nat i" "[]"] i digit_val_digit_char [of 0 16]
    by (simp add: startswith_def)
  ultimately have "parse_digits 16 0 False (bigint_to_hex i) = Some i"
    by (simp add: bigint_to_hex_def Let_def)
  moreover have "bigint_to_hex i \<noteq> []" by (simp add: bigint_to_hex_def Let_def)
  ultimately show ?thesis using py_int_16_digits [OF _ digits] by simp
qed

lemma parse_js_cast:
  assumes "0 \<le> sig"
  shows "parse_ballot (js_cast_request (js_ballot_bytes cid nonce eid) sig) =
    Some (js_ballot_bytes cid nonce eid, js_ballot cid nonce eid, sig)"
proof -
  have "loads (dump js_json (js_ballot cid nonce eid)) = Some (js_ballot cid nonce eid)"
    by (rule loads_dump) (simp_all add: style_ok_def js_json_def is_json_ws_def ord_def js_ballot_def)
  with bigint_to_hex_read [OF assms] show ?thesis
    by (simp add: parse_ballot_def js_cast_request_def js_ballot_bytes_def)
qed


section \<open>A complete vote\<close>

lemma ensure_cached:
  assumes "1 \<le> eid" and "ks_cache ks eid = Some (priv, pub)"
  shows "\<exists>k. ensure_election_blind_signing_key lib kenv ks eid (Some (public_key_fingerprint lib pub)) False = (Inr k, ks)"
    and "load_keys lib ks eid = (Inr (priv, pub), ks)"
  using assms fingerprint_valid [of lib pub] components_of_cached [OF assms, of lib]
  by (simp_all add: ensure_election_blind_signing_key_def load_keys_def validated_election_id_def)

lemma eligible_validates:
  assumes "get_user db uid = Some v" and "user_is_eligible_to_vote db v (Some e)"
  obtains roll where "lock_and_validate_voter db uid = Inr (v, roll)" and "single_contest db (el_id e)"
    and "enrolled_in roll (election_regions db (el_id e))"
    and "\<not> has_authorization db uid (el_id e)" and "\<not> has_receipt db uid (el_id e)"
  using assms get_user_SomeD [OF assms(1)] that
  by (auto simp: user_is_eligible_to_vote_def lock_and_validate_voter_def split: option.splits if_splits)

definition ready_to_vote :: "app_env \<Rightarrow> app_state \<Rightarrow> user \<Rightarrow> election \<Rightarrow> rsa_private \<Rightarrow> bool" where
  "ready_to_vote env st u e priv \<longleftrightarrow> db_ok (a_db st) \<and> get_user (a_db st) (u_id u) = Some u
     \<and> user_is_eligible_to_vote (a_db st) u (Some e) \<and> get_election (a_db st) (el_id e) = Some e
     \<and> is_open (e_now env) e \<and> 1 \<le> el_id e
     \<and> ks_cache (a_keys st) (el_id e) = Some (priv, priv_public priv)
     \<and> blind_signing_key_id e = Some (public_key_fingerprint (e_lib env) (priv_public priv))"

lemma prepare_token_ready:
  assumes "ready_to_vote env st u e priv" and "0 \<le> blinded"
  shows "prepare_blind_token env u (js_token_request blinded (el_id e)) st =
    (case blind_sign (e_lib env) (a_keys st) blinded (el_id e) of
       (Inl (BlindSigningKeyError _), ks2) \<Rightarrow> (Inl (json_error 503 ''Election signing key is unavailable''), ks2)
     | (Inl _, ks2) \<Rightarrow> (Inl (json_error 400 ''Invalid blinded ballot value''), ks2)
     | (Inr s, ks2) \<Rightarrow> (Inr \<lparr>au_user_id = u_id u, au_election_id = el_id e, au_signature = s\<rparr>, ks2))"
proof -
  note r = assms(1) [unfolded ready_to_vote_def]
  obtain roll where roll: "lock_and_validate_voter (a_db st) (u_id u) = Inr (u, roll)"
    "single_contest (a_db st) (el_id e)" "enrolled_in roll (election_regions (a_db st) (el_id e))"
    "\<not> has_authorization (a_db st) (u_id u) (el_id e)" "\<not> has_receipt (a_db st) (u_id u) (el_id e)"
    using eligible_validates [of "a_db st" "u_id u" u e] r by blast
  obtain k where "ensure_election_blind_signing_key (e_lib env) (e_key_env env) (a_keys st) (el_id e)
      (blind_signing_key_id e) False = (Inr k, a_keys st)"
    using ensure_cached(1) [of "el_id e" "a_keys st" priv "priv_public priv" "e_lib env" "e_key_env env"] r by auto
  then have sign: "sign_for_election env (a_keys st) e blinded =
    (case blind_sign (e_lib env) (a_keys st) blinded (el_id e) of
       (Inl (BlindSigningKeyError _), ks2) \<Rightarrow> (Inl (json_error 503 ''Election signing key is unavailable''), ks2)
     | (Inl _, ks2) \<Rightarrow> (Inl (json_error 400 ''Invalid blinded ballot value''), ks2)
     | (Inr s, ks2) \<Rightarrow> (Inr s, ks2))"
    by (simp add: sign_for_election_def)
  show ?thesis
    using r roll bigint_to_hex_read [OF assms(2)]
    by (simp add: prepare_blind_token_def js_token_request_def sign Let_def split: prod.splits sum.splits key_exc.splits)
qed

lemma blind_sign_cached_keys:
  assumes "1 \<le> eid" and "ks_cache ks eid = Some (priv, pub)"
  shows "snd (blind_sign lib ks b eid) = ks"
    and "snd (verify_unblinded_signature lib ks bytes sig eid) = ks"
    and "fst (blind_sign lib ks b eid) = Inl e \<Longrightarrow> \<exists>m. e = KeyValueError m"
  using ensure_cached(2) [OF assms, of lib]
  by (auto simp: blind_sign_def verify_unblinded_signature_def Let_def hash_ballot_def split: if_splits)

lemma token_issued_when_ready:
  assumes "ready_to_vote env st u e priv" and "0 \<le> blinded"
    and "blind_sign (e_lib env) (a_keys st) blinded (el_id e) = (Inr s, ks2)"
  shows "\<exists>st1. request_blind_token env (Some u) (js_token_request blinded (el_id e)) st =
      (Json_reply 200 (JObj [(''blind_signature'', JStr (py_hex s)), (''election_id'', JInt (el_id e))]), st1)
    \<and> insert_token (u_id u, el_id e) (a_db st) = Some (a_db st1) \<and> a_keys st1 = a_keys st"
proof -
  note r = assms(1) [unfolded ready_to_vote_def]
  have ks2: "ks2 = a_keys st"
    using blind_sign_cached_keys(1) [of "el_id e" "a_keys st" priv "priv_public priv" "e_lib env" blinded] r assms(3) by auto
  have "u_id u \<in> user_ids (a_db st)" "el_id e \<in> election_ids (a_db st)"
    using r get_user_SomeD [of "a_db st" "u_id u"] get_election_SomeD [of "a_db st" "el_id e"]
    by (auto simp: user_ids_def election_ids_def)
  moreover have "\<not> has_authorization (a_db st) (u_id u) (el_id e)"
    using eligible_validates [of "a_db st" "u_id u" u e] r by blast
  ultimately obtain db' where db': "insert_token (u_id u, el_id e) (a_db st) = Some db'"
    using insert_token_Some_iff [of "a_db st" "u_id u" "el_id e"] r by auto
  show ?thesis
    using prepare_token_ready [OF assms(1,2)] assms(3) db' ks2
    by (simp add: request_blind_token_def login_required_def commit_blind_token_def)
qed


definition ballot_acceptable ::
  "app_env \<Rightarrow> app_state \<Rightarrow> election \<Rightarrow> candidate \<Rightarrow> string \<Rightarrow> rsa_private \<Rightarrow> bool" where
  "ballot_acceptable env st e c nonce priv \<longleftrightarrow> db_ok (a_db st) \<and> get_election (a_db st) (el_id e) = Some e
     \<and> is_open (e_now env) e \<and> 1 \<le> el_id e \<and> single_contest (a_db st) (el_id e)
     \<and> c \<in> set (candidates (a_db st)) \<and> c_election_id c = el_id e \<and> c_id c \<noteq> 0
     \<and> valid_nonce (JStr nonce)
     \<and> ks_cache (a_keys st) (el_id e) = Some (priv, priv_public priv)
     \<and> blind_signing_key_id e = Some (public_key_fingerprint (e_lib env) (priv_public priv))
     \<and> e_token_hex env \<notin> voter_token ` set (votes (a_db st))
     \<and> (el_id e, sha256_hex (utf8_encode nonce)) \<notin> (\<lambda>n. (sn_election_id n, nullifier_hash n)) ` set (nullifiers (a_db st))"

lemma ballot_recorded_when_valid:
  assumes "ballot_acceptable env st e c nonce priv" and "0 \<le> sig"
    and "verify_unblinded_signature (e_lib env) (a_keys st) (js_ballot_bytes (c_id c) nonce (el_id e)) sig (el_id e)
      = (Inr True, ks2)"
  shows "\<exists>st'. cast_anonymous_ballot env (js_cast_request (js_ballot_bytes (c_id c) nonce (el_id e)) sig) st =
      (Json_reply 200 (JObj [(''status'', JStr ''ok''),
         (''message'', JStr ''Your anonymous ballot has been recorded.'')]), st')
    \<and> insert_ballot (ballot_for env e c nonce) (a_db st) = Some (a_db st')"
proof -
  note r = assms(1) [unfolded ballot_acceptable_def]
  let ?bytes = "js_ballot_bytes (c_id c) nonce (el_id e)"
  obtain k where "ensure_election_blind_signing_key (e_lib env) (e_key_env env) (a_keys st) (el_id e)
      (blind_signing_key_id e) False = (Inr k, a_keys st)"
    using ensure_cached(1) [of "el_id e" "a_keys st" priv "priv_public priv" "e_lib env" "e_key_env env"] r by auto
  then have sig: "check_ballot_signature env (a_keys st) e ?bytes sig = (Inr True, ks2)"
    using assms(3) by (simp add: check_ballot_signature_def)
  have c: "find (\<lambda>x. c_id x = c_id c \<and> c_election_id x = el_id e) (candidates (a_db st)) = Some c"
    by (rule find_by_unique [of c_id]) (use r in \<open>auto simp: db_ok_def candidates_ok_def\<close>)
  have nonce: "nonce \<noteq> []" using r by (auto simp: valid_nonce_def)
  have prep: "prepare_ballot env (js_cast_request ?bytes sig) st = (Inr (ballot_for env e c nonce), ks2)"
    using r nonce sig c parse_js_cast [OF assms(2), of "c_id c" nonce "el_id e"]
    by (simp add: prepare_ballot_def has_fields_def js_cast_request_def js_ballot_def Let_def)
  have "el_id e \<in> election_ids (a_db st)"
    using r get_election_SomeD [of "a_db st" "el_id e"] by (auto simp: election_ids_def)
  then have "insert_ballot (ballot_for env e c nonce) (a_db st) \<noteq> None"
    using r insert_ballot_Some_iff [of "a_db st" "ballot_for env e c nonce"]
    by (auto simp: ballot_for_def)
  then obtain db' where "insert_ballot (ballot_for env e c nonce) (a_db st) = Some db'" by blast
  then show ?thesis using prep by (simp add: cast_anonymous_ballot_def commit_ballot_def)
qed

lemma ready_after_token:
  assumes "ready_to_vote env st u e priv" and "insert_token (u_id u, el_id e) (a_db st) = Some (a_db st1)"
    and "a_keys st1 = a_keys st" and "is_open (e_now env') e" and "e_lib env' = e_lib env"
    and "c \<in> set (candidates (a_db st))" and "c_election_id c = el_id e" and "c_id c \<noteq> 0"
    and "valid_nonce (JStr nonce)" and "e_token_hex env' \<notin> voter_token ` set (votes (a_db st))"
    and "(el_id e, sha256_hex (utf8_encode nonce)) \<notin> (\<lambda>n. (sn_election_id n, nullifier_hash n)) ` set (nullifiers (a_db st))"
  shows "ballot_acceptable env' st1 e c nonce priv"
proof -
  have "single_contest (a_db st) (el_id e)"
    using eligible_validates [of "a_db st" "u_id u" u e] assms(1) by (auto simp: ready_to_vote_def)
  then show ?thesis
    using assms insert_token_SomeD [OF assms(2)]
    by (simp add: ballot_acceptable_def ready_to_vote_def single_contest_def election_regions_def
        election_positions_def candidates_of_def get_election_def)
qed



lemma prepare_ballot_key:
  assumes "prepare_ballot env data st = (Inr b, ks)" and "parse_ballot data = Some (bytes, JObj kvs, sig)"
  shows "int_of_json (dict_get kvs ''election_id'') = Inr (b_election_id b)"
    and "\<exists>nonce. dict_get kvs ''nonce'' = JStr nonce \<and> b_nonce_hash b = sha256_hex (utf8_encode nonce)"
proof -
  obtain bytes' kvs' sig' eid cid nonce e c where f: "parse_ballot data = Some (bytes', JObj kvs', sig')"
    "int_of_json (dict_get kvs' ''election_id'') = Inr eid" "dict_get kvs' ''nonce'' = JStr nonce"
    "get_election (a_db st) eid = Some e" "b = ballot_for env e c nonce"
    by (rule prepare_ballot_SomeD [OF assms(1)])
  have "kvs' = kvs" using f(1) assms(2) by simp
  with f get_election_SomeD [OF f(4)]
  show "int_of_json (dict_get kvs ''election_id'') = Inr (b_election_id b)"
    and "\<exists>nonce. dict_get kvs ''nonce'' = JStr nonce \<and> b_nonce_hash b = sha256_hex (utf8_encode nonce)"
    by (simp_all add: ballot_for_def)
qed

text \<open>
  C9: no replay. While the database holds the nullifier of a nonce for an election, every submission
  for that election with that nonce, whatever its candidate, signature or sender, is refused
  and changes nothing in the database.
\<close>

theorem ballot_replay_refused:
  assumes "parse_ballot data = Some (bytes, JObj kvs, sig)"
    and "int_of_json (dict_get kvs ''election_id'') = Inr eid" and "dict_get kvs ''nonce'' = JStr nonce"
    and "(eid, sha256_hex (utf8_encode nonce)) \<in>
        (\<lambda>n. (sn_election_id n, nullifier_hash n)) ` set (nullifiers (a_db st))"
  shows "(\<nexists>body. fst (cast_anonymous_ballot env data st) = Json_reply 200 body)
     \<and> a_db (snd (cast_anonymous_ballot env data st)) = a_db st"
proof -
  have no: False if run: "cast_anonymous_ballot env data st = (Json_reply 200 body, st')" for body st'
  proof -
    obtain b ks where prep: "prepare_ballot env data st = (Inr b, ks)"
      and ins: "insert_ballot b (a_db st) = Some (a_db st')" by (rule cast_200 [OF run])
    have "(b_election_id b, b_nonce_hash b) = (eid, sha256_hex (utf8_encode nonce))"
      using prepare_ballot_key [OF prep assms(1)] assms(2,3) by auto
    with spent.insert_taken_refused [of b "a_db st"] assms(4) ins show False by simp
  qed
  obtain r st' where run: "cast_anonymous_ballot env data st = (r, st')" by fastforce
  with no cast_refused_keeps_db [OF run] show ?thesis by auto
qed

section \<open>Witnesses\<close>

definition demo_nonce :: string where
  "demo_nonce = replicate 64 (CHR ''a'')"

definition demo_vote_state :: app_state where
  "demo_vote_state = \<lparr>a_db = demo_db\<lparr>elections := [demo_election\<lparr>blind_signing_key_id :=
        Some (public_key_fingerprint toy_lib (priv_public toy_key))\<rparr>]\<rparr>,
     a_keys = toy_store, a_audit = init_audit_handler [] None\<rparr>"

definition demo_vote_env :: app_env where
  "demo_vote_env = \<lparr>e_lib = toy_lib, e_key_env = demo_key_env, e_audit_key = [1], e_audit_path = ''logging_service.py'',
     e_audit_lineno = 41, e_now = 5, e_token_hex = ''t1''\<rparr>"

abbreviation demo_open_election :: election where
  "demo_open_election \<equiv> demo_election\<lparr>blind_signing_key_id :=
     Some (public_key_fingerprint toy_lib (priv_public toy_key))\<rparr>"

lemma demo_ready: "ready_to_vote demo_vote_env demo_vote_state demo_user demo_open_election toy_key"
proof -
  have ok: "db_ok (a_db demo_vote_state)"
    using demo_db_ok by (simp add: demo_vote_state_def db_ok_def constraint_defs demo_db_def demo_election_def
        demo_manager_def demo_user_def)
  have "is_approved demo_user" by (simp add: is_approved_def demo_user_def) code_simp
  then have el: "user_is_eligible_to_vote (a_db demo_vote_state) demo_user (Some demo_open_election)"
    by (simp add: user_is_eligible_to_vote_def demo_vote_state_def demo_defs enrolment_of_def has_role_def
        role_of_def single_contest_def election_regions_def election_positions_def candidates_of_def
        enrolled_in_def has_receipt_def has_authorization_def)
  from ok el show ?thesis
    by (simp add: ready_to_vote_def get_user_def get_election_def is_open_def demo_vote_state_def demo_vote_env_def
        demo_defs toy_store_def)
qed

lemma demo_blind_sign:
  assumes "b \<in> {2, 4}"
  shows "\<exists>s. blind_sign toy_lib toy_store b 1 = (Inr s, toy_store)"
proof -
  have "gcd 2 (33::int) = 1" "gcd 4 (33::int) = 1" by (code_simp, code_simp)
  with assms show ?thesis
    by (auto simp: blind_sign_def load_keys_def validated_election_id_def toy_store_def toy_key_def Let_def)
qed

lemma demo_token:
  assumes "b \<in> {2, 4}"
  shows "\<exists>body st1. request_blind_token demo_vote_env (Some demo_user) (js_token_request b 1) demo_vote_state
    = (Json_reply 200 body, st1)"
proof -
  obtain s where s: "blind_sign toy_lib toy_store b 1 = (Inr s, toy_store)" using demo_blind_sign [OF assms] ..
  have env: "e_lib demo_vote_env = toy_lib" "a_keys demo_vote_state = toy_store" "el_id demo_open_election = 1"
    by (simp_all add: demo_vote_env_def demo_vote_state_def demo_election_def)
  show ?thesis
    using token_issued_when_ready [OF demo_ready, of b s toy_store] s assms unfolding env by auto
qed


theorem authorization_only_for_eligible_witness:
  "\<exists>body st1. request_blind_token demo_vote_env (Some demo_user) (js_token_request 2 1) demo_vote_state
      = (Json_reply 200 body, st1)
    \<and> (\<exists>e. is_open 5 e \<and> length (filter (\<lambda>t. (bt_user_id t, bt_election_id t) = (7, el_id e)) (blind_tokens (a_db st1))) = 1)"
proof -
  obtain body st1 where run: "request_blind_token demo_vote_env (Some demo_user) (js_token_request 2 1) demo_vote_state
      = (Json_reply 200 body, st1)" using demo_token [of 2] by auto
  have ids: "u_id demo_user = 7" "e_now demo_vote_env = 5" by (simp_all add: demo_user_def demo_vote_env_def)
  from authorization_only_for_eligible [OF run, unfolded ids] run show ?thesis by blast
qed

theorem authorization_independent_of_ballot_witness:
  "\<exists>b1 b2 st1 st2. request_blind_token demo_vote_env (Some demo_user) (js_token_request 2 1) demo_vote_state
      = (Json_reply 200 b1, st1)
    \<and> request_blind_token demo_vote_env (Some demo_user) (js_token_request 4 1) demo_vote_state
      = (Json_reply 200 b2, st2) \<and> a_db st1 = a_db st2"
proof -
  obtain b1 st1 where run1: "request_blind_token demo_vote_env (Some demo_user) (js_token_request 2 1) demo_vote_state
      = (Json_reply 200 b1, st1)" using demo_token [of 2] by auto
  obtain b2 st2 where run2: "request_blind_token demo_vote_env (Some demo_user) (js_token_request 4 1) demo_vote_state
      = (Json_reply 200 b2, st2)" using demo_token [of 4] by auto
  from authorization_independent_of_ballot [OF run1 [unfolded js_token_request_def] run2 [unfolded js_token_request_def]]
  show ?thesis using run1 run2 by blast
qed



theorem ballot_replay_refused_witness:
  "let st = demo_vote_state\<lparr>a_db := (a_db demo_vote_state)\<lparr>nullifiers :=
        [\<lparr>sn_id = 1, sn_election_id = 1, nullifier_hash = sha256_hex (utf8_encode demo_nonce), spent_at = 0\<rparr>]\<rparr>\<rparr> in
   a_db (snd (cast_anonymous_ballot demo_vote_env
      (js_cast_request (js_ballot_bytes 2 demo_nonce 1) 9) st)) = a_db st"
proof -
  have parse: "parse_ballot (js_cast_request (js_ballot_bytes 2 demo_nonce 1) 9) =
      Some (js_ballot_bytes 2 demo_nonce 1, JObj [(''candidate_id'', JInt 2), (''nonce'', JStr demo_nonce),
        (''election_id'', JInt 1)], 9)"
    using parse_js_cast [of 9 2 demo_nonce 1] by (simp add: js_ballot_def)
  show ?thesis
    unfolding Let_def
    by (rule conjunct2 [OF ballot_replay_refused [OF parse, of 1 demo_nonce]]) simp_all
qed


section \<open>Inputs that escape the error handling\<close>

text \<open>
  Two request bodies escape the handlers' error handling and end in an internal server error
  instead of the 400 of the other malformed inputs: a non-zero number as the body of the token
  request, where testing the required fields raises \<open>TypeError\<close> outside any handler, and a signed
  or unsigned ballot whose candidate is \<open>Infinity\<close>, where \<open>int\<close> raises \<open>OverflowError\<close>, which is not among
  the caught exceptions. Neither changes the state.
\<close>

theorem malformed_inputs_uncaught:
  assumes "i \<noteq> 0" and "parse_ballot data = Some (bytes, JObj kvs, sig)"
    and "has_fields [''ballot'', ''signature''] data" and "dict_get kvs ''candidate_id'' = JInf pos"
    and "truthy (dict_get kvs ''election_id'')" and "truthy (dict_get kvs ''nonce'')"
  shows "request_blind_token env (Some u) (JInt i) st = (Abort 500, st)
     \<and> cast_anonymous_ballot env data st = (Abort 500, st)"
  using assms
  by (simp add: request_blind_token_def login_required_def prepare_blind_token_def
      cast_anonymous_ballot_def prepare_ballot_def Let_def)

theorem malformed_inputs_uncaught_witness:
  "let data = JObj [(''ballot'', JStr (hex_of_bytes (utf8_encode
        (''{'' @ dump_str True ''candidate_id'' @ '':Infinity,'' @ dump_str True ''election_id'' @ '':1,'' @
         dump_str True ''nonce'' @ '':1}'')))), (''signature'', JStr ''1'')] in
   request_blind_token demo_vote_env (Some demo_user) (JInt 5) demo_vote_state = (Abort 500, demo_vote_state)
   \<and> cast_anonymous_ballot demo_vote_env data demo_vote_state = (Abort 500, demo_vote_state)"
proof -
  let ?text = "''{'' @ dump_str True ''candidate_id'' @ '':Infinity,'' @ dump_str True ''election_id'' @ '':1,'' @
         dump_str True ''nonce'' @ '':1}''"
  have ld: "loads ?text = Some (JObj [(''candidate_id'', JInf True), (''election_id'', JInt 1), (''nonce'', JInt 1)])"
    by code_simp
  have sig: "int16_of_json (JStr ''1'') = Inr 1" by code_simp
  show ?thesis
    unfolding Let_def
    by (rule malformed_inputs_uncaught [where kvs = "[(''candidate_id'', JInf True), (''election_id'', JInt 1), (''nonce'', JInt 1)]"
          and pos = True and bytes = "utf8_encode ?text" and sig = 1])
      (simp_all add: parse_ballot_def ld sig has_fields_def del: append.simps int16_of_json.simps)
qed

end
