(* ===== verification/Elections.thy ===== *)
theory Elections
  imports Voting
begin

text \<open>
  Election and candidate management: \<^verbatim>\<open>app/routes/elections.py\<close>, \<^verbatim>\<open>app/routes/candidates.py\<close> and
  \<^verbatim>\<open>app/services/election_key_service.py\<close>. These handlers take exclusive locks on the rows they
  decide about, so each is one step. \<open>datetime.fromisoformat\<close> is the parameter \<open>fromiso\<close>: the naive
  value and, if the text has one, its offset from UTC.
\<close>

section \<open>Elections\<close>

type_synonym iso_parser = "string \<Rightarrow> (timestamp \<times> timestamp option) option"

definition parse_utc_datetime :: "iso_parser \<Rightarrow> string \<Rightarrow> timestamp option" where
  "parse_utc_datetime fromiso value =
     (case fromiso value of
        None \<Rightarrow> None
      | Some (parsed, None) \<Rightarrow> Some parsed
      | Some (parsed, Some offset) \<Rightarrow> Some (parsed - offset))"

definition list_elections_view :: "database \<Rightarrow> election list" where
  "list_elections_view db = rev (sort_key el_created_at (elections db))"

abbreviation to_elections :: "string \<Rightarrow> reply" where
  "to_elections msg \<equiv> Redirect ''elections.list_elections'' [msg]"

definition form_text :: "string option \<Rightarrow> string" where
  "form_text v = strip (case v of None \<Rightarrow> [] | Some s \<Rightarrow> s)"

definition quote :: "string \<Rightarrow> string" where
  "quote s = char_of (34::nat) # s @ [char_of (34::nat)]"

definition create_election ::
  "app_env \<Rightarrow> iso_parser \<Rightarrow> user option \<Rightarrow> string option \<Rightarrow> string option \<Rightarrow> string option \<Rightarrow> app_state
     \<Rightarrow> reply \<times> app_state" where
  "create_election env fromiso current_user name_form open_form close_form st =
     roles_required (a_db st) [''manager''] current_user st
       (\<lambda>u. let db = a_db st; name = form_text name_form in
          if name = [] then (to_elections ''Election name is required.'', st)
          else
            (let o_at = (case or_else open_form None of
                           None \<Rightarrow> Inr None
                         | Some s \<Rightarrow> (case parse_utc_datetime fromiso s of None \<Rightarrow> Inl () | Some t \<Rightarrow> Inr (Some t)));
                 c_at = (case or_else close_form None of
                           None \<Rightarrow> Inr None
                         | Some s \<Rightarrow> (case parse_utc_datetime fromiso s of None \<Rightarrow> Inl () | Some t \<Rightarrow> Inr (Some t))) in
             case o_at of
               Inl _ \<Rightarrow> (to_elections ''Open time must be a valid date and time.'', st)
             | Inr open_time \<Rightarrow>
                 (case c_at of
                    Inl _ \<Rightarrow> (to_elections ''Close time must be a valid date and time.'', st)
                  | Inr close_time \<Rightarrow>
                      if (case (open_time, close_time) of (Some x, Some y) \<Rightarrow> y \<le> x | _ \<Rightarrow> False)
                      then (to_elections ''Close time must be after open time.'', st)
                      else
                        (let row = \<lparr>el_id = fresh_id (map el_id (elections db)), el_name = name,
                               el_status = ''draft'', open_at = open_time, close_at = close_time,
                               blind_signing_key_id = None, blind_key_recovery_required = False,
                               created_by = Some (u_id u), el_created_at = e_now env\<rparr> in
                         case commit (db\<lparr>elections := elections db @ [row]\<rparr>) of
                           None \<Rightarrow> (Abort 500, st)
                         | Some db' \<Rightarrow>
                             (to_elections (''Election '' @ quote name @ '' created.''),
                              audit_action env (Some (u_id u)) ''election.create'' ''election'' (el_id row)
                                (st\<lparr>a_db := db'\<rparr>))))))"

definition open_election ::
  "app_env \<Rightarrow> user option \<Rightarrow> int \<Rightarrow> app_state \<Rightarrow> reply \<times> app_state" where
  "open_election env current_user election_id st =
     roles_required (a_db st) [''manager''] current_user st
       (\<lambda>u. let db = a_db st in
          case get_election db election_id of
            None \<Rightarrow> (Abort 404, st)
          | Some e \<Rightarrow>
              if el_status e \<noteq> ''draft'' then (to_elections ''Only a draft election can be opened.'', st)
              else if blind_key_recovery_required e
              then (to_elections ''This legacy election requires signing-authority recovery and cannot open.'', st)
              else if list_ex (\<lambda>x. el_status x = ''open'' \<and> el_id x \<noteq> el_id e) (elections db)
              then (to_elections ''Close the current election before opening another.'', st)
              else if candidates_of db (el_id e) = []
              then (to_elections ''Add at least one candidate before opening this election.'', st)
              else if \<not> single_contest db (el_id e)
              then (to_elections (''This prototype supports exactly one region and one contest per election. '' @
                      ''Align every candidate before opening it.''), st)
              else
                (case ensure_election_blind_signing_key (e_lib env) (e_key_env env) (a_keys st) (el_id e)
                        (blind_signing_key_id e) (blind_signing_key_id e = None) of
                   (Inl (BlindSigningKeyError _), ks) \<Rightarrow>
                     (to_elections ''The election signing key is unavailable. The election was not opened.'',
                      st\<lparr>a_keys := ks\<rparr>)
                 | (Inl _, ks) \<Rightarrow> (Abort 500, st\<lparr>a_keys := ks\<rparr>)
                 | (Inr key, ks) \<Rightarrow>
                     (let st1 = st\<lparr>a_keys := ks\<rparr>;
                          opens = (case open_at e of None \<Rightarrow> e_now env | Some t \<Rightarrow> t);
                          e' = e\<lparr>blind_signing_key_id := Some (kc_key_id key), el_status := ''open'',
                                 open_at := Some opens\<rparr> in
                      if (case close_at e of None \<Rightarrow> False | Some t \<Rightarrow> t \<le> opens)
                      then (to_elections ''Close time must be after open time.'', st1)
                      else
                        (case commit (update_election e' db) of
                           None \<Rightarrow> (Abort 500, st1)
                         | Some db' \<Rightarrow>
                             (to_elections (''Election '' @ quote (el_name e) @ '' is now open for voting.''),
                              audit_action env (Some (u_id u)) ''election.open'' ''election'' (el_id e)
                                (st1\<lparr>a_db := db'\<rparr>))))))"

definition close_election ::
  "app_env \<Rightarrow> user option \<Rightarrow> int \<Rightarrow> app_state \<Rightarrow> reply \<times> app_state" where
  "close_election env current_user election_id st =
     roles_required (a_db st) [''manager''] current_user st
       (\<lambda>u. let db = a_db st in
          case get_election db election_id of
            None \<Rightarrow> (Abort 404, st)
          | Some e \<Rightarrow>
              if el_status e \<noteq> ''open'' then (to_elections ''Only an open election can be closed.'', st)
              else
                (case commit (update_election (e\<lparr>el_status := ''closed'', close_at := Some (e_now env)\<rparr>) db) of
                   None \<Rightarrow> (Abort 500, st)
                 | Some db' \<Rightarrow>
                     (to_elections (''Election '' @ quote (el_name e) @ '' has been closed.''),
                      audit_action env (Some (u_id u)) ''election.close'' ''election'' (el_id e) (st\<lparr>a_db := db'\<rparr>))))"

section \<open>Key reconciliation\<close>

fun reconcile_elections ::
  "app_env \<Rightarrow> election list \<Rightarrow> nat \<Rightarrow> database \<Rightarrow> key_store \<Rightarrow> (key_exc + nat \<times> database) \<times> key_store" where
  "reconcile_elections env [] anchored db ks = (Inr (anchored, db), ks)"
| "reconcile_elections env (e # es) anchored db ks =
     (if blind_key_recovery_required e
      then (Inl (BlindSigningKeyError (''This open election has ambiguous legacy blind-authorization '' @
              ''history. Manual recovery is required.'')), ks)
      else if blind_signing_key_id e = None \<and> list_ex (\<lambda>t. bt_election_id t = el_id e) (blind_tokens db)
      then (Inl (BlindSigningKeyError (''An open election with issued authorizations has no anchored '' @
              ''blind-signing key. Manual recovery is required.'')), ks)
      else
        (case ensure_election_blind_signing_key (e_lib env) (e_key_env env) ks (el_id e)
                (blind_signing_key_id e) (blind_signing_key_id e = None) of
           (Inl x, ks') \<Rightarrow> (Inl x, ks')
         | (Inr key, ks') \<Rightarrow>
             if blind_signing_key_id e = None
             then reconcile_elections env es (Suc anchored)
                    (update_election (e\<lparr>blind_signing_key_id := Some (kc_key_id key)\<rparr>) db) ks'
             else reconcile_elections env es anchored db ks'))"

definition reconcile_open_election_keys ::
  "app_env \<Rightarrow> database \<Rightarrow> key_store \<Rightarrow> (key_exc + nat \<times> database) \<times> key_store" where
  "reconcile_open_election_keys env db ks =
     reconcile_elections env (filter (\<lambda>e. el_status e = ''open'') (elections db)) 0 db ks"

section \<open>Candidates\<close>

abbreviation to_delegate :: "string \<Rightarrow> reply" where
  "to_delegate msg \<equiv> Redirect ''main.delegate_dashboard'' [msg]"

definition outside_region :: "database \<Rightarrow> user \<Rightarrow> int \<Rightarrow> bool" where
  "outside_region db u region_id \<longleftrightarrow>
     has_role db u [''delegate''] \<and> \<not> has_role db u [''manager'']
     \<and> (case enrolment_of db (u_id u) of None \<Rightarrow> True | Some r \<Rightarrow> er_region_id r \<noteq> Some region_id)"

record candidate_form =
  cf_name :: "string option"
  cf_party :: "string option"
  cf_position :: "string option"
  cf_region_id :: "string option"
  cf_election_id :: "string option"

definition optional_text :: "string \<Rightarrow> string option" where
  "optional_text s = (if s = [] then None else Some s)"

definition create_candidate ::
  "app_env \<Rightarrow> user option \<Rightarrow> candidate_form \<Rightarrow> app_state \<Rightarrow> reply \<times> app_state" where
  "create_candidate env current_user form st =
     roles_required (a_db st) [''delegate'', ''manager''] current_user st
       (\<lambda>u. let db = a_db st; name = form_text (cf_name form); position = form_text (cf_position form) in
          case (or_else (cf_region_id form) None, or_else (cf_election_id form) None) of
            (Some region_raw, Some election_raw) \<Rightarrow>
              if name = [] \<or> position = []
              then (to_delegate ''Name, position, region, and draft election are required.'', st)
              else
                (case (py_int 10 region_raw, py_int 10 election_raw) of
                   (Some region_id, Some election_id) \<Rightarrow>
                     (case get_election db election_id of
                        None \<Rightarrow> (to_delegate ''Candidates can only be added to a draft election.'', st)
                      | Some e \<Rightarrow>
                          if el_status e \<noteq> ''draft''
                          then (to_delegate ''Candidates can only be added to a draft election.'', st)
                          else if region_id \<notin> region_ids db then (to_delegate ''Invalid region.'', st)
                          else if outside_region db u region_id
                          then (to_delegate ''Delegates can only add candidates in their region.'', st)
                          else
                            (let row = \<lparr>c_id = fresh_id (map c_id (candidates db)), c_name = name,
                                   party = optional_text (form_text (cf_party form)), c_position = position,
                                   c_region_id = region_id, c_election_id = el_id e\<rparr> in
                             case commit (db\<lparr>candidates := candidates db @ [row]\<rparr>) of
                               None \<Rightarrow> (Abort 500, st)
                             | Some db' \<Rightarrow>
                                 (to_delegate ''Candidate created.'',
                                  audit_action env (Some (u_id u)) ''candidate.create'' ''candidate'' (c_id row)
                                    (st\<lparr>a_db := db'\<rparr>))))
                 | _ \<Rightarrow> (to_delegate ''Invalid region.'', st))
          | _ \<Rightarrow> (to_delegate ''Name, position, region, and draft election are required.'', st))"

text \<open>The fields of an update, in the order the handler reads them; \<open>Inl\<close> is its early return.\<close>

definition edit_candidate :: "database \<Rightarrow> user \<Rightarrow> candidate_form \<Rightarrow> candidate \<Rightarrow> string + candidate" where
  "edit_candidate db u form c =
     (if (case cf_name form of None \<Rightarrow> False | Some s \<Rightarrow> strip s = []) then Inl ''Candidate name is required.''
      else if (case cf_position form of None \<Rightarrow> False | Some s \<Rightarrow> strip s = [])
      then Inl ''Candidate position is required.''
      else
        (let c1 = c\<lparr>c_name := (case cf_name form of None \<Rightarrow> c_name c | Some s \<Rightarrow> strip s),
                    party := (case cf_party form of None \<Rightarrow> party c | Some s \<Rightarrow> optional_text (strip s)),
                    c_position := (case cf_position form of None \<Rightarrow> c_position c | Some s \<Rightarrow> strip s)\<rparr> in
         case cf_region_id form of
           None \<Rightarrow> Inr c1
         | Some s \<Rightarrow>
             (case py_int 10 s of
                None \<Rightarrow> Inl ''Invalid region.''
              | Some new_region_id \<Rightarrow>
                  if outside_region db u new_region_id
                  then Inl ''Delegates can only move candidates within their region.''
                  else if new_region_id \<notin> region_ids db then Inl ''Invalid region.''
                  else Inr (c1\<lparr>c_region_id := new_region_id\<rparr>))))"

definition update_candidate ::
  "app_env \<Rightarrow> user option \<Rightarrow> int \<Rightarrow> candidate_form \<Rightarrow> app_state \<Rightarrow> reply \<times> app_state" where
  "update_candidate env current_user candidate_id form st =
     roles_required (a_db st) [''delegate'', ''manager''] current_user st
       (\<lambda>u. let db = a_db st in
          case get_candidate db candidate_id of
            None \<Rightarrow> (Abort 404, st)
          | Some c \<Rightarrow>
              if (case get_election db (c_election_id c) of None \<Rightarrow> True | Some e \<Rightarrow> el_status e \<noteq> ''draft'')
              then (to_delegate ''An election roster cannot be changed after voting opens.'', st)
              else if outside_region db u (c_region_id c)
              then (to_delegate ''Delegates can only edit candidates in their region.'', st)
              else
                (case edit_candidate db u form c of
                   Inl msg \<Rightarrow> (to_delegate msg, st)
                 | Inr c' \<Rightarrow>
                     (case commit (db\<lparr>candidates :=
                              update_where (\<lambda>x. c_id x = c_id c') (\<lambda>_. c') (candidates db)\<rparr>) of
                        None \<Rightarrow> (Abort 500, st)
                      | Some db' \<Rightarrow>
                          (to_delegate ''Candidate updated.'',
                           audit_action env (Some (u_id u)) ''candidate.update'' ''candidate'' (c_id c)
                             (st\<lparr>a_db := db'\<rparr>)))))"

text \<open>Deleting a candidate removes its votes with it (\<open>ON DELETE CASCADE\<close>).\<close>

definition delete_candidate_row :: "candidate \<Rightarrow> database \<Rightarrow> database" where
  "delete_candidate_row c db =
     db\<lparr>candidates := filter (\<lambda>x. c_id x \<noteq> c_id c) (candidates db),
        votes := filter (\<lambda>v. \<not> (v_candidate_id v = c_id c \<and> v_election_id v = c_election_id c)) (votes db)\<rparr>"

definition delete_candidate ::
  "app_env \<Rightarrow> user option \<Rightarrow> int \<Rightarrow> app_state \<Rightarrow> reply \<times> app_state" where
  "delete_candidate env current_user candidate_id st =
     roles_required (a_db st) [''delegate'', ''manager''] current_user st
       (\<lambda>u. let db = a_db st in
          case get_candidate db candidate_id of
            None \<Rightarrow> (Abort 404, st)
          | Some c \<Rightarrow>
              if (case get_election db (c_election_id c) of None \<Rightarrow> True | Some e \<Rightarrow> el_status e \<noteq> ''draft'')
              then (to_delegate ''An election roster cannot be changed after voting opens.'', st)
              else if outside_region db u (c_region_id c)
              then (to_delegate ''Delegates can only delete candidates in their region.'', st)
              else
                (case commit (delete_candidate_row c db) of
                   None \<Rightarrow> (Abort 500, st)
                 | Some db' \<Rightarrow>
                     (to_delegate ''Candidate deleted.'',
                      audit_action env (Some (u_id u)) ''candidate.delete'' ''candidate'' (c_id c)
                        (st\<lparr>a_db := db'\<rparr>))))"


section \<open>Effects of the handlers on the database\<close>

lemma roles_required_cases:
  assumes "roles_required db allowed cu st fn = (r, st')"
  obtains "st' = st" | u where "cu = Some u" and "has_role db u allowed" and "fn u = (r, st')"
  using assms by (auto simp: roles_required_def login_required_def split: option.splits if_splits)

definition draft_added :: "database \<Rightarrow> database \<Rightarrow> bool" where
  "draft_added db db' \<longleftrightarrow> (\<exists>row. el_status row = ''draft'' \<and> el_id row \<notin> election_ids db
     \<and> db' = db\<lparr>elections := elections db @ [row]\<rparr>)"

lemma draft_addedI:
  "el_status row = ''draft'' \<Longrightarrow> el_id row \<notin> election_ids db \<Longrightarrow>
     draft_added db (db\<lparr>elections := elections db @ [row]\<rparr>)"
  by (auto simp: draft_added_def)

definition election_changed :: "(election \<Rightarrow> election \<Rightarrow> bool) \<Rightarrow> database \<Rightarrow> database \<Rightarrow> bool" where
  "election_changed how db db' \<longleftrightarrow> (\<exists>e e'. get_election db (el_id e) = Some e \<and> el_id e' = el_id e \<and> how e e'
     \<and> db' = update_election e' db)"

definition roster_changed :: "int \<Rightarrow> database \<Rightarrow> database \<Rightarrow> bool" where
  "roster_changed eid db db' \<longleftrightarrow> (\<exists>e cs vs. get_election db eid = Some e \<and> el_status e = ''draft''
     \<and> filter (\<lambda>c. c_election_id c \<noteq> eid) cs = filter (\<lambda>c. c_election_id c \<noteq> eid) (candidates db)
     \<and> filter (\<lambda>v. v_election_id v \<noteq> eid) vs = filter (\<lambda>v. v_election_id v \<noteq> eid) (votes db)
     \<and> set vs \<subseteq> set (votes db)
     \<and> db' = db\<lparr>candidates := cs, votes := vs\<rparr>)"

lemma create_election_effect:
  assumes "create_election env fromiso cu nf opf clf st = (r, st')"
  shows "a_keys st' = a_keys st \<and> (a_db st' = a_db st \<or> draft_added (a_db st) (a_db st') \<and> db_ok (a_db st'))"
  using assms fresh_id_not_in [of "map el_id (elections (a_db st))"]
  unfolding create_election_def roles_required_def login_required_def Let_def
  by (auto simp: commit_Some_iff election_ids_def  split: if_splits sum.splits option.splits prod.splits intro!: draft_addedI)

definition opens_to :: "database \<Rightarrow> election \<Rightarrow> election \<Rightarrow> bool" where
  "opens_to db e e' \<longleftrightarrow> el_status e = ''draft'' \<and> \<not> blind_key_recovery_required e
     \<and> \<not> list_ex (\<lambda>x. el_status x = ''open'' \<and> el_id x \<noteq> el_id e) (elections db)
     \<and> single_contest db (el_id e)
     \<and> (\<exists>k opens. valid_fingerprint k \<and> (blind_signing_key_id e = None \<or> blind_signing_key_id e = Some k)
          \<and> e' = e\<lparr>blind_signing_key_id := Some k, el_status := ''open'', open_at := Some opens\<rparr>)"

lemma opens_toI:
  assumes "el_status e = ''draft''" "\<not> blind_key_recovery_required e"
    "\<not> list_ex (\<lambda>x. el_status x = ''open'' \<and> el_id x \<noteq> el_id e) (elections db)" "single_contest db (el_id e)"
    "valid_fingerprint k" "blind_signing_key_id e = None \<or> blind_signing_key_id e = Some k"
    "get_election db eid = Some e"
  shows "election_changed (opens_to db) db
     (update_election (e\<lparr>blind_signing_key_id := Some k, el_status := ''open'', open_at := Some opens\<rparr>) db)"
  unfolding election_changed_def
  by (rule exI [of _ e], rule exI, intro conjI, use assms get_election_SomeD in \<open>auto simp: opens_to_def\<close>)

lemma ensure_key_id:
  assumes "ensure_election_blind_signing_key lib env ks eid anchor allow = (Inr k, ks')"
  shows "valid_fingerprint (kc_key_id k)" and "anchor = None \<or> anchor = Some (kc_key_id k)"
  using assms fingerprint_valid
  by (auto simp: ensure_election_blind_signing_key_def get_public_key_components_def Let_def
      split: prod.splits sum.splits option.splits if_splits)

lemma open_election_effect:
  assumes "open_election env cu eid st = (r, st')"
  shows "a_db st' = a_db st \<or> election_changed (opens_to (a_db st)) (a_db st) (a_db st') \<and> db_ok (a_db st')"
  using assms
  unfolding open_election_def roles_required_def login_required_def Let_def
  by (auto simp: commit_Some_iff split: if_splits sum.splits option.splits prod.splits key_exc.splits
    intro!: opens_toI dest: ensure_key_id)

definition closes_to :: "election \<Rightarrow> election \<Rightarrow> bool" where
  "closes_to e e' \<longleftrightarrow> el_status e = ''open'' \<and> (\<exists>t. e' = e\<lparr>el_status := ''closed'', close_at := Some t\<rparr>)"

lemma closes_toI:
  assumes "el_status e = ''open''" and "get_election db eid = Some e"
  shows "election_changed closes_to db (update_election (e\<lparr>el_status := ''closed'', close_at := Some t\<rparr>) db)"
  unfolding election_changed_def
  by (rule exI [of _ e], rule exI, intro conjI, use assms get_election_SomeD in \<open>auto simp: closes_to_def\<close>)

lemma close_election_effect:
  assumes "close_election env cu eid st = (r, st')"
  shows "a_keys st' = a_keys st
    \<and> (a_db st' = a_db st \<or> election_changed closes_to (a_db st) (a_db st') \<and> db_ok (a_db st'))"
  using assms unfolding close_election_def roles_required_def login_required_def Let_def
  by (auto simp: commit_Some_iff split: if_splits option.splits prod.splits intro!: closes_toI)

lemma roster_changedI:
  assumes "get_election db eid = Some e" and "el_status e = ''draft''"
    and "filter (\<lambda>c. c_election_id c \<noteq> eid) cs = filter (\<lambda>c. c_election_id c \<noteq> eid) (candidates db)"
  shows "roster_changed eid db (db\<lparr>candidates := cs\<rparr>)"
  using assms unfolding roster_changed_def by (intro exI [of _ e] exI [of _ cs] exI [of _ "votes db"]) simp

lemma create_candidate_effect:
  assumes "create_candidate env cu form st = (r, st')"
  shows "a_keys st' = a_keys st
    \<and> (a_db st' = a_db st \<or> (\<exists>eid. roster_changed eid (a_db st) (a_db st')) \<and> db_ok (a_db st'))"
  using assms unfolding create_candidate_def roles_required_def login_required_def Let_def
  by (auto 0 4 simp: commit_Some_iff split: if_splits option.splits prod.splits
    dest: get_election_SomeD intro!: exI roster_changedI)

lemma edit_candidate_keys:
  assumes "edit_candidate db u form c = Inr c'"
  shows "c_id c' = c_id c" and "c_election_id c' = c_election_id c"
  using assms by (auto simp: edit_candidate_def Let_def split: if_splits option.splits)

lemma update_candidate_effect:
  assumes "update_candidate env cu cid form st = (r, st')" and "db_ok (a_db st)"
  shows "a_keys st' = a_keys st
    \<and> (a_db st' = a_db st \<or> (\<exists>eid. roster_changed eid (a_db st) (a_db st')) \<and> db_ok (a_db st'))"
proof -
  have row: "roster_changed (c_election_id c) (a_db st)
      ((a_db st)\<lparr>candidates := update_where (\<lambda>x. c_id x = c_id c') (\<lambda>_. c') (candidates (a_db st))\<rparr>)"
    if "get_candidate (a_db st) cid = Some c" "get_election (a_db st) (c_election_id c) = Some e"
      "el_status e = ''draft''" "c_id c' = c_id c" "c_election_id c' = c_election_id c" for c c' e
  proof (rule roster_changedI [OF that(2,3)])
    have "c_election_id x = c_election_id c" if "x \<in> set (candidates (a_db st))" "c_id x = c_id c" for x
      using unique_on_eqD [of c_id "candidates (a_db st)" x c] assms(2) get_candidate_SomeD
        \<open>get_candidate (a_db st) cid = Some c\<close> that by (auto simp: db_ok_def candidates_ok_def)
    then show "filter (\<lambda>x. c_election_id x \<noteq> c_election_id c)
        (update_where (\<lambda>x. c_id x = c_id c') (\<lambda>_. c') (candidates (a_db st))) =
        filter (\<lambda>x. c_election_id x \<noteq> c_election_id c) (candidates (a_db st))"
      using that(4,5) by (intro filter_update_where_on) auto
  qed
  show ?thesis
    using assms(1) row edit_candidate_keys
    unfolding update_candidate_def roles_required_def login_required_def Let_def
    by (auto simp: commit_Some_iff split: if_splits option.splits prod.splits sum.splits) blast+
qed

lemma delete_candidate_effect:
  assumes "delete_candidate env cu cid st = (r, st')" and "db_ok (a_db st)"
  shows "a_keys st' = a_keys st
    \<and> (a_db st' = a_db st \<or> (\<exists>eid. roster_changed eid (a_db st) (a_db st')) \<and> db_ok (a_db st'))"
proof -
  have row: "roster_changed (c_election_id c) (a_db st) (delete_candidate_row c (a_db st))"
    if c: "get_candidate (a_db st) cid = Some c" and e: "get_election (a_db st) (c_election_id c) = Some e"
      "el_status e = ''draft''" for c e
  proof -
    have same: "x = c" if "x \<in> set (candidates (a_db st))" "c_id x = c_id c" for x
      using unique_on_eqD [of c_id "candidates (a_db st)" x c] assms(2) get_candidate_SomeD [OF c]
        that by (auto simp: db_ok_def candidates_ok_def)
    have "filter (\<lambda>x. c_election_id x \<noteq> c_election_id c) (filter (\<lambda>x. c_id x \<noteq> c_id c) (candidates (a_db st))) =
        filter (\<lambda>x. c_election_id x \<noteq> c_election_id c) (candidates (a_db st))"
      using same by (auto intro!: filter_cong)
    then show ?thesis
      using e unfolding roster_changed_def delete_candidate_row_def
      by (intro exI [of _ e] exI conjI) (auto intro!: filter_cong)
  qed
  show ?thesis
    using assms(1) row
    unfolding delete_candidate_def roles_required_def login_required_def Let_def
    by (auto simp: commit_Some_iff split: if_splits option.splits prod.splits sum.splits) blast
qed

section \<open>The election invariant\<close>

text \<open>
  At most one election is open; an open election has a single region and contest and an anchored
  key; a draft has no votes, authorizations or nullifiers; only closed elections have results.
\<close>

definition unused :: "database \<Rightarrow> int \<Rightarrow> bool" where
  "unused db eid \<longleftrightarrow> eid \<notin> v_election_id ` set (votes db) \<and> eid \<notin> bt_election_id ` set (blind_tokens db)
     \<and> eid \<notin> sn_election_id ` set (nullifiers db)"

definition election_inv :: "database \<Rightarrow> bool" where
  "election_inv db \<longleftrightarrow> db_ok db
     \<and> (\<forall>e \<in> set (elections db). \<forall>e' \<in> set (elections db).
          el_status e = ''open'' \<longrightarrow> el_status e' = ''open'' \<longrightarrow> e = e')
     \<and> (\<forall>e \<in> set (elections db). el_status e = ''open'' \<longrightarrow>
          single_contest db (el_id e) \<and> (\<exists>k. blind_signing_key_id e = Some k \<and> valid_fingerprint k))
     \<and> (\<forall>e \<in> set (elections db). el_status e = ''draft'' \<longrightarrow> unused db (el_id e))
     \<and> (\<forall>r \<in> set (signed_results db). \<exists>e \<in> set (elections db). el_id e = sr_election_id r \<and> el_status e = ''closed'')"

lemma election_invD:
  assumes "election_inv db"
  shows "db_ok db"
    and "e \<in> set (elections db) \<Longrightarrow> e' \<in> set (elections db) \<Longrightarrow> el_status e = ''open'' \<Longrightarrow>
      el_status e' = ''open'' \<Longrightarrow> e = e'"
    and "e \<in> set (elections db) \<Longrightarrow> el_status e = ''open'' \<Longrightarrow> single_contest db (el_id e)"
    and "e \<in> set (elections db) \<Longrightarrow> el_status e = ''open'' \<Longrightarrow>
      \<exists>k. blind_signing_key_id e = Some k \<and> valid_fingerprint k"
    and "e \<in> set (elections db) \<Longrightarrow> el_status e = ''draft'' \<Longrightarrow> unused db (el_id e)"
    and "r \<in> set (signed_results db) \<Longrightarrow>
      \<exists>e \<in> set (elections db). el_id e = sr_election_id r \<and> el_status e = ''closed''"
  using assms unfolding election_inv_def by blast+

lemma single_contest_same_roster:
  "candidates_of db eid = candidates_of db' eid \<Longrightarrow> single_contest db eid = single_contest db' eid"
  by (simp add: single_contest_def election_regions_def election_positions_def)

lemma election_inv_same_elections:
  assumes "election_inv db" and "db_ok db'" and "elections db' = elections db"
    and "signed_results db' = signed_results db"
    and "\<And>e. e \<in> set (elections db) \<Longrightarrow> el_status e = ''open'' \<Longrightarrow> candidates_of db' (el_id e) = candidates_of db (el_id e)"
    and "\<And>e. e \<in> set (elections db) \<Longrightarrow> el_status e = ''draft'' \<Longrightarrow> unused db (el_id e) \<Longrightarrow> unused db' (el_id e)"
  shows "election_inv db'"
proof -
  have "single_contest db' (el_id e)" if "e \<in> set (elections db)" "el_status e = ''open''" for e
    using election_invD(3) [OF assms(1) that] single_contest_same_roster [OF assms(5) [OF that]] by simp
  then show ?thesis
    unfolding election_inv_def assms(3,4)
    using assms(2,6) election_invD(2,4,5,6) [OF assms(1)] by blast
qed

lemma election_inv_draft_added:
  assumes "election_inv db" and "draft_added db db'" and "db_ok db'"
  shows "election_inv db'"
proof -
  obtain row where row: "el_status row = ''draft''" "el_id row \<notin> election_ids db"
    and db': "db' = db\<lparr>elections := elections db @ [row]\<rparr>"
    using assms(2) by (auto simp: draft_added_def)
  have refs: "v_election_id ` set (votes db) \<subseteq> election_ids db" "bt_election_id ` set (blind_tokens db) \<subseteq> election_ids db"
    "sn_election_id ` set (nullifiers db) \<subseteq> election_ids db"
    using election_invD(1) [OF assms(1)]
    by (auto simp: db_ok_def votes_ok_def blind_tokens_ok_def nullifiers_ok_def refs_ok_def list_all_iff)
  then have new: "unused db' (el_id row)" using row(2) by (auto simp: unused_def db')
  have same: "unused db' i = unused db i" "single_contest db' i = single_contest db i" for i
    by (simp_all add: unused_def db' single_contest_def election_regions_def election_positions_def candidates_of_def)
  show ?thesis
    unfolding election_inv_def same(2)
    using assms(1,3) row(1) new by (auto simp: db' same(1) [unfolded db'] dest: election_invD)
qed

lemma election_changed_set:
  assumes "db_ok db" and "get_election db (el_id e) = Some e" and "el_id e' = el_id e"
  shows "set (elections (update_election e' db)) = insert e' (set (elections db) - {e})"
proof -
  have e: "e \<in> set (elections db)" using get_election_SomeD [OF assms(2)] by simp
  moreover have "x = e" if "x \<in> set (elections db)" "el_id x = el_id e" for x
    using unique_on_eqD [of el_id "elections db" x e] assms(1) that e by (auto simp: db_ok_def elections_ok_def)
  ultimately show ?thesis
    using assms(3) by (auto simp: update_election_def in_update_where_const)
qed

lemma election_inv_opened:
  assumes "election_inv db" and "election_changed (opens_to db) db db'" and "db_ok db'"
  shows "election_inv db'"
proof -
  obtain e e' where e: "get_election db (el_id e) = Some e" "el_id e' = el_id e" "opens_to db e e'"
    and db': "db' = update_election e' db"
    using assms(2) by (auto simp: election_changed_def)
  have e': "el_status e' = ''open''" "\<exists>k. blind_signing_key_id e' = Some k \<and> valid_fingerprint k"
    "el_status e = ''draft''" "single_contest db (el_id e)"
    and none: "\<And>x. x \<in> set (elections db) \<Longrightarrow> el_status x = ''open'' \<Longrightarrow> el_id x = el_id e"
    using e(3) by (auto simp: opens_to_def list_ex_iff)
  have els: "set (elections db') = insert e' (set (elections db) - {e})"
    unfolding db' by (rule election_changed_set [OF election_invD(1) [OF assms(1)] e(1,2)])
  have same: "unused db' i = unused db i" "single_contest db' i = single_contest db i" for i
    by (simp_all add: unused_def db' single_contest_def election_regions_def election_positions_def candidates_of_def)
  have noopen: "el_status x \<noteq> ''open''" if "x \<in> set (elections db) - {e}" for x
  proof
    assume "el_status x = ''open''"
    with none that have "el_id x = el_id e" by blast
    with that get_election_SomeD [OF e(1)] election_invD(1) [OF assms(1)]
    show False by (auto simp: db_ok_def elections_ok_def dest: unique_on_eqD)
  qed
  have "\<exists>x \<in> set (elections db'). el_id x = sr_election_id r \<and> el_status x = ''closed''"
    if "r \<in> set (signed_results db)" for r
    using election_invD(6) [OF assms(1) that] e'(3) els by auto
  then show ?thesis
    unfolding election_inv_def same els
    using assms(3) e' e(2) noopen election_invD(5) [OF assms(1)] by (auto simp: db')
qed

lemma election_inv_closed:
  assumes "election_inv db" and "election_changed closes_to db db'" and "db_ok db'"
  shows "election_inv db'"
proof -
  obtain e e' where e: "get_election db (el_id e) = Some e" "el_id e' = el_id e" "closes_to e e'"
    and db': "db' = update_election e' db"
    using assms(2) by (auto simp: election_changed_def)
  have e': "el_status e' = ''closed''" "el_status e = ''open''" using e(3) by (auto simp: closes_to_def)
  have els: "set (elections db') = insert e' (set (elections db) - {e})"
    unfolding db' by (rule election_changed_set [OF election_invD(1) [OF assms(1)] e(1,2)])
  have same: "unused db' i = unused db i" "single_contest db' i = single_contest db i" for i
    by (simp_all add: unused_def db' single_contest_def election_regions_def election_positions_def candidates_of_def)
  have "\<exists>x \<in> set (elections db'). el_id x = sr_election_id r \<and> el_status x = ''closed''"
    if "r \<in> set (signed_results db)" for r
    using election_invD(6) [OF assms(1) that] e' els by auto
  then show ?thesis
    unfolding election_inv_def same els
    using assms(3) e' election_invD(2-5) [OF assms(1)] by (auto simp: db')
qed

lemma election_inv_roster_changed:
  assumes "election_inv db" and "roster_changed eid db db'" and "db_ok db'"
  shows "election_inv db'"
proof -
  obtain e cs vs where e: "get_election db eid = Some e" "el_status e = ''draft''"
    and cs: "filter (\<lambda>c. c_election_id c \<noteq> eid) cs = filter (\<lambda>c. c_election_id c \<noteq> eid) (candidates db)"
    and vs: "set vs \<subseteq> set (votes db)" and db': "db' = db\<lparr>candidates := cs, votes := vs\<rparr>"
    using assms(2) by (auto simp: roster_changed_def)
  have roster: "candidates_of db' i = candidates_of db i" if "i \<noteq> eid" for i
  proof -
    have "filter (\<lambda>c. c_election_id c = i) xs = filter (\<lambda>c. c_election_id c = i) (filter (\<lambda>c. c_election_id c \<noteq> eid) xs)" for xs
      using that by (auto intro!: filter_cong)
    from this [of cs] this [of "candidates db"] cs show ?thesis by (simp add: candidates_of_def db')
  qed
  show ?thesis
  proof (rule election_inv_same_elections [OF assms(1,3)])
    fix x assume x: "x \<in> set (elections db)" "el_status x = ''open''"
    have "el_id x \<noteq> eid"
    proof
      assume "el_id x = eid"
      then have "x = e" using x(1) get_election_SomeD [OF e(1)] election_invD(1) [OF assms(1)]
        by (auto simp: db_ok_def elections_ok_def dest: unique_on_eqD)
      with x(2) e(2) show False by simp
    qed
    then show "candidates_of db' (el_id x) = candidates_of db (el_id x)" by (rule roster)
  qed (use vs in \<open>auto simp: db' unused_def\<close>)
qed

section \<open>Properties\<close>

text \<open>
  Management keeps the election invariant. Whoever calls whichever election or candidate route
  with whatever input, if at most one election is open, every open election has one region, one
  contest and an anchored key, drafts are unused and only closed elections are signed, then the
  same holds afterwards.
\<close>

theorem management_keeps_invariant:
  assumes "election_inv (a_db st)"
  shows "election_inv (a_db (snd (create_election env fromiso cu nf opf clf st)))
     \<and> election_inv (a_db (snd (open_election env cu eid st)))
     \<and> election_inv (a_db (snd (close_election env cu eid st)))
     \<and> election_inv (a_db (snd (create_candidate env cu form st)))
     \<and> election_inv (a_db (snd (update_candidate env cu cid form st)))
     \<and> election_inv (a_db (snd (delete_candidate env cu cid st)))"
proof -
  note ok = election_invD(1) [OF assms]
  show ?thesis
    using create_election_effect [of env fromiso cu nf opf clf st] election_inv_draft_added [OF assms]
      open_election_effect [of env cu eid st] election_inv_opened [OF assms]
      close_election_effect [of env cu eid st] election_inv_closed [OF assms]
      create_candidate_effect [of env cu form st] update_candidate_effect [OF _ ok, of env cu cid form]
      delete_candidate_effect [OF _ ok, of env cu cid] election_inv_roster_changed [OF assms] assms
    by (metis prod.collapse)
qed

lemma demo_vote_inv: "election_inv (a_db demo_vote_state)"
proof -
  have "db_ok (a_db demo_vote_state)" using demo_ready by (simp add: ready_to_vote_def)
  moreover have "single_contest (a_db demo_vote_state) 1"
    using demo_ready eligible_validates [of "a_db demo_vote_state" "u_id demo_user" demo_user demo_open_election]
    by (auto simp: ready_to_vote_def demo_election_def)
  ultimately show ?thesis
    by (simp add: election_inv_def demo_vote_state_def demo_db_def demo_election_def fingerprint_valid)
qed

theorem management_keeps_invariant_witness:
  "election_inv (a_db demo_vote_state) \<and>
   election_inv (a_db (snd (close_election demo_vote_env (Some demo_manager) 1 demo_vote_state)))"
  using management_keeps_invariant [OF demo_vote_inv] demo_vote_inv by blast

lemma roster_changed_frozen:
  assumes "roster_changed eid db db'" and "get_election db i = Some e" and "el_status e \<noteq> ''draft''"
  shows "candidates_of db' i = candidates_of db i
    \<and> filter (\<lambda>v. v_election_id v = i) (votes db') = filter (\<lambda>v. v_election_id v = i) (votes db)"
proof -
  obtain d cs vs where d: "get_election db eid = Some d" "el_status d = ''draft''"
    and cs: "filter (\<lambda>c. c_election_id c \<noteq> eid) cs = filter (\<lambda>c. c_election_id c \<noteq> eid) (candidates db)"
    and vs: "filter (\<lambda>v. v_election_id v \<noteq> eid) vs = filter (\<lambda>v. v_election_id v \<noteq> eid) (votes db)"
    and db': "db' = db\<lparr>candidates := cs, votes := vs\<rparr>"
    using assms(1) by (auto simp: roster_changed_def)
  have "i \<noteq> eid" using assms(2,3) d by auto
  then have "filter (\<lambda>c. c_election_id c = i) xs = filter (\<lambda>c. c_election_id c = i) (filter (\<lambda>c. c_election_id c \<noteq> eid) xs)"
    and "filter (\<lambda>v. v_election_id v = i) ys = filter (\<lambda>v. v_election_id v = i) (filter (\<lambda>v. v_election_id v \<noteq> eid) ys)"
    for xs ys by (auto intro!: filter_cong)
  from this(1) [of cs] this(1) [of "candidates db"] this(2) [of vs] this(2) [of "votes db"] cs vs show ?thesis
    by (simp add: candidates_of_def db')
qed

text \<open>
  The roster is frozen once voting opens. No candidate route, by any user with any form, changes
  the candidates or the votes of an election that is no longer a draft.
\<close>

theorem roster_frozen_after_open:
  assumes "db_ok (a_db st)" and "get_election (a_db st) i = Some e" and "el_status e \<noteq> ''draft''"
    and "db' \<in> {a_db (snd (create_candidate env cu form st)), a_db (snd (update_candidate env cu cid form st)),
      a_db (snd (delete_candidate env cu cid st))}"
  shows "candidates_of db' i = candidates_of (a_db st) i
    \<and> filter (\<lambda>v. v_election_id v = i) (votes db') = filter (\<lambda>v. v_election_id v = i) (votes (a_db st))"
proof -
  have "db' = a_db st \<or> (\<exists>eid. roster_changed eid (a_db st) db')"
    using assms(4) create_candidate_effect [of env cu form st] update_candidate_effect [OF _ assms(1), of env cu cid form]
      delete_candidate_effect [OF _ assms(1), of env cu cid] by (metis (no_types, lifting) empty_iff insert_iff prod.collapse)
  then show ?thesis using roster_changed_frozen [OF _ assms(2,3)] by auto
qed

theorem roster_frozen_after_open_witness:
  "candidates_of (a_db (snd (delete_candidate demo_vote_env (Some demo_manager) 1 demo_vote_state))) 1
     = candidates_of (a_db demo_vote_state) 1"
proof -
  have "get_election (a_db demo_vote_state) 1 = Some demo_open_election" "el_status demo_open_election \<noteq> ''draft''"
    by (simp_all add: get_election_def demo_vote_state_def demo_election_def)
  from roster_frozen_after_open [OF election_invD(1) [OF demo_vote_inv] this, of _ demo_vote_env "Some demo_manager" _ 1]
  show ?thesis by blast
qed


section \<open>Reconciliation\<close>

definition anchors_only :: "database \<Rightarrow> database \<Rightarrow> bool" where
  "anchors_only db db' \<longleftrightarrow> blind_tokens db' = blind_tokens db \<and> (\<forall>i.
     case get_election db i of
       None \<Rightarrow> get_election db' i = None
     | Some e \<Rightarrow> get_election db' i = Some e \<or>
         (\<exists>k. blind_signing_key_id e = None \<and> el_status e = ''open'' \<and> \<not> blind_key_recovery_required e
            \<and> i \<notin> bt_election_id ` set (blind_tokens db) \<and> valid_fingerprint k
            \<and> get_election db' i = Some (e\<lparr>blind_signing_key_id := Some k\<rparr>)))"

lemma ensure_keeps_dirs:
  assumes "ensure_election_blind_signing_key lib env ks eid anchor allow = (res, ks')" and "ks_dirs ks i \<noteq> NoDir"
  shows "ks_dirs ks' i = ks_dirs ks i"
proof (cases anchor)
  case None
  obtain g ks1 where gen: "generate_blind_signing_keypair lib (ke_root env) (ke_drawn env) (ke_race env) ks eid = (g, ks1)"
    by fastforce
  have "ks_dirs ks1 i = ks_dirs ks i" using generate_keeps_dir [OF assms(2)] gen by (metis snd_conv)
  moreover have "ks_dirs (snd (get_public_key_components lib ks1 eid)) = ks_dirs ks1"
    using load_keys_dirs [of lib ks1 eid] by (auto simp: get_public_key_components_def split: prod.splits sum.splits)
  ultimately show ?thesis
    using assms(1) None gen
    by (auto simp: ensure_election_blind_signing_key_def Let_def split: if_splits sum.splits prod.splits)
next
  case (Some a)
  then show ?thesis using ensure_dirs_anchored [of lib env ks eid a allow] assms(1) by simp
qed

lemma reconcile_step:
  assumes "\<And>e. e \<in> set es \<Longrightarrow> get_election db (el_id e) = Some e \<and> el_status e = ''open''"
    and "distinct (map el_id es)" and "reconcile_elections env es n db ks = (Inr (m, db'), ks')"
  shows "anchors_only db db' \<and> (\<forall>i. ks_dirs ks i \<noteq> NoDir \<longrightarrow> ks_dirs ks' i = ks_dirs ks i)
    \<and> (\<forall>e \<in> set es. \<exists>e' k. get_election db' (el_id e) = Some e' \<and> blind_signing_key_id e' = Some k)"
  using assms
proof (induction es arbitrary: n db ks)
  case Nil
  then show ?case by (auto simp: anchors_only_def split: option.splits)
next
  case (Cons e es)
  have e: "get_election db (el_id e) = Some e" "el_status e = ''open''" using Cons.prems(1) by auto
  obtain key ks1 where ens: "ensure_election_blind_signing_key (e_lib env) (e_key_env env) ks (el_id e)
      (blind_signing_key_id e) (blind_signing_key_id e = None) = (Inr key, ks1)"
    and norec: "\<not> blind_key_recovery_required e"
    and notok: "blind_signing_key_id e = None \<Longrightarrow> \<not> list_ex (\<lambda>t. bt_election_id t = el_id e) (blind_tokens db)"
    using Cons.prems(3) by (auto split: if_splits prod.splits sum.splits)
  note key = ensure_key_id [OF ens]
  note dirs = ensure_keeps_dirs [OF ens]
  show ?case
  proof (cases "blind_signing_key_id e = None")
    case False
    then obtain a where a: "blind_signing_key_id e = Some a" by blast
    have run: "reconcile_elections env es n db ks1 = (Inr (m, db'), ks')"
      using Cons.prems(3) ens norec by (simp add: a)
    have "anchors_only db db'" and rest: "\<forall>i. ks_dirs ks1 i \<noteq> NoDir \<longrightarrow> ks_dirs ks' i = ks_dirs ks1 i"
      "\<forall>e \<in> set es. \<exists>e' k. get_election db' (el_id e) = Some e' \<and> blind_signing_key_id e' = Some k"
      using Cons.IH [OF _ _ run] Cons.prems(1,2) by auto
    moreover have "\<exists>e' k. get_election db' (el_id e) = Some e' \<and> blind_signing_key_id e' = Some k"
      using \<open>anchors_only db db'\<close> e(1) False unfolding anchors_only_def
      by (auto dest!: spec [of _ "el_id e"])
    ultimately show ?thesis using dirs by auto
  next
    case True
    let ?e' = "e\<lparr>blind_signing_key_id := Some (kc_key_id key)\<rparr>"
    let ?db = "update_election ?e' db"
    have run: "reconcile_elections env es (Suc n) ?db ks1 = (Inr (m, db'), ks')"
      using Cons.prems(3) ens norec True notok [OF True] by simp
    have get: "get_election ?db i = (if i = el_id e then Some ?e' else get_election db i)" for i
      using e(1) by (simp add: get_election_update)
    have pre: "get_election ?db (el_id x) = Some x \<and> el_status x = ''open''" if "x \<in> set es" for x
    proof -
      have "el_id x \<noteq> el_id e" using Cons.prems(2) that by (metis distinct.simps(2) imageI list.simps(9) set_map)
      then show ?thesis using that Cons.prems(1) by (simp add: get)
    qed
    have IH: "anchors_only ?db db'" "\<forall>i. ks_dirs ks1 i \<noteq> NoDir \<longrightarrow> ks_dirs ks' i = ks_dirs ks1 i"
      "\<forall>e \<in> set es. \<exists>e' k. get_election db' (el_id e) = Some e' \<and> blind_signing_key_id e' = Some k"
      using Cons.IH [OF pre _ run] Cons.prems(2) by auto
    have now: "get_election db' (el_id e) = Some ?e'"
      using IH(1) get [of "el_id e"] unfolding anchors_only_def by (auto dest!: spec [of _ "el_id e"])
    have "anchors_only db db'"
      unfolding anchors_only_def
    proof (intro conjI allI)
      show "blind_tokens db' = blind_tokens db" using IH(1) by (simp add: anchors_only_def)
      fix i
      show "case get_election db i of
         None \<Rightarrow> get_election db' i = None
       | Some e \<Rightarrow> get_election db' i = Some e \<or>
           (\<exists>k. blind_signing_key_id e = None \<and> el_status e = ''open'' \<and> \<not> blind_key_recovery_required e
              \<and> i \<notin> bt_election_id ` set (blind_tokens db) \<and> valid_fingerprint k
              \<and> get_election db' i = Some (e\<lparr>blind_signing_key_id := Some k\<rparr>))"
      proof (cases "i = el_id e")
        case i: True
        then show ?thesis
          using e now True norec notok [OF True] key(1) by (auto simp: list_ex_iff)
      next
        case False
        then show ?thesis using IH(1) get [of i] unfolding anchors_only_def
          by (auto dest!: spec [of _ i] split: option.splits)
      qed
    qed
    then show ?thesis using IH(2,3) now dirs by auto
  qed
qed

text \<open>
  Reconciliation never rotates a key. If it succeeds, every election row is as before, except
  that an open election that had no anchored key and no issued authorization may have gained
  one; afterwards every open election is anchored; and no existing key directory was changed.
\<close>

theorem reconciliation_never_rotates:
  assumes "db_ok db" and "reconcile_open_election_keys env db ks = (Inr (n, db'), ks')"
  shows "anchors_only db db' \<and> (\<forall>i. ks_dirs ks i \<noteq> NoDir \<longrightarrow> ks_dirs ks' i = ks_dirs ks i)
    \<and> (\<forall>e. e \<in> set (elections db) \<and> el_status e = ''open'' \<longrightarrow>
          (\<exists>e' k. get_election db' (el_id e) = Some e' \<and> blind_signing_key_id e' = Some k))"
proof -
  have uniq: "unique_on el_id (elections db)" using assms(1) by (simp add: db_ok_def elections_ok_def)
  let ?es = "filter (\<lambda>e. el_status e = ''open'') (elections db)"
  have "get_election db (el_id e) = Some e \<and> el_status e = ''open''" if "e \<in> set ?es" for e
    using that find_unique_key [OF uniq, of e] by (simp add: get_election_def)
  from reconcile_step [OF this unique_on_filter [OF uniq] assms(2) [unfolded reconcile_open_election_keys_def]]
  show ?thesis by auto
qed

theorem reconciliation_never_rotates_witness:
  "\<exists>db' ks'. reconcile_open_election_keys demo_vote_env (a_db demo_vote_state) toy_store = (Inr (0, db'), ks')
     \<and> anchors_only (a_db demo_vote_state) db'"
proof -
  have "\<exists>k. ensure_election_blind_signing_key toy_lib demo_key_env toy_store 1
      (Some (public_key_fingerprint toy_lib (priv_public toy_key))) False = (Inr k, toy_store)"
    by (rule ensure_cached(1) [of 1 toy_store toy_key]) (simp_all add: toy_store_def)
  then have "reconcile_open_election_keys demo_vote_env (a_db demo_vote_state) toy_store
      = (Inr (0, a_db demo_vote_state), toy_store)"
    by (auto simp: reconcile_open_election_keys_def demo_vote_state_def demo_vote_env_def demo_db_def demo_election_def)
  with reconciliation_never_rotates [OF election_invD(1) [OF demo_vote_inv] this] show ?thesis by blast
qed


section \<open>Access\<close>

lemma edit_candidate_region:
  assumes "edit_candidate db u form c = Inr c'" and "\<not> outside_region db u (c_region_id c)"
  shows "\<not> outside_region db u (c_region_id c')"
  using assms by (auto simp: edit_candidate_def Let_def split: if_splits option.splits)

lemma candidate_id_unique:
  assumes "db_ok db" and "get_candidate db cid = Some c" and "x \<in> set (candidates db)" and "c_id x = c_id c"
  shows "x = c"
  using unique_on_eqD [of c_id "candidates db" x c] assms get_candidate_SomeD
  by (auto simp: db_ok_def candidates_ok_def)

definition confined :: "database \<Rightarrow> string list \<Rightarrow> user option \<Rightarrow> database \<Rightarrow> bool" where
  "confined db allowed cu db' \<longleftrightarrow> (\<exists>u. cu = Some u \<and> has_role db u allowed
     \<and> (\<forall>c. (c \<in> set (candidates db')) \<noteq> (c \<in> set (candidates db)) \<longrightarrow> \<not> outside_region db u (c_region_id c)))"

lemma confined_create:
  assumes "create_candidate env cu form st = (r, st')" and "a_db st' \<noteq> a_db st"
  shows "confined (a_db st) [''delegate'', ''manager''] cu (a_db st')"
  using assms unfolding create_candidate_def roles_required_def login_required_def Let_def confined_def
  by (auto simp: commit_Some_iff split: if_splits option.splits prod.splits)

lemma confined_update:
  assumes "update_candidate env cu cid form st = (r, st')" and "a_db st' \<noteq> a_db st" and "db_ok (a_db st)"
  shows "confined (a_db st) [''delegate'', ''manager''] cu (a_db st')"
  using assms(1,2) candidate_id_unique [OF assms(3)] edit_candidate_keys(1) edit_candidate_region
  unfolding update_candidate_def roles_required_def login_required_def Let_def confined_def
  by (auto simp: commit_Some_iff in_update_where_const split: if_splits option.splits prod.splits sum.splits) metis+

lemma confined_delete:
  assumes "delete_candidate env cu cid st = (r, st')" and "a_db st' \<noteq> a_db st" and "db_ok (a_db st)"
  shows "confined (a_db st) [''delegate'', ''manager''] cu (a_db st')"
  using assms(1,2) candidate_id_unique [OF assms(3)]
  unfolding delete_candidate_def roles_required_def login_required_def Let_def confined_def
  by (auto simp: commit_Some_iff delete_candidate_row_def split: if_splits option.splits prod.splits) metis

lemma manager_only:
  assumes "a_db (snd (create_election env fromiso cu nf opf clf st)) \<noteq> a_db st
    \<or> a_db (snd (open_election env cu eid st)) \<noteq> a_db st \<or> a_db (snd (close_election env cu eid st)) \<noteq> a_db st"
  shows "\<exists>u. cu = Some u \<and> is_manager (a_db st) u"
  using assms unfolding create_election_def open_election_def close_election_def roles_required_def login_required_def
    is_manager_def
  by (auto split: if_splits option.splits)

text \<open>
  Access to management. Only a manager can create, open or close an election. A candidate route
  changes the database only for a delegate or a manager, and a delegate who is not a manager can
  add, change or remove candidates only in the region of their own enrolment.
\<close>

theorem management_access:
  assumes "db_ok (a_db st)"
  shows "(a_db (snd (create_election env fromiso cu nf opf clf st)) \<noteq> a_db st
      \<or> a_db (snd (open_election env cu eid st)) \<noteq> a_db st
      \<or> a_db (snd (close_election env cu eid st)) \<noteq> a_db st \<longrightarrow> (\<exists>u. cu = Some u \<and> is_manager (a_db st) u))
    \<and> (\<forall>db' \<in> {a_db (snd (create_candidate env cu form st)), a_db (snd (update_candidate env cu cid form st)),
          a_db (snd (delete_candidate env cu cid st))}.
        db' \<noteq> a_db st \<longrightarrow> confined (a_db st) [''delegate'', ''manager''] cu db')"
  using manager_only [of env fromiso cu nf opf clf st eid] confined_create [of env cu form st]
    confined_update [of env cu cid form st] confined_delete [of env cu cid st] assms
  by (metis (no_types, lifting) insertE prod.collapse singletonD)

theorem management_access_witness:
  "a_db (snd (close_election demo_vote_env (Some demo_user) 1 demo_vote_state)) = a_db demo_vote_state"
proof -
  have "\<not> is_manager (a_db demo_vote_state) demo_user"
    by (simp add: is_manager_def has_role_def role_of_def demo_vote_state_def demo_db_def demo_user_def)
  with management_access [OF election_invD(1) [OF demo_vote_inv], of demo_vote_env _ "Some demo_user" _ _ _ 1]
  show ?thesis by blast
qed

end
