(* ===== verification/Base64.thy ===== *)
theory Base64
  imports Py_Text
begin

text \<open>
  The \<open>base64\<close> module as the program uses it: \<open>b64encode\<close> and \<open>b64decode\<close> with \<open>validate=True\<close>, which
  accepts only groups of four characters of the standard alphabet with padding in the last group
  and ignores the unused low bits of a padded group.
\<close>

definition b64_char :: "nat \<Rightarrow> char" where
  "b64_char n =
     (if n < 26 then char_of (n + 65) else if n < 52 then char_of (n + 71)
      else if n < 62 then char_of (n - 4) else if n = 62 then CHR ''+'' else CHR ''/'')"

definition b64_val :: "char \<Rightarrow> nat option" where
  "b64_val c = (let n = ord c in
     if 65 \<le> n \<and> n \<le> 90 then Some (n - 65) else if 97 \<le> n \<and> n \<le> 122 then Some (n - 71)
     else if 48 \<le> n \<and> n \<le> 57 then Some (n + 4) else if n = 43 then Some 62
     else if n = 47 then Some 63 else None)"

definition is_b64 :: "char \<Rightarrow> bool" where
  "is_b64 c \<longleftrightarrow> b64_val c \<noteq> None"

fun b64encode :: "bytes \<Rightarrow> string" where
  "b64encode [] = []"
| "b64encode [x] =
     [b64_char (unat x div 4), b64_char (unat x mod 4 * 16), CHR ''='', CHR ''='']"
| "b64encode [x, y] =
     [b64_char (unat x div 4), b64_char (unat x mod 4 * 16 + unat y div 16),
      b64_char (unat y mod 16 * 4), CHR ''='']"
| "b64encode (x # y # z # bs) =
     b64_char (unat x div 4) # b64_char (unat x mod 4 * 16 + unat y div 16)
       # b64_char (unat y mod 16 * 4 + unat z div 64) # b64_char (unat z mod 64) # b64encode bs"

fun b64decode :: "string \<Rightarrow> bytes option" where
  "b64decode [] = Some []"
| "b64decode (a # b # c # d # rest) =
     (case (b64_val a, b64_val b) of
        (Some i, Some j) \<Rightarrow>
          (if rest = [] \<and> c = CHR ''='' \<and> d = CHR ''='' then Some [word_of_nat (i * 4 + j div 16)]
           else
             (case b64_val c of
                None \<Rightarrow> None
              | Some k \<Rightarrow>
                  (if rest = [] \<and> d = CHR ''=''
                   then Some [word_of_nat (i * 4 + j div 16), word_of_nat (j mod 16 * 16 + k div 4)]
                   else
                     (case (b64_val d, b64decode rest) of
                        (Some l, Some bs) \<Rightarrow>
                          Some (word_of_nat (i * 4 + j div 16) # word_of_nat (j mod 16 * 16 + k div 4)
                                # word_of_nat (k mod 4 * 64 + l) # bs)
                      | _ \<Rightarrow> None))))
      | _ \<Rightarrow> None)"
| "b64decode _ = None"

lemma b64_val_char [simp]: "n < 64 \<Longrightarrow> b64_val (b64_char n) = Some n"
  by (auto simp: b64_char_def b64_val_def ord_def Let_def)

lemma is_b64_char [simp]: "n < 64 \<Longrightarrow> is_b64 (b64_char n)"
  by (simp add: is_b64_def)

lemma b64_pad_no_char: "b64_val (CHR ''='') = None"
  by (simp add: b64_val_def ord_def)

lemma b64_char_not_pad [simp]: "n < 64 \<Longrightarrow> b64_char n \<noteq> CHR ''=''"
  by (metis b64_pad_no_char b64_val_char option.distinct(1))

lemma b64decode_b64encode [simp]: "b64decode (b64encode bs) = Some bs"
proof (induction bs rule: b64encode.induct)
  case (2 x)
  have "unat x < 256" by (rule unat_byte_less)
  then have "unat x div 4 < 64" "unat x mod 4 * 16 < 64" by auto
  then show ?case by (simp add: b64_pad_no_char)
next
  case (3 x y)
  have b: "unat x < 256" "unat y < 256" by (rule unat_byte_less)+
  then have "unat x div 4 < 64" "unat x mod 4 * 16 + unat y div 16 < 64" "unat y mod 16 * 4 < 64" by auto
  moreover have "(unat x mod 4 * 16 + unat y div 16) div 16 = unat x mod 4"
    "(unat x mod 4 * 16 + unat y div 16) mod 16 = unat y div 16" using b by auto
  ultimately show ?case by (simp add: b64_pad_no_char)
next
  case (4 x y z bs)
  have b: "unat x < 256" "unat y < 256" "unat z < 256" by (rule unat_byte_less)+
  then have "unat x div 4 < 64" "unat x mod 4 * 16 + unat y div 16 < 64"
    "unat y mod 16 * 4 + unat z div 64 < 64" "unat z mod 64 < 64" by auto
  moreover have "(unat x mod 4 * 16 + unat y div 16) div 16 = unat x mod 4"
    "(unat x mod 4 * 16 + unat y div 16) mod 16 = unat y div 16"
    "(unat y mod 16 * 4 + unat z div 64) div 4 = unat y mod 16"
    "(unat y mod 16 * 4 + unat z div 64) mod 4 = unat z div 64" using b by auto
  ultimately show ?case using 4 by simp
qed simp

interpretation base64: codec b64encode b64decode "\<lambda>_. True"
  by unfold_locales simp

lemma length_b64encode: "length (b64encode bs) = 4 * ((length bs + 2) div 3)"
proof (induction bs rule: b64encode.induct)
  case (4 x y z bs)
  have "(length (x # y # z # bs) + 2) div 3 = Suc ((length bs + 2) div 3)" by simp
  with 4 show ?case by simp
qed simp_all

lemma set_b64encode: "c \<in> set (b64encode bs) \<Longrightarrow> is_b64 c \<or> c = CHR ''=''"
proof (induction bs rule: b64encode.induct)
  case (2 x)
  then show ?case using unat_byte_less [of x] by auto
next
  case (3 x y)
  then show ?case using unat_byte_less [of x] unat_byte_less [of y] by auto
next
  case (4 x y z bs)
  then show ?case using unat_byte_less [of x] unat_byte_less [of y] unat_byte_less [of z] by auto
qed simp

lemma b64_not_space: "is_b64 c \<or> c = CHR ''='' \<Longrightarrow> \<not> is_space c"
  by (auto simp: is_b64_def b64_val_def is_space_def Let_def ord_def split: if_splits)

lemma strip_b64encode [simp]: "strip (b64encode bs) = b64encode bs"
proof (rule strip_id)
  show "b64encode bs = [] \<or> (\<not> is_space (hd (b64encode bs)) \<and> \<not> is_space (last (b64encode bs)))"
  proof (cases "b64encode bs = []")
    case False
    then show ?thesis
      using set_b64encode [OF hd_in_set [OF False]] set_b64encode [OF last_in_set [OF False]] b64_not_space
      by blast
  qed simp
qed

end
