(* ===== verification/Signing.thy ===== *)
theory Signing
  imports Base64 Blind_Signature
begin

text \<open>
  Signing of results: \<^verbatim>\<open>app/security/vault_client.py\<close> and \<^verbatim>\<open>app/security/signing_service.py\<close>. The Vault
  server behind the \<open>hvac\<close> package and the RSA-PSS operations of \<open>cryptography\<close> are parameters; an
  \<open>hvac\<close> call returns the JSON of the response, or raises (\<open>None\<close>).
\<close>

section \<open>The Vault client\<close>

datatype vault_exc =
    VaultUnavailableError string
  | VaultOperationError string
  | InvalidVaultSignatureError string

datatype token_file = NotRegularFile | TokenFile nat "string option"

text \<open>
  The environment \<open>VaultClient\<close> reads at import. A token file has its size in bytes and its text
  (\<open>None\<close> when reading fails with \<open>OSError\<close>).
\<close>

record vault_env =
  ve_mount :: "string option"
  ve_kv_mount :: "string option"
  ve_cluster_id :: "string option"
  ve_namespace :: "string option"
  ve_addr :: "string option"
  ve_token :: "string option"
  ve_token_file :: "(string \<times> token_file) option"
  ve_hvac_installed :: bool

record hvac_server =
  hvac_authenticated :: "string \<Rightarrow> string \<Rightarrow> string option \<Rightarrow> bool option"
  hvac_sign_data :: "string \<Rightarrow> string \<Rightarrow> string \<Rightarrow> json option"
  hvac_verify_signed_data :: "string \<Rightarrow> string \<Rightarrow> string \<Rightarrow> string \<Rightarrow> json option"
  hvac_read_secret :: "string \<Rightarrow> string \<Rightarrow> json option"

record vault_client =
  vc_configured :: bool
  vc_enabled :: bool
  vc_mount :: string
  vc_kv_mount :: string
  vc_cluster_id :: "string option"
  vc_namespace :: string

fun given :: "string option \<Rightarrow> bool" where
  "given None = False"
| "given (Some s) = (s \<noteq> [])"

fun read_token_file :: "token_file \<Rightarrow> string option" where
  "read_token_file NotRegularFile = None"
| "read_token_file (TokenFile bytes_size contents) =
     (if bytes_size > 4096 then None
      else (case contents of
              None \<Rightarrow> None
            | Some text \<Rightarrow> if strip text = [] then None else Some (strip text)))"

abbreviation token_file_given :: "vault_env \<Rightarrow> bool" where
  "token_file_given ve \<equiv> given (map_option fst (ve_token_file ve))"

definition vault_settings :: "vault_env \<Rightarrow> vault_client" where
  "vault_settings ve =
     \<lparr>vc_configured = given (ve_addr ve) \<or> given (ve_token ve) \<or> token_file_given ve \<or> given (ve_cluster_id ve),
      vc_enabled = False,
      vc_mount = (case ve_mount ve of None \<Rightarrow> ''transit'' | Some s \<Rightarrow> s),
      vc_kv_mount = (case ve_kv_mount ve of None \<Rightarrow> ''kv'' | Some s \<Rightarrow> s),
      vc_cluster_id = ve_cluster_id ve,
      vc_namespace = (case ve_namespace ve of None \<Rightarrow> [] | Some s \<Rightarrow> s)\<rparr>"

definition vault_connect :: "hvac_server \<Rightarrow> vault_env \<Rightarrow> string option \<Rightarrow> vault_client" where
  "vault_connect srv ve token =
     (let off = vault_settings ve in
      if \<not> (given (ve_addr ve) \<and> given token \<and> given (ve_cluster_id ve)) then off
      else if \<not> ve_hvac_installed ve then off
      else (case hvac_authenticated srv (the (ve_addr ve)) (the token)
                   (if vc_namespace off = [] then None else Some (vc_namespace off)) of
              Some True \<Rightarrow> off\<lparr>vc_enabled := True\<rparr>
            | _ \<Rightarrow> off))"

definition vault_client_init :: "hvac_server \<Rightarrow> vault_env \<Rightarrow> vault_client" where
  "vault_client_init srv ve =
     (if given (ve_token ve) \<and> token_file_given ve then vault_settings ve
      else if token_file_given ve
      then (case read_token_file (snd (the (ve_token_file ve))) of
              None \<Rightarrow> vault_settings ve
            | Some token \<Rightarrow> vault_connect srv ve (Some token))
      else vault_connect srv ve (ve_token ve))"

text \<open>
  \<open>\A vault:v(version):(signature) \Z\<close>: a version without leading zero, then Base64 characters with
  at most two padding characters.
\<close>

definition b64_shape :: "string \<Rightarrow> bool" where
  "b64_shape s \<longleftrightarrow>
     (let core = takeWhile is_b64 s; pad = dropWhile is_b64 s in
      core \<noteq> [] \<and> length pad \<le> 2 \<and> list_all (\<lambda>c. c = CHR ''='') pad)"

definition match_transit_signature :: "string \<Rightarrow> (string \<times> string) option" where
  "match_transit_signature s =
     (if \<not> startswith s ''vault:v'' then None
      else
        (let rest = drop 7 s; version = takeWhile is_ascii_digit rest; tail = dropWhile is_ascii_digit rest in
         case (version, tail) of
           (d # _, colon # signature) \<Rightarrow>
             if d \<noteq> CHR ''0'' \<and> colon = CHR '':'' \<and> b64_shape signature then Some (version, signature) else None
         | _ \<Rightarrow> None))"

definition transit_signature_version :: "string \<Rightarrow> vault_exc + int" where
  "transit_signature_version signature =
     (case match_transit_signature signature of
        None \<Rightarrow> Inl (InvalidVaultSignatureError
          ''Vault signature must use the complete vault:vN:BASE64 envelope.'')
      | Some (version, payload) \<Rightarrow>
          (case b64decode payload of
             None \<Rightarrow> Inl (InvalidVaultSignatureError ''Vault signature contains invalid base64 data.'')
           | Some _ \<Rightarrow>
               (case py_int 10 version of
                  None \<Rightarrow> Inl (InvalidVaultSignatureError [])
                | Some v \<Rightarrow> Inr v)))"

definition identity_part_ok :: "string option \<Rightarrow> bool" where
  "identity_part_ok value =
     (case value of None \<Rightarrow> False | Some s \<Rightarrow> s \<noteq> [] \<and> CHR ''|'' \<notin> set s \<and> CHR ''='' \<notin> set s)"

definition transit_key_identity :: "vault_client \<Rightarrow> string \<Rightarrow> vault_exc + string" where
  "transit_key_identity vc key_name =
     (let components = [(''cluster'', vc_cluster_id vc),
                        (''namespace'', Some (if vc_namespace vc = [] then ''root'' else vc_namespace vc)),
                        (''mount'', Some (vc_mount vc)), (''key'', Some key_name)] in
      case find (\<lambda>(label, value). \<not> identity_part_ok value) components of
        Some (label, _) \<Rightarrow>
          Inl (VaultUnavailableError (''Vault '' @ label @ '' is missing or contains unsupported characters.''))
      | None \<Rightarrow>
          (let identity = join ''|'' (map (\<lambda>(label, value). label @ ''='' @ the value) components) in
           if length identity > 255 then Inl (VaultUnavailableError ''Vault key identity exceeds 255 characters.'')
           else Inr identity))"

text \<open>\<open>resp['data'][k]\<close>, where a missing key or a value of another type raises.\<close>

fun response_data :: "json \<Rightarrow> (string \<times> json) list option" where
  "response_data (JObj kvs) = (case map_of kvs ''data'' of Some (JObj d) \<Rightarrow> Some d | _ \<Rightarrow> None)"
| "response_data _ = None"

definition transit_sign :: "hvac_server \<Rightarrow> vault_client \<Rightarrow> string \<Rightarrow> bytes \<Rightarrow> vault_exc + string" where
  "transit_sign srv vc key_name data =
     (if \<not> vc_enabled vc
      then Inl (VaultUnavailableError ''Vault Transit signing is configured but unavailable.'')
      else
        (let failed = Inl (VaultOperationError ''Vault Transit signing failed.'') in
         case hvac_sign_data srv key_name (b64encode data) (vc_mount vc) of
           None \<Rightarrow> failed
         | Some resp \<Rightarrow>
             (case response_data resp of
                None \<Rightarrow> failed
              | Some d \<Rightarrow>
                  (case map_of d ''signature'' of
                     Some (JStr sig) \<Rightarrow>
                       (case transit_signature_version sig of Inl _ \<Rightarrow> failed | Inr _ \<Rightarrow> Inr sig)
                   | _ \<Rightarrow> failed))))"

definition transit_verify ::
  "hvac_server \<Rightarrow> vault_client \<Rightarrow> string \<Rightarrow> bytes \<Rightarrow> string \<Rightarrow> vault_exc + bool" where
  "transit_verify srv vc key_name data signature =
     (if \<not> vc_enabled vc
      then Inl (VaultUnavailableError ''Vault Transit verification is configured but unavailable.'')
      else
        (case transit_signature_version signature of
           Inl e \<Rightarrow> Inl e
         | Inr _ \<Rightarrow>
             (let failed = Inl (VaultOperationError ''Vault Transit verification failed.'') in
              case hvac_verify_signed_data srv key_name (b64encode data) signature (vc_mount vc) of
                None \<Rightarrow> failed
              | Some resp \<Rightarrow>
                  (case response_data resp of
                     None \<Rightarrow> failed
                   | Some d \<Rightarrow> Inr (truthy (dict_get d ''valid''))))))"

definition kv_get :: "hvac_server \<Rightarrow> vault_client \<Rightarrow> string \<Rightarrow> string \<Rightarrow> json" where
  "kv_get srv vc path k =
     (if \<not> vc_enabled vc then JNull
      else
        (case hvac_read_secret srv path (vc_kv_mount vc) of
           None \<Rightarrow> JNull
         | Some resp \<Rightarrow>
             (case response_data resp of
                None \<Rightarrow> JNull
              | Some outer \<Rightarrow> (case response_data (JObj outer) of None \<Rightarrow> JNull | Some d \<Rightarrow> dict_get d k))))"

section \<open>The signing service\<close>

definition LOCAL_RSA_BACKEND :: string where "LOCAL_RSA_BACKEND = ''local-rsa''"

definition VAULT_TRANSIT_BACKEND :: string where "VAULT_TRANSIT_BACKEND = ''vault-transit''"

definition RSA_PSS_SHA256 :: string where "RSA_PSS_SHA256 = ''rsa-pss-sha256''"

datatype signing_exc =
    SigningUnavailableError string
  | SignatureMetadataError string
  | SigningValueError

record signing_result =
  sg_signature :: string
  sg_backend :: string
  sg_algorithm :: string
  sg_key_id :: string
  sg_key_version :: "int option"
  sg_public_key_pem :: "string option"

text \<open>
  \<open>rsa.sign\<close> and \<open>rsa.verify\<close> with PSS and SHA-256: signing takes the random salt and may raise
  \<open>ValueError\<close> (a modulus too small for the digest).
\<close>

record pss_lib =
  pss_sign :: "rsa_private \<Rightarrow> bytes \<Rightarrow> bytes \<Rightarrow> bytes option"
  pss_verify :: "rsa_public \<Rightarrow> bytes \<Rightarrow> bytes \<Rightarrow> bool"

record signing_env =
  se_lib :: crypto_lib
  se_pss :: pss_lib
  se_server :: hvac_server
  se_vault :: vault_client
  se_key_name :: string
  se_private_file :: "bytes option"
  se_public_file :: "bytes option"
  se_salt :: bytes

record signer =
  sn_private_key :: "rsa_private option"
  sn_public_key :: "rsa_public option"

definition ascii_decode :: "bytes \<Rightarrow> string option" where
  "ascii_decode bs = (if list_all (\<lambda>b. unat b < 128) bs then Some (map (\<lambda>b. char_of (unat b)) bs) else None)"

definition ascii_encode :: "string \<Rightarrow> bytes option" where
  "ascii_encode s = (if list_all (\<lambda>c. ord c < 128) s then Some (map (\<lambda>c. word_of_nat (ord c)) s) else None)"

definition load_result_keys :: "signing_env \<Rightarrow> signer \<Rightarrow> signer" where
  "load_result_keys env sn =
     (let none = \<lparr>sn_private_key = None, sn_public_key = None\<rparr> in
      case (map_option (load_pem_private_key (se_lib env)) (se_private_file env),
            map_option (load_pem_public_key (se_lib env)) (se_public_file env)) of
        (Some (Some (Rsa k)), Some (Some (Rsa p))) \<Rightarrow>
          if public_key_fingerprint (se_lib env) (priv_public k) = public_key_fingerprint (se_lib env) p
          then \<lparr>sn_private_key = Some k, sn_public_key = Some p\<rparr> else none
      | _ \<Rightarrow> none)"

definition local_private_key :: "signing_env \<Rightarrow> signer \<Rightarrow> (signing_exc + rsa_private) \<times> signer" where
  "local_private_key env sn =
     (let sn' = (if sn_private_key sn = None then load_result_keys env sn else sn) in
      case sn_private_key sn' of
        None \<Rightarrow> (Inl (SigningUnavailableError ''The local result-signing private key is unavailable.''), sn')
      | Some k \<Rightarrow> (Inr k, sn'))"

definition local_public_key :: "signing_env \<Rightarrow> signer \<Rightarrow> (signing_exc + rsa_public) \<times> signer" where
  "local_public_key env sn =
     (let sn' = (if sn_public_key sn = None then load_result_keys env sn else sn) in
      case sn_public_key sn' of
        None \<Rightarrow> (Inl (SigningUnavailableError ''The local result-signing public key is unavailable.''), sn')
      | Some k \<Rightarrow> (Inr k, sn'))"

definition validate_local_public_key ::
  "crypto_lib \<Rightarrow> string option \<Rightarrow> string \<Rightarrow> signing_exc + rsa_public" where
  "validate_local_public_key lib pem signing_key_id =
     (case pem of
        None \<Rightarrow> Inl (SignatureMetadataError ''The archived local RSA public key is missing.'')
      | Some text \<Rightarrow>
          if text = [] then Inl (SignatureMetadataError ''The archived local RSA public key is missing.'')
          else
            (case (case ascii_encode text of None \<Rightarrow> None | Some b \<Rightarrow> load_pem_public_key lib b) of
               None \<Rightarrow> Inl (SignatureMetadataError ''The archived local RSA public key is invalid.'')
             | Some NotRsa \<Rightarrow> Inl (SignatureMetadataError ''The archived local result-signing key is not RSA.'')
             | Some (Rsa k) \<Rightarrow>
                 if public_key_fingerprint lib k \<noteq> signing_key_id
                 then Inl (SignatureMetadataError ''The archived local key does not match its fingerprint.'')
                 else Inr k))"

definition sign_data :: "signing_env \<Rightarrow> signer \<Rightarrow> bytes \<Rightarrow> (signing_exc + signing_result) \<times> signer" where
  "sign_data env sn data =
     (let vc = se_vault env; key_name = se_key_name env in
      if vc_configured vc then
        (if \<not> vc_enabled vc
         then (Inl (SigningUnavailableError ''Vault result signing is configured but unavailable.''), sn)
         else
           (let failed = (Inl (SigningUnavailableError ''Vault result signing did not complete.''), sn) in
            case transit_sign (se_server env) vc key_name data of
              Inl _ \<Rightarrow> failed
            | Inr envelope \<Rightarrow>
                (case transit_signature_version envelope of
                   Inl _ \<Rightarrow> failed
                 | Inr key_version \<Rightarrow>
                     (case transit_key_identity vc key_name of
                        Inl _ \<Rightarrow> failed
                      | Inr key_identity \<Rightarrow>
                          (Inr \<lparr>sg_signature = envelope, sg_backend = VAULT_TRANSIT_BACKEND,
                                sg_algorithm = RSA_PSS_SHA256, sg_key_id = key_identity,
                                sg_key_version = Some key_version, sg_public_key_pem = None\<rparr>, sn)))))
      else
        (case local_private_key env sn of
           (Inl e, sn') \<Rightarrow> (Inl e, sn')
         | (Inr private_key, sn') \<Rightarrow>
             (case (pss_sign (se_pss env) private_key (se_salt env) data,
                    ascii_decode (public_bytes_pem (se_lib env) (priv_public private_key))) of
                (Some signature, Some pem) \<Rightarrow>
                  (Inr \<lparr>sg_signature = hex_of_bytes signature, sg_backend = LOCAL_RSA_BACKEND,
                        sg_algorithm = RSA_PSS_SHA256,
                        sg_key_id = public_key_fingerprint (se_lib env) (priv_public private_key),
                        sg_key_version = None, sg_public_key_pem = Some pem\<rparr>, sn')
              | _ \<Rightarrow> (Inl SigningValueError, sn'))))"

definition valid_local_key_id :: "string \<Rightarrow> bool" where
  "valid_local_key_id s \<longleftrightarrow> length s = 64 \<and> list_all is_lower_hex s"

definition verify_signature ::
  "signing_env \<Rightarrow> bytes \<Rightarrow> string \<Rightarrow> string \<Rightarrow> string \<Rightarrow> string \<Rightarrow> int option \<Rightarrow> string option
     \<Rightarrow> signing_exc + bool" where
  "verify_signature env data signature backend algorithm key_id key_version pem =
     (if algorithm \<noteq> RSA_PSS_SHA256 then Inl (SignatureMetadataError ''The signature algorithm is unsupported.'')
      else if key_id = [] then Inl (SignatureMetadataError ''The signing key identifier is missing.'')
      else if backend = VAULT_TRANSIT_BACKEND then
        (let vc = se_vault env; key_name = se_key_name env in
         case key_version of
           None \<Rightarrow> Inl (SignatureMetadataError ''The Vault signing key version is invalid.'')
         | Some version \<Rightarrow>
             if version < 1 then Inl (SignatureMetadataError ''The Vault signing key version is invalid.'')
             else
               (case transit_signature_version signature of
                  Inl _ \<Rightarrow> Inr False
                | Inr envelope_version \<Rightarrow>
                    if envelope_version \<noteq> version then Inr False
                    else if \<not> vc_configured vc \<or> \<not> vc_enabled vc
                    then Inl (SigningUnavailableError ''The recorded Vault signing backend is unavailable.'')
                    else
                      (case transit_key_identity vc key_name of
                         Inl _ \<Rightarrow> Inl (SigningUnavailableError ''The recorded Vault key identity is unavailable.'')
                       | Inr current_identity \<Rightarrow>
                           if current_identity \<noteq> key_id
                           then Inl (SigningUnavailableError
                             ''The recorded Vault cluster, namespace, mount, or key is unavailable.'')
                           else
                             (case transit_verify (se_server env) vc key_name data signature of
                                Inl _ \<Rightarrow> Inl (SigningUnavailableError ''Vault result verification did not complete.'')
                              | Inr ok \<Rightarrow> Inr ok))))
      else if backend = LOCAL_RSA_BACKEND then
        (if key_version \<noteq> None
         then Inl (SignatureMetadataError ''Local RSA signatures must not have a key version.'')
         else if \<not> valid_local_key_id key_id
         then Inl (SignatureMetadataError ''The local RSA signing key identifier is invalid.'')
         else
           (case fromhex signature of
              None \<Rightarrow> Inr False
            | Some signature_bytes \<Rightarrow>
                (case validate_local_public_key (se_lib env) pem key_id of
                   Inl e \<Rightarrow> Inl e
                 | Inr public_key \<Rightarrow> Inr (pss_verify (se_pss env) public_key signature_bytes data))))
      else Inl (SignatureMetadataError ''The recorded signing backend is unsupported.''))"


section \<open>Identities of Vault keys\<close>

lemma append_sep_inject:
  assumes "d \<notin> set a" and "d \<notin> set a'"
  shows "a @ d # b = a' @ d # b' \<longleftrightarrow> a = a' \<and> b = b'"
  using assms
proof (induction a arbitrary: a')
  case Nil
  then show ?case by (cases a') auto
next
  case (Cons x xs)
  then show ?case by (cases a') auto
qed

definition root_namespace :: "vault_client \<Rightarrow> string" where
  "root_namespace vc = (if vc_namespace vc = [] then ''root'' else vc_namespace vc)"

lemma transit_key_identity_InrD:
  assumes "transit_key_identity vc k = Inr i"
  obtains c where "vc_cluster_id vc = Some c" and "CHR ''|'' \<notin> set c" and "CHR ''|'' \<notin> set (root_namespace vc)"
    and "CHR ''|'' \<notin> set (vc_mount vc)" and "CHR ''|'' \<notin> set k"
    and "i = ''cluster='' @ c @ CHR ''|'' # ''namespace='' @ root_namespace vc @ CHR ''|'' # ''mount='' @ vc_mount vc
           @ CHR ''|'' # ''key='' @ k"
    and "length i \<le> 255"
  using assms
  by (auto simp: transit_key_identity_def identity_part_ok_def root_namespace_def Let_def
      split: if_splits option.splits)

text \<open>
  The identity stored with a Vault signature names one key. Two clients and key names with the
  same identity agree on the cluster, the namespace (where the empty one is the root), the mount
  and the key, and an identity fits its column of 255 characters.
\<close>

theorem vault_identity_injective:
  assumes "transit_key_identity vc k = Inr i" and "transit_key_identity vc' k' = Inr i"
  shows "vc_cluster_id vc = vc_cluster_id vc' \<and> root_namespace vc = root_namespace vc'
    \<and> vc_mount vc = vc_mount vc' \<and> k = k' \<and> length i \<le> 255"
proof -
  obtain c where c: "vc_cluster_id vc = Some c" "CHR ''|'' \<notin> set c" "CHR ''|'' \<notin> set (root_namespace vc)"
    "CHR ''|'' \<notin> set (vc_mount vc)"
    "i = ''cluster='' @ c @ CHR ''|'' # ''namespace='' @ root_namespace vc @ CHR ''|'' # ''mount='' @ vc_mount vc
           @ CHR ''|'' # ''key='' @ k" "length i \<le> 255"
    using transit_key_identity_InrD [OF assms(1)] by metis
  obtain c' where c': "vc_cluster_id vc' = Some c'" "CHR ''|'' \<notin> set c'" "CHR ''|'' \<notin> set (root_namespace vc')"
    "CHR ''|'' \<notin> set (vc_mount vc')"
    "i = ''cluster='' @ c' @ CHR ''|'' # ''namespace='' @ root_namespace vc' @ CHR ''|'' # ''mount='' @ vc_mount vc'
           @ CHR ''|'' # ''key='' @ k'"
    using transit_key_identity_InrD [OF assms(2)] by metis
  have "c @ CHR ''|'' # ''namespace='' @ root_namespace vc @ CHR ''|'' # ''mount='' @ vc_mount vc
           @ CHR ''|'' # ''key='' @ k =
        c' @ CHR ''|'' # ''namespace='' @ root_namespace vc' @ CHR ''|'' # ''mount='' @ vc_mount vc'
           @ CHR ''|'' # ''key='' @ k'"
    using c(5) c'(5) by simp
  then have "c = c'" and "root_namespace vc @ CHR ''|'' # ''mount='' @ vc_mount vc @ CHR ''|'' # ''key='' @ k =
        root_namespace vc' @ CHR ''|'' # ''mount='' @ vc_mount vc' @ CHR ''|'' # ''key='' @ k'"
    using append_sep_inject [OF c(2) c'(2)] by auto
  then have "root_namespace vc = root_namespace vc'"
    and "vc_mount vc @ CHR ''|'' # ''key='' @ k = vc_mount vc' @ CHR ''|'' # ''key='' @ k'"
    using append_sep_inject [OF c(3) c'(3)] by auto
  then show ?thesis using append_sep_inject [OF c(4) c'(4)] c(1,6) c'(1) \<open>c = c'\<close> by auto
qed

definition demo_vault :: vault_client where
  "demo_vault = \<lparr>vc_configured = True, vc_enabled = True, vc_mount = ''transit'', vc_kv_mount = ''kv'',
     vc_cluster_id = Some ''c1'', vc_namespace = []\<rparr>"

lemma demo_vault_identity:
  "transit_key_identity demo_vault ''results-signing'' =
     Inr ''cluster=c1|namespace=root|mount=transit|key=results-signing''"
  by (simp add: transit_key_identity_def demo_vault_def identity_part_ok_def)

theorem vault_identity_injective_witness:
  "length ''cluster=c1|namespace=root|mount=transit|key=results-signing'' \<le> 255
   \<and> transit_key_identity demo_vault ''results-signing'' =
       Inr ''cluster=c1|namespace=root|mount=transit|key=results-signing''"
  using vault_identity_injective [OF demo_vault_identity demo_vault_identity] demo_vault_identity by blast

section \<open>A configured Vault is never bypassed\<close>

definition vault_selected :: "vault_env \<Rightarrow> bool" where
  "vault_selected ve \<longleftrightarrow> given (ve_addr ve) \<or> given (ve_token ve) \<or> token_file_given ve
     \<or> given (ve_cluster_id ve)"

lemma vault_connect_configured: "vc_configured (vault_connect srv ve tok) = vault_selected ve"
  by (auto simp: vault_connect_def vault_settings_def vault_selected_def Let_def split: option.splits bool.splits)

lemma vault_client_init_configured: "vc_configured (vault_client_init srv ve) = vault_selected ve"
  by (simp add: vault_client_init_def vault_connect_configured split: option.splits)
    (simp add: vault_settings_def vault_selected_def)

lemma vault_connect_enabled:
  assumes "vc_enabled (vault_connect srv ve token)"
  shows "given (ve_addr ve) \<and> given token \<and> given (ve_cluster_id ve) \<and> ve_hvac_installed ve
    \<and> (\<exists>url tok ns. hvac_authenticated srv url tok ns = Some True)"
  using assms
  by (auto simp: vault_connect_def vault_settings_def Let_def split: option.splits bool.splits if_splits)

lemma vault_client_init_enabled:
  assumes "vc_enabled (vault_client_init srv ve)"
  shows "given (ve_addr ve) \<and> given (ve_cluster_id ve) \<and> (given (ve_token ve) \<noteq> token_file_given ve)
    \<and> (\<exists>url tok ns. hvac_authenticated srv url tok ns = Some True)"
  using assms vault_connect_enabled [of srv ve]
  by (auto simp: vault_client_init_def vault_settings_def split: if_splits option.splits)

text \<open>
  C27: no silent fallback. When any Vault variable is set, signing either uses Vault or reports that
  signing is unavailable, and it does not touch the local key; and Vault is used only with an
  address, a cluster, exactly one source of a token and a server that authenticated it.
\<close>

theorem selected_vault_never_bypassed:
  assumes "se_vault env = vault_client_init srv ve" and "vault_selected ve"
  shows "case sign_data env sn data of
      (Inr r, sn') \<Rightarrow> sg_backend r = VAULT_TRANSIT_BACKEND \<and> sg_public_key_pem r = None \<and> sn' = sn
        \<and> given (ve_addr ve) \<and> given (ve_cluster_id ve)
        \<and> (given (ve_token ve) \<noteq> token_file_given ve)
        \<and> (\<exists>url tok ns. hvac_authenticated srv url tok ns = Some True)
    | (Inl e, sn') \<Rightarrow> (\<exists>m. e = SigningUnavailableError m) \<and> sn' = sn"
proof -
  have "vc_configured (se_vault env)" using assms by (simp add: vault_client_init_configured)
  then show ?thesis
    using vault_client_init_enabled [of srv ve] assms(1)
    by (auto simp: sign_data_def Let_def split: sum.splits)
qed

definition empty_server :: hvac_server where
  "empty_server = \<lparr>hvac_authenticated = (\<lambda>_ _ _. None), hvac_sign_data = (\<lambda>_ _ _. None),
     hvac_verify_signed_data = (\<lambda>_ _ _ _. None), hvac_read_secret = (\<lambda>_ _. None)\<rparr>"

definition demo_pss :: pss_lib where
  "demo_pss = \<lparr>pss_sign = (\<lambda>k salt d. Some (encode_ints [pub_n (priv_public k)] @ d)),
     pss_verify = (\<lambda>k s d. s = encode_ints [pub_n k] @ d)\<rparr>"

definition demo_signing_env :: signing_env where
  "demo_signing_env = \<lparr>se_lib = toy_lib, se_pss = demo_pss, se_server = empty_server,
     se_vault = demo_vault\<lparr>vc_configured := False, vc_enabled := False\<rparr>, se_key_name = ''results-signing'',
     se_private_file = Some (private_bytes_pem toy_lib toy_key),
     se_public_file = Some (public_bytes_pem toy_lib (priv_public toy_key)), se_salt = []\<rparr>"

definition no_vault :: vault_env where
  "no_vault = \<lparr>ve_mount = None, ve_kv_mount = None, ve_cluster_id = None, ve_namespace = None,
     ve_addr = None, ve_token = None, ve_token_file = None, ve_hvac_installed = False\<rparr>"

theorem selected_vault_never_bypassed_witness:
  "\<exists>m. fst (sign_data (demo_signing_env\<lparr>se_vault :=
       vault_client_init empty_server (no_vault\<lparr>ve_addr := Some ''http://vault''\<rparr>)\<rparr>)
     \<lparr>sn_private_key = Some toy_key, sn_public_key = None\<rparr> [1]) = Inl (SigningUnavailableError m)"
proof -
  have sel: "vault_selected (no_vault\<lparr>ve_addr := Some ''http://vault''\<rparr>)"
    and off: "\<not> given (ve_cluster_id (no_vault\<lparr>ve_addr := Some ''http://vault''\<rparr>))"
    by (simp_all add: vault_selected_def no_vault_def)
  show ?thesis
    using selected_vault_never_bypassed [of "demo_signing_env\<lparr>se_vault :=
       vault_client_init empty_server (no_vault\<lparr>ve_addr := Some ''http://vault''\<rparr>)\<rparr>", OF _ sel,
       of empty_server "\<lparr>sn_private_key = Some toy_key, sn_public_key = None\<rparr>" "[1]"] off
    by (auto split: prod.splits sum.splits)
qed


section \<open>A signature verifies with the provenance recorded beside it\<close>

text \<open>
  Documented behaviour of the libraries: a PSS signature is not empty and verifies under the public key, a PEM
  encoding is not empty, and Vault accepts the signatures it produced for the same key and input.
\<close>

definition pss_lib_ok :: "pss_lib \<Rightarrow> bool" where
  "pss_lib_ok pl \<longleftrightarrow> (\<forall>k salt d s. pss_sign pl k salt d = Some s \<longrightarrow> s \<noteq> [] \<and> pss_verify pl (priv_public k) s d)"

definition pem_ok :: "crypto_lib \<Rightarrow> bool" where
  "pem_ok lib \<longleftrightarrow> crypto_lib_ok lib \<and> (\<forall>k. public_bytes_pem lib k \<noteq> [])"

definition vault_accepts_own :: "hvac_server \<Rightarrow> bool" where
  "vault_accepts_own srv \<longleftrightarrow>
     (\<forall>name input mount resp d sig. hvac_sign_data srv name input mount = Some resp \<longrightarrow>
        response_data resp = Some d \<longrightarrow> map_of d ''signature'' = Some (JStr sig) \<longrightarrow>
        (\<exists>resp' d'. hvac_verify_signed_data srv name input sig mount = Some resp'
           \<and> response_data resp' = Some d' \<and> truthy (dict_get d' ''valid'')))"

lemma ascii_encode_decode: "ascii_decode bs = Some s \<Longrightarrow> ascii_encode s = Some bs"
  by (auto simp: ascii_decode_def ascii_encode_def list_all_iff comp_def unat_byte_less
      split: if_splits intro!: map_idI)

lemma digit_val_ascii: "is_ascii_digit c \<Longrightarrow> digit_val 10 c = Some (int (ord c - 48))"
  by (auto simp: digit_val_def is_ascii_digit_def Let_def)

lemma ascii_digit_no_mark:
  "is_ascii_digit c \<Longrightarrow> c \<noteq> CHR ''_'' \<and> c \<noteq> CHR ''-'' \<and> c \<noteq> CHR ''+'' \<and> \<not> is_space c"
  by (auto simp: is_ascii_digit_def is_space_def ord_def)

lemma parse_digits_ge:
  assumes "list_all is_ascii_digit s" and "parse_digits 10 acc seen s = Some v" and "0 \<le> acc"
  shows "acc \<le> v"
  using assms
proof (induction s arbitrary: acc seen)
  case (Cons c s)
  then have "parse_digits 10 (acc * 10 + int (ord c - 48)) True s = Some v"
    using ascii_digit_no_mark [of c] by (simp add: digit_val_ascii)
  with Cons.IH [of "acc * 10 + int (ord c - 48)" True] Cons.prems show ?case by simp
qed (simp split: if_splits)

lemma py_int_ascii_digits:
  assumes "list_all is_ascii_digit s" and "s \<noteq> []"
  shows "py_int 10 s = parse_digits 10 0 False s"
proof -
  have d: "is_ascii_digit (hd s)" "is_ascii_digit (last s)"
    using assms by (simp_all add: list_all_iff)
  then have "strip s = s" using ascii_digit_no_mark by (intro strip_id) blast
  moreover obtain c cs where "s = c # cs" using assms(2) by (cases s) auto
  ultimately show ?thesis using ascii_digit_no_mark [OF d(1)] by (simp add: py_int_def startswith_def)
qed

lemma ascii_digit_nonzero: "is_ascii_digit c \<Longrightarrow> c \<noteq> CHR ''0'' \<Longrightarrow> 1 \<le> int (ord c - 48)"
proof -
  assume "is_ascii_digit c" and "c \<noteq> CHR ''0''"
  moreover from \<open>c \<noteq> CHR ''0''\<close> have "ord c \<noteq> ord (CHR ''0'')" by (simp del: ord_inject add: ord_inject)
  ultimately show ?thesis by (simp add: is_ascii_digit_def ord_def)
qed

lemma transit_signature_version_pos:
  assumes "transit_signature_version s = Inr v"
  shows "1 \<le> v"
proof -
  obtain version payload where m: "match_transit_signature s = Some (version, payload)"
    and v: "py_int 10 version = Some v"
    using assms by (auto simp: transit_signature_version_def split: option.splits prod.splits)
  have tw: "version = takeWhile is_ascii_digit (drop 7 s)"
    using m by (auto simp: match_transit_signature_def Let_def split: if_splits list.splits)
  then have all: "list_all is_ascii_digit version" by (simp add: list_all_iff) (metis set_takeWhileD)
  obtain c cs where c: "version = c # cs" "c \<noteq> CHR ''0''"
  proof (cases "takeWhile is_ascii_digit (drop 7 s)")
    case Nil
    with m show thesis by (simp add: match_transit_signature_def split: if_splits)
  next
    case (Cons c cs)
    with m tw that [of c cs] show thesis
      by (simp add: match_transit_signature_def Let_def split: if_splits list.splits)
  qed
  have "parse_digits 10 (int (ord c - 48)) True cs = Some v"
    using v all c(1) ascii_digit_no_mark [of c] by (simp add: py_int_ascii_digits digit_val_ascii)
  then have "int (ord c - 48) \<le> v" using parse_digits_ge all c(1) by fastforce
  with ascii_digit_nonzero [of c] all c show ?thesis by simp
qed

lemma validate_local_public_key_own:
  assumes "pem_ok lib" and "ascii_decode (public_bytes_pem lib p) = Some pem"
  shows "validate_local_public_key lib (Some pem) (public_key_fingerprint lib p) = Inr p"
proof -
  have "pem \<noteq> []" using assms by (auto simp: pem_ok_def ascii_decode_def split: if_splits)
  then show ?thesis
    using assms ascii_encode_decode [OF assms(2)]
    by (simp add: validate_local_public_key_def pem_ok_def crypto_lib_ok_def)
qed

lemma valid_local_key_id_fingerprint [simp]: "valid_local_key_id (public_key_fingerprint lib p)"
  by (simp add: valid_local_key_id_def public_key_fingerprint_def sha256_hex_lower)

text \<open>What \<open>sign_data\<close> may produce.\<close>

lemma sign_data_cases:
  assumes "sign_data env sn data = (Inr r, sn')"
  obtains (vault) v where "vc_configured (se_vault env)" and "vc_enabled (se_vault env)"
      and "transit_sign (se_server env) (se_vault env) (se_key_name env) data = Inr (sg_signature r)"
      and "transit_signature_version (sg_signature r) = Inr v"
      and "transit_key_identity (se_vault env) (se_key_name env) = Inr (sg_key_id r)"
      and "sg_backend r = VAULT_TRANSIT_BACKEND" and "sg_algorithm r = RSA_PSS_SHA256"
      and "sg_key_version r = Some v" and "sg_public_key_pem r = None"
  | (local) k s pem where "\<not> vc_configured (se_vault env)" and "sn_private_key sn' = Some k"
      and "pss_sign (se_pss env) k (se_salt env) data = Some s" and "sg_signature r = hex_of_bytes s"
      and "ascii_decode (public_bytes_pem (se_lib env) (priv_public k)) = Some pem"
      and "sg_public_key_pem r = Some pem"
      and "sg_key_id r = public_key_fingerprint (se_lib env) (priv_public k)"
      and "sg_backend r = LOCAL_RSA_BACKEND" and "sg_algorithm r = RSA_PSS_SHA256" and "sg_key_version r = None"
proof (cases "vc_configured (se_vault env)")
  case True
  with assms vault show thesis
    by (auto simp: sign_data_def Let_def split: if_splits sum.splits)
next
  case False
  with assms obtain k s pem where "local_private_key env sn = (Inr k, sn')"
    "pss_sign (se_pss env) k (se_salt env) data = Some s"
    "ascii_decode (public_bytes_pem (se_lib env) (priv_public k)) = Some pem"
    "r = \<lparr>sg_signature = hex_of_bytes s, sg_backend = LOCAL_RSA_BACKEND,
                        sg_algorithm = RSA_PSS_SHA256,
                        sg_key_id = public_key_fingerprint (se_lib env) (priv_public k),
                        sg_key_version = None, sg_public_key_pem = Some pem\<rparr>"
    by (auto simp: sign_data_def Let_def split: sum.splits prod.splits option.splits)
  with False local [of k s pem] show thesis
    by (auto simp: local_private_key_def Let_def split: option.splits if_splits)
qed

lemma transit_sign_verifies:
  assumes "vault_accepts_own srv" and "transit_sign srv vc key data = Inr sig"
  shows "transit_verify srv vc key data sig = Inr True"
proof -
  obtain resp d v where "vc_enabled vc" "hvac_sign_data srv key (b64encode data) (vc_mount vc) = Some resp"
    "response_data resp = Some d" "map_of d ''signature'' = Some (JStr sig)"
    "transit_signature_version sig = Inr v"
    using assms(2) by (auto simp: transit_sign_def Let_def split: if_splits option.splits json.splits sum.splits)
  moreover from this assms(1) obtain resp' d' where
    "hvac_verify_signed_data srv key (b64encode data) sig (vc_mount vc) = Some resp'"
    "response_data resp' = Some d'" "truthy (dict_get d' ''valid'')"
    unfolding vault_accepts_own_def by blast
  ultimately show ?thesis by (simp add: transit_verify_def Let_def)
qed

definition same_backend :: "signing_env \<Rightarrow> signing_env \<Rightarrow> bool" where
  "same_backend a b \<longleftrightarrow> se_lib a = se_lib b \<and> se_pss a = se_pss b \<and> se_server a = se_server b
     \<and> se_vault a = se_vault b \<and> se_key_name a = se_key_name b"

text \<open>
  C26: a produced signature verifies with the provenance returned beside it. The check uses neither
  the keys in memory nor the key files, so it still holds after a restart and after the local key
  pair on disk was replaced or lost.
\<close>

theorem signed_data_verifies:
  assumes "pem_ok (se_lib env)" and "pss_lib_ok (se_pss env)" and "vault_accepts_own (se_server env)"
    and "sign_data env sn data = (Inr r, sn')" and "same_backend env env'"
  shows "verify_signature env' data (sg_signature r) (sg_backend r) (sg_algorithm r) (sg_key_id r)
    (sg_key_version r) (sg_public_key_pem r) = Inr True"
  using assms(4)
proof (cases rule: sign_data_cases)
  case (vault v)
  have "sg_key_id r \<noteq> []" using vault(5) by (auto elim: transit_key_identity_InrD)
  then show ?thesis
    using vault transit_signature_version_pos [OF vault(4)] transit_sign_verifies [OF assms(3) vault(3)] assms(5)
    by (simp add: verify_signature_def same_backend_def Let_def)
next
  case (local k s pem)
  have "public_key_fingerprint (se_lib env) (priv_public k) \<noteq> []"
    using length_sha256_hex by (metis length_0_conv public_key_fingerprint_def zero_neq_numeral)
  then show ?thesis
    using local validate_local_public_key_own [OF assms(1) local(5)] assms(2,5)
    by (simp add: verify_signature_def same_backend_def pss_lib_ok_def VAULT_TRANSIT_BACKEND_def LOCAL_RSA_BACKEND_def)
qed


lemma encode_ints_nonempty: "encode_ints is \<noteq> []"
proof
  assume "encode_ints is = []"
  moreover have "read_metadata [] = None" by code_simp
  ultimately show False using read_encode_ints [of "is"] by simp
qed

lemma demo_pss_ok: "pss_lib_ok demo_pss"
  by (simp add: pss_lib_ok_def demo_pss_def encode_ints_nonempty)

lemma toy_pem_ok: "pem_ok toy_lib"
  by (simp add: pem_ok_def toy_lib_ok) (simp add: toy_lib_def encode_ints_nonempty)

lemma empty_server_ok: "vault_accepts_own empty_server"
  by (simp add: vault_accepts_own_def empty_server_def)

abbreviation no_signer :: signer where
  "no_signer \<equiv> \<lparr>sn_private_key = None, sn_public_key = None\<rparr>"

lemma toy_lib_private: "load_pem_private_key toy_lib (private_bytes_pem toy_lib k) = Some (Rsa k)"
  and toy_lib_public: "load_pem_public_key toy_lib (public_bytes_pem toy_lib p) = Some (Rsa p)"
  using toy_lib_ok by (simp_all add: crypto_lib_ok_def)

lemma demo_load_keys:
  "load_result_keys demo_signing_env no_signer =
     \<lparr>sn_private_key = Some toy_key, sn_public_key = Some (priv_public toy_key)\<rparr>"
  by (simp add: load_result_keys_def demo_signing_env_def toy_lib_private toy_lib_public)

lemma toy_pem_text:
  "ascii_decode (public_bytes_pem toy_lib (priv_public toy_key)) = Some ''[33, 3]''"
  by (simp add: toy_lib_def toy_key_def encode_ints_def) code_simp

lemma demo_sign_data:
  "sign_data demo_signing_env no_signer d =
     (Inr \<lparr>sg_signature = hex_of_bytes (encode_ints [33] @ d), sg_backend = LOCAL_RSA_BACKEND,
           sg_algorithm = RSA_PSS_SHA256, sg_key_id = public_key_fingerprint toy_lib (priv_public toy_key),
           sg_key_version = None, sg_public_key_pem = Some ''[33, 3]''\<rparr>,
      \<lparr>sn_private_key = Some toy_key, sn_public_key = Some (priv_public toy_key)\<rparr>)"
proof -
  have "local_private_key demo_signing_env no_signer =
      (Inr toy_key, \<lparr>sn_private_key = Some toy_key, sn_public_key = Some (priv_public toy_key)\<rparr>)"
    by (simp add: local_private_key_def demo_load_keys)
  moreover have "se_lib demo_signing_env = toy_lib" "se_pss demo_signing_env = demo_pss"
    "\<not> vc_configured (se_vault demo_signing_env)"
    by (simp_all add: demo_signing_env_def)
  ultimately show ?thesis
    by (simp add: sign_data_def toy_pem_text) (simp add: demo_pss_def toy_key_def)
qed

theorem signed_data_verifies_witness:
  "verify_signature (demo_signing_env\<lparr>se_private_file := None, se_public_file := None\<rparr>) [1, 2, 3]
     (hex_of_bytes (encode_ints [33] @ [1, 2, 3])) LOCAL_RSA_BACKEND RSA_PSS_SHA256
     (public_key_fingerprint toy_lib (priv_public toy_key)) None (Some ''[33, 3]'') = Inr True"
proof -
  let ?env = "demo_signing_env\<lparr>se_private_file := None, se_public_file := None\<rparr>"
  have "same_backend demo_signing_env ?env" by (simp add: same_backend_def)
  moreover have "pem_ok (se_lib demo_signing_env)" "pss_lib_ok (se_pss demo_signing_env)"
    "vault_accepts_own (se_server demo_signing_env)"
    by (simp_all add: demo_signing_env_def toy_pem_ok demo_pss_ok empty_server_ok)
  ultimately show ?thesis
    using signed_data_verifies [OF _ _ _ demo_sign_data [of "[1, 2, 3]"], of ?env] by simp
qed

end
