(* ===== verification/Results.thy ===== *)
theory Results
  imports Elections Signing "HOL-Library.Multiset"
begin

text \<open>
  Results: \<^verbatim>\<open>app/services/results_service.py\<close>, \<^verbatim>\<open>app/routes/results.py\<close> and the results page of
  \<^verbatim>\<open>app/routes/main.py\<close>. The tally query is written as the joins and the grouping of its SQL text;
  texts compare by code points. The signing handler holds an exclusive lock on its election row,
  so it is one step; \<open>signer\<close> is the pair of key globals of the signing service.
\<close>

section \<open>Tallies\<close>

record tally =
  t_candidate_id :: int
  t_name :: string
  t_position :: string
  t_region_id :: int
  t_region :: string
  t_votes :: nat

datatype results_exc = ResultsUnavailableError string | TallyOverflowError

definition left_join_votes :: "database \<Rightarrow> candidate \<Rightarrow> vote option list" where
  "left_join_votes db c =
     (case filter (\<lambda>v. v_candidate_id v = c_id c \<and> v_election_id v = c_election_id c) (votes db) of
        [] \<Rightarrow> [None]
      | vs \<Rightarrow> map Some vs)"

definition joined_rows :: "database \<Rightarrow> int \<Rightarrow> ((int \<times> string \<times> string \<times> int \<times> string) \<times> vote option) list" where
  "joined_rows db eid =
     concat (map (\<lambda>c. concat (map (\<lambda>r. map (\<lambda>v. ((c_id c, c_name c, c_position c, c_region_id c, g_name r), v))
                                        (left_join_votes db c))
                                (filter (\<lambda>r. g_id r = c_region_id c) (regions db))))
              (candidates_of db eid))"

definition grouped_rows :: "database \<Rightarrow> int \<Rightarrow> tally list" where
  "grouped_rows db eid =
     map (\<lambda>k. case k of (cid, name, pos, rid, reg) \<Rightarrow>
            \<lparr>t_candidate_id = cid, t_name = name, t_position = pos, t_region_id = rid, t_region = reg,
             t_votes = length (filter (\<lambda>(k', v). k' = k \<and> v \<noteq> None) (joined_rows db eid))\<rparr>)
       (remdups (map fst (joined_rows db eid)))"

definition tally_before :: "tally \<Rightarrow> tally \<Rightarrow> bool" where
  "tally_before a b \<longleftrightarrow>
     t_votes a > t_votes b
     \<or> t_votes a = t_votes b \<and> (t_name a < t_name b
        \<or> t_name a = t_name b \<and> t_candidate_id a \<le> t_candidate_id b)"

fun insert_tally :: "tally \<Rightarrow> tally list \<Rightarrow> tally list" where
  "insert_tally t [] = [t]"
| "insert_tally t (x # xs) = (if tally_before t x then t # x # xs else x # insert_tally t xs)"

definition order_tallies :: "tally list \<Rightarrow> tally list" where
  "order_tallies ts = foldr insert_tally ts []"

text \<open>\<open>available\<close> is false when the query raises \<open>SQLAlchemyError\<close>.\<close>

definition get_vote_tallies :: "bool \<Rightarrow> database \<Rightarrow> json \<Rightarrow> results_exc + tally list" where
  "get_vote_tallies available db election_id =
     (case int_of_json election_id of
        Inl OverflowError \<Rightarrow> Inl TallyOverflowError
      | Inl _ \<Rightarrow> Inl (ResultsUnavailableError ''A valid election_id is required'')
      | Inr eid \<Rightarrow>
          if \<not> available
          then Inl (ResultsUnavailableError (''Tallies are unavailable for election '' @ show_int eid))
          else Inr (order_tallies (grouped_rows db eid)))"

definition tally_json :: "tally \<Rightarrow> json" where
  "tally_json t = JObj [(''candidate_id'', JInt (t_candidate_id t)), (''name'', JStr (t_name t)),
     (''position'', JStr (t_position t)), (''region_id'', JInt (t_region_id t)),
     (''region'', JStr (t_region t)), (''votes'', JInt (int (t_votes t)))]"

definition total_votes :: "tally list \<Rightarrow> nat" where
  "total_votes ts = sum_list (map t_votes ts)"

section \<open>Signing\<close>

record results_env =
  re_app :: app_env
  re_signing :: signing_env
  re_tallies_available :: bool

text \<open>\<open>(get_json() or {}).get(k)\<close>: only a dictionary has \<open>get\<close>; \<open>None\<close> is \<open>AttributeError\<close>.\<close>

definition body_get :: "json \<Rightarrow> string \<Rightarrow> json option" where
  "body_get body k =
     (if \<not> truthy body then Some JNull else (case body of JObj kvs \<Rightarrow> Some (dict_get kvs k) | _ \<Rightarrow> None))"

definition election_results :: "election \<Rightarrow> timestamp \<Rightarrow> tally list \<Rightarrow> json" where
  "election_results e at ts = JObj [(''election_id'', JInt (el_id e)), (''election_name'', JStr (el_name e)),
     (''signed_at'', JStr (isoformat_utc at)), (''results'', JList (map tally_json ts)),
     (''total_votes'', JInt (int (total_votes ts)))]"

definition get_result_key :: "database \<Rightarrow> string \<Rightarrow> result_signing_public_key option" where
  "get_result_key db key_id = find (\<lambda>k. pk_key_id k = key_id) (result_keys db)"

definition insert_result_key :: "result_signing_public_key \<Rightarrow> database \<Rightarrow> database option" where
  "insert_result_key k db = commit (db\<lparr>result_keys := result_keys db @ [k]\<rparr>)"

definition same_archived_key :: "result_signing_public_key \<Rightarrow> result_signing_public_key \<Rightarrow> bool" where
  "same_archived_key a b \<longleftrightarrow> pk_algorithm a = pk_algorithm b \<and> public_key_pem a = public_key_pem b"

text \<open>
  The archive step for a local signature: the savepoint inserts the key unless it is there; a
  conflicting archived key refuses the signature. \<open>None\<close> is the refusal.
\<close>

definition archive_local_key :: "result_signing_public_key \<Rightarrow> database \<Rightarrow> database option" where
  "archive_local_key k db =
     (case get_result_key db (pk_key_id k) of
        Some archived \<Rightarrow> if same_archived_key archived k then Some db else None
      | None \<Rightarrow>
          (case insert_result_key k db of
             Some db' \<Rightarrow> Some db'
           | None \<Rightarrow>
               (case get_result_key db (pk_key_id k) of
                  None \<Rightarrow> Some db
                | Some archived \<Rightarrow> if same_archived_key archived k then Some db else None)))"

definition archive_signer :: "crypto_lib \<Rightarrow> signing_result \<Rightarrow> database \<Rightarrow> reply + database" where
  "archive_signer lib sig db =
     (if sg_backend sig \<noteq> LOCAL_RSA_BACKEND then Inr db
      else
        (case validate_local_public_key lib (sg_public_key_pem sig) (sg_key_id sig) of
           Inl _ \<Rightarrow> Inl (json_error 503 ''The result-signing key is invalid.'')
         | Inr _ \<Rightarrow>
             (case archive_local_key \<lparr>pk_key_id = sg_key_id sig, pk_algorithm = sg_algorithm sig,
                       public_key_pem = the (sg_public_key_pem sig)\<rparr> db of
                None \<Rightarrow> Inl (json_error 503 ''The result-signing key archive is invalid.'')
              | Some db' \<Rightarrow> Inr db')))"

definition result_row ::
  "database \<Rightarrow> election \<Rightarrow> user \<Rightarrow> string \<Rightarrow> signing_result \<Rightarrow> timestamp \<Rightarrow> signed_election_result" where
  "result_row db e u payload sig at =
     \<lparr>sr_id = fresh_id (map sr_id (signed_results db)), sr_election_id = el_id e, sr_payload = payload,
      sr_signature = sg_signature sig, signer_backend = sg_backend sig,
      signature_algorithm = sg_algorithm sig, signing_key_id = sg_key_id sig,
      signing_key_version = sg_key_version sig, signed_at = at, signed_by = Some (u_id u)\<rparr>"

definition insert_result :: "signed_election_result \<Rightarrow> database \<Rightarrow> database option" where
  "insert_result r db = commit (db\<lparr>signed_results := signed_results db @ [r]\<rparr>)"

definition get_signed_result :: "database \<Rightarrow> int \<Rightarrow> signed_election_result option" where
  "get_signed_result db eid = find (\<lambda>r. sr_election_id r = eid) (signed_results db)"

definition sign_results_of ::
  "results_env \<Rightarrow> user \<Rightarrow> election \<Rightarrow> signer \<times> app_state \<Rightarrow> reply \<times> signer \<times> app_state" where
  "sign_results_of env u e s =
     (let sn = fst s; st = snd s; db = a_db st; now = e_now (re_app env) in
      if get_signed_result db (el_id e) \<noteq> None
      then (json_error 409 ''Election results have already been signed.'', s)
      else
        (case get_vote_tallies (re_tallies_available env) db (JInt (el_id e)) of
           Inl (ResultsUnavailableError _) \<Rightarrow>
             (json_error 503 ''Authoritative election results are unavailable.'', s)
         | Inl _ \<Rightarrow> (Abort 500, s)
         | Inr tallies \<Rightarrow>
             (let payload = dumps_canonical (election_results e now tallies) in
              case sign_data (re_signing env) sn (utf8_encode payload) of
                (Inl (SigningUnavailableError _), sn') \<Rightarrow>
                  (json_error 503 ''The result-signing service is unavailable.'', sn', st)
              | (Inl _, sn') \<Rightarrow> (Abort 500, sn', st)
              | (Inr sig, sn') \<Rightarrow>
                  (case archive_signer (se_lib (re_signing env)) sig db of
                     Inl r \<Rightarrow> (r, sn', st)
                   | Inr db1 \<Rightarrow>
                       (case insert_result (result_row db1 e u payload sig now) db1 of
                          None \<Rightarrow> (json_error 409 ''Election results have already been signed.'', sn', st)
                        | Some db' \<Rightarrow>
                            (Json_reply 200 (JObj [(''status'', JStr ''success''), (''election_id'', JInt (el_id e)),
                               (''message'', JStr ''Results have been digitally signed and persisted.'')]),
                             sn', audit_action (re_app env) (Some (u_id u)) ''result.sign'' ''election_result''
                               (el_id e) (st\<lparr>a_db := db'\<rparr>)))))))"

definition sign_election_results ::
  "results_env \<Rightarrow> user option \<Rightarrow> json \<Rightarrow> string option \<Rightarrow> signer \<times> app_state
     \<Rightarrow> reply \<times> signer \<times> app_state" where
  "sign_election_results env current_user body form_election_id s =
     login_required current_user s
       (\<lambda>u. let db = a_db (snd s) in
          if \<not> is_manager db u then (json_error 403 ''Forbidden'', s)
          else
            (case body_get body ''election_id'' of
               None \<Rightarrow> (Abort 500, s)
             | Some given_id \<Rightarrow>
                 (case int_of_json (if truthy given_id then given_id
                        else (case form_election_id of None \<Rightarrow> JNull | Some t \<Rightarrow> JStr t)) of
                    Inl OverflowError \<Rightarrow> (Abort 500, s)
                  | Inl _ \<Rightarrow> (json_error 400 ''A valid election_id is required.'', s)
                  | Inr election_id \<Rightarrow>
                      (case get_election db election_id of
                         None \<Rightarrow> (json_error 404 ''Election not found.'', s)
                       | Some e \<Rightarrow>
                           if el_status e \<noteq> ''closed''
                           then (json_error 409 ''Only closed election results can be signed.'', s)
                           else sign_results_of env u e s))))"

section \<open>Publication and verification\<close>

fun latest_result :: "signed_election_result list \<Rightarrow> signed_election_result option" where
  "latest_result [] = None"
| "latest_result (r # rs) =
     (case latest_result rs of
        None \<Rightarrow> Some r
      | Some b \<Rightarrow> if signed_at r \<ge> signed_at b then Some r else Some b)"

definition archived_key_of :: "database \<Rightarrow> signed_election_result \<Rightarrow> result_signing_public_key option" where
  "archived_key_of db r =
     (if signer_backend r = LOCAL_RSA_BACKEND then get_result_key db (signing_key_id r) else None)"

definition provenance_ok :: "crypto_lib \<Rightarrow> database \<Rightarrow> signed_election_result \<Rightarrow> bool" where
  "provenance_ok lib db r \<longleftrightarrow>
     signer_backend r \<noteq> LOCAL_RSA_BACKEND \<or>
     (case archived_key_of db r of
        None \<Rightarrow> False
      | Some k \<Rightarrow> pk_algorithm k = signature_algorithm r
          \<and> (case validate_local_public_key lib (Some (public_key_pem k)) (signing_key_id r) of
               Inl _ \<Rightarrow> False | Inr _ \<Rightarrow> True))"

fun opt_str :: "string option \<Rightarrow> json" where
  "opt_str None = JNull"
| "opt_str (Some s) = JStr s"

fun opt_int :: "int option \<Rightarrow> json" where
  "opt_int None = JNull"
| "opt_int (Some i) = JInt i"

definition get_latest_results :: "crypto_lib \<Rightarrow> database \<Rightarrow> string option \<Rightarrow> reply" where
  "get_latest_results lib db election_id =
     (case (case election_id of
              None \<Rightarrow> Some (signed_results db)
            | Some t \<Rightarrow> (case py_int 10 t of
                           None \<Rightarrow> None
                         | Some i \<Rightarrow> Some (filter (\<lambda>r. sr_election_id r = i) (signed_results db)))) of
        None \<Rightarrow> json_error 400 ''Invalid election_id.''
      | Some rows \<Rightarrow>
          (case latest_result rows of
             None \<Rightarrow> json_error 404 ''Results have not been signed yet.''
           | Some stored \<Rightarrow>
               if \<not> provenance_ok lib db stored
               then json_error 503 ''Result signing provenance is unavailable.''
               else
                 (case loads (sr_payload stored) of
                    None \<Rightarrow> Abort 500
                  | Some data \<Rightarrow>
                      Json_reply 200 (JObj [(''data'', data), (''signature'', JStr (sr_signature stored)),
                        (''signer_backend'', JStr (signer_backend stored)),
                        (''signature_algorithm'', JStr (signature_algorithm stored)),
                        (''signing_key_id'', JStr (signing_key_id stored)),
                        (''signing_key_version'', opt_int (signing_key_version stored)),
                        (''public_key_pem'', opt_str (map_option public_key_pem (archived_key_of db stored)))]))))"

definition verification_reply :: "bool \<Rightarrow> reply" where
  "verification_reply ok =
     Json_reply 200 (JObj [(''status'', JStr ''Verification complete''), (''is_valid'', JBool ok)])"

definition signed_election_id :: "(string \<times> json) list \<Rightarrow> reply + int" where
  "signed_election_id data =
     (case map_of data ''election_id'' of
        None \<Rightarrow> Inl (json_error 400 ''Signed result data has no election_id.'')
      | Some (JBool _) \<Rightarrow> Inl (json_error 400 ''Signed result data has an invalid election_id.'')
      | Some v \<Rightarrow>
          (case int_of_json v of
             Inl OverflowError \<Rightarrow> Inl (Abort 500)
           | Inl _ \<Rightarrow> Inl (json_error 400 ''Signed result data has an invalid election_id.'')
           | Inr i \<Rightarrow> Inr i))"

definition verify_election_results :: "signing_env \<Rightarrow> database \<Rightarrow> json \<Rightarrow> reply" where
  "verify_election_results env db body =
     (case (body_get body ''data'', body_get body ''signature'') of
        (Some (JObj data), Some (JStr signature)) \<Rightarrow>
          if signature = [] then json_error 400 ''Missing 'data' or 'signature' in request.''
          else
            (let text = dumps_canonical (JObj data) in
             case signed_election_id data of
               Inl r \<Rightarrow> r
             | Inr election_id \<Rightarrow>
                 (case get_signed_result db election_id of
                    None \<Rightarrow> json_error 404 ''No signed result exists for this election.''
                  | Some stored \<Rightarrow>
                      if sr_payload stored \<noteq> text \<or> sr_signature stored \<noteq> signature
                      then verification_reply False
                      else
                        (case verify_signature env (utf8_encode text) signature (signer_backend stored)
                                (signature_algorithm stored) (signing_key_id stored) (signing_key_version stored)
                                (map_option public_key_pem (archived_key_of db stored)) of
                           Inl _ \<Rightarrow> json_error 503 ''Result verification is unavailable.''
                         | Inr ok \<Rightarrow> verification_reply ok)))
      | (None, _) \<Rightarrow> Abort 500
      | _ \<Rightarrow> json_error 400 ''Missing 'data' or 'signature' in request.'')"

section \<open>The results page\<close>

record results_view =
  rv_votes :: "tally list"
  rv_total_votes :: nat
  rv_elections :: "election list"
  rv_selected :: "election option"

definition selected_election :: "timestamp \<Rightarrow> database \<Rightarrow> string option \<Rightarrow> election option" where
  "selected_election now db requested =
     (let shown = list_elections_view db in
      case (case requested of None \<Rightarrow> None | Some t \<Rightarrow> py_int 10 t) of
        Some i \<Rightarrow> get_election db i
      | None \<Rightarrow>
          (case find (\<lambda>e. el_status e = ''closed'') shown of
             Some e \<Rightarrow> Some e
           | None \<Rightarrow> find (is_open now) shown))"

definition results_page ::
  "bool \<Rightarrow> timestamp \<Rightarrow> database \<Rightarrow> string option \<Rightarrow> int + results_view" where
  "results_page available now db requested =
     (let sel = selected_election now db requested;
          page = (\<lambda>ts. Inr \<lparr>rv_votes = ts, rv_total_votes = total_votes ts,
                            rv_elections = list_elections_view db, rv_selected = sel\<rparr>) in
      case sel of
        None \<Rightarrow> page []
      | Some e \<Rightarrow>
          (case get_vote_tallies available db (JInt (el_id e)) of
             Inl _ \<Rightarrow> Inl 503
           | Inr ts \<Rightarrow> page ts))"


section \<open>The tally query counts the votes\<close>

lemma filter_unique_key:
  assumes "unique_on f xs" and "x \<in> set xs"
  shows "filter (\<lambda>y. f y = f x) xs = [x]"
  using assms
proof (induction xs)
  case (Cons a xs)
  show ?case
  proof (cases "a = x")
    case True
    with Cons.prems have "filter (\<lambda>y. f y = f x) xs = []" by (force simp: filter_empty_conv image_iff)
    with True show ?thesis by simp
  next
    case False
    with Cons.prems have "x \<in> set xs" "f a \<noteq> f x" by (auto simp: image_iff)
    with Cons show ?thesis by simp
  qed
qed simp

lemma remdups_block:
  assumes "xs \<noteq> []" and "\<And>x. x \<in> set xs \<Longrightarrow> x = k" and "k \<notin> set ys"
  shows "remdups (xs @ ys) = k # remdups ys"
  using assms
proof (induction xs)
  case (Cons x xs)
  then show ?case by (cases xs) auto
qed simp

lemma remdups_blocks:
  assumes "distinct (map k cs)" and "\<And>c. c \<in> set cs \<Longrightarrow> g c \<noteq> []"
  shows "remdups (map fst (concat (map (\<lambda>c. map (\<lambda>v. (k c, v)) (g c)) cs))) = map k cs"
  using assms
proof (induction cs)
  case (Cons c cs)
  have "k c \<notin> set (map fst (concat (map (\<lambda>c. map (\<lambda>v. (k c, v)) (g c)) cs)))"
    using Cons.prems(1) by auto
  then have "remdups (map fst (map (\<lambda>v. (k c, v)) (g c))
       @ map fst (concat (map (\<lambda>c. map (\<lambda>v. (k c, v)) (g c)) cs)))
     = k c # remdups (map fst (concat (map (\<lambda>c. map (\<lambda>v. (k c, v)) (g c)) cs)))"
    using Cons.prems(2) [of c] by (intro remdups_block) auto
  with Cons show ?case by simp
qed simp

lemma filter_blocks:
  assumes "distinct (map k cs)" and "c \<in> set cs"
  shows "length (filter (\<lambda>(k', v). k' = k c \<and> P v) (concat (map (\<lambda>c. map (\<lambda>v. (k c, v)) (g c)) cs)))
    = length (filter P (g c))"
  using assms
proof (induction cs)
  case (Cons a cs)
  let ?rest = "concat (map (\<lambda>c. map (\<lambda>v. (k c, v)) (g c)) cs)"
  show ?case
  proof (cases "a = c")
    case True
    with Cons.prems have "k c \<notin> k ` set cs" by simp
    then have "filter (\<lambda>(k', v). k' = k c \<and> P v) ?rest = []" by (auto simp: filter_empty_conv) (metis imageI)
    with True show ?thesis by (simp add: filter_map comp_def)
  next
    case False
    with Cons.prems have "c \<in> set cs" and "k a \<noteq> k c" by (auto simp: image_iff)
    with Cons show ?thesis by (simp add: filter_map comp_def)
  qed
qed simp

definition region_name :: "database \<Rightarrow> int \<Rightarrow> string" where
  "region_name db rid = (case find (\<lambda>r. g_id r = rid) (regions db) of None \<Rightarrow> [] | Some r \<Rightarrow> g_name r)"

definition votes_for :: "database \<Rightarrow> candidate \<Rightarrow> nat" where
  "votes_for db c = length (filter (\<lambda>v. v_candidate_id v = c_id c \<and> v_election_id v = c_election_id c) (votes db))"

definition tally_of :: "database \<Rightarrow> candidate \<Rightarrow> tally" where
  "tally_of db c = \<lparr>t_candidate_id = c_id c, t_name = c_name c, t_position = c_position c,
     t_region_id = c_region_id c, t_region = region_name db (c_region_id c), t_votes = votes_for db c\<rparr>"

lemma region_of_candidate:
  assumes "db_ok db" and "c \<in> set (candidates db)"
  shows "\<exists>r. filter (\<lambda>r. g_id r = c_region_id c) (regions db) = [r] \<and> region_name db (c_region_id c) = g_name r"
proof -
  have u: "unique_on g_id (regions db)" and "c_region_id c \<in> region_ids db"
    using assms by (auto simp: db_ok_def regions_ok_def candidates_ok_def refs_ok_def list_all_iff)
  then obtain r where r: "r \<in> set (regions db)" "g_id r = c_region_id c" by (auto simp: region_ids_def)
  then show ?thesis
    using filter_unique_key [OF u r(1)] find_unique_key [OF u r(1)] by (auto simp: region_name_def)
qed

lemma left_join_votes_nonempty: "left_join_votes db c \<noteq> []"
  by (simp add: left_join_votes_def split: list.splits)

lemma left_join_votes_count: "length (filter (\<lambda>v. v \<noteq> None) (left_join_votes db c)) = votes_for db c"
  by (auto simp: left_join_votes_def votes_for_def split: list.splits)

lemma joined_rows_blocks:
  assumes "db_ok db"
  shows "joined_rows db eid =
    concat (map (\<lambda>c. map (\<lambda>v. ((c_id c, c_name c, c_position c, c_region_id c, region_name db (c_region_id c)), v))
      (left_join_votes db c)) (candidates_of db eid))"
proof -
  have "concat (map (\<lambda>r. map (\<lambda>v. ((c_id c, c_name c, c_position c, c_region_id c, g_name r), v)) (left_join_votes db c))
      (filter (\<lambda>r. g_id r = c_region_id c) (regions db)))
    = map (\<lambda>v. ((c_id c, c_name c, c_position c, c_region_id c, region_name db (c_region_id c)), v)) (left_join_votes db c)"
    if "c \<in> set (candidates_of db eid)" for c
    using region_of_candidate [OF assms, of c] that by auto
  then show ?thesis unfolding joined_rows_def by (metis (no_types, lifting) map_cong)
qed

lemma grouped_rows_count:
  assumes "db_ok db"
  shows "grouped_rows db eid = map (tally_of db) (candidates_of db eid)"
proof -
  let ?k = "\<lambda>c. (c_id c, c_name c, c_position c, c_region_id c, region_name db (c_region_id c))"
  have "unique_on c_id (candidates_of db eid)"
    using assms unique_on_filter by (fastforce simp: candidates_of_def db_ok_def candidates_ok_def)
  then have d: "distinct (map ?k (candidates_of db eid))"
    by (auto simp: distinct_map inj_on_def)
  have r: "remdups (map fst (joined_rows db eid)) = map ?k (candidates_of db eid)"
    unfolding joined_rows_blocks [OF assms] by (rule remdups_blocks [OF d]) (rule left_join_votes_nonempty)
  have "length (filter (\<lambda>(k', v). k' = ?k c \<and> v \<noteq> None) (joined_rows db eid)) = votes_for db c"
    if "c \<in> set (candidates_of db eid)" for c
    unfolding joined_rows_blocks [OF assms] filter_blocks [OF d that] by (rule left_join_votes_count)
  then show ?thesis unfolding grouped_rows_def r by (auto simp: tally_of_def)
qed

lemma mset_insert_tally: "mset (insert_tally t ts) = add_mset t (mset ts)"
  by (induction ts) auto

lemma mset_order_tallies [simp]: "mset (order_tallies ts) = mset ts"
  by (induction ts) (auto simp: order_tallies_def mset_insert_tally)

lemma tally_before_total: "\<not> tally_before a b \<Longrightarrow> tally_before b a"
  by (auto simp: tally_before_def)

lemma tally_before_trans: "tally_before a b \<Longrightarrow> tally_before b c \<Longrightarrow> tally_before a c"
  by (auto simp: tally_before_def)

lemma set_insert_tally [simp]: "set (insert_tally t ts) = insert t (set ts)"
  by (induction ts) auto

lemma sorted_insert_tally: "sorted_wrt tally_before ts \<Longrightarrow> sorted_wrt tally_before (insert_tally t ts)"
  by (induction ts) (auto intro: tally_before_total tally_before_trans)

lemma sorted_order_tallies: "sorted_wrt tally_before (order_tallies ts)"
  by (induction ts) (auto simp: order_tallies_def sorted_insert_tally)

lemma total_votes_mset: "mset ts = mset us \<Longrightarrow> total_votes ts = total_votes us"
  unfolding total_votes_def by (metis mset_map sum_mset_sum_list)

lemma sum_counts:
  assumes "unique_on k cs"
  shows "sum_list (map (\<lambda>c. length (filter (\<lambda>v. f v = k c) vs)) cs)
    = length (filter (\<lambda>v. f v \<in> k ` set cs) vs)"
  using assms
proof (induction cs)
  case (Cons c cs)
  have "length (filter (\<lambda>v. f v \<in> k ` set (c # cs)) vs)
      = length (filter (\<lambda>v. f v = k c) vs) + length (filter (\<lambda>v. f v \<in> k ` set cs) vs)"
    using Cons.prems by (induction vs) auto
  with Cons show ?case by simp
qed simp

lemma total_of_tallies:
  assumes "db_ok db"
  shows "total_votes (map (tally_of db) (candidates_of db eid)) = length (filter (\<lambda>v. v_election_id v = eid) (votes db))"
proof -
  let ?k = "\<lambda>c. (c_id c, c_election_id c)" and ?f = "\<lambda>v. (v_candidate_id v, v_election_id v)"
  have "unique_on ?k (candidates_of db eid)"
    using assms unique_on_filter [of ?k "candidates db"] by (simp add: candidates_of_def db_ok_def candidates_ok_def)
  then have "total_votes (map (tally_of db) (candidates_of db eid))
      = length (filter (\<lambda>v. ?f v \<in> ?k ` set (candidates_of db eid)) (votes db))"
    using sum_counts [of ?k "candidates_of db eid" ?f "votes db"]
    by (simp add: total_votes_def tally_of_def votes_for_def comp_def)
  also have "filter (\<lambda>v. ?f v \<in> ?k ` set (candidates_of db eid)) (votes db)
      = filter (\<lambda>v. v_election_id v = eid) (votes db)"
  proof (rule filter_cong [OF refl])
    fix v assume "v \<in> set (votes db)"
    then have "?f v \<in> ?k ` set (candidates db)"
      using assms by (auto simp: db_ok_def votes_ok_def refs_ok_def list_all_iff)
    then show "?f v \<in> ?k ` set (candidates_of db eid) \<longleftrightarrow> v_election_id v = eid" by auto
  qed
  finally show ?thesis .
qed

lemma get_vote_tallies_eq:
  assumes "db_ok db"
  shows "get_vote_tallies True db (JInt eid) = Inr (order_tallies (map (tally_of db) (candidates_of db eid)))"
  by (simp add: get_vote_tallies_def grouped_rows_count [OF assms])

text \<open>
  C23: the published tallies. The query of \<open>get_vote_tallies\<close> returns exactly one row for every
  candidate of the election, with the number of that candidate's votes; the votes of the rows add
  up to the number of ballots recorded for the election; and rows come with most votes first,
  then by name, then by id.
\<close>

theorem tallies_count_votes:
  assumes "db_ok db"
  shows "\<exists>ts. get_vote_tallies True db (JInt eid) = Inr ts
    \<and> mset ts = mset (map (tally_of db) (candidates_of db eid))
    \<and> total_votes ts = length (filter (\<lambda>v. v_election_id v = eid) (votes db))
    \<and> sorted_wrt tally_before ts"
  using get_vote_tallies_eq [OF assms] sorted_order_tallies total_votes_mset [OF mset_order_tallies]
    total_of_tallies [OF assms] mset_order_tallies by metis

definition demo_cast :: "int \<Rightarrow> int \<Rightarrow> vote" where
  "demo_cast i c = \<lparr>v_id = i, voter_token = show_int i, v_candidate_id = c, v_election_id = 1,
     v_position = ''Mayor'', vote_hash = None, v_created_at = i\<rparr>"

definition demo_spent :: "int \<Rightarrow> spent_ballot_nullifier" where
  "demo_spent i = \<lparr>sn_id = i, sn_election_id = 1, nullifier_hash = show_int i, spent_at = i\<rparr>"

definition demo_closed_db :: database where
  "demo_closed_db = demo_db\<lparr>elections := [demo_election\<lparr>el_status := ''closed'', close_at := Some 9\<rparr>],
     votes := [demo_cast 1 2, demo_cast 2 1, demo_cast 3 2], nullifiers := [demo_spent 1, demo_spent 2, demo_spent 3]\<rparr>"

lemma demo_closed_db_ok: "db_ok demo_closed_db"
proof -
  have "unique_on voter_token (votes demo_closed_db)" by (simp add: demo_closed_db_def demo_cast_def)
  then show ?thesis
    by (simp add: db_ok_def constraint_defs demo_closed_db_def demo_defs demo_cast_def demo_spent_def map_filter_simps)
qed

theorem tallies_count_votes_witness:
  "\<exists>ts. get_vote_tallies True demo_closed_db (JInt 1) = Inr ts
    \<and> mset ts = mset (map (tally_of demo_closed_db) [demo_candidate 1 ''Ann'', demo_candidate 2 ''Bob''])
    \<and> total_votes ts = 3 \<and> map t_name ts = [''Bob'', ''Ann'']"
proof -
  have "candidates_of demo_closed_db 1 = [demo_candidate 1 ''Ann'', demo_candidate 2 ''Bob'']"
    and "length (filter (\<lambda>v. v_election_id v = 1) (votes demo_closed_db)) = 3"
    and "votes_for demo_closed_db (demo_candidate 1 ''Ann'') = 1" "votes_for demo_closed_db (demo_candidate 2 ''Bob'') = 2"
    by (simp_all add: demo_closed_db_def demo_db_def candidates_of_def demo_candidate_def demo_cast_def votes_for_def)
  moreover from this have "map t_name (order_tallies (map (tally_of demo_closed_db) (candidates_of demo_closed_db 1)))
      = [''Bob'', ''Ann'']"
    by (simp add: order_tallies_def tally_of_def tally_before_def, simp add: demo_candidate_def)
  moreover note get_vote_tallies_eq [OF demo_closed_db_ok, of 1]
  ultimately show ?thesis using tallies_count_votes [OF demo_closed_db_ok, of 1] by auto
qed

section \<open>What signing stores\<close>

interpretation signed_once: constrained_table db_ok signed_results sr_election_id sr_election_id insert_result
  by unfold_locales (auto simp: insert_result_def commit_Some_iff db_ok_def signed_results_ok_def)

interpretation archived_once: constrained_table db_ok result_keys pk_key_id pk_key_id insert_result_key
  by unfold_locales (auto simp: insert_result_key_def commit_Some_iff db_ok_def result_keys_ok_def)

lemma archive_local_key_SomeD:
  assumes "archive_local_key k db = Some db'" and "db_ok db"
  shows "\<exists>ks. db' = db\<lparr>result_keys := result_keys db @ ks\<rparr>
    \<and> (\<exists>a. get_result_key db' (pk_key_id k) = Some a \<and> same_archived_key a k) \<and> db_ok db'"
proof (cases "get_result_key db (pk_key_id k)")
  case (Some a)
  with assms have "db' = db\<lparr>result_keys := result_keys db @ []\<rparr>" "same_archived_key a k"
    by (simp_all add: archive_local_key_def split: if_splits)
  with Some assms(2) show ?thesis by (metis append_Nil2 database.surjective database.update_convs(11))
next
  case None
  let ?db1 = "db\<lparr>result_keys := result_keys db @ [k]\<rparr>"
  have fresh: "pk_key_id k \<notin> pk_key_id ` set (result_keys db)"
    using None by (auto simp: get_result_key_def find_None_iff)
  have ok: "db_ok ?db1" using assms(2) fresh by (auto simp: db_ok_def constraint_defs)
  with None assms(1) have "db' = ?db1" by (simp add: archive_local_key_def insert_result_key_def commit_def)
  moreover have "get_result_key ?db1 (pk_key_id k) = Some k"
  proof -
    have "find (\<lambda>x. pk_key_id x = pk_key_id k) (result_keys db @ [k]) = Some k"
      using ok by (intro find_by_unique [of pk_key_id]) (auto simp: db_ok_def result_keys_ok_def)
    then show ?thesis by (simp add: get_result_key_def)
  qed
  ultimately show ?thesis using ok by (auto simp: same_archived_key_def)
qed


lemma archive_signer_InrD:
  assumes "archive_signer lib sig db = Inr db1" and "db_ok db"
  shows "\<exists>ks. db1 = db\<lparr>result_keys := result_keys db @ ks\<rparr> \<and> db_ok db1"
    and "sg_backend sig = LOCAL_RSA_BACKEND \<Longrightarrow> \<exists>a pem. sg_public_key_pem sig = Some pem
       \<and> get_result_key db1 (sg_key_id sig) = Some a \<and> pk_algorithm a = sg_algorithm sig \<and> public_key_pem a = pem"
proof -
  let ?k = "\<lparr>pk_key_id = sg_key_id sig, pk_algorithm = sg_algorithm sig, public_key_pem = the (sg_public_key_pem sig)\<rparr>"
  have same: "db\<lparr>result_keys := result_keys db @ []\<rparr> = db" by simp
  show "\<exists>ks. db1 = db\<lparr>result_keys := result_keys db @ ks\<rparr> \<and> db_ok db1"
  proof (cases "sg_backend sig = LOCAL_RSA_BACKEND")
    case True
    with assms(1) have "archive_local_key ?k db = Some db1"
      by (auto simp: archive_signer_def split: sum.splits option.splits)
    from archive_local_key_SomeD [OF this assms(2)] show ?thesis by blast
  next
    case False
    with assms have "db1 = db" by (simp add: archive_signer_def)
    with assms(2) show ?thesis using same by metis
  qed
  assume local: "sg_backend sig = LOCAL_RSA_BACKEND"
  with assms(1) have arch: "archive_local_key ?k db = Some db1"
    and "sg_public_key_pem sig \<noteq> None"
    by (auto simp: archive_signer_def validate_local_public_key_def split: sum.splits option.splits)
  with archive_local_key_SomeD [OF arch assms(2)]
  show "\<exists>a pem. sg_public_key_pem sig = Some pem
       \<and> get_result_key db1 (sg_key_id sig) = Some a \<and> pk_algorithm a = sg_algorithm sig \<and> public_key_pem a = pem"
    by (auto simp: same_archived_key_def)
qed

lemma archive_signer_Inl [simp]: "archive_signer lib sig db \<noteq> Inl (Json_reply 200 j)"
  by (simp add: archive_signer_def json_error_def split: sum.splits option.splits)

lemma sign_success:
  assumes "sign_election_results env cu body form (sn, st) = (Json_reply 200 j, sn', st')" and "db_ok (a_db st)"
  obtains u e ts sig db1 payload where "cu = Some u" and "is_manager (a_db st) u"
    and "get_election (a_db st) (el_id e) = Some e" and "el_status e = ''closed''"
    and "get_signed_result (a_db st) (el_id e) = None"
    and "ts = order_tallies (map (tally_of (a_db st)) (candidates_of (a_db st) (el_id e)))"
    and "payload = dumps_canonical (election_results e (e_now (re_app env)) ts)"
    and "sign_data (re_signing env) sn (utf8_encode payload) = (Inr sig, sn')"
    and "archive_signer (se_lib (re_signing env)) sig (a_db st) = Inr db1"
    and "a_db st' = db1\<lparr>signed_results := signed_results db1 @ [result_row db1 e u payload sig (e_now (re_app env))]\<rparr>"
    and "db_ok (a_db st')" and "a_keys st' = a_keys st"
proof -
  let ?s = "(sn, st)"
  obtain u e where u: "cu = Some u" "is_manager (a_db st) u" "get_election (a_db st) (el_id e) = Some e"
    "el_status e = ''closed''" and run: "sign_results_of env u e ?s = (Json_reply 200 j, sn', st')"
    using assms(1) get_election_SomeD
    by (fastforce simp: sign_election_results_def login_required_def Let_def json_error_def
        split: option.splits if_splits sum.splits py_exc.splits)
  have avail: "re_tallies_available env"
    and none: "get_signed_result (a_db st) (el_id e) = None"
    using run by (auto simp: sign_results_of_def json_error_def Let_def get_vote_tallies_def split: if_splits)
  let ?ts = "order_tallies (map (tally_of (a_db st)) (candidates_of (a_db st) (el_id e)))"
  let ?p = "dumps_canonical (election_results e (e_now (re_app env)) ?ts)"
  have "get_vote_tallies (re_tallies_available env) (a_db st) (JInt (el_id e)) = Inr ?ts"
    using avail get_vote_tallies_eq [OF assms(2)] by simp
  then obtain sig db1 where sig: "sign_data (re_signing env) sn (utf8_encode ?p) = (Inr sig, sn')"
    and arch: "archive_signer (se_lib (re_signing env)) sig (a_db st) = Inr db1"
    and ins: "insert_result (result_row db1 e u ?p sig (e_now (re_app env))) db1 = Some (a_db st')"
    and "a_keys st' = a_keys st"
    using run none
    by (auto simp: sign_results_of_def json_error_def Let_def
        split: sum.splits option.splits prod.splits signing_exc.splits)
  with u none that show thesis by (auto simp: insert_result_def commit_Some_iff)
qed


lemma result_row_simps [simp]:
  "sr_election_id (result_row db e u p sig at) = el_id e" "sr_payload (result_row db e u p sig at) = p"
  "sr_signature (result_row db e u p sig at) = sg_signature sig"
  "signer_backend (result_row db e u p sig at) = sg_backend sig"
  "signature_algorithm (result_row db e u p sig at) = sg_algorithm sig"
  "signing_key_id (result_row db e u p sig at) = sg_key_id sig"
  "signing_key_version (result_row db e u p sig at) = sg_key_version sig"
  "signed_at (result_row db e u p sig at) = at"
  by (simp_all add: result_row_def)

lemma json_ok_election_results: "json_ok (election_results e at ts)"
  by (simp add: election_results_def tally_json_def list_all_iff)

lemma sort_key_single:
  assumes "distinct (map fst kvs)" and "(k, v) \<in> set kvs"
  shows "map_of kvs k = Some v"
  using assms by (simp add: map_of_is_SomeI)

lemma election_results_id:
  assumes "sort_json (JObj d) = sort_json (election_results e at ts)"
  shows "map_of d ''election_id'' = Some (JInt (el_id e))"
proof -
  let ?f = "map (\<lambda>(k, v). (k, sort_json v))"
  obtain r where r: "election_results e at ts = JObj r" "(''election_id'', JInt (el_id e)) \<in> set r" "distinct (map fst r)"
    by (simp add: election_results_def)
  then have "sort_key fst (?f d) = sort_key fst (?f r)" using assms by simp
  then have m: "mset (?f d) = mset (?f r)" by (metis mset_sort)
  have fst_f: "map fst (?f l) = map fst l" for l :: "(string \<times> json) list" by (induction l) auto
  have "mset (map fst d) = mset (map fst r)" using arg_cong [OF m, of "image_mset fst"] fst_f by (metis mset_map)
  then have dd: "distinct (map fst d)" using r(3) mset_eq_imp_distinct_iff by blast
  have "(''election_id'', sort_json (JInt (el_id e))) \<in> set (?f r)" using r(2) by force
  then have "(''election_id'', JInt (el_id e)) \<in> set (?f d)" using mset_eq_setD [OF m] by simp
  then obtain v where v: "(''election_id'', v) \<in> set d" "sort_json v = JInt (el_id e)" by auto
  then have "v = JInt (el_id e)" by (cases v) simp_all
  with v dd show ?thesis by simp
qed

lemma sg_signature_nonempty:
  assumes "sign_data env sn data = (Inr sig, sn')" and "pss_lib_ok (se_pss env)"
  shows "sg_signature sig \<noteq> []"
  using assms(1)
proof (cases rule: sign_data_cases)
  case (vault v)
  then show ?thesis
    by (auto simp: transit_signature_version_def match_transit_signature_def startswith_def split: option.splits)
next
  case (local k s pem)
  with assms(2) have "s \<noteq> []" by (auto simp: pss_lib_ok_def)
  with local show ?thesis using length_hex_of_bytes [of s] by (cases "hex_of_bytes s") auto
qed

lemma archived_key_matches:
  assumes "sign_data env sn data = (Inr sig, sn')" and "archive_signer (se_lib env) sig db = Inr db1"
    and "db_ok db" and "result_keys db' = result_keys db1" and "pem_ok (se_lib env)"
  shows "map_option public_key_pem (archived_key_of db' (result_row db1 e u p sig at)) = sg_public_key_pem sig"
    and "provenance_ok (se_lib env) db' (result_row db1 e u p sig at)"
proof -
  let ?row = "result_row db1 e u p sig at"
  have "map_option public_key_pem (archived_key_of db' ?row) = sg_public_key_pem sig
      \<and> provenance_ok (se_lib env) db' ?row"
    using assms(1)
  proof (cases rule: sign_data_cases)
    case (vault v)
    then show ?thesis
      by (simp add: archived_key_of_def provenance_ok_def VAULT_TRANSIT_BACKEND_def LOCAL_RSA_BACKEND_def)
  next
    case (local k s pem)
    obtain a where a: "get_result_key db1 (sg_key_id sig) = Some a" "pk_algorithm a = sg_algorithm sig" "public_key_pem a = pem"
      using archive_signer_InrD(2) [OF assms(2,3)] local by auto
    moreover have "archived_key_of db' ?row = get_result_key db1 (sg_key_id sig)"
      using local assms(4) by (simp add: archived_key_of_def get_result_key_def)
    ultimately show ?thesis
      using local validate_local_public_key_own [OF assms(5) local(5)] by (simp add: provenance_ok_def)
  qed
  then show "map_option public_key_pem (archived_key_of db' ?row) = sg_public_key_pem sig"
    and "provenance_ok (se_lib env) db' ?row" by blast+
qed

lemma get_signed_result_eq:
  assumes "filter (\<lambda>r. sr_election_id r = i) (signed_results db) = [row]"
  shows "get_signed_result db i = Some row"
  using assms unfolding get_signed_result_def
proof (induction "signed_results db" arbitrary: db)
  case (Cons a xs)
  show ?case
  proof (cases "sr_election_id a = i")
    case True
    with Cons.prems Cons.hyps(2) [symmetric] show ?thesis by simp
  next
    case False
    with Cons.hyps(1) [of "db\<lparr>signed_results := xs\<rparr>"] Cons.prems Cons.hyps(2) [symmetric] show ?thesis by simp
  qed
qed simp

text \<open>
  C24: what is published verifies. After a manager signed the results of a closed election, the
  public endpoint for that election returns the tallies with the total number of its recorded
  ballots, and submitting that data, with its keys in any order, together with the returned
  signature to the verification endpoint answers that it is valid. Verification may run in another
  process and after the signing keys on disk changed.
\<close>

theorem published_results_verify:
  assumes "sign_election_results env cu body form (sn, st) = (Json_reply 200 j, sn', st')" and "db_ok (a_db st)"
    and "pem_ok (se_lib (re_signing env))" and "pss_lib_ok (se_pss (re_signing env))"
    and "vault_accepts_own (se_server (re_signing env))" and "same_backend (re_signing env) env'"
  shows "\<exists>e ts sig rest. el_status e = ''closed'' \<and> get_election (a_db st) (el_id e) = Some e
    \<and> mset ts = mset (map (tally_of (a_db st)) (candidates_of (a_db st) (el_id e)))
    \<and> total_votes ts = length (filter (\<lambda>v. v_election_id v = el_id e) (votes (a_db st)))
    \<and> get_latest_results (se_lib (re_signing env)) (a_db st') (Some (show_int (el_id e))) =
        Json_reply 200 (JObj ((''data'', sort_json (election_results e (e_now (re_app env)) ts))
          # (''signature'', JStr sig) # rest))
    \<and> (\<forall>d. sort_json (JObj d) = sort_json (election_results e (e_now (re_app env)) ts) \<longrightarrow>
        verify_election_results env' (a_db st') (JObj [(''data'', JObj d), (''signature'', JStr sig)])
          = verification_reply True)"
proof -
  obtain u e ts sig db1 p where s: "cu = Some u" "get_election (a_db st) (el_id e) = Some e" "el_status e = ''closed''"
    "get_signed_result (a_db st) (el_id e) = None"
    "ts = order_tallies (map (tally_of (a_db st)) (candidates_of (a_db st) (el_id e)))"
    "p = dumps_canonical (election_results e (e_now (re_app env)) ts)"
    "sign_data (re_signing env) sn (utf8_encode p) = (Inr sig, sn')"
    "archive_signer (se_lib (re_signing env)) sig (a_db st) = Inr db1"
    "a_db st' = db1\<lparr>signed_results := signed_results db1 @ [result_row db1 e u p sig (e_now (re_app env))]\<rparr>"
    "db_ok (a_db st')"
    using sign_success [OF assms(1,2)] by metis
  let ?row = "result_row db1 e u p sig (e_now (re_app env))" and ?lib = "se_lib (re_signing env)"
  obtain ks where db1: "db1 = (a_db st)\<lparr>result_keys := result_keys (a_db st) @ ks\<rparr>"
    using archive_signer_InrD(1) [OF s(8) assms(2)] by blast
  have sr1: "signed_results db1 = signed_results (a_db st)" using db1 by simp
  have only: "filter (\<lambda>r. sr_election_id r = el_id e) (signed_results (a_db st')) = [?row]"
    using s(4,9) sr1 by (auto simp: get_signed_result_def find_None_iff filter_empty_conv)
  have stored: "get_signed_result (a_db st') (el_id e) = Some ?row" by (rule get_signed_result_eq [OF only])
  have keys: "result_keys (a_db st') = result_keys db1" using s(9) by simp
  note arch = archived_key_matches [OF s(7,8) assms(2) keys assms(3), of e u p "e_now (re_app env)"]
  have sv: "verify_signature env' (utf8_encode p) (sg_signature sig) (sg_backend sig) (sg_algorithm sig) (sg_key_id sig)
      (sg_key_version sig) (sg_public_key_pem sig) = Inr True"
    by (rule signed_data_verifies [OF assms(3-5) s(7) assms(6)])
  have "total_votes ts = length (filter (\<lambda>v. v_election_id v = el_id e) (votes (a_db st)))"
    using total_votes_mset [OF mset_order_tallies] total_of_tallies [OF assms(2)] s(5) by simp
  moreover have "verify_election_results env' (a_db st') (JObj [(''data'', JObj d), (''signature'', JStr (sg_signature sig))])
          = verification_reply True"
    if "sort_json (JObj d) = sort_json (election_results e (e_now (re_app env)) ts)" for d
  proof -
    have "dumps_canonical (JObj d) = p" using that s(6) by (simp add: dumps_canonical_def del: sort_json.simps)
    then show ?thesis
      using election_results_id [OF that] sg_signature_nonempty [OF s(7) assms(4)] stored arch(1) sv
      by (simp add: verify_election_results_def body_get_def signed_election_id_def)
  qed
  moreover have "mset ts = mset (map (tally_of (a_db st)) (candidates_of (a_db st) (el_id e)))" using s(5) by simp
  moreover have "\<exists>rest. get_latest_results ?lib (a_db st') (Some (show_int (el_id e))) =
        Json_reply 200 (JObj ((''data'', sort_json (election_results e (e_now (re_app env)) ts))
          # (''signature'', JStr (sg_signature sig)) # rest))"
    using only arch(2) s(6) by (simp add: get_latest_results_def loads_dumps_canonical json_ok_election_results)
  ultimately show ?thesis using s(2,3) by blast
qed


definition demo_results_env :: results_env where
  "demo_results_env = \<lparr>re_app = demo_vote_env, re_signing = demo_signing_env, re_tallies_available = True\<rparr>"

definition demo_closed_state :: app_state where
  "demo_closed_state = demo_vote_state\<lparr>a_db := demo_closed_db\<rparr>"

abbreviation demo_sign_body :: json where
  "demo_sign_body \<equiv> JObj [(''election_id'', JInt 1)]"

lemma demo_archive:
  "archive_signer toy_lib \<lparr>sg_signature = s, sg_backend = LOCAL_RSA_BACKEND, sg_algorithm = RSA_PSS_SHA256,
      sg_key_id = public_key_fingerprint toy_lib (priv_public toy_key), sg_key_version = None,
      sg_public_key_pem = Some ''[33, 3]''\<rparr> demo_closed_db
   = Inr (demo_closed_db\<lparr>result_keys := [\<lparr>pk_key_id = public_key_fingerprint toy_lib (priv_public toy_key),
        pk_algorithm = RSA_PSS_SHA256, public_key_pem = ''[33, 3]''\<rparr>]\<rparr>)"
proof -
  have none: "result_keys demo_closed_db = []" by (simp add: demo_closed_db_def demo_db_def)
  have ok: "db_ok (demo_closed_db\<lparr>result_keys := [k]\<rparr>)" for k
    using demo_closed_db_ok by (simp add: db_ok_def constraint_defs)
  show ?thesis
    using validate_local_public_key_own [OF toy_pem_ok toy_pem_text]
    by (simp add: archive_signer_def archive_local_key_def get_result_key_def none insert_result_key_def commit_ok [OF ok])
qed

lemma demo_signs:
  "\<exists>j sn' st'. sign_election_results demo_results_env (Some demo_manager) demo_sign_body None
     (no_signer, demo_closed_state) = (Json_reply 200 j, sn', st')"
proof -
  let ?e = "demo_election\<lparr>el_status := ''closed'', close_at := Some 9\<rparr>"
  have e: "get_election demo_closed_db 1 = Some ?e" "is_manager demo_closed_db demo_manager" "el_id ?e = 1"
    "el_status ?e = ''closed''"
    "signed_results demo_closed_db = []" "u_id demo_manager = 8"
    by (simp_all add: get_election_def demo_closed_db_def demo_db_def demo_election_def is_manager_def has_role_def
        role_of_def demo_manager_def demo_user_def)
  have env: "re_signing demo_results_env = demo_signing_env" "se_lib demo_signing_env = toy_lib"
    "re_tallies_available demo_results_env" "a_db demo_closed_state = demo_closed_db"
    by (simp_all add: demo_results_env_def demo_signing_env_def demo_closed_state_def)
  let ?db1 = "demo_closed_db\<lparr>result_keys := [\<lparr>pk_key_id = public_key_fingerprint toy_lib (priv_public toy_key),
        pk_algorithm = RSA_PSS_SHA256, public_key_pem = ''[33, 3]''\<rparr>]\<rparr>"
  have ins: "insert_result (result_row ?db1 ?e demo_manager p sig at) ?db1 \<noteq> None" for p sig at
  proof -
    have "1 \<in> election_ids demo_closed_db" "8 \<in> user_ids demo_closed_db"
      by (simp_all add: demo_closed_db_def demo_db_def demo_election_def election_ids_def user_ids_def demo_manager_def)
    then have "db_ok (?db1\<lparr>signed_results := signed_results ?db1 @ [result_row ?db1 ?e demo_manager p sig at]\<rparr>)"
      using demo_closed_db_ok e by (simp add: db_ok_def constraint_defs result_row_def)
    then show ?thesis by (simp add: insert_result_def commit_def)
  qed
  show ?thesis
    using e env get_vote_tallies_eq [OF demo_closed_db_ok, of 1]
    by (auto simp: ins sign_election_results_def login_required_def body_get_def sign_results_of_def get_signed_result_def
        demo_sign_data demo_archive Let_def split: option.splits)
qed

theorem published_results_verify_witness:
  "\<exists>j sn' st' e ts sig rest. sign_election_results demo_results_env (Some demo_manager) demo_sign_body None
     (no_signer, demo_closed_state) = (Json_reply 200 j, sn', st')
    \<and> total_votes ts = length (filter (\<lambda>v. v_election_id v = el_id e) (votes demo_closed_db))
    \<and> get_latest_results toy_lib (a_db st') (Some (show_int (el_id e))) =
        Json_reply 200 (JObj ((''data'', sort_json (election_results e 5 ts)) # (''signature'', JStr sig) # rest))"
proof -
  obtain j sn' st' where run: "sign_election_results demo_results_env (Some demo_manager) demo_sign_body None
     (no_signer, demo_closed_state) = (Json_reply 200 j, sn', st')" using demo_signs by blast
  have env: "re_signing demo_results_env = demo_signing_env" "se_lib demo_signing_env = toy_lib"
    "se_pss demo_signing_env = demo_pss" "se_server demo_signing_env = empty_server"
    "a_db demo_closed_state = demo_closed_db" "e_now (re_app demo_results_env) = 5"
    by (simp_all add: demo_results_env_def demo_signing_env_def demo_closed_state_def demo_vote_env_def)
  have "same_backend demo_signing_env demo_signing_env" by (simp add: same_backend_def)
  from published_results_verify [OF run, unfolded env, OF demo_closed_db_ok toy_pem_ok demo_pss_ok empty_server_ok this]
  show ?thesis using run by blast
qed

section \<open>One immutable record per election\<close>

lemma sign_results_of_failed:
  assumes "sign_results_of env u e (sn, st) = (r, sn', st')" and "\<And>j. r \<noteq> Json_reply 200 j"
  shows "st' = st"
  using assms
  by (auto simp: sign_results_of_def Let_def split: if_splits sum.splits prod.splits option.splits
      results_exc.splits signing_exc.splits)

lemma sign_failed:
  assumes "sign_election_results env cu body form (sn, st) = (r, sn', st')" and "\<And>j. r \<noteq> Json_reply 200 j"
  shows "st' = st"
  using assms sign_results_of_failed [OF _ assms(2)]
  by (auto simp: sign_election_results_def login_required_def Let_def
      split: if_splits sum.splits option.splits py_exc.splits)

text \<open>
  A result is signed once and then kept. A signing request changes the database only by
  appending at most one signed result and possibly the public key it was made with, only when a
  manager sent it, and only for an election that is closed and has no signed result yet; stored
  results and archived keys stay as they are.
\<close>

theorem results_signed_once:
  assumes "sign_election_results env cu body form (sn, st) = (r, sn', st')" and "db_ok (a_db st)"
  shows "\<exists>rows ks. a_db st' = (a_db st)\<lparr>signed_results := signed_results (a_db st) @ rows,
        result_keys := result_keys (a_db st) @ ks\<rparr> \<and> length rows \<le> 1 \<and> db_ok (a_db st')
    \<and> (\<forall>row \<in> set rows. (\<exists>u. cu = Some u \<and> is_manager (a_db st) u)
        \<and> get_signed_result (a_db st) (sr_election_id row) = None
        \<and> (\<exists>e. get_election (a_db st) (sr_election_id row) = Some e \<and> el_status e = ''closed''))"
proof (cases "\<exists>j. r = Json_reply 200 j")
  case True
  then obtain j where r: "r = Json_reply 200 j" ..
  obtain u e sig db1 p where s: "cu = Some u" "is_manager (a_db st) u" "get_election (a_db st) (el_id e) = Some e"
    "el_status e = ''closed''" "get_signed_result (a_db st) (el_id e) = None"
    "archive_signer (se_lib (re_signing env)) sig (a_db st) = Inr db1"
    "a_db st' = db1\<lparr>signed_results := signed_results db1 @ [result_row db1 e u p sig (e_now (re_app env))]\<rparr>"
    "db_ok (a_db st')"
    using sign_success [OF assms(1) [unfolded r] assms(2)] by metis
  obtain ks where "db1 = (a_db st)\<lparr>result_keys := result_keys (a_db st) @ ks\<rparr>"
    using archive_signer_InrD(1) [OF s(6) assms(2)] by blast
  then show ?thesis
    using s by (intro exI [of _ "[result_row db1 e u p sig (e_now (re_app env))]"] exI [of _ ks]) simp
next
  case False
  with assms(1) have "st' = st" using sign_failed by blast
  with assms(2) show ?thesis by (intro exI [of _ "[]"]) simp
qed

theorem results_signed_once_witness:
  "\<exists>j sn' st'. sign_election_results demo_results_env (Some demo_manager) demo_sign_body None
     (no_signer, demo_closed_state) = (Json_reply 200 j, sn', st') \<and> db_ok (a_db st')"
proof -
  obtain j sn' st' where run: "sign_election_results demo_results_env (Some demo_manager) demo_sign_body None
     (no_signer, demo_closed_state) = (Json_reply 200 j, sn', st')" using demo_signs by blast
  have "db_ok (a_db demo_closed_state)" by (simp add: demo_closed_state_def demo_closed_db_ok)
  from results_signed_once [OF run this] run show ?thesis by blast
qed

section \<open>Only the official record is valid\<close>



end
