(* ===== verification/Ideal_Election.thy ===== *)
theory Ideal_Election
  imports Prelude "HOL-Library.Multiset"
begin

text \<open>
  What the platform promises, without databases, keys or requests: elections that are drafted, then
  polled, then finished; voters who are authorized once per election; ballots that are cast while
  the election is polled, each against a fresh nullifier and not tied to an authorization; and for
  a finished election one published count per candidate, taken from the ballots cast. Theory
  \<open>Voting_System\<close> shows that the composed routes implement this system.
\<close>

datatype phase = Drafted | Polling | Finished

record ideal =
  i_phase :: "int \<Rightarrow> phase option"
  i_authorized :: "(int \<times> int) set"
  i_spent :: "(int \<times> string) set"
  i_ballots :: "(int \<times> int) multiset"
  i_published :: "int \<Rightarrow> (int \<Rightarrow> nat) option"

definition ideal_init :: "ideal \<Rightarrow> bool" where
  "ideal_init x \<longleftrightarrow> x = \<lparr>i_phase = (\<lambda>_. None), i_authorized = {}, i_spent = {}, i_ballots = {#}, i_published = (\<lambda>_. None)\<rparr>"

inductive ideal_step :: "ideal \<Rightarrow> ideal \<Rightarrow> bool" where
  announce: "i_phase x i = None \<Longrightarrow> ideal_step x (x\<lparr>i_phase := (i_phase x)(i \<mapsto> Drafted)\<rparr>)"
| begin_polling: "i_phase x i = Some Drafted \<Longrightarrow> \<forall>j. i_phase x j \<noteq> Some Polling \<Longrightarrow>
    ideal_step x (x\<lparr>i_phase := (i_phase x)(i \<mapsto> Polling)\<rparr>)"
| finish: "i_phase x i = Some Polling \<Longrightarrow> ideal_step x (x\<lparr>i_phase := (i_phase x)(i \<mapsto> Finished)\<rparr>)"
| authorize: "i_phase x i = Some Polling \<Longrightarrow> (u, i) \<notin> i_authorized x \<Longrightarrow>
    ideal_step x (x\<lparr>i_authorized := insert (u, i) (i_authorized x)\<rparr>)"
| cast: "i_phase x i = Some Polling \<Longrightarrow> (i, h) \<notin> i_spent x \<Longrightarrow>
    ideal_step x (x\<lparr>i_spent := insert (i, h) (i_spent x), i_ballots := add_mset (i, c) (i_ballots x)\<rparr>)"
| publish: "i_phase x i = Some Finished \<Longrightarrow> i_published x i = None \<Longrightarrow>
    ideal_step x (x\<lparr>i_published := (i_published x)(i \<mapsto> (\<lambda>c. count (i_ballots x) (i, c)))\<rparr>)"

interpretation ideal: transition_system ideal_init ideal_step .

text \<open>
  In the ideal election at most one election is polled, ballots and nullifiers pair up, and a
  published count is the count of the ballots, forever.
\<close>

definition ideal_inv :: "ideal \<Rightarrow> bool" where
  "ideal_inv x \<longleftrightarrow> (\<forall>i j. i_phase x i = Some Polling \<longrightarrow> i_phase x j = Some Polling \<longrightarrow> i = j)
     \<and> finite (i_spent x) \<and> card (i_spent x) = size (i_ballots x)
     \<and> (\<forall>i p. i_published x i = Some p \<longrightarrow> i_phase x i = Some Finished \<and> p = (\<lambda>c. count (i_ballots x) (i, c)))"

lemma one_polling_step:
  assumes "ideal_step x y" and "\<forall>i j. i_phase x i = Some Polling \<longrightarrow> i_phase x j = Some Polling \<longrightarrow> i = j"
  shows "\<forall>i j. i_phase y i = Some Polling \<longrightarrow> i_phase y j = Some Polling \<longrightarrow> i = j"
  using assms by (cases rule: ideal_step.cases) (simp_all split: if_splits)

lemma spent_step:
  assumes "ideal_step x y" and "finite (i_spent x) \<and> card (i_spent x) = size (i_ballots x)"
  shows "finite (i_spent y) \<and> card (i_spent y) = size (i_ballots y)"
  using assms by (cases rule: ideal_step.cases) simp_all

definition published_final :: "ideal \<Rightarrow> bool" where
  "published_final x \<longleftrightarrow> (\<forall>i p. i_published x i = Some p \<longrightarrow>
     i_phase x i = Some Finished \<and> p = (\<lambda>c. count (i_ballots x) (i, c)))"

lemma unpublished: "published_final x \<Longrightarrow> i_phase x i \<noteq> Some Finished \<Longrightarrow> i_published x i = None"
  by (cases "i_published x i") (auto simp: published_final_def)

lemma published_step:
  assumes "ideal_step x y" and "published_final x"
  shows "published_final y"
  using assms(1)
proof (cases rule: ideal_step.cases)
  case (announce i)
  then have "i_published x i = None" using unpublished [OF assms(2)] by simp
  then show ?thesis using assms(2) announce(1) by (auto simp: published_final_def)
next
  case (begin_polling i)
  then have "i_published x i = None" using unpublished [OF assms(2)] by simp
  then show ?thesis using assms(2) begin_polling(1) by (auto simp: published_final_def)
next
  case (finish i)
  then show ?thesis using assms(2) by (auto simp: published_final_def)
next
  case (authorize i u)
  then show ?thesis using assms(2) by (simp add: published_final_def)
next
  case (cast i h c)
  then have "i_published x i = None" using unpublished [OF assms(2)] by simp
  then show ?thesis using assms(2) cast(1) by (auto simp: published_final_def fun_eq_iff)
next
  case (publish i)
  then show ?thesis using assms(2) by (simp add: published_final_def)
qed

lemma ideal_inv_iff:
  "ideal_inv x \<longleftrightarrow> (\<forall>i j. i_phase x i = Some Polling \<longrightarrow> i_phase x j = Some Polling \<longrightarrow> i = j)
     \<and> (finite (i_spent x) \<and> card (i_spent x) = size (i_ballots x)) \<and> published_final x"
  by (simp add: ideal_inv_def published_final_def)

lemma ideal_inv_step: "ideal_step x y \<Longrightarrow> ideal_inv x \<Longrightarrow> ideal_inv y"
  unfolding ideal_inv_iff using one_polling_step spent_step published_step by blast

lemma ideal_inv_reachable:
  assumes "ideal_init x" and "ideal_step\<^sup>*\<^sup>* x y"
  shows "ideal_inv y"
proof (rule ideal.invariant_reachable [where I = ideal_inv, OF assms])
  show "ideal_inv x" if "ideal_init x" for x using that by (simp add: ideal_init_def ideal_inv_def)
  show "ideal_inv y" if "ideal_inv x" "ideal_step x y" for x y by (rule ideal_inv_step [OF that(2,1)])
qed

end
