(* ===== verification/Voting_System.thy ===== *)
theory Voting_System
  imports Results Ideal_Election
begin

text \<open>
  The routes composed into one system. Requests of several workers interleave: the two voting
  routes first read and decide and later commit, and between the two any other step may happen.
  Until it commits, such a request holds a shared lock on its election row, and the handler that
  closes an election needs that row exclusively (\<open>with_for_update\<close>), so closing waits for the pending
  requests of its election. All other handlers run as one step. Account routes change users,
  enrolments and one-time codes only (\<open>accounts_only\<close>). A restart drops the pending requests and
  the keys in memory.

  What each step does to the tables is summed up in the relation \<open>change\<close>; the invariants are
  proved on it once and reach the system through the interpretation of \<open>transition_system\<close>.
\<close>

section \<open>State and steps\<close>

record system =
  sys_app :: app_state
  sys_signer :: signer
  sys_tokens :: "authorization list"
  sys_ballots :: "ballot list"

abbreviation sys_db :: "system \<Rightarrow> database" where
  "sys_db s \<equiv> a_db (sys_app s)"

definition set_keys :: "key_store \<Rightarrow> system \<Rightarrow> system" where
  "set_keys ks s = s\<lparr>sys_app := (sys_app s)\<lparr>a_keys := ks\<rparr>\<rparr>"

definition idle :: "system \<Rightarrow> int \<Rightarrow> bool" where
  "idle s i \<longleftrightarrow> i \<notin> au_election_id ` set (sys_tokens s) \<and> i \<notin> b_election_id ` set (sys_ballots s)"

definition accounts_only :: "database \<Rightarrow> database \<Rightarrow> bool" where
  "accounts_only db db' \<longleftrightarrow> db' = db\<lparr>users := users db', electoral_rolls := electoral_rolls db',
     otp_challenges := otp_challenges db'\<rparr>"

inductive step :: "system \<Rightarrow> system \<Rightarrow> bool" where
  token_refused: "prepare_blind_token env u data (sys_app s) = (Inl r, ks) \<Longrightarrow> step s (set_keys ks s)"
| token_prepared: "prepare_blind_token env u data (sys_app s) = (Inr au, ks) \<Longrightarrow>
    step s ((set_keys ks s)\<lparr>sys_tokens := au # sys_tokens s\<rparr>)"
| token_committed: "au \<in> set (sys_tokens s) \<Longrightarrow> commit_blind_token env au (sys_app s) = (r, app) \<Longrightarrow>
    step s (s\<lparr>sys_app := app, sys_tokens := remove1 au (sys_tokens s)\<rparr>)"
| ballot_refused: "prepare_ballot env data (sys_app s) = (Inl r, ks) \<Longrightarrow> step s (set_keys ks s)"
| ballot_prepared: "prepare_ballot env data (sys_app s) = (Inr b, ks) \<Longrightarrow>
    step s ((set_keys ks s)\<lparr>sys_ballots := b # sys_ballots s\<rparr>)"
| ballot_committed: "b \<in> set (sys_ballots s) \<Longrightarrow> commit_ballot env b (sys_app s) = (r, app) \<Longrightarrow>
    step s (s\<lparr>sys_app := app, sys_ballots := remove1 b (sys_ballots s)\<rparr>)"
| key_published: "blind_signing_public_key env raw (sys_app s) = (r, app) \<Longrightarrow> step s (s\<lparr>sys_app := app\<rparr>)"
| election_created: "create_election env fromiso cu nf opf clf (sys_app s) = (r, app) \<Longrightarrow>
    step s (s\<lparr>sys_app := app\<rparr>)"
| election_opened: "open_election env cu eid (sys_app s) = (r, app) \<Longrightarrow> step s (s\<lparr>sys_app := app\<rparr>)"
| election_closed: "idle s eid \<Longrightarrow> close_election env cu eid (sys_app s) = (r, app) \<Longrightarrow>
    step s (s\<lparr>sys_app := app\<rparr>)"
| candidate_created: "create_candidate env cu form (sys_app s) = (r, app) \<Longrightarrow> step s (s\<lparr>sys_app := app\<rparr>)"
| candidate_updated: "update_candidate env cu cid form (sys_app s) = (r, app) \<Longrightarrow>
    step s (s\<lparr>sys_app := app\<rparr>)"
| candidate_deleted: "delete_candidate env cu cid (sys_app s) = (r, app) \<Longrightarrow> step s (s\<lparr>sys_app := app\<rparr>)"
| results_signed: "sign_election_results renv cu body form (sys_signer s, sys_app s) = (r, sn, app) \<Longrightarrow>
    step s (s\<lparr>sys_app := app, sys_signer := sn\<rparr>)"
| keys_reconciled: "reconcile_open_election_keys env (sys_db s) (a_keys (sys_app s)) = (Inr (n, db'), ks) \<Longrightarrow>
    step s (s\<lparr>sys_app := (sys_app s)\<lparr>a_db := db', a_keys := ks\<rparr>\<rparr>)"
| account_changed: "accounts_only (sys_db s) db' \<Longrightarrow> db_ok db' \<Longrightarrow>
    step s (s\<lparr>sys_app := (sys_app s)\<lparr>a_db := db'\<rparr>\<rparr>)"
| restarted: "step s (s\<lparr>sys_app := (sys_app s)\<lparr>a_keys := (a_keys (sys_app s))\<lparr>ks_cache := (\<lambda>_. None)\<rparr>\<rparr>,
    sys_signer := \<lparr>sn_private_key = None, sn_public_key = None\<rparr>, sys_tokens := [], sys_ballots := []\<rparr>)"

inductive_cases stepE: "step s t"

section \<open>Changes of the tables\<close>

definition result_added :: "database \<Rightarrow> database \<Rightarrow> bool" where
  "result_added db db' \<longleftrightarrow> (\<exists>row ks e at. get_election db (sr_election_id row) = Some e \<and> el_status e = ''closed''
     \<and> sr_payload row = dumps_canonical (election_results e at
         (order_tallies (map (tally_of db) (candidates_of db (el_id e)))))
     \<and> db' = db\<lparr>signed_results := signed_results db @ [row], result_keys := result_keys db @ ks\<rparr>)"

inductive change :: "database \<Rightarrow> database \<Rightarrow> bool" where
  same: "change db db"
| drafted: "draft_added db db' \<Longrightarrow> db_ok db' \<Longrightarrow> change db db'"
| opened: "election_changed (opens_to db) db db' \<Longrightarrow> db_ok db' \<Longrightarrow> change db db'"
| closed: "election_changed closes_to db db' \<Longrightarrow> db_ok db' \<Longrightarrow> change db db'"
| roster: "roster_changed eid db db' \<Longrightarrow> db_ok db' \<Longrightarrow> change db db'"
| token: "insert_token (u, i) db = Some db' \<Longrightarrow> get_election db i = Some e \<Longrightarrow> el_status e = ''open'' \<Longrightarrow>
    change db db'"
| ballot: "insert_ballot b db = Some db' \<Longrightarrow> get_election db (b_election_id b) = Some e \<Longrightarrow>
    el_status e = ''open'' \<Longrightarrow> change db db'"
| result: "result_added db db' \<Longrightarrow> db_ok db' \<Longrightarrow> change db db'"
| account: "accounts_only db db' \<Longrightarrow> db_ok db' \<Longrightarrow> change db db'"


section \<open>What a change keeps\<close>

lemma change_ok: "change db db' \<Longrightarrow> db_ok db \<Longrightarrow> db_ok db'"
  by (induction rule: change.induct) (auto dest: insert_token_SomeD insert_ballot_SomeD)

lemma accounts_only_simps:
  assumes "accounts_only db db'"
  shows "roles db' = roles db" "regions db' = regions db" "elections db' = elections db" "candidates db' = candidates db"
    "votes db' = votes db" "vote_receipts db' = vote_receipts db" "blind_tokens db' = blind_tokens db"
    "nullifiers db' = nullifiers db" "result_keys db' = result_keys db" "signed_results db' = signed_results db"
proof -
  let ?db = "db\<lparr>users := users db', electoral_rolls := electoral_rolls db', otp_challenges := otp_challenges db'\<rparr>"
  have eq: "db' = ?db" using assms by (simp add: accounts_only_def)
  show "roles db' = roles db" "regions db' = regions db" "elections db' = elections db" "candidates db' = candidates db"
    "votes db' = votes db" "vote_receipts db' = vote_receipts db" "blind_tokens db' = blind_tokens db"
    "nullifiers db' = nullifiers db" "result_keys db' = result_keys db" "signed_results db' = signed_results db"
    by (subst eq, simp)+
qed

lemma get_election_same: "elections db' = elections db \<Longrightarrow> get_election db' = get_election db"
  by (simp add: get_election_def fun_eq_iff)

lemma candidates_of_same: "candidates db' = candidates db \<Longrightarrow> candidates_of db' = candidates_of db"
  by (simp add: candidates_of_def fun_eq_iff)

definition moved :: "database \<Rightarrow> election \<Rightarrow> election \<Rightarrow> bool" where
  "moved db e e' \<longleftrightarrow> e' = e \<or> opens_to db e e' \<or> closes_to e e'"

lemma election_changed_moved:
  assumes "election_changed how db db'" and "get_election db i = Some e"
  shows "\<exists>e'. get_election db' i = Some e' \<and> (e' = e \<or> how e e')"
proof -
  obtain a a' where "get_election db (el_id a) = Some a" "el_id a' = el_id a" "how a a'" "db' = update_election a' db"
    using assms(1) unfolding election_changed_def by blast
  then show ?thesis using assms(2) by (cases "i = el_id a") (simp_all add: get_election_update)
qed

lemma find_append_hit: "find P xs = Some x \<Longrightarrow> find P (xs @ ys) = Some x"
  by (induction xs) (auto split: if_splits)

lemma change_election:
  assumes "change db db'" and "get_election db i = Some e"
  shows "\<exists>e'. get_election db' i = Some e' \<and> moved db e e'"
  using assms
proof (cases rule: change.cases)
  case drafted
  then show ?thesis
    using find_append_hit [OF assms(2) [unfolded get_election_def]] by (auto simp: draft_added_def get_election_def moved_def)
next
  case opened
  then show ?thesis using election_changed_moved [OF _ assms(2)] by (fastforce simp: moved_def)
next
  case closed
  then show ?thesis using election_changed_moved [OF _ assms(2)] by (fastforce simp: moved_def)
next
  case (roster eid)
  then have "elections db' = elections db" by (auto simp: roster_changed_def)
  from get_election_same [OF this] show ?thesis using assms(2) by (simp add: moved_def)
next
  case (token u j e)
  then have "elections db' = elections db" by (auto dest: insert_token_SomeD)
  from get_election_same [OF this] show ?thesis using assms(2) by (simp add: moved_def)
next
  case (ballot b e)
  then have "elections db' = elections db" by (auto dest: insert_ballot_SomeD)
  from get_election_same [OF this] show ?thesis using assms(2) by (simp add: moved_def)
next
  case result
  then have "elections db' = elections db" by (auto simp: result_added_def)
  from get_election_same [OF this] show ?thesis using assms(2) by (simp add: moved_def)
next
  case account
  from get_election_same [OF accounts_only_simps(3) [OF account(1)]] show ?thesis using assms(2) by (simp add: moved_def)
qed (simp add: moved_def)

lemma change_regions: "change db db' \<Longrightarrow> regions db' = regions db"
  by (induction rule: change.induct)
    (auto simp: draft_added_def election_changed_def roster_changed_def result_added_def
      dest: insert_token_SomeD insert_ballot_SomeD accounts_only_simps(2))

lemma change_roster:
  assumes "change db db'" and "get_election db i = Some e" and "el_status e \<noteq> ''draft''"
  shows "candidates_of db' i = candidates_of db i"
  using assms(1)
proof (cases rule: change.cases)
  case (roster eid)
  then show ?thesis using roster_changed_frozen [OF _ assms(2,3)] by blast
qed (auto simp: draft_added_def election_changed_def result_added_def candidates_of_def
      dest: insert_token_SomeD insert_ballot_SomeD accounts_only_simps(4))

abbreviation votes_in :: "database \<Rightarrow> int \<Rightarrow> vote list" where
  "votes_in db i \<equiv> filter (\<lambda>v. v_election_id v = i) (votes db)"

abbreviation tokens_in :: "database \<Rightarrow> int \<Rightarrow> blind_signature_token list" where
  "tokens_in db i \<equiv> filter (\<lambda>t. bt_election_id t = i) (blind_tokens db)"

abbreviation nullifiers_in :: "database \<Rightarrow> int \<Rightarrow> spent_ballot_nullifier list" where
  "nullifiers_in db i \<equiv> filter (\<lambda>n. sn_election_id n = i) (nullifiers db)"

lemma vote_row_simps [simp]:
  "v_election_id (vote_row b db) = b_election_id b" "v_candidate_id (vote_row b db) = b_candidate_id b"
  "sn_election_id (nullifier_row b db) = b_election_id b" "nullifier_hash (nullifier_row b db) = b_nonce_hash b"
  by (simp_all add: vote_row_def nullifier_row_def)

lemma change_not_open:
  assumes "change db db'" and "get_election db i = Some e" and "el_status e = ''closed''"
  shows "votes_in db' i = votes_in db i \<and> tokens_in db' i = tokens_in db i \<and> nullifiers_in db' i = nullifiers_in db i"
  using assms(1)
proof (cases rule: change.cases)
  case (roster eid)
  then have "blind_tokens db' = blind_tokens db" "nullifiers db' = nullifiers db" by (auto simp: roster_changed_def)
  then show ?thesis using roster_changed_frozen [OF roster(1) assms(2)] assms(3) by simp
next
  case (token u j e')
  with assms(2,3) have "j \<noteq> i" by auto
  then show ?thesis using insert_token_SomeD(2) [OF token(1)] by simp
next
  case (ballot b e')
  with assms(2,3) have "b_election_id b \<noteq> i" by auto
  then show ?thesis using insert_ballot_SomeD(2) [OF ballot(1)] by simp
next
  case account
  then show ?thesis using accounts_only_simps [OF account(1)] by simp
qed (auto simp: draft_added_def election_changed_def result_added_def)

section \<open>Invariants of the tables\<close>

text \<open>Every recorded ballot has spent exactly one nullifier of its election.\<close>

definition balanced :: "database \<Rightarrow> bool" where
  "balanced db \<longleftrightarrow> (\<forall>i. length (votes_in db i) = length (nullifiers_in db i))"

text \<open>A signed result is the tally of the ballots recorded in its election.\<close>

definition results_true :: "database \<Rightarrow> bool" where
  "results_true db \<longleftrightarrow> (\<forall>r \<in> set (signed_results db). \<exists>e at. get_election db (sr_election_id r) = Some e
     \<and> sr_payload r = dumps_canonical (election_results e at
         (order_tallies (map (tally_of db) (candidates_of db (el_id e))))))"

lemma other_status:
  assumes "db_ok db" and "get_election db i = Some e" and "x \<in> set (elections db)" and "el_status x \<noteq> el_status e"
  shows "i \<noteq> el_id x"
proof
  assume "i = el_id x"
  moreover have "unique_on el_id (elections db)" using assms(1) by (simp add: db_ok_def elections_ok_def)
  ultimately have "x = e" using unique_on_eqD [of el_id "elections db" x e] assms(3) get_election_SomeD [OF assms(2)] by simp
  with assms(4) show False by simp
qed

lemma election_inv_change:
  assumes "election_inv db" and "change db db'"
  shows "election_inv db'"
  using assms(2)
proof (cases rule: change.cases)
  case drafted
  then show ?thesis by (rule election_inv_draft_added [OF assms(1)])
next
  case opened
  then show ?thesis by (rule election_inv_opened [OF assms(1)])
next
  case closed
  then show ?thesis by (rule election_inv_closed [OF assms(1)])
next
  case (roster eid)
  then show ?thesis by (rule election_inv_roster_changed [OF assms(1)])
next
  case (token u i e)
  note db' = insert_token_SomeD [OF token(1)]
  show ?thesis
  proof (rule election_inv_same_elections [OF assms(1) db'(1)])
    fix x assume x: "x \<in> set (elections db)" "el_status x = ''draft''" "unused db (el_id x)"
    have "i \<noteq> el_id x" using other_status [OF election_invD(1) [OF assms(1)] token(2) x(1)] token(3) x(2) by simp
    with x(3) show "unused db' (el_id x)" by (simp add: unused_def db'(2))
  qed (simp_all add: candidates_of_def db'(2))
next
  case (ballot b e)
  note db' = insert_ballot_SomeD [OF ballot(1)]
  show ?thesis
  proof (rule election_inv_same_elections [OF assms(1) db'(1)])
    fix x assume x: "x \<in> set (elections db)" "el_status x = ''draft''" "unused db (el_id x)"
    have "b_election_id b \<noteq> el_id x"
      using other_status [OF election_invD(1) [OF assms(1)] ballot(2) x(1)] ballot(3) x(2) by simp
    with x(3) show "unused db' (el_id x)" by (simp add: unused_def db'(2))
  qed (simp_all add: candidates_of_def db'(2))
next
  case result
  then obtain row ks e where r: "get_election db (sr_election_id row) = Some e" "el_status e = ''closed''"
    and db': "db' = db\<lparr>signed_results := signed_results db @ [row], result_keys := result_keys db @ ks\<rparr>"
    by (auto simp: result_added_def)
  have same: "unused db' i = unused db i" "single_contest db' i = single_contest db i" for i
    by (simp_all add: unused_def db' single_contest_def election_regions_def election_positions_def candidates_of_def)
  have els: "elections db' = elections db" and res: "\<And>x. x \<in> set (signed_results db') \<Longrightarrow> x \<in> set (signed_results db) \<or> x = row"
    by (auto simp: db')
  have "\<exists>e \<in> set (elections db). el_id e = sr_election_id x \<and> el_status e = ''closed''"
    if "x \<in> set (signed_results db')" for x
    using res [OF that] election_invD(6) [OF assms(1)] get_election_SomeD [OF r(1)] r(2) by blast
  then show ?thesis
    unfolding election_inv_def same els
    using result(2) election_invD(2-5) [OF assms(1)] by blast
next
  case account
  note keep = accounts_only_simps [OF account(1)]
  show ?thesis
    by (rule election_inv_same_elections [OF assms(1) account(2)]) (simp_all add: candidates_of_def unused_def keep)
qed (use assms(1) in simp)


lemma balanced_change:
  assumes "election_inv db" and "balanced db" and "change db db'"
  shows "balanced db'"
  using assms(3)
proof (cases rule: change.cases)
  case (roster eid)
  then obtain e cs vs where e: "get_election db eid = Some e" "el_status e = ''draft''"
    and vs: "filter (\<lambda>v. v_election_id v \<noteq> eid) vs = filter (\<lambda>v. v_election_id v \<noteq> eid) (votes db)"
      "set vs \<subseteq> set (votes db)" and db': "db' = db\<lparr>candidates := cs, votes := vs\<rparr>"
    by (auto simp: roster_changed_def)
  have "unused db eid" using election_invD(5) [OF assms(1)] get_election_SomeD [OF e(1)] e(2) by auto
  then have none: "votes_in db' eid = []" "nullifiers_in db eid = []"
    using vs(2) by (auto simp: db' unused_def filter_empty_conv)
  have "votes_in db' i = votes_in db i" if "i \<noteq> eid" for i
  proof -
    have "filter (\<lambda>v. v_election_id v = i) xs = filter (\<lambda>v. v_election_id v = i) (filter (\<lambda>v. v_election_id v \<noteq> eid) xs)"
      for xs using that by (auto intro!: filter_cong)
    from this [of vs] this [of "votes db"] vs(1) show ?thesis by (simp add: db')
  qed
  moreover have "nullifiers db' = nullifiers db" by (simp add: db')
  ultimately show ?thesis unfolding balanced_def using none assms(2) by (metis balanced_def list.size(3))
next
  case (token u i e)
  then show ?thesis using assms(2) insert_token_SomeD(2) [OF token(1)] by (simp add: balanced_def)
next
  case (ballot b e)
  then show ?thesis using assms(2) insert_ballot_SomeD(2) [OF ballot(1)] by (simp add: balanced_def)
next
  case account
  then show ?thesis using assms(2) accounts_only_simps [OF account(1)] by (simp add: balanced_def)
qed (use assms(2) in \<open>auto simp: draft_added_def election_changed_def result_added_def balanced_def\<close>)

lemma votes_for_in: "votes_for db c = length (filter (\<lambda>v. v_candidate_id v = c_id c) (votes_in db (c_election_id c)))"
  by (simp add: votes_for_def conj_commute)

lemma tallies_same:
  assumes "candidates_of db' i = candidates_of db i" and "votes_in db' i = votes_in db i" and "regions db' = regions db"
  shows "map (tally_of db') (candidates_of db' i) = map (tally_of db) (candidates_of db i)"
proof -
  have "tally_of db' c = tally_of db c" if "c \<in> set (candidates_of db i)" for c
    using that assms(2,3) by (simp add: tally_of_def votes_for_in region_name_def)
  then show ?thesis using assms(1) by simp
qed

lemma closed_stays:
  assumes "change db db'" and "get_election db i = Some e" and "el_status e = ''closed''"
  shows "get_election db' i = Some e"
  using change_election [OF assms(1,2)] assms(3) by (auto simp: moved_def opens_to_def closes_to_def)

lemma change_results:
  assumes "change db db'" and "r \<in> set (signed_results db')"
  shows "r \<in> set (signed_results db) \<or> (\<exists>e at. get_election db (sr_election_id r) = Some e \<and> el_status e = ''closed''
     \<and> sr_payload r = dumps_canonical (election_results e at
         (order_tallies (map (tally_of db) (candidates_of db (el_id e))))))"
  using assms(1)
proof (cases rule: change.cases)
  case result
  then show ?thesis using assms(2) by (auto simp: result_added_def)
next
  case account
  then show ?thesis using assms(2) accounts_only_simps(10) [OF account(1)] by simp
qed (use assms(2) in \<open>auto simp: draft_added_def election_changed_def roster_changed_def
      dest: insert_token_SomeD insert_ballot_SomeD\<close>)

lemma results_true_change:
  assumes "election_inv db" and "results_true db" and "change db db'"
  shows "results_true db'"
  unfolding results_true_def
proof
  fix r assume r: "r \<in> set (signed_results db')"
  have "\<exists>e at. get_election db (sr_election_id r) = Some e \<and> el_status e = ''closed''
     \<and> sr_payload r = dumps_canonical (election_results e at
         (order_tallies (map (tally_of db) (candidates_of db (el_id e)))))"
    using change_results [OF assms(3) r]
  proof
    assume old: "r \<in> set (signed_results db)"
    then obtain e at where e: "get_election db (sr_election_id r) = Some e"
      "sr_payload r = dumps_canonical (election_results e at
         (order_tallies (map (tally_of db) (candidates_of db (el_id e)))))"
      using assms(2) by (auto simp: results_true_def)
    obtain x where x: "x \<in> set (elections db)" "el_id x = sr_election_id r" "el_status x = ''closed''"
      using election_invD(6) [OF assms(1) old] by blast
    have "x = e" using other_status [OF election_invD(1) [OF assms(1)] e(1) x(1)] x
        get_election_SomeD [OF e(1)] unique_on_eqD [of el_id "elections db" x e] election_invD(1) [OF assms(1)]
      by (auto simp: db_ok_def elections_ok_def)
    with e x show ?thesis by blast
  qed
  then obtain e at where e: "get_election db (sr_election_id r) = Some e" "el_status e = ''closed''"
    "sr_payload r = dumps_canonical (election_results e at
         (order_tallies (map (tally_of db) (candidates_of db (el_id e)))))" by blast
  have id: "el_id e = sr_election_id r" using get_election_SomeD [OF e(1)] by simp
  have "map (tally_of db') (candidates_of db' (el_id e)) = map (tally_of db) (candidates_of db (el_id e))"
    unfolding id using change_roster [OF assms(3) e(1)] change_not_open [OF assms(3) e(1,2)] change_regions [OF assms(3)] e(2)
    by (intro tallies_same) simp_all
  with e closed_stays [OF assms(3) e(1,2)]
  show "\<exists>e at. get_election db' (sr_election_id r) = Some e
     \<and> sr_payload r = dumps_canonical (election_results e at
         (order_tallies (map (tally_of db') (candidates_of db' (el_id e)))))" by auto
qed

section \<open>Steps are changes\<close>

definition pending_ok :: "system \<Rightarrow> bool" where
  "pending_ok s \<longleftrightarrow>
     (\<forall>au \<in> set (sys_tokens s). \<exists>e. get_election (sys_db s) (au_election_id au) = Some e \<and> el_status e = ''open'')
     \<and> (\<forall>b \<in> set (sys_ballots s). (\<exists>e. get_election (sys_db s) (b_election_id b) = Some e \<and> el_status e = ''open'')
          \<and> b_candidate_id b \<in> c_id ` set (candidates_of (sys_db s) (b_election_id b)))"

definition sys_inv :: "system \<Rightarrow> bool" where
  "sys_inv s \<longleftrightarrow> election_inv (sys_db s) \<and> balanced (sys_db s) \<and> results_true (sys_db s) \<and> pending_ok s"

definition no_new_closed :: "database \<Rightarrow> database \<Rightarrow> bool" where
  "no_new_closed db db' \<longleftrightarrow> (\<forall>e \<in> set (elections db'). el_status e = ''closed'' \<longrightarrow> e \<in> set (elections db))"

definition stays_open :: "database \<Rightarrow> database \<Rightarrow> int \<Rightarrow> bool" where
  "stays_open db db' i \<longleftrightarrow> (\<forall>e. get_election db i = Some e \<longrightarrow> el_status e = ''open'' \<longrightarrow>
     (\<exists>e'. get_election db' i = Some e' \<and> el_status e' = ''open''))"

lemma no_new_closed_stays_open:
  assumes "db_ok db" and "change db db'" and "no_new_closed db db'"
  shows "stays_open db db' i"
  unfolding stays_open_def
proof (intro allI impI)
  fix e assume e: "get_election db i = Some e" "el_status e = ''open''"
  obtain e' where e': "get_election db' i = Some e'" "moved db e e'" using change_election [OF assms(2) e(1)] by blast
  have "\<not> closes_to e e'"
  proof
    assume cl: "closes_to e e'"
    then have "e' \<in> set (elections db)"
      using assms(3) get_election_SomeD [OF e'(1)] by (auto simp: no_new_closed_def closes_to_def)
    with other_status [OF assms(1) e(1) this] cl e(2) get_election_SomeD [OF e'(1)] show False
      by (auto simp: closes_to_def)
  qed
  with e' e(2) show "\<exists>e'. get_election db' i = Some e' \<and> el_status e' = ''open''"
    by (auto simp: moved_def opens_to_def)
qed

lemma no_new_closed_same: "elections db' = elections db \<Longrightarrow> no_new_closed db db'"
  by (simp add: no_new_closed_def)

lemma no_new_closed_drafted: "draft_added db db' \<Longrightarrow> no_new_closed db db'"
  by (auto simp: draft_added_def no_new_closed_def)

lemma no_new_closed_opened: "election_changed (opens_to db) db db' \<Longrightarrow> no_new_closed db db'"
  by (auto simp: election_changed_def no_new_closed_def update_election_def in_update_where_const opens_to_def)

lemma close_election_exact:
  assumes "close_election env cu eid st = (r, st')"
  shows "a_db st' = a_db st \<or> (\<exists>e e'. get_election (a_db st) eid = Some e \<and> closes_to e e' \<and> el_id e' = eid
    \<and> a_db st' = update_election e' (a_db st) \<and> db_ok (a_db st'))"
  using assms get_election_SomeD unfolding close_election_def roles_required_def login_required_def Let_def
  by (fastforce simp: commit_Some_iff closes_to_def split: if_splits option.splits prod.splits)


lemma reconcile_anchored:
  assumes "\<And>e. e \<in> set es \<Longrightarrow> blind_signing_key_id e \<noteq> None"
    and "reconcile_elections env es n db ks = (Inr (m, db'), ks')"
  shows "db' = db"
  using assms
proof (induction es arbitrary: n ks)
  case (Cons e es)
  then show ?case by (force split: if_splits sum.splits prod.splits)
qed simp

lemma reconcile_keeps_db:
  assumes "election_inv db" and "reconcile_open_election_keys env db ks = (Inr (n, db'), ks')"
  shows "db' = db"
proof (rule reconcile_anchored [OF _ assms(2) [unfolded reconcile_open_election_keys_def]])
  fix e assume "e \<in> set (filter (\<lambda>e. el_status e = ''open'') (elections db))"
  then show "blind_signing_key_id e \<noteq> None" using election_invD(4) [OF assms(1), of e] by auto
qed

lemma public_key_keeps_db: "blind_signing_public_key env raw st = (r, st') \<Longrightarrow> a_db st' = a_db st"
  by (auto simp: blind_signing_public_key_def split: option.splits if_splits prod.splits sum.splits key_exc.splits)

lemma sign_change:
  assumes "sign_election_results env cu body form (sn, st) = (r, sn', st')" and "db_ok (a_db st)"
  shows "a_db st' = a_db st \<or> result_added (a_db st) (a_db st') \<and> db_ok (a_db st')"
proof (cases "\<exists>j. r = Json_reply 200 j")
  case True
  then obtain j where r: "r = Json_reply 200 j" ..
  obtain u e ts sig db1 p where s: "get_election (a_db st) (el_id e) = Some e" "el_status e = ''closed''"
    "ts = order_tallies (map (tally_of (a_db st)) (candidates_of (a_db st) (el_id e)))"
    "p = dumps_canonical (election_results e (e_now (re_app env)) ts)"
    "archive_signer (se_lib (re_signing env)) sig (a_db st) = Inr db1"
    "a_db st' = db1\<lparr>signed_results := signed_results db1 @ [result_row db1 e u p sig (e_now (re_app env))]\<rparr>"
    "db_ok (a_db st')"
    using sign_success [OF assms(1) [unfolded r] assms(2)] by metis
  obtain ks where ks: "db1 = (a_db st)\<lparr>result_keys := result_keys (a_db st) @ ks\<rparr>"
    using archive_signer_InrD(1) [OF s(5) assms(2)] by blast
  have "result_added (a_db st) (a_db st')"
    unfolding result_added_def s(6)
    by (rule exI [of _ "result_row db1 e u p sig (e_now (re_app env))"], rule exI [of _ ks], rule exI [of _ e],
        rule exI [of _ "e_now (re_app env)"]) (simp add: s(1,2) ks, simp add: s(3,4))
  with s(7) show ?thesis by blast
next
  case False
  with assms(1) have "st' = st" using sign_failed by blast
  then show ?thesis by simp
qed

lemma token_change:
  assumes "commit_blind_token env au st = (r, st')" and "get_election (a_db st) (au_election_id au) = Some e"
    and "el_status e = ''open''"
  shows "change (a_db st) (a_db st') \<and> elections (a_db st') = elections (a_db st)"
proof (cases "insert_token (au_user_id au, au_election_id au) (a_db st)")
  case None
  with assms(1) show ?thesis by (simp add: commit_blind_token_def change.same)
next
  case (Some db')
  with assms(1) have "a_db st' = db'" by (auto simp: commit_blind_token_def)
  with change.token [OF Some assms(2,3)] insert_token_SomeD(2) [OF Some] show ?thesis by simp
qed

lemma ballot_change:
  assumes "commit_ballot env b st = (r, st')" and "get_election (a_db st) (b_election_id b) = Some e"
    and "el_status e = ''open''"
  shows "change (a_db st) (a_db st') \<and> elections (a_db st') = elections (a_db st)"
proof (cases "insert_ballot b (a_db st)")
  case None
  with assms(1) show ?thesis by (simp add: commit_ballot_def change.same)
next
  case (Some db')
  with assms(1) have "a_db st' = db'" by (auto simp: commit_ballot_def)
  with change.ballot [OF Some assms(2,3)] insert_ballot_SomeD(2) [OF Some] show ?thesis by simp
qed

definition quiet :: "database \<Rightarrow> database \<Rightarrow> bool" where
  "quiet db db' \<longleftrightarrow> change db db' \<and> no_new_closed db db'"

lemma quiet_same: "quiet db db"
  by (simp add: quiet_def change.same no_new_closed_same)

lemma quiet_roster: "roster_changed eid db db' \<Longrightarrow> db_ok db' \<Longrightarrow> quiet db db'"
  unfolding quiet_def by (rule conjI, erule (1) change.roster) (auto simp: roster_changed_def no_new_closed_def)

lemma quiet_result: "result_added db db' \<Longrightarrow> db_ok db' \<Longrightarrow> quiet db db'"
  unfolding quiet_def by (rule conjI, erule (1) change.result) (auto simp: result_added_def no_new_closed_def)

lemma quiet_account: "accounts_only db db' \<Longrightarrow> db_ok db' \<Longrightarrow> quiet db db'"
  using accounts_only_simps(3) [of db db'] by (simp add: quiet_def no_new_closed_same change.account)

lemma quiet_drafted: "draft_added db db' \<Longrightarrow> db_ok db' \<Longrightarrow> quiet db db'"
  by (simp add: quiet_def change.drafted no_new_closed_drafted)

lemma quiet_opened: "election_changed (opens_to db) db db' \<Longrightarrow> db_ok db' \<Longrightarrow> quiet db db'"
  by (simp add: quiet_def change.opened no_new_closed_opened)

lemmas quiet_intros = quiet_same quiet_roster quiet_result quiet_account quiet_drafted quiet_opened

lemma step_change:
  assumes "step s t" and "sys_inv s"
  shows "quiet (sys_db s) (sys_db t) \<or>
    (\<exists>i e e'. idle s i \<and> get_election (sys_db s) i = Some e \<and> closes_to e e' \<and> el_id e' = i
       \<and> sys_db t = update_election e' (sys_db s) \<and> db_ok (sys_db t))"
proof -
  have inv: "election_inv (sys_db s)" and pend: "pending_ok s" using assms(2) by (simp_all add: sys_inv_def)
  note ok = election_invD(1) [OF inv]
  show ?thesis using assms(1)
  proof (cases rule: step.cases)
    case (token_committed au env r app)
    then obtain e where "get_election (sys_db s) (au_election_id au) = Some e" "el_status e = ''open''"
      using pend by (auto simp: pending_ok_def)
    from token_change [OF token_committed(3) this] show ?thesis
      using token_committed(1) by (simp add: quiet_def no_new_closed_same)
  next
    case (ballot_committed b env r app)
    then obtain e where "get_election (sys_db s) (b_election_id b) = Some e" "el_status e = ''open''"
      using pend by (auto simp: pending_ok_def)
    from ballot_change [OF ballot_committed(3) this] show ?thesis
      using ballot_committed(1) by (simp add: quiet_def no_new_closed_same)
  next
    case (election_created env fromiso cu nf opf clf r app)
    then show ?thesis using create_election_effect [OF election_created(2)] by (auto intro: quiet_intros)
  next
    case (election_opened env cu eid r app)
    then show ?thesis using open_election_effect [OF election_opened(2)] by (auto intro: quiet_intros)
  next
    case (election_closed eid env cu r app)
    then show ?thesis using close_election_exact [OF election_closed(3)] by (auto intro: quiet_intros)
  next
    case (candidate_created env cu form r app)
    then show ?thesis using create_candidate_effect [OF candidate_created(2)] by (auto intro: quiet_intros)
  next
    case (candidate_updated env cu cid form r app)
    then show ?thesis using update_candidate_effect [OF candidate_updated(2) ok] by (auto intro: quiet_intros)
  next
    case (candidate_deleted env cu cid r app)
    then show ?thesis using delete_candidate_effect [OF candidate_deleted(2) ok] by (auto intro: quiet_intros)
  next
    case (results_signed renv cu body form r sn app)
    then show ?thesis using sign_change [OF results_signed(2) ok] by (auto intro: quiet_intros)
  next
    case (keys_reconciled env n db' ks)
    then show ?thesis using reconcile_keeps_db [OF inv keys_reconciled(2)] by (auto intro: quiet_intros)
  next
    case (key_published env raw r app)
    then show ?thesis using public_key_keeps_db [OF key_published(2)] by (auto intro: quiet_intros)
  qed (auto simp: set_keys_def intro: quiet_intros)
qed


lemma step_is_change:
  assumes "step s t" and "sys_inv s"
  shows "change (sys_db s) (sys_db t)"
  using step_change [OF assms]
proof
  assume "\<exists>i e e'. idle s i \<and> get_election (sys_db s) i = Some e \<and> closes_to e e' \<and> el_id e' = i
       \<and> sys_db t = update_election e' (sys_db s) \<and> db_ok (sys_db t)"
  then obtain i e e' where e: "get_election (sys_db s) i = Some e" "closes_to e e'" "el_id e' = i"
    "sys_db t = update_election e' (sys_db s)" "db_ok (sys_db t)" by blast
  have "el_id e = i" using get_election_SomeD [OF e(1)] by simp
  with e have "election_changed closes_to (sys_db s) (sys_db t)" unfolding election_changed_def by metis
  then show ?thesis using e(5) by (rule change.closed)
qed (simp add: quiet_def)

lemma step_stays_open:
  assumes "step s t" and "sys_inv s" and "\<not> idle s i"
  shows "stays_open (sys_db s) (sys_db t) i"
  using step_change [OF assms(1,2)]
proof
  assume "quiet (sys_db s) (sys_db t)"
  then show ?thesis
    using no_new_closed_stays_open assms(2) election_invD(1) by (auto simp: quiet_def sys_inv_def)
next
  assume "\<exists>i e e'. idle s i \<and> get_election (sys_db s) i = Some e \<and> closes_to e e' \<and> el_id e' = i
       \<and> sys_db t = update_election e' (sys_db s) \<and> db_ok (sys_db t)"
  then show ?thesis using assms(3) by (auto simp: stays_open_def get_election_update)
qed

lemma prepared_token_open:
  assumes "prepare_blind_token env u data st = (Inr au, ks)"
  shows "\<exists>e. get_election (a_db st) (au_election_id au) = Some e \<and> el_status e = ''open''"
  using assms by (auto elim!: prepare_blind_token_SomeD dest: is_open_status)

lemma prepared_ballot_open:
  assumes "prepare_ballot env data st = (Inr b, ks)"
  shows "(\<exists>e. get_election (a_db st) (b_election_id b) = Some e \<and> el_status e = ''open'')
    \<and> b_candidate_id b \<in> c_id ` set (candidates_of (a_db st) (b_election_id b))"
proof -
  obtain eid cid nonce e c where e: "get_election (a_db st) eid = Some e" "is_open (e_now env) e"
    "find (\<lambda>c. c_id c = cid \<and> c_election_id c = el_id e) (candidates (a_db st)) = Some c" "b = ballot_for env e c nonce"
    using assms by (auto elim!: prepare_ballot_SomeD)
  then show ?thesis
    using get_election_SomeD [OF e(1)] find_Some_in [OF e(3)] is_open_status [OF e(2)] by (auto simp: ballot_for_def)
qed

lemma step_pending:
  assumes "step s t"
  shows "(\<forall>au \<in> set (sys_tokens t). au \<in> set (sys_tokens s) \<or> sys_db t = sys_db s
      \<and> (\<exists>e. get_election (sys_db s) (au_election_id au) = Some e \<and> el_status e = ''open''))
    \<and> (\<forall>b \<in> set (sys_ballots t). b \<in> set (sys_ballots s) \<or> sys_db t = sys_db s
      \<and> (\<exists>e. get_election (sys_db s) (b_election_id b) = Some e \<and> el_status e = ''open'')
      \<and> b_candidate_id b \<in> c_id ` set (candidates_of (sys_db s) (b_election_id b)))"
  using assms
proof (cases rule: step.cases)
  case (token_prepared env u data au ks)
  then show ?thesis using prepared_token_open [OF token_prepared(2)] by (simp add: set_keys_def)
next
  case (ballot_prepared env data b ks)
  then show ?thesis using prepared_ballot_open [OF ballot_prepared(2)] by (simp add: set_keys_def)
qed (auto simp: set_keys_def dest: subsetD [OF set_remove1_subset])

lemma pending_ok_step:
  assumes "step s t" and "sys_inv s"
  shows "pending_ok t"
proof -
  have inv: "election_inv (sys_db s)" and pend: "pending_ok s" using assms(2) by (simp_all add: sys_inv_def)
  have still: "(\<exists>e. get_election (sys_db t) i = Some e \<and> el_status e = ''open'')
      \<and> candidates_of (sys_db t) i = candidates_of (sys_db s) i"
    if "\<not> idle s i" and e: "get_election (sys_db s) i = Some e" "el_status e = ''open''" for i e
    using step_stays_open [OF assms that(1)] e change_roster [OF step_is_change [OF assms] e(1)]
    by (auto simp: stays_open_def)
  have "\<exists>e. get_election (sys_db t) (au_election_id au) = Some e \<and> el_status e = ''open''"
    if "au \<in> set (sys_tokens t)" for au
  proof (cases "au \<in> set (sys_tokens s)")
    case True
    then have "\<not> idle s (au_election_id au)" by (simp add: idle_def)
    with still True pend show ?thesis by (fastforce simp: pending_ok_def)
  qed (use step_pending [OF assms(1)] that in auto)
  moreover have "(\<exists>e. get_election (sys_db t) (b_election_id b) = Some e \<and> el_status e = ''open'')
          \<and> b_candidate_id b \<in> c_id ` set (candidates_of (sys_db t) (b_election_id b))"
    if "b \<in> set (sys_ballots t)" for b
  proof (cases "b \<in> set (sys_ballots s)")
    case True
    then have ni: "\<not> idle s (b_election_id b)" by (simp add: idle_def)
    obtain e where e: "get_election (sys_db s) (b_election_id b) = Some e" "el_status e = ''open''"
      and c: "b_candidate_id b \<in> c_id ` set (candidates_of (sys_db s) (b_election_id b))"
      using True pend by (auto simp: pending_ok_def)
    from still [OF ni e] c show ?thesis by (simp del: in_candidates_of)
  next
    case False
    with step_pending [OF assms(1)] that show ?thesis by (metis (no_types, lifting) candidates_of_def)
  qed
  ultimately show ?thesis by (simp add: pending_ok_def)
qed

lemma sys_inv_step:
  assumes "sys_inv s" and "step s t"
  shows "sys_inv t"
  using assms(1) step_is_change [OF assms(2,1)] pending_ok_step [OF assms(2,1)]
  by (auto simp: sys_inv_def intro: election_inv_change balanced_change results_true_change)

section \<open>Reachable states\<close>

text \<open>A new installation: roles, regions and accounts, but no election and no request under way.\<close>

definition sys_init :: "system \<Rightarrow> bool" where
  "sys_init s \<longleftrightarrow> db_ok (sys_db s) \<and> elections (sys_db s) = [] \<and> sys_tokens s = [] \<and> sys_ballots s = []"

interpretation platform: transition_system sys_init step .

lemma sys_inv_init:
  assumes "sys_init s"
  shows "sys_inv s"
proof -
  have "votes (sys_db s) = []" "nullifiers (sys_db s) = []" "signed_results (sys_db s) = []"
    using assms by (auto simp: sys_init_def db_ok_def constraint_defs list_all_iff)
  then show ?thesis
    using assms by (simp add: sys_inv_def sys_init_def election_inv_def balanced_def results_true_def pending_ok_def)
qed

lemma sys_inv_reachable: "sys_init s \<Longrightarrow> step\<^sup>*\<^sup>* s t \<Longrightarrow> sys_inv t"
  by (rule platform.invariant_reachable [where I = sys_inv]) (auto intro: sys_inv_init sys_inv_step)

lemma reachable_change:
  assumes "step\<^sup>*\<^sup>* s t" and "sys_inv s"
    and "P (sys_db s)" and "\<And>db db'. election_inv db \<Longrightarrow> P db \<Longrightarrow> change db db' \<Longrightarrow> P db'"
  shows "P (sys_db t)"
proof (rule platform.stable_under_invariant [where I = sys_inv and P = "\<lambda>s. P (sys_db s)", OF assms(1,2,3)])
  show "sys_inv y" if "sys_inv x" "step x y" for x y using that by (rule sys_inv_step)
  show "P (sys_db y)" if "sys_inv x" "P (sys_db x)" "step x y" for x y
    using assms(4) [OF _ that(2) step_is_change [OF that(3,1)]] that(1) by (simp add: sys_inv_def)
qed

end
