(* ===== verification/Election_Refinement.thy ===== *)
theory Election_Refinement
  imports Voting_System
begin

text \<open>
  The composed system implements the ideal election: the abstraction reads phases, authorizations,
  spent nullifiers and ballots from the tables and the published counts from the JSON payload of the
  signed results. The last section shows progress: pending requests can finish and an open
  election can always be closed.
\<close>


section \<open>Reading a published payload\<close>

definition row_count :: "json \<Rightarrow> int \<times> nat" where
  "row_count r = (case r of
     JObj d \<Rightarrow> (case (dict_get d ''candidate_id'', dict_get d ''votes'') of (JInt c, JInt n) \<Rightarrow> (c, nat n) | _ \<Rightarrow> (0, 0))
   | _ \<Rightarrow> (0, 0))"

definition rows_votes :: "(int \<times> nat) list \<Rightarrow> int \<Rightarrow> nat" where
  "rows_votes rows c = sum_list (map snd (filter (\<lambda>r. fst r = c) rows))"

definition payload_votes :: "string \<Rightarrow> int \<Rightarrow> nat" where
  "payload_votes payload =
     (case loads payload of
        Some (JObj kvs) \<Rightarrow> (case dict_get kvs ''results'' of JList rs \<Rightarrow> rows_votes (map row_count rs) | _ \<Rightarrow> (\<lambda>_. 0))
      | _ \<Rightarrow> (\<lambda>_. 0))"

lemma dict_get_sort_json:
  assumes "distinct (map fst kvs)"
  shows "\<exists>d. sort_json (JObj kvs) = JObj d \<and> (\<forall>k. dict_get d k = sort_json (dict_get kvs k))"
  using dict_get_sorted [OF assms] by simp

lemma row_count_tally: "row_count (sort_json (tally_json t)) = (t_candidate_id t, t_votes t)"
proof -
  obtain d where d: "sort_json (tally_json t) = JObj d"
    "\<forall>k. dict_get d k = sort_json (dict_get [(''candidate_id'', JInt (t_candidate_id t)), (''name'', JStr (t_name t)),
     (''position'', JStr (t_position t)), (''region_id'', JInt (t_region_id t)),
     (''region'', JStr (t_region t)), (''votes'', JInt (int (t_votes t)))] k)"
    using dict_get_sort_json [of "[(''candidate_id'', JInt (t_candidate_id t)), (''name'', JStr (t_name t)),
     (''position'', JStr (t_position t)), (''region_id'', JInt (t_region_id t)),
     (''region'', JStr (t_region t)), (''votes'', JInt (int (t_votes t)))]"]
    unfolding tally_json_def by auto
  then show ?thesis by (simp add: row_count_def)
qed

lemma payload_votes_results:
  "payload_votes (dumps_canonical (election_results e at ts)) = rows_votes (map (\<lambda>t. (t_candidate_id t, t_votes t)) ts)"
proof -
  let ?kvs = "[(''election_id'', JInt (el_id e)), (''election_name'', JStr (el_name e)),
     (''signed_at'', JStr (isoformat_utc at)), (''results'', JList (map tally_json ts)),
     (''total_votes'', JInt (int (total_votes ts)))]"
  obtain d where d: "sort_json (JObj ?kvs) = JObj d" "\<forall>k. dict_get d k = sort_json (dict_get ?kvs k)"
    using dict_get_sort_json [of ?kvs] by auto
  have "loads (dumps_canonical (election_results e at ts)) = Some (JObj d)"
    using loads_dumps_canonical [OF json_ok_election_results] d(1) by (simp add: election_results_def)
  moreover have "dict_get d ''results'' = JList (map sort_json (map tally_json ts))" using d(2) by simp
  ultimately show ?thesis by (simp add: payload_votes_def row_count_tally comp_def)
qed

lemma rows_votes_mset: "mset xs = mset ys \<Longrightarrow> rows_votes xs = rows_votes ys"
proof
  fix c
  assume "mset xs = mset ys"
  then have "mset (map snd (filter (\<lambda>r. fst r = c) xs)) = mset (map snd (filter (\<lambda>r. fst r = c) ys))"
    by (simp only: mset_map mset_filter)
  then have "sum_mset (mset (map snd (filter (\<lambda>r. fst r = c) xs))) = sum_mset (mset (map snd (filter (\<lambda>r. fst r = c) ys)))"
    by (rule arg_cong)
  then show "rows_votes xs c = rows_votes ys c" by (simp only: rows_votes_def sum_mset_sum_list)
qed

lemma rows_votes_candidates:
  assumes "unique_on c_id cs"
  shows "rows_votes (map (\<lambda>c. (c_id c, n c)) cs) x = (case find (\<lambda>c. c_id c = x) cs of None \<Rightarrow> 0 | Some c \<Rightarrow> n c)"
  using assms
proof (induction cs)
  case (Cons c cs)
  show ?case
  proof (cases "c_id c = x")
    case True
    with Cons.prems have "filter (\<lambda>r. fst r = x) (map (\<lambda>c. (c_id c, n c)) cs) = []"
      by (auto simp: filter_empty_conv) (metis imageI)
    with True show ?thesis by (simp add: rows_votes_def)
  next
    case False
    with Cons show ?thesis by (simp add: rows_votes_def)
  qed
qed (simp add: rows_votes_def)

definition ballot_pairs :: "database \<Rightarrow> (int \<times> int) multiset" where
  "ballot_pairs db = mset (map (\<lambda>v. (v_election_id v, v_candidate_id v)) (votes db))"

lemma count_mset_map: "count (mset (map f xs)) y = length (filter (\<lambda>x. f x = y) xs)"
  by (induction xs) auto

lemma count_ballot_pairs:
  "count (ballot_pairs db) (i, c) = length (filter (\<lambda>v. v_election_id v = i \<and> v_candidate_id v = c) (votes db))"
  unfolding ballot_pairs_def count_mset_map by simp

lemma payload_is_count:
  assumes "db_ok db"
  shows "payload_votes (dumps_canonical (election_results e at
      (order_tallies (map (tally_of db) (candidates_of db (el_id e)))))) = (\<lambda>c. count (ballot_pairs db) (el_id e, c))"
proof (rule ext)
  fix x
  let ?cs = "candidates_of db (el_id e)"
  have u: "unique_on c_id ?cs" using assms unique_on_filter [of c_id "candidates db"]
    by (simp add: candidates_of_def db_ok_def candidates_ok_def)
  have "payload_votes (dumps_canonical (election_results e at (order_tallies (map (tally_of db) ?cs)))) x
      = rows_votes (map (\<lambda>t. (t_candidate_id t, t_votes t)) (map (tally_of db) ?cs)) x"
    unfolding payload_votes_results
    by (rule fun_cong [OF rows_votes_mset]) (simp only: mset_map mset_order_tallies)
  also have "\<dots> = rows_votes (map (\<lambda>c. (c_id c, votes_for db c)) ?cs) x" by (simp add: tally_of_def comp_def)
  also have "\<dots> = count (ballot_pairs db) (el_id e, x)"
  proof (cases "find (\<lambda>c. c_id c = x) ?cs")
    case None
    have "filter (\<lambda>v. v_election_id v = el_id e \<and> v_candidate_id v = x) (votes db) = []"
    proof (rule ccontr)
      assume "filter (\<lambda>v. v_election_id v = el_id e \<and> v_candidate_id v = x) (votes db) \<noteq> []"
      then obtain v where v: "v \<in> set (votes db)" "v_election_id v = el_id e" "v_candidate_id v = x"
        by (auto simp: filter_empty_conv)
      have "(v_candidate_id v, v_election_id v) \<in> (\<lambda>c. (c_id c, c_election_id c)) ` set (candidates db)"
        using v(1) assms by (simp add: db_ok_def votes_ok_def refs_ok_def list_all_iff)
      with v(2,3) None show False by (auto simp: find_None_iff)
    qed
    with None show ?thesis using rows_votes_candidates [OF u] by (simp add: count_ballot_pairs)
  next
    case (Some c)
    then have "c_id c = x" "c_election_id c = el_id e" by (auto dest: find_Some_in)
    with Some show ?thesis using rows_votes_candidates [OF u] by (simp add: count_ballot_pairs votes_for_def conj_commute)
  qed
  finally show "payload_votes (dumps_canonical (election_results e at
      (order_tallies (map (tally_of db) ?cs)))) x = count (ballot_pairs db) (el_id e, x)" .
qed


section \<open>The abstraction\<close>

definition phase_of :: "election \<Rightarrow> phase" where
  "phase_of e = (if el_status e = ''draft'' then Drafted else if el_status e = ''open'' then Polling else Finished)"

definition ideal_of_db :: "database \<Rightarrow> ideal" where
  "ideal_of_db db = \<lparr>i_phase = (\<lambda>i. map_option phase_of (get_election db i)),
     i_authorized = set (map (\<lambda>t. (bt_user_id t, bt_election_id t)) (blind_tokens db)),
     i_spent = set (map (\<lambda>n. (sn_election_id n, nullifier_hash n)) (nullifiers db)),
     i_ballots = ballot_pairs db,
     i_published = (\<lambda>i. map_option (\<lambda>r. payload_votes (sr_payload r)) (get_signed_result db i))\<rparr>"

lemma phase_of_simps [simp]:
  "el_status e = ''draft'' \<Longrightarrow> phase_of e = Drafted" "el_status e = ''open'' \<Longrightarrow> phase_of e = Polling"
  "el_status e = ''closed'' \<Longrightarrow> phase_of e = Finished"
  by (simp_all add: phase_of_def)

lemma ideal_of_db_cong:
  assumes "elections db' = elections db" "blind_tokens db' = blind_tokens db" "nullifiers db' = nullifiers db"
    "votes db' = votes db" "signed_results db' = signed_results db"
  shows "ideal_of_db db' = ideal_of_db db"
  using assms by (simp add: ideal_of_db_def get_election_def ballot_pairs_def get_signed_result_def)

lemma ideal_of_update:
  assumes "get_election db (el_id e) = Some e0"
  shows "ideal_of_db (update_election e db) =
    (ideal_of_db db)\<lparr>i_phase := (i_phase (ideal_of_db db))(el_id e \<mapsto> phase_of e)\<rparr>"
  using assms by (simp add: ideal_of_db_def ballot_pairs_def get_signed_result_def get_election_update fun_eq_iff)

lemma roster_changed_votes:
  assumes "election_inv db" and "roster_changed eid db db'"
  shows "votes db' = votes db"
proof -
  obtain e cs vs where e: "get_election db eid = Some e" "el_status e = ''draft''"
    and vs: "filter (\<lambda>v. v_election_id v \<noteq> eid) vs = filter (\<lambda>v. v_election_id v \<noteq> eid) (votes db)"
      "set vs \<subseteq> set (votes db)" and db': "db' = db\<lparr>candidates := cs, votes := vs\<rparr>"
    using assms(2) by (auto simp: roster_changed_def)
  have "unused db eid" using election_invD(5) [OF assms(1)] get_election_SomeD [OF e(1)] e(2) by auto
  then have "\<And>v. v \<in> set (votes db) \<Longrightarrow> v_election_id v \<noteq> eid" by (auto simp: unused_def)
  moreover from this vs(2) have "\<And>v. v \<in> set vs \<Longrightarrow> v_election_id v \<noteq> eid" by auto
  ultimately have "filter (\<lambda>v. v_election_id v \<noteq> eid) (votes db) = votes db"
    "filter (\<lambda>v. v_election_id v \<noteq> eid) vs = vs" by (simp_all add: filter_id_conv)
  with vs(1) show ?thesis by (simp add: db')
qed

lemma find_snoc:
  "find P (xs @ [x]) = (case find P xs of Some y \<Rightarrow> Some y | None \<Rightarrow> if P x then Some x else None)"
  by (induction xs) auto

lemma refines_drafted:
  assumes "draft_added db db'"
  shows "ideal_of_db db' = ideal_of_db db \<or> ideal_step (ideal_of_db db) (ideal_of_db db')"
proof -
  obtain row where row: "el_status row = ''draft''" "el_id row \<notin> election_ids db"
    and db': "db' = db\<lparr>elections := elections db @ [row]\<rparr>" using assms by (auto simp: draft_added_def)
  have none: "get_election db (el_id row) = None"
    using row(2) by (auto simp: get_election_def find_None_iff election_ids_def) (metis imageI)
  have "get_election db' i = (if i = el_id row then Some row else get_election db i)" for i
    using none by (auto simp: get_election_def db' find_snoc split: option.splits)
  then have "ideal_of_db db' = (ideal_of_db db)\<lparr>i_phase := (i_phase (ideal_of_db db))(el_id row \<mapsto> Drafted)\<rparr>"
    using row(1) by (simp add: ideal_of_db_def ballot_pairs_def get_signed_result_def db' fun_eq_iff)
  moreover have "i_phase (ideal_of_db db) (el_id row) = None" using none by (simp add: ideal_of_db_def)
  ultimately show ?thesis using ideal_step.announce by metis
qed

lemma refines_opened:
  assumes "election_changed (opens_to db) db db'"
  shows "ideal_of_db db' = ideal_of_db db \<or> ideal_step (ideal_of_db db) (ideal_of_db db')"
proof -
  obtain e e' where e: "get_election db (el_id e) = Some e" "el_id e' = el_id e" "opens_to db e e'"
    and db': "db' = update_election e' db" using assms by (auto simp: election_changed_def)
  have ph: "i_phase (ideal_of_db db) (el_id e) = Some Drafted" and e': "phase_of e' = Polling"
    using e by (auto simp: ideal_of_db_def opens_to_def)
  have "i_phase (ideal_of_db db) j \<noteq> Some Polling" for j
  proof
    assume "i_phase (ideal_of_db db) j = Some Polling"
    then obtain x where x: "get_election db j = Some x" "el_status x = ''open''"
      by (auto simp: ideal_of_db_def phase_of_def split: if_splits)
    with e(3) get_election_SomeD [OF x(1)] have "el_id x = el_id e" by (auto simp: opens_to_def list_ex_iff)
    with x get_election_SomeD [OF x(1)] e(1,3) show False by (auto simp: opens_to_def)
  qed
  with ideal_step.begin_polling [OF ph] ideal_of_update [of db e' e] e db' e' show ?thesis by auto
qed

lemma refines_closed:
  assumes "election_changed closes_to db db'"
  shows "ideal_of_db db' = ideal_of_db db \<or> ideal_step (ideal_of_db db) (ideal_of_db db')"
proof -
  obtain e e' where e: "get_election db (el_id e) = Some e" "el_id e' = el_id e" "closes_to e e'"
    and db': "db' = update_election e' db" using assms by (auto simp: election_changed_def)
  have ph: "i_phase (ideal_of_db db) (el_id e) = Some Polling" and e': "phase_of e' = Finished"
    using e by (auto simp: ideal_of_db_def closes_to_def)
  with ideal_step.finish [OF ph] ideal_of_update [of db e' e] e db' show ?thesis by auto
qed

lemma refines_token:
  assumes "insert_token (u, i) db = Some db'" and "get_election db i = Some e" and "el_status e = ''open''"
  shows "ideal_of_db db' = ideal_of_db db \<or> ideal_step (ideal_of_db db) (ideal_of_db db')"
proof -
  have db': "db' = db\<lparr>blind_tokens := blind_tokens db @
    [\<lparr>bt_id = fresh_id (map bt_id (blind_tokens db)), bt_user_id = u, bt_election_id = i\<rparr>]\<rparr>"
    using insert_token_SomeD(2) [OF assms(1)] by simp
  have ph: "i_phase (ideal_of_db db) i = Some Polling" using assms(2,3) by (simp add: ideal_of_db_def)
  have new: "(u, i) \<notin> i_authorized (ideal_of_db db)"
    using tokens.insert_taken_refused [of "(u, i)" db] assms(1) by (force simp: ideal_of_db_def)
  have "ideal_of_db db' = (ideal_of_db db)\<lparr>i_authorized := insert (u, i) (i_authorized (ideal_of_db db))\<rparr>"
    by (simp add: ideal_of_db_def db' get_election_def ballot_pairs_def get_signed_result_def)
  with ideal_step.authorize [OF ph new] show ?thesis by simp
qed

lemma refines_ballot:
  assumes "insert_ballot b db = Some db'" and "get_election db (b_election_id b) = Some e" and "el_status e = ''open''"
  shows "ideal_of_db db' = ideal_of_db db \<or> ideal_step (ideal_of_db db) (ideal_of_db db')"
proof -
  note db' = insert_ballot_SomeD(2) [OF assms(1)]
  have ph: "i_phase (ideal_of_db db) (b_election_id b) = Some Polling" using assms(2,3) by (simp add: ideal_of_db_def)
  have new: "(b_election_id b, b_nonce_hash b) \<notin> i_spent (ideal_of_db db)"
    using spent.insert_taken_refused [of b db] assms(1) by (force simp: ideal_of_db_def)
  have "ideal_of_db db' = (ideal_of_db db)\<lparr>i_spent := insert (b_election_id b, b_nonce_hash b) (i_spent (ideal_of_db db)),
      i_ballots := add_mset (b_election_id b, b_candidate_id b) (i_ballots (ideal_of_db db))\<rparr>"
    by (simp add: ideal_of_db_def db' get_election_def ballot_pairs_def get_signed_result_def)
  with ideal_step.cast [OF ph new] show ?thesis by simp
qed

lemma refines_result:
  assumes "result_added db db'" and "db_ok db'" and "db_ok db"
  shows "ideal_of_db db' = ideal_of_db db \<or> ideal_step (ideal_of_db db) (ideal_of_db db')"
proof -
  obtain row ks e at where r: "get_election db (sr_election_id row) = Some e" "el_status e = ''closed''"
    "sr_payload row = dumps_canonical (election_results e at (order_tallies (map (tally_of db) (candidates_of db (el_id e)))))"
    and db': "db' = db\<lparr>signed_results := signed_results db @ [row], result_keys := result_keys db @ ks\<rparr>"
    using assms(1) by (auto simp: result_added_def)
  have id: "el_id e = sr_election_id row" using get_election_SomeD [OF r(1)] by simp
  have ph: "i_phase (ideal_of_db db) (sr_election_id row) = Some Finished" using r(1,2) by (simp add: ideal_of_db_def)
  have "unique_on sr_election_id (signed_results db')" using assms(2) by (simp add: db_ok_def signed_results_ok_def)
  then have none: "get_signed_result db (sr_election_id row) = None"
    by (auto simp: db' get_signed_result_def find_None_iff) (metis imageI)
  have "get_signed_result db' i = (if i = sr_election_id row then Some row else get_signed_result db i)" for i
    using none by (auto simp: get_signed_result_def db' find_snoc split: option.splits)
  then have "ideal_of_db db' = (ideal_of_db db)\<lparr>i_published := (i_published (ideal_of_db db))
      (sr_election_id row \<mapsto> (\<lambda>c. count (i_ballots (ideal_of_db db)) (sr_election_id row, c)))\<rparr>"
    using payload_is_count [OF assms(3), of e at] r(3) id
    by (simp add: ideal_of_db_def db' get_election_def ballot_pairs_def fun_eq_iff)
  with ideal_step.publish [OF ph] none show ?thesis by (simp add: ideal_of_db_def)
qed

lemma refines_roster:
  assumes "election_inv db" and "roster_changed eid db db'"
  shows "ideal_of_db db' = ideal_of_db db"
proof (rule ideal_of_db_cong)
  show "elections db' = elections db" "blind_tokens db' = blind_tokens db" "nullifiers db' = nullifiers db"
    "signed_results db' = signed_results db" using assms(2) by (auto simp: roster_changed_def)
  show "votes db' = votes db" by (rule roster_changed_votes [OF assms])
qed

lemma change_refines:
  assumes "election_inv db" and "change db db'"
  shows "ideal_of_db db' = ideal_of_db db \<or> ideal_step (ideal_of_db db) (ideal_of_db db')"
  using assms(2)
proof (cases rule: change.cases)
  case account
  then show ?thesis using ideal_of_db_cong accounts_only_simps [OF account(1)] by blast
qed (use refines_drafted refines_opened refines_closed refines_roster [OF assms(1)] refines_token refines_ballot
      refines_result [OF _ _ election_invD(1) [OF assms(1)]] in blast)+


section \<open>The refinement\<close>

lemma fresh_tables_empty:
  assumes "db_ok db" and "elections db = []"
  shows "candidates db = []" "votes db = []" "blind_tokens db = []" "nullifiers db = []" "signed_results db = []"
  using assms by (auto simp: db_ok_def constraint_defs list_all_iff)

interpretation refinement: simulation sys_init step ideal_init ideal_step "\<lambda>s. ideal_of_db (sys_db s)" sys_inv
proof unfold_locales
  show "sys_inv s" if "sys_init s" for s using that by (rule sys_inv_init)
  show "sys_inv t" if "sys_inv s" "step s t" for s t using that by (rule sys_inv_step)
  show "ideal_init (ideal_of_db (sys_db s))" if "sys_init s" for s
    using that fresh_tables_empty [of "sys_db s"]
    by (simp add: sys_init_def ideal_init_def ideal_of_db_def get_election_def get_signed_result_def ballot_pairs_def)
  show "ideal_of_db (sys_db t) = ideal_of_db (sys_db s) \<or> ideal_step (ideal_of_db (sys_db s)) (ideal_of_db (sys_db t))"
    if "sys_inv s" "step s t" for s t
    using change_refines [OF _ step_is_change [OF that(2,1)]] that(1) by (simp add: sys_inv_def)
qed

section \<open>Progress\<close>

lemma prepared_ballot_accepted:
  assumes "sys_inv s" and "b \<in> set (sys_ballots s)" and "b_voter_token b \<notin> voter_token ` set (votes (sys_db s))"
    and "(b_election_id b, b_nonce_hash b) \<notin> (\<lambda>n. (sn_election_id n, nullifier_hash n)) ` set (nullifiers (sys_db s))"
  shows "\<exists>db'. insert_ballot b (sys_db s) = Some db'"
proof -
  have ok: "db_ok (sys_db s)" using assms(1) election_invD(1) by (auto simp: sys_inv_def)
  obtain e where e: "get_election (sys_db s) (b_election_id b) = Some e"
    and c: "b_candidate_id b \<in> c_id ` set (candidates_of (sys_db s) (b_election_id b))"
    using assms(1,2) by (auto simp: sys_inv_def pending_ok_def)
  have "b_election_id b \<in> election_ids (sys_db s)" using get_election_SomeD [OF e] by (metis election_ids_def imageI)
  moreover have "(b_candidate_id b, b_election_id b) \<in> (\<lambda>c. (c_id c, c_election_id c)) ` set (candidates (sys_db s))"
    using c by auto
  ultimately show ?thesis using insert_ballot_Some_iff [OF ok, of b] assms(3,4) by auto
qed

lemma commit_token_elections:
  "elections (a_db (snd (commit_blind_token env au st))) = elections (a_db st)
   \<and> roles (a_db (snd (commit_blind_token env au st))) = roles (a_db st)"
  by (auto simp: commit_blind_token_def split: option.splits dest: insert_token_SomeD)

lemma commit_ballot_elections:
  "elections (a_db (snd (commit_ballot env b st))) = elections (a_db st)
   \<and> roles (a_db (snd (commit_ballot env b st))) = roles (a_db st)"
  by (auto simp: commit_ballot_def split: option.splits dest: insert_ballot_SomeD)

lemma requests_drain:
  "\<exists>t. step\<^sup>*\<^sup>* s t \<and> sys_tokens t = [] \<and> sys_ballots t = []
     \<and> elections (sys_db t) = elections (sys_db s) \<and> roles (sys_db t) = roles (sys_db s)"
proof (induction "length (sys_tokens s) + length (sys_ballots s)" arbitrary: s rule: less_induct)
  case less
  show ?case
  proof (cases "sys_tokens s")
    case (Cons au aus)
    fix env
    let ?t = "s\<lparr>sys_app := snd (commit_blind_token env au (sys_app s)), sys_tokens := remove1 au (sys_tokens s)\<rparr>"
    have st: "step s ?t" by (rule step.token_committed [OF _ surjective_pairing]) (simp add: Cons)
    obtain t where "step\<^sup>*\<^sup>* ?t t" "sys_tokens t = []" "sys_ballots t = []" "elections (sys_db t) = elections (sys_db ?t)"
      "roles (sys_db t) = roles (sys_db ?t)"
      using less.hyps [of ?t] Cons by auto
    with converse_rtranclp_into_rtranclp [of step, OF st] commit_token_elections [of env au "sys_app s"] show ?thesis by auto
  next
    case Nil
    show ?thesis
    proof (cases "sys_ballots s")
      case (Cons b bs)
      fix env
      let ?t = "s\<lparr>sys_app := snd (commit_ballot env b (sys_app s)), sys_ballots := remove1 b (sys_ballots s)\<rparr>"
      have st: "step s ?t" by (rule step.ballot_committed [OF _ surjective_pairing]) (simp add: Cons)
      obtain t where "step\<^sup>*\<^sup>* ?t t" "sys_tokens t = []" "sys_ballots t = []" "elections (sys_db t) = elections (sys_db ?t)"
        "roles (sys_db t) = roles (sys_db ?t)"
        using less.hyps [of ?t] Cons Nil by auto
      with converse_rtranclp_into_rtranclp [of step, OF st] commit_ballot_elections [of env b "sys_app s"] show ?thesis by auto
    qed (use Nil in auto)
  qed
qed

lemma db_ok_close:
  assumes "db_ok db" and "get_election db (el_id e) = Some e"
  shows "db_ok (update_election (e\<lparr>el_status := ''closed'', close_at := t\<rparr>) db)"
proof -
  let ?e = "e\<lparr>el_status := ''closed'', close_at := t\<rparr>" and ?els = "elections (update_election (e\<lparr>el_status := ''closed'', close_at := t\<rparr>) db)"
  have ids: "map el_id ?els = map el_id (elections db)"
    by (simp add: update_election_def) (rule map_update_where, simp)
  have "created_by e \<in> created_by ` set (elections db)" using get_election_SomeD [OF assms(2)] by auto
  then have els: "elections_ok (update_election ?e db)"
    using assms(1) ids
    by (auto simp: db_ok_def elections_ok_def opt_refs_ok_def list_all_iff update_election_def in_update_where_const
        user_ids_def split: option.splits)
  have "election_ids (update_election ?e db) = election_ids db"
    using arg_cong [OF ids, of set] by (simp add: election_ids_def)
  then show ?thesis using assms(1) els by (simp add: db_ok_def constraint_defs)
qed

lemma close_when_idle:
  assumes "db_ok (a_db st)" and "get_election (a_db st) i = Some e" and "el_status e = ''open''" and "is_manager (a_db st) u"
  shows "\<exists>r st'. close_election env (Some u) i st = (r, st')
    \<and> get_election (a_db st') i = Some (e\<lparr>el_status := ''closed'', close_at := Some (e_now env)\<rparr>)"
proof -
  have id: "el_id e = i" using get_election_SomeD [OF assms(2)] by simp
  have "db_ok (update_election (e\<lparr>el_status := ''closed'', close_at := Some (e_now env)\<rparr>) (a_db st))"
    by (rule db_ok_close [OF assms(1)]) (use assms(2) id in simp)
  with assms id show ?thesis
    by (simp add: close_election_def roles_required_def login_required_def is_manager_def commit_def get_election_update)
qed

lemma open_election_can_close:
  assumes "sys_inv s" and "get_election (sys_db s) i = Some e" and "el_status e = ''open''" and "is_manager (sys_db s) u"
  shows "\<exists>t e'. step\<^sup>*\<^sup>* s t \<and> get_election (sys_db t) i = Some e' \<and> el_status e' = ''closed''"
proof -
  obtain t where t: "step\<^sup>*\<^sup>* s t" "sys_tokens t = []" "sys_ballots t = []" "elections (sys_db t) = elections (sys_db s)"
    "roles (sys_db t) = roles (sys_db s)" using requests_drain by blast
  have "sys_inv t" using refinement.simulated [OF assms(1) t(1)] by blast
  then have ok: "db_ok (sys_db t)" using election_invD(1) by (auto simp: sys_inv_def)
  have e: "get_election (sys_db t) i = Some e" using assms(2) t(4) by (simp add: get_election_def)
  have u: "is_manager (sys_db t) u" using assms(4) t(5) by (simp add: is_manager_def has_role_def role_of_def)
  fix env
  obtain r app where run: "close_election env (Some u) i (sys_app t) = (r, app)"
    and res: "get_election (a_db app) i = Some (e\<lparr>el_status := ''closed'', close_at := Some (e_now env)\<rparr>)"
    using close_when_idle [OF ok e assms(3) u] by blast
  have "idle t i" using t(2,3) by (simp add: idle_def)
  from step.election_closed [OF this run] t(1) res show ?thesis
    by (intro exI [of _ "t\<lparr>sys_app := app\<rparr>"]) (auto intro: rtranclp.rtrancl_into_rtrancl)
qed

end
