(* ===== verification/Ip_Address.thy ===== *)
theory Ip_Address
  imports Py_Text
begin

text \<open>
  The addresses and networks of Python's \<open>ipaddress\<close> module as \<^verbatim>\<open>app/security/helpers.py\<close> uses them:
  \<open>ip_address(text)\<close>, \<open>ip_network(text, strict=False)\<close> and membership. Addresses are unbounded integers
  as in Python; a text that the module rejects is \<open>None\<close>.
\<close>

unbundle bit_operations_syntax

section \<open>Addresses\<close>

datatype ip_version = IPv4 | IPv6

record ip_addr =
  ip_version_of :: ip_version
  ip_int :: int

fun max_prefixlen :: "ip_version \<Rightarrow> nat" where
  "max_prefixlen IPv4 = 32"
| "max_prefixlen IPv6 = 128"

text \<open>The text has digits only, so \<open>int\<close> reads its digits.\<close>

definition parse_octet :: "string \<Rightarrow> int option" where
  "parse_octet s =
     (if s = [] \<or> \<not> list_all is_ascii_digit s \<or> 3 < length s \<or> s \<noteq> ''0'' \<and> hd s = CHR ''0'' then None
      else (case parse_digits 10 0 False s of None \<Rightarrow> None | Some n \<Rightarrow> if 255 < n then None else Some n))"

text \<open>Texts of digits in a base, most significant first.\<close>

definition big_endian :: "int \<Rightarrow> int list \<Rightarrow> int" where
  "big_endian base ds = foldl (\<lambda>a d. a * base + d) 0 ds"

definition all_some :: "'a option list \<Rightarrow> 'a list option" where
  "all_some xs = (if list_all (\<lambda>x. x \<noteq> None) xs then Some (map the xs) else None)"

definition parse_ipv4 :: "string \<Rightarrow> int option" where
  "parse_ipv4 s =
     (let octets = split_on (CHR ''.'') s in
      if length octets \<noteq> 4 then None else map_option (big_endian 256) (all_some (map parse_octet octets)))"

definition is_hex_digit :: "char \<Rightarrow> bool" where
  "is_hex_digit c \<longleftrightarrow> is_ascii_digit c \<or> is_lower_hex c \<or> is_lower_hex (lower_char c)"

definition parse_hextet :: "string \<Rightarrow> int option" where
  "parse_hextet s = (if s = [] \<or> \<not> list_all is_hex_digit s \<or> 4 < length s then None else parse_digits 16 0 False s)"

text \<open>A dotted quad at the end stands for two groups.\<close>

definition ipv6_parts :: "string \<Rightarrow> string list option" where
  "ipv6_parts s =
     (let parts = split_on (CHR '':'') s in
      if length parts < 3 then None
      else if CHR ''.'' \<in> set (last parts)
      then map_option (\<lambda>n. butlast parts @ [show_nat 16 (nat (n div 65536)), show_nat 16 (nat (n mod 65536))]) (parse_ipv4 (last parts))
      else Some parts)"

text \<open>The groups around the \<open>::\<close>: the number before it, after it and left out.\<close>

definition ipv6_layout :: "string list \<Rightarrow> (nat \<times> nat \<times> nat) option" where
  "ipv6_layout parts =
     (let inner = filter (\<lambda>i. parts ! i = []) [1..<length parts - 1] in
      if 9 < length parts \<or> 1 < length inner then None
      else case inner of
        [] \<Rightarrow> if length parts \<noteq> 8 \<or> hd parts = [] \<or> last parts = [] then None else Some (length parts, 0, 0)
      | i # _ \<Rightarrow>
          (let hi = i - (if hd parts = [] then 1 else 0); lo = length parts - i - 1 - (if last parts = [] then 1 else 0) in
           if hd parts = [] \<and> hi \<noteq> 0 \<or> last parts = [] \<and> lo \<noteq> 0 \<or> 8 \<le> hi + lo then None
           else Some (hi, lo, 8 - (hi + lo))))"

definition parse_ipv6_groups :: "string \<Rightarrow> int option" where
  "parse_ipv6_groups s =
     Option.bind (ipv6_parts s) (\<lambda>parts. Option.bind (ipv6_layout parts) (\<lambda>(hi, lo, skipped).
       map_option (\<lambda>(xs, ys). big_endian 65536 (xs @ replicate skipped 0 @ ys))
         (Option.bind (all_some (map parse_hextet (take hi parts))) (\<lambda>xs.
            map_option (\<lambda>ys. (xs, ys)) (all_some (map parse_hextet (drop (length parts - lo) parts)))))))"

text \<open>With the scope after \<open>%\<close>, which is not empty and has no second \<open>%\<close>.\<close>

definition parse_ipv6 :: "string \<Rightarrow> int option" where
  "parse_ipv6 s =
     (case split_on (CHR ''%'') s of
        [a] \<Rightarrow> parse_ipv6_groups a
      | [a, scope] \<Rightarrow> if scope = [] then None else parse_ipv6_groups a
      | _ \<Rightarrow> None)"

definition ip_address :: "string \<Rightarrow> ip_addr option" where
  "ip_address s =
     (if CHR ''/'' \<in> set s then None
      else case parse_ipv4 s of
        Some n \<Rightarrow> Some \<lparr>ip_version_of = IPv4, ip_int = n\<rparr>
      | None \<Rightarrow> map_option (\<lambda>n. \<lparr>ip_version_of = IPv6, ip_int = n\<rparr>) (parse_ipv6 s))"

section \<open>Networks\<close>

definition all_ones :: "ip_version \<Rightarrow> int" where
  "all_ones v = 2 ^ max_prefixlen v - 1"

definition netmask_of :: "ip_version \<Rightarrow> nat \<Rightarrow> int" where
  "netmask_of v p = all_ones v XOR drop_bit p (all_ones v)"

definition prefix_from_string :: "ip_version \<Rightarrow> string \<Rightarrow> nat option" where
  "prefix_from_string v s =
     (if s = [] \<or> \<not> list_all is_ascii_digit s then None
      else (case parse_digits 10 0 False s of None \<Rightarrow> None | Some n \<Rightarrow> if n \<le> int (max_prefixlen v) then Some (nat n) else None))"

text \<open>The prefix of a mask written as an address: ones first, then zeros.\<close>

definition prefix_from_mask :: "int \<Rightarrow> nat option" where
  "prefix_from_mask m = find (\<lambda>p. m = netmask_of IPv4 p) [0..<33]"

definition prefix_from_ip_string :: "string \<Rightarrow> nat option" where
  "prefix_from_ip_string s =
     Option.bind (parse_ipv4 s) (\<lambda>m.
       case prefix_from_mask m of Some p \<Rightarrow> Some p | None \<Rightarrow> prefix_from_mask (m XOR all_ones IPv4))"

record ip_net =
  net_version :: ip_version
  net_address :: int
  net_prefix :: nat

definition net_of :: "ip_version \<Rightarrow> int \<Rightarrow> nat \<Rightarrow> ip_net" where
  "net_of v n p = \<lparr>net_version = v, net_address = n AND netmask_of v p, net_prefix = p\<rparr>"

definition ip_network :: "string \<Rightarrow> ip_net option" where
  "ip_network s =
     (case split_on (CHR ''/'') s of
        [a] \<Rightarrow> map_option (\<lambda>x. net_of (ip_version_of x) (ip_int x) (max_prefixlen (ip_version_of x))) (ip_address a)
      | [a, m] \<Rightarrow>
          (case parse_ipv4 a of
             Some n \<Rightarrow>
               map_option (net_of IPv4 n)
                 (case prefix_from_string IPv4 m of Some p \<Rightarrow> Some p | None \<Rightarrow> prefix_from_ip_string m)
           | None \<Rightarrow> Option.bind (parse_ipv6 a) (\<lambda>n. map_option (net_of IPv6 n) (prefix_from_string IPv6 m)))
      | _ \<Rightarrow> None)"

definition in_network :: "ip_addr \<Rightarrow> ip_net \<Rightarrow> bool" where
  "in_network a net \<longleftrightarrow> ip_version_of a = net_version net
     \<and> ip_int a AND netmask_of (net_version net) (net_prefix net) = net_address net"


section \<open>Ranges\<close>

lemma parse_digits_nonneg:
  "parse_digits base acc seen s = Some n \<Longrightarrow> 0 \<le> acc \<Longrightarrow> 0 \<le> n"
  by (induction s arbitrary: acc seen) (auto simp: digit_val_def Let_def split: if_splits option.splits)

lemma parse_digits_bound:
  assumes "parse_digits base acc seen s = Some n" and "0 \<le> acc" and "acc < int base ^ k" and "0 < base"
  shows "n < int base ^ (k + length s)"
  using assms(1-3)
proof (induction s arbitrary: acc seen k)
  case (Cons c s)
  show ?case
  proof (cases "c = CHR ''_''")
    case True
    then have "n < int base ^ (k + length s)" using Cons.IH [of acc False k] Cons.prems by (auto split: if_splits)
    also have "\<dots> \<le> int base ^ (k + length (c # s))" using assms(4) by (intro power_increasing) auto
    finally show ?thesis .
  next
    case False
    then obtain d where d: "digit_val base c = Some d" "parse_digits base (acc * int base + d) True s = Some n"
      using Cons.prems(1) by (auto split: option.splits)
    have dr: "0 \<le> d" "d < int base" using d(1) by (auto simp: digit_val_def Let_def split: if_splits)
    have "acc * int base + d < int base ^ Suc k"
    proof -
      have "acc + 1 \<le> int base ^ k" using Cons.prems(3) by simp
      then have "(acc + 1) * int base \<le> int base ^ k * int base" using assms(4) by (intro mult_right_mono) auto
      then show ?thesis using dr(2) by (simp add: algebra_simps)
    qed
    moreover have "0 \<le> acc * int base + d" using Cons.prems(2) dr(1) by simp
    ultimately show ?thesis using Cons.IH [of "acc * int base + d" True "Suc k"] d(2) by simp
  qed
qed (simp split: if_splits)

lemma big_endian_append: "big_endian b (xs @ [d]) = big_endian b xs * b + d"
  by (simp add: big_endian_def)

lemma big_endian_range:
  assumes "\<forall>d \<in> set ds. 0 \<le> d \<and> d < b" and "0 < b"
  shows "0 \<le> big_endian b ds \<and> big_endian b ds < b ^ length ds"
  using assms(1)
proof (induction ds rule: rev_induct)
  case (snoc d ds)
  then have IH: "0 \<le> big_endian b ds" "big_endian b ds + 1 \<le> b ^ length ds" by auto
  have "(big_endian b ds + 1) * b \<le> b ^ length ds * b" using IH(2) assms(2) by (intro mult_right_mono) auto
  moreover have "0 \<le> d" "d < b" using snoc.prems by auto
  ultimately show ?case using IH(1) assms(2) by (simp add: big_endian_append algebra_simps)
qed (simp add: big_endian_def)

lemma all_some_Some: "all_some xs = Some ys \<Longrightarrow> length ys = length xs \<and> (\<forall>y \<in> set ys. Some y \<in> set xs)"
  by (auto simp: all_some_def list_all_iff split: if_splits)


lemma parse_octet_range: "parse_octet s = Some n \<Longrightarrow> 0 \<le> n \<and> n < 256"
  using parse_digits_nonneg by (fastforce simp: parse_octet_def split: if_splits option.splits)

lemma parse_hextet_range:
  assumes "parse_hextet s = Some n" shows "0 \<le> n \<and> n < 65536"
proof -
  have p: "parse_digits 16 0 False s = Some n" "length s \<le> 4" using assms by (auto simp: parse_hextet_def split: if_splits)
  have "n < 16 ^ length s" using parse_digits_bound [OF p(1), of 0] by simp
  also have "(16::int) ^ length s \<le> 16 ^ 4" using p(2) by (intro power_increasing) auto
  finally show ?thesis using parse_digits_nonneg [OF p(1)] by simp
qed

lemma parse_ipv4_range: "parse_ipv4 s = Some n \<Longrightarrow> 0 \<le> n \<and> n < 2 ^ 32"
proof -
  assume "parse_ipv4 s = Some n"
  then obtain ds where ds: "all_some (map parse_octet (split_on (CHR ''.'') s)) = Some ds" "n = big_endian 256 ds"
    "length (split_on (CHR ''.'') s) = 4" by (auto simp: parse_ipv4_def Let_def split: if_splits)
  have "\<forall>d \<in> set ds. 0 \<le> d \<and> d < 256" using all_some_Some [OF ds(1)] parse_octet_range by fastforce
  then show ?thesis using big_endian_range [of ds 256] all_some_Some [OF ds(1)] ds(2,3) by simp
qed

lemma ipv6_layout_total: "ipv6_layout parts = Some (hi, lo, skipped) \<Longrightarrow> hi + lo + skipped = 8 \<and> hi \<le> length parts \<and> lo \<le> length parts"
proof -
  assume l: "ipv6_layout parts = Some (hi, lo, skipped)"
  show ?thesis
  proof (cases "filter (\<lambda>i. parts ! i = []) [1..<length parts - 1]")
    case Nil
    then show ?thesis using l by (auto simp: ipv6_layout_def Let_def split: if_splits)
  next
    case (Cons i rest)
    have "i \<in> set (filter (\<lambda>i. parts ! i = []) [1..<length parts - 1])" unfolding Cons by simp
    then have "i < length parts" by auto
    then show ?thesis using l unfolding ipv6_layout_def Let_def Cons by (auto split: if_splits)
  qed
qed

lemma parse_ipv6_groups_range: "parse_ipv6_groups s = Some n \<Longrightarrow> 0 \<le> n \<and> n < 2 ^ 128"
proof -
  assume "parse_ipv6_groups s = Some n"
  then obtain parts hi lo skipped xs ys where l: "ipv6_layout parts = Some (hi, lo, skipped)"
    and xs: "all_some (map parse_hextet (take hi parts)) = Some xs" and ys: "all_some (map parse_hextet (drop (length parts - lo) parts)) = Some ys"
    and n: "n = big_endian 65536 (xs @ replicate skipped 0 @ ys)"
    by (auto simp: parse_ipv6_groups_def Option.bind_eq_Some_conv)
  have "\<forall>d \<in> set (xs @ replicate skipped 0 @ ys). 0 \<le> d \<and> d < 65536"
    using all_some_Some [OF xs] all_some_Some [OF ys] parse_hextet_range by fastforce
  moreover have "length (xs @ replicate skipped 0 @ ys) = 8"
    using all_some_Some [OF xs] all_some_Some [OF ys] ipv6_layout_total [OF l] by auto
  ultimately show ?thesis using big_endian_range [of "xs @ replicate skipped 0 @ ys" 65536] n by simp
qed

lemma ip_address_range: "ip_address s = Some a \<Longrightarrow> 0 \<le> ip_int a \<and> ip_int a < 2 ^ max_prefixlen (ip_version_of a)"
  using parse_ipv4_range parse_ipv6_groups_range
  by (auto simp: ip_address_def parse_ipv6_def split: if_splits option.splits list.splits)

section \<open>Membership is agreement of the leading bits\<close>

lemma all_ones_mask: "all_ones v = mask (max_prefixlen v)"
  by (simp add: all_ones_def mask_eq_exp_minus_1)

lemma bit_netmask:
  assumes "p \<le> max_prefixlen v"
  shows "bit (netmask_of v p) i \<longleftrightarrow> i < max_prefixlen v \<and> max_prefixlen v - p \<le> i"
  using assms by (auto simp: netmask_of_def all_ones_mask bit_simps)

lemma bit_above:
  assumes "0 \<le> (n :: int)" and "n < 2 ^ k" and "k \<le> i" shows "\<not> bit n i"
proof -
  have "take_bit k n = n" using assms(1,2) by (simp add: take_bit_int_eq_self)
  then show ?thesis using assms(3) by (metis bit_take_bit_iff not_less)
qed

lemma masked_eq_iff:
  assumes "p \<le> max_prefixlen v" and "0 \<le> a" "a < 2 ^ max_prefixlen v" and "0 \<le> b" "b < 2 ^ max_prefixlen v"
  shows "a AND netmask_of v p = b AND netmask_of v p \<longleftrightarrow> drop_bit (max_prefixlen v - p) a = drop_bit (max_prefixlen v - p) b"
proof -
  have "a AND netmask_of v p = b AND netmask_of v p
      \<longleftrightarrow> (\<forall>i. i < max_prefixlen v \<and> max_prefixlen v - p \<le> i \<longrightarrow> bit a i = bit b i)"
    unfolding bit_eq_iff by (auto simp: bit_and_iff bit_netmask [OF assms(1)])
  also have "\<dots> \<longleftrightarrow> (\<forall>i. max_prefixlen v - p \<le> i \<longrightarrow> bit a i = bit b i)"
    using bit_above [OF assms(2,3)] bit_above [OF assms(4,5)] by (meson not_less)
  also have "\<dots> \<longleftrightarrow> drop_bit (max_prefixlen v - p) a = drop_bit (max_prefixlen v - p) b"
  proof
    assume "\<forall>i. max_prefixlen v - p \<le> i \<longrightarrow> bit a i = bit b i"
    then show "drop_bit (max_prefixlen v - p) a = drop_bit (max_prefixlen v - p) b" by (intro bit_eqI) (simp add: bit_drop_bit_eq)
  next
    assume eq: "drop_bit (max_prefixlen v - p) a = drop_bit (max_prefixlen v - p) b"
    have "bit a (max_prefixlen v - p + j) = bit b (max_prefixlen v - p + j)" for j
      using arg_cong [OF eq, of "\<lambda>x. bit x j"] by (simp add: bit_drop_bit_eq)
    then show "\<forall>i. max_prefixlen v - p \<le> i \<longrightarrow> bit a i = bit b i" by (metis le_add_diff_inverse)
  qed
  finally show ?thesis .
qed

lemma in_network_iff:
  assumes "p \<le> max_prefixlen v" and "0 \<le> n" "n < 2 ^ max_prefixlen v"
    and "0 \<le> ip_int a" "ip_int a < 2 ^ max_prefixlen (ip_version_of a)"
  shows "in_network a (net_of v n p) \<longleftrightarrow>
    ip_version_of a = v \<and> ip_int a div 2 ^ (max_prefixlen v - p) = n div 2 ^ (max_prefixlen v - p)"
  using masked_eq_iff [OF assms(1), of "ip_int a" n] assms(2-5) by (auto simp: in_network_def net_of_def drop_bit_eq_div)

text \<open>Every network text denotes a base address and a prefix within the width of its version.\<close>

lemma prefix_from_string_bound: "prefix_from_string v s = Some p \<Longrightarrow> p \<le> max_prefixlen v"
  by (auto simp: prefix_from_string_def split: if_splits option.splits)

lemma prefix_from_mask_bound: "prefix_from_mask m = Some p \<Longrightarrow> p \<le> 32"
  by (auto simp: prefix_from_mask_def find_Some_iff)

lemma prefix_from_ip_string_bound: "prefix_from_ip_string s = Some p \<Longrightarrow> p \<le> 32"
  by (auto simp: prefix_from_ip_string_def Option.bind_eq_Some_conv prefix_from_mask_bound split: option.splits)

lemma ip_network_shape:
  assumes "ip_network s = Some net"
  obtains v n p where "net = net_of v n p" "p \<le> max_prefixlen v" "0 \<le> n" "n < 2 ^ max_prefixlen v"
proof -
  consider (plain) a where "split_on (CHR ''/'') s = [a]" | (masked) a m where "split_on (CHR ''/'') s = [a, m]"
    using assms by (auto simp: ip_network_def split: list.splits)
  then show thesis
  proof cases
    case plain
    then obtain x where "ip_address a = Some x" "net = net_of (ip_version_of x) (ip_int x) (max_prefixlen (ip_version_of x))"
      using assms by (auto simp: ip_network_def)
    then show thesis using that ip_address_range by blast
  next
    case masked
    show thesis
    proof (cases "parse_ipv4 a")
      case (Some n)
      then obtain p where "net = net_of IPv4 n p" "p \<le> 32"
        using assms masked prefix_from_string_bound [of IPv4 m] prefix_from_ip_string_bound [of m]
        by (auto simp: ip_network_def split: option.splits)
      then show thesis using that [of IPv4 n p] parse_ipv4_range [OF Some] by simp
    next
      case None
      then obtain n p where n: "parse_ipv6 a = Some n" and p: "prefix_from_string IPv6 m = Some p" "net = net_of IPv6 n p"
        using assms masked by (auto simp: ip_network_def Option.bind_eq_Some_conv)
      have "0 \<le> n \<and> n < 2 ^ 128" using n parse_ipv6_groups_range by (auto simp: parse_ipv6_def split: list.splits if_splits)
      then show thesis using that [of IPv6 n p] prefix_from_string_bound [OF p(1)] p(2) by simp
    qed
  qed
qed

end
