(* ===== verification/Encryption.thy ===== *)
theory Encryption
  imports Base64 Models
begin

text \<open>
  Encryption of personal data at rest: \<^verbatim>\<open>app/security/encryption.py\<close>. A stored value is the text
  \<open>svpii:v1:\<close> followed by the Base64 text of nonce, ciphertext and tag. Reading accepts only this form
  and only what authenticates under the process key.

  The ChaCha20-Poly1305 primitive of the cryptography package is a parameter: \<open>aead_encrypt key nonce
  plaintext aad\<close> and \<open>aead_decrypt key nonce ciphertext aad\<close>, \<open>None\<close> being \<open>InvalidTag\<close>.
\<close>

section \<open>The service\<close>

record aead =
  aead_encrypt :: "bytes \<Rightarrow> bytes \<Rightarrow> bytes \<Rightarrow> bytes option \<Rightarrow> bytes"
  aead_decrypt :: "bytes \<Rightarrow> bytes \<Rightarrow> bytes \<Rightarrow> bytes option \<Rightarrow> bytes option"

text \<open>
  Documented behaviour: the ciphertext is the plaintext and a tag of sixteen bytes, decryption
  inverts encryption under the same key, nonce and associated data, and it accepts only what
  encryption yields for them.
\<close>

definition aead_ok :: "aead \<Rightarrow> bool" where
  "aead_ok lib \<longleftrightarrow> (\<forall>k n m aad. length (aead_encrypt lib k n m aad) = length m + 16
       \<and> aead_decrypt lib k n (aead_encrypt lib k n m aad) aad = Some m)
     \<and> (\<forall>k n c m aad. aead_decrypt lib k n c aad = Some m \<longrightarrow> c = aead_encrypt lib k n m aad)"

datatype pii_error =
    PIIDecryptionError string
  | LegacyPIIMigrationError string
  | PIIRuntimeError string
  | PIIValueError string

definition ENVELOPE_PREFIX :: string where
  "ENVELOPE_PREFIX = ''svpii:v1:''"

definition LEGACY_PLAINTEXT_PREFIX :: string where
  "LEGACY_PLAINTEXT_PREFIX = ''svpii:legacy-plaintext:v0:''"

definition ASSOCIATED_DATA :: bytes where
  "ASSOCIATED_DATA = utf8_encode ''securevote:voter-pii:v1''"

definition NONCE_BYTES :: nat where
  "NONCE_BYTES = 12"

definition TAG_BYTES :: nat where
  "TAG_BYTES = 16"

text \<open>The process-wide key is the class attribute \<open>_key\<close>; a key passed as text is decoded.\<close>

definition initialize :: "string option \<Rightarrow> string option \<Rightarrow> pii_error + bytes" where
  "initialize key environ_key =
     (case (case key of Some k \<Rightarrow> Some k | None \<Rightarrow> or_else environ_key None) of
        None \<Rightarrow> Inl (PIIRuntimeError ''VOTER_PII_KEY_BASE64 environment variable not set'')
      | Some k \<Rightarrow>
          (case b64decode k of
             None \<Rightarrow> Inl (PIIRuntimeError ''Invalid Base64 PII encryption key'')
           | Some bs \<Rightarrow> if length bs \<noteq> 32 then Inl (PIIRuntimeError ''ChaCha20Poly1305 requires a 32-byte key'')
               else Inr bs))"

definition decode_payload :: "string \<Rightarrow> pii_error + bytes" where
  "decode_payload payload =
     (if payload = [] then Inl (PIIDecryptionError ''Stored PII envelope has no ciphertext payload'')
      else if payload \<noteq> strip payload \<or> length payload mod 4 \<noteq> 0
      then Inl (PIIDecryptionError ''Stored PII envelope has invalid Base64 framing'')
      else
        (case b64decode payload of
           None \<Rightarrow> Inl (PIIDecryptionError ''Stored PII envelope has invalid Base64 framing'')
         | Some combined \<Rightarrow>
             if length combined < NONCE_BYTES + TAG_BYTES
             then Inl (PIIDecryptionError ''Stored PII envelope is truncated'')
             else Inr combined))"

definition decrypt_combined :: "aead \<Rightarrow> bytes \<Rightarrow> bytes \<Rightarrow> bytes option \<Rightarrow> pii_error + string" where
  "decrypt_combined lib key combined aad =
     (case aead_decrypt lib key (take NONCE_BYTES combined) (drop NONCE_BYTES combined) aad of
        None \<Rightarrow> Inl (PIIDecryptionError ''Stored PII failed authenticated decryption'')
      | Some m \<Rightarrow>
          (case utf8_decode m of
             None \<Rightarrow> Inl (PIIDecryptionError ''Stored PII failed authenticated decryption'')
           | Some s \<Rightarrow> Inr s))"

text \<open>\<open>nonce\<close> is \<open>os.urandom(12)\<close>; the value \<open>None\<close> passes through both operations.\<close>

definition encrypt :: "aead \<Rightarrow> bytes \<Rightarrow> bytes \<Rightarrow> string option \<Rightarrow> string option" where
  "encrypt lib key nonce data =
     map_option (\<lambda>s. ENVELOPE_PREFIX @ b64encode (nonce @ aead_encrypt lib key nonce (utf8_encode s) (Some ASSOCIATED_DATA))) data"

definition decrypt :: "aead \<Rightarrow> bytes \<Rightarrow> string option \<Rightarrow> pii_error + string option" where
  "decrypt lib key encrypted_data =
     (case encrypted_data of
        None \<Rightarrow> Inr None
      | Some s \<Rightarrow>
          if \<not> startswith s ENVELOPE_PREFIX
          then Inl (PIIDecryptionError ''Stored PII has no supported version marker; run the explicit migration'')
          else
            (case decode_payload (drop (length ENVELOPE_PREFIX) s) of
               Inl e \<Rightarrow> Inl e
             | Inr combined \<Rightarrow>
                 (case decrypt_combined lib key combined (Some ASSOCIATED_DATA) of Inl e \<Rightarrow> Inl e | Inr p \<Rightarrow> Inr (Some p))))"

definition migrate_legacy_plaintext :: "aead \<Rightarrow> bytes \<Rightarrow> bytes \<Rightarrow> string \<Rightarrow> pii_error + string option" where
  "migrate_legacy_plaintext lib key nonce marked =
     (if \<not> startswith marked LEGACY_PLAINTEXT_PREFIX
      then Inl (LegacyPIIMigrationError ''Legacy plaintext must carry the explicit legacy-plaintext marker'')
      else Inr (encrypt lib key nonce (Some (drop (length LEGACY_PLAINTEXT_PREFIX) marked))))"

definition migrate_legacy_ciphertext :: "aead \<Rightarrow> bytes \<Rightarrow> bytes \<Rightarrow> string \<Rightarrow> pii_error + string option" where
  "migrate_legacy_ciphertext lib key nonce unversioned =
     (if startswith unversioned ENVELOPE_PREFIX
      then Inl (LegacyPIIMigrationError ''Value is already current-format PII'')
      else
        (case (case decode_payload unversioned of Inl e \<Rightarrow> Inl e | Inr c \<Rightarrow> decrypt_combined lib key c None) of
           Inl _ \<Rightarrow> Inl (LegacyPIIMigrationError ''Legacy ciphertext failed authenticated decryption'')
         | Inr p \<Rightarrow> Inr (encrypt lib key nonce (Some p))))"

section \<open>The column type\<close>

definition min_length :: nat where
  "min_length = length ENVELOPE_PREFIX + 40"

definition encrypted_type :: "nat option \<Rightarrow> pii_error + nat option" where
  "encrypted_type len =
     (if (case len of None \<Rightarrow> False | Some n \<Rightarrow> n < min_length)
      then Inl (PIIValueError (''Column length must be at least '' @ show_int (int min_length) @ '' characters''))
      else Inr len)"

text \<open>\<open>_service\<close>: the key of the process, or else the one of the environment.\<close>

definition service_key :: "bytes option \<Rightarrow> string option \<Rightarrow> pii_error + bytes" where
  "service_key process_key environ_key =
     (case process_key of
        Some k \<Rightarrow> Inr k
      | None \<Rightarrow>
          (case or_else environ_key None of
             None \<Rightarrow> Inl (PIIRuntimeError ''ChaChaEncryptionService not initialized. Call initialize() first.'')
           | Some k \<Rightarrow> initialize (Some k) environ_key))"

definition process_bind_param ::
  "aead \<Rightarrow> pii_error + bytes \<Rightarrow> bytes \<Rightarrow> nat option \<Rightarrow> string option \<Rightarrow> pii_error + string option" where
  "process_bind_param lib service nonce len v =
     (case v of
        None \<Rightarrow> Inr None
      | Some _ \<Rightarrow>
          (case service of
             Inl e \<Rightarrow> Inl e
           | Inr key \<Rightarrow>
               (case encrypt lib key nonce v of
                  None \<Rightarrow> Inr None
                | Some e \<Rightarrow>
                    if (case len of None \<Rightarrow> False | Some n \<Rightarrow> n \<noteq> 0 \<and> n < length e)
                    then Inl (PIIValueError (''Encrypted value length ('' @ show_int (int (length e)) @ '') exceeds column length (''
                           @ show_int (int (the len)) @ '')''))
                    else Inr (Some e))))"

definition process_result_value :: "aead \<Rightarrow> pii_error + bytes \<Rightarrow> string option \<Rightarrow> pii_error + string option" where
  "process_result_value lib service v =
     (case v of
        None \<Rightarrow> Inr None
      | Some _ \<Rightarrow> (case service of Inl e \<Rightarrow> Inl e | Inr key \<Rightarrow> decrypt lib key v))"

section \<open>Lemmas\<close>

lemma startswith_prefix [simp]: "startswith (p @ s) p"
  by (simp add: startswith_def)

lemma decode_payload_encoded:
  assumes "NONCE_BYTES + TAG_BYTES \<le> length bs"
  shows "decode_payload (b64encode bs) = Inr bs"
proof -
  have "length (b64encode bs) mod 4 = 0" by (simp add: length_b64encode)
  moreover have "b64encode bs \<noteq> []" using assms by (cases bs rule: b64encode.cases) (auto simp: NONCE_BYTES_def)
  ultimately show ?thesis using assms by (simp add: decode_payload_def)
qed

lemma decrypt_combined_encrypted:
  assumes "aead_ok lib" and "length nonce = NONCE_BYTES"
  shows "decrypt_combined lib key (nonce @ aead_encrypt lib key nonce (utf8_encode s) aad) aad = Inr s"
  using assms by (simp add: decrypt_combined_def aead_ok_def)

lemma decrypt_encrypt:
  assumes "aead_ok lib" and "length nonce = NONCE_BYTES"
  shows "decrypt lib key (encrypt lib key nonce v) = Inr v"
proof (cases v)
  case (Some s)
  let ?c = "nonce @ aead_encrypt lib key nonce (utf8_encode s) (Some ASSOCIATED_DATA)"
  have "NONCE_BYTES + TAG_BYTES \<le> length ?c" using assms by (simp add: aead_ok_def TAG_BYTES_def)
  then show ?thesis
    using Some decode_payload_encoded [of ?c] decrypt_combined_encrypted [OF assms]
    by (simp add: encrypt_def decrypt_def)
qed (simp add: encrypt_def decrypt_def)

lemma length_encrypt:
  assumes "aead_ok lib" and "length nonce = NONCE_BYTES" and "encrypt lib key nonce (Some s) = Some e"
  shows "length e = 9 + 4 * ((length (utf8_encode s) + 30) div 3)"
proof -
  have "length (nonce @ aead_encrypt lib key nonce (utf8_encode s) (Some ASSOCIATED_DATA)) = length (utf8_encode s) + 28"
    using assms(1,2) by (simp add: aead_ok_def NONCE_BYTES_def)
  then show ?thesis using assms(3) by (auto simp: encrypt_def length_b64encode ENVELOPE_PREFIX_def)
qed

text \<open>A text that decrypts frames the encryption of its plaintext under the key of the process.\<close>

definition authentic :: "aead \<Rightarrow> bytes \<Rightarrow> string \<Rightarrow> string \<Rightarrow> bool" where
  "authentic lib key stored s \<longleftrightarrow> (\<exists>payload nonce m. stored = ENVELOPE_PREFIX @ payload \<and> length nonce = NONCE_BYTES
     \<and> utf8_decode m = Some s \<and> b64decode payload = Some (nonce @ aead_encrypt lib key nonce m (Some ASSOCIATED_DATA)))"

lemma decrypt_authentic:
  assumes "aead_ok lib" and "decrypt lib key (Some stored) = Inr (Some s)"
  shows "authentic lib key stored s"
proof -
  let ?p = "drop (length ENVELOPE_PREFIX) stored"
  obtain c where pre: "startswith stored ENVELOPE_PREFIX" and c: "decode_payload ?p = Inr c"
    and d: "decrypt_combined lib key c (Some ASSOCIATED_DATA) = Inr s"
    using assms(2) by (auto simp: decrypt_def split: if_splits sum.splits)
  have b: "b64decode ?p = Some c" "NONCE_BYTES + TAG_BYTES \<le> length c"
    using c by (auto simp: decode_payload_def split: if_splits option.splits)
  obtain m where m: "aead_decrypt lib key (take NONCE_BYTES c) (drop NONCE_BYTES c) (Some ASSOCIATED_DATA) = Some m" "utf8_decode m = Some s"
    using d by (auto simp: decrypt_combined_def split: option.splits)
  have "drop NONCE_BYTES c = aead_encrypt lib key (take NONCE_BYTES c) m (Some ASSOCIATED_DATA)"
    using assms(1) m(1) by (auto simp: aead_ok_def)
  then have "c = take NONCE_BYTES c @ aead_encrypt lib key (take NONCE_BYTES c) m (Some ASSOCIATED_DATA)"
    by (metis append_take_drop_id)
  moreover have "stored = ENVELOPE_PREFIX @ ?p" using pre unfolding startswith_def by (metis append_take_drop_id)
  moreover have "length (take NONCE_BYTES c) = NONCE_BYTES" using b(2) by simp
  ultimately show ?thesis using b(1) m(2) unfolding authentic_def by metis
qed

section \<open>Properties\<close>


text \<open>
  C30: reading fails closed. Whatever text is in the column, the process returns a plaintext only if
  the text frames an encryption of that plaintext under the key of the process and the associated
  data of this format; plain text, text marked for migration, ciphertext of the old unversioned
  form and ciphertext under another key are errors, never returned as they are.
\<close>

theorem pii_fails_closed:
  assumes "aead_ok lib"
  shows "(\<forall>s. process_result_value lib (Inr key) (Some stored) = Inr (Some s) \<longrightarrow> authentic lib key stored s)
    \<and> (\<not> startswith stored ENVELOPE_PREFIX \<longrightarrow> (\<exists>m. process_result_value lib (Inr key) (Some stored) = Inl (PIIDecryptionError m)))
    \<and> process_result_value lib (Inr key) (Some stored) \<noteq> Inr None
    \<and> (\<exists>m. process_result_value lib (Inr key) (Some (LEGACY_PLAINTEXT_PREFIX @ p)) = Inl (PIIDecryptionError m))"
proof -
  have "\<not> startswith (LEGACY_PLAINTEXT_PREFIX @ p) ENVELOPE_PREFIX"
    by (simp add: startswith_def LEGACY_PLAINTEXT_PREFIX_def ENVELOPE_PREFIX_def)
  then show ?thesis
    using decrypt_authentic [OF assms] by (auto simp: process_result_value_def decrypt_def split: sum.splits if_splits)
qed

section \<open>An instance of the cipher\<close>

definition toy_aead :: aead where
  "toy_aead = \<lparr>aead_encrypt = (\<lambda>k n m aad. m @ replicate 16 7),
     aead_decrypt = (\<lambda>k n c aad. if 16 \<le> length c \<and> drop (length c - 16) c = replicate 16 7
        then Some (take (length c - 16) c) else None)\<rparr>"

lemma toy_aead_ok: "aead_ok toy_aead"
proof -
  have "c = take (length c - 16) c @ replicate 16 7" if "drop (length c - 16) c = replicate 16 (7 :: byte)" for c
    using that by (metis append_take_drop_id)
  then show ?thesis by (auto simp: aead_ok_def toy_aead_def split: if_splits)
qed


theorem pii_fails_closed_witness:
  "(\<exists>m. process_result_value toy_aead (Inr []) (Some ''NSW12345'') = Inl (PIIDecryptionError m))
     \<and> (\<exists>e. process_result_value toy_aead (Inr []) (Some e) = Inr (Some ''x'') \<and> authentic toy_aead [] e ''x'')"
proof -
  have "\<not> startswith ''NSW12345'' ENVELOPE_PREFIX" by code_simp
  then have plain: "\<exists>m. process_result_value toy_aead (Inr []) (Some ''NSW12345'') = Inl (PIIDecryptionError m)"
    using pii_fails_closed [OF toy_aead_ok] by blast
  obtain e where e: "encrypt toy_aead [] (replicate 12 1) (Some ''x'') = Some e" by (auto simp: encrypt_def)
  have "process_result_value toy_aead (Inr []) (Some e) = Inr (Some ''x'')"
    using decrypt_encrypt [OF toy_aead_ok, of "replicate 12 1" "[]" "Some ''x''"] e
    by (simp add: process_result_value_def NONCE_BYTES_def)
  then show ?thesis using plain pii_fails_closed [OF toy_aead_ok] by blast
qed

end
