(* ===== verification/Sessions.thy ===== *)
theory Sessions
  imports Web
begin

text \<open>
  The identity of a request: the signed access tokens of \<^verbatim>\<open>app/security/jwt_helpers.py\<close> and the request
  hooks of \<^verbatim>\<open>app/__init__.py\<close> (\<open>_select_db_bind_for_request\<close>, \<open>_load_user_from_jwt\<close>,
  \<open>_maybe_set_refresh_cookie\<close>). \<open>flask.g\<close> is the record \<open>request_globals\<close>; the Flask-Login identity
  is \<open>g_login_user\<close> and, in the cookie session, \<open>s_user_id\<close>.

  PyJWT is a parameter: \<open>jwt_encode claims secret\<close> and \<open>jwt_decode now token secret\<close>, which answers
  \<open>None\<close> for every token the library refuses. The dates of a token are integers, as \<open>issue_token\<close>
  writes them; a token with fractional dates would need the secret to make.
\<close>

section \<open>Access tokens\<close>

record jwt_claims =
  jc_sub :: json
  jc_iat :: int
  jc_exp :: int
  jc_ver :: json

record jwt_lib =
  jwt_encode :: "jwt_claims \<Rightarrow> string \<Rightarrow> string"
  jwt_decode :: "int \<Rightarrow> string \<Rightarrow> string \<Rightarrow> jwt_claims option"

text \<open>
  Documented behaviour: a token decodes with the secret that signed it, to the claims it was made
  of, from its \<open>iat\<close> until just before its \<open>exp\<close>. Stated for the claims \<open>issue_token\<close> makes.
\<close>

definition jwt_lib_ok :: "jwt_lib \<Rightarrow> bool" where
  "jwt_lib_ok lib \<longleftrightarrow> (\<forall>s v iat ex k now.
     let c = \<lparr>jc_sub = JStr s, jc_iat = iat, jc_exp = ex, jc_ver = JInt v\<rparr> in
     jwt_encode lib c k \<noteq> [] \<and>
     jwt_decode lib now (jwt_encode lib c k) k = (if iat \<le> now \<and> now < ex then Some c else None))"

record token_env =
  te_jwt :: jwt_lib
  te_secret_key :: "string option"
  te_environ_secret :: "string option"
  te_lifetime :: int
  te_now :: timestamp

definition get_secret :: "token_env \<Rightarrow> runtime_error + string" where
  "get_secret env =
     (case or_else (te_secret_key env) (or_else (te_environ_secret env) None) of
        None \<Rightarrow> Inl (RuntimeError ''SECRET_KEY is required for JWT operations'')
      | Some k \<Rightarrow> Inr k)"

text \<open>\<open>int(time.time())\<close>.\<close>

definition epoch_seconds :: "timestamp \<Rightarrow> int" where
  "epoch_seconds t = t div 1000000"

definition issue_token :: "token_env \<Rightarrow> database \<Rightarrow> int \<Rightarrow> int option \<Rightarrow> runtime_error + string" where
  "issue_token env db user_id version =
     (case (case version of
              Some v \<Rightarrow> Inr v
            | None \<Rightarrow> (case get_user db user_id of
                         None \<Rightarrow> Inl (RuntimeError ''Cannot issue a session for an unknown user'')
                       | Some u \<Rightarrow> Inr (session_version u))) of
        Inl e \<Rightarrow> Inl e
      | Inr v \<Rightarrow>
          (let now = epoch_seconds (te_now env) in
           case get_secret env of
             Inl e \<Rightarrow> Inl e
           | Inr secret \<Rightarrow> Inr (jwt_encode (te_jwt env)
               \<lparr>jc_sub = JStr (show_int user_id), jc_iat = now, jc_exp = now + te_lifetime env, jc_ver = JInt v\<rparr> secret)))"

definition decode_token :: "token_env \<Rightarrow> string \<Rightarrow> jwt_claims option" where
  "decode_token env token =
     (case get_secret env of
        Inl _ \<Rightarrow> None
      | Inr secret \<Rightarrow> jwt_decode (te_jwt env) (epoch_seconds (te_now env)) token secret)"

section \<open>Request hooks\<close>

record request_globals =
  g_active_bind :: "string option"
  g_login_user :: "user option"
  g_clear_session_token :: bool
  g_clear_flask_session_cookie :: bool
  g_new_session_token :: "string option"

definition no_globals :: request_globals where
  "no_globals = \<lparr>g_active_bind = None, g_login_user = None, g_clear_session_token = False,
     g_clear_flask_session_cookie = False, g_new_session_token = None\<rparr>"

definition is_delegate :: "database \<Rightarrow> user \<Rightarrow> bool" where
  "is_delegate db u = has_role db u [''delegate'']"

definition login_user :: "user \<Rightarrow> web_session \<times> request_globals \<Rightarrow> web_session \<times> request_globals" where
  "login_user u sg = ((fst sg)\<lparr>s_user_id := Some (u_id u)\<rparr>, (snd sg)\<lparr>g_login_user := Some u\<rparr>)"

definition logout_user :: "web_session \<times> request_globals \<Rightarrow> web_session \<times> request_globals" where
  "logout_user sg = ((fst sg)\<lparr>s_user_id := None\<rparr>, (snd sg)\<lparr>g_login_user := None\<rparr>)"

text \<open>
  \<open>_select_db_bind_for_request\<close>: the identity of the cookie session counts in test mode only, where
  Flask-Login resolves it with the user loader.
\<close>

definition select_db_bind_for_request ::
  "bool \<Rightarrow> bool \<Rightarrow> database \<Rightarrow> web_session \<Rightarrow> request_globals \<Rightarrow> request_globals" where
  "select_db_bind_for_request binds testing db s g =
     (if \<not> binds then g\<lparr>g_active_bind := None\<rparr>
      else
        (case if testing then Option.bind (s_user_id s) (get_user db) else None of
           Some u \<Rightarrow> g\<lparr>g_active_bind := Some (if is_manager db u \<or> is_delegate db u then ''admin'' else ''voters'')\<rparr>
         | None \<Rightarrow> g\<lparr>g_active_bind := Some ''voters''\<rparr>))"

definition reject_session_token :: "web_session \<times> request_globals \<Rightarrow> web_session \<times> request_globals" where
  "reject_session_token sg =
     (empty_session, (snd (logout_user sg))\<lparr>g_clear_session_token := True, g_clear_flask_session_cookie := True\<rparr>)"

definition token_refused :: "jwt_claims \<Rightarrow> user \<Rightarrow> bool" where
  "token_refused claims u \<longleftrightarrow> lower (account_status u) = ''rejected'' \<or> jc_ver claims \<noteq> JInt (session_version u)"

text \<open>
  The claims and the user of a presented token: every way a token can be refused ends in
  \<open>reject_session_token\<close> and is \<open>None\<close> here.
\<close>

definition token_user :: "token_env \<Rightarrow> database \<Rightarrow> string \<Rightarrow> (jwt_claims \<times> user) option" where
  "token_user env db token =
     (case decode_token env token of
        None \<Rightarrow> None
      | Some claims \<Rightarrow>
          (case int_of_json (jc_sub claims) of
             Inl _ \<Rightarrow> None
           | Inr uid \<Rightarrow>
               (case get_user db uid of
                  None \<Rightarrow> None
                | Some u \<Rightarrow> if token_refused claims u then None else Some (claims, u))))"

text \<open>
  The user of an accepted token: an expired password only leads to the page that changes it; a
  token past half of its life is replaced.
\<close>

definition accept_session_token ::
  "token_env \<Rightarrow> string \<Rightarrow> database \<Rightarrow> jwt_claims \<Rightarrow> user \<Rightarrow> web_session \<times> request_globals
     \<Rightarrow> reply option \<times> web_session \<times> request_globals" where
  "accept_session_token env endpoint db claims u sg =
     (if is_password_expired (te_now env) 90 u
         \<and> endpoint \<notin> {''password.change_password'', ''auth.logout'', ''static''}
      then
        (let (s1, g1) = login_user u sg in
         (Some (Redirect ''password.change_password'' []),
          flash ''Your password has expired. Please change it to continue.'' ''warning'' s1, g1))
      else
        (let (s1, g1) = login_user u sg;
             g2 = g1\<lparr>g_active_bind := Some (if is_manager db u \<or> is_delegate db u then ''admin'' else ''voters'')\<rparr>;
             now = epoch_seconds (te_now env); lifetime = jc_exp claims - jc_iat claims in
         if lifetime > 0 \<and> jc_exp claims - now < lifetime div 2 \<and> \<not> is_password_expired (te_now env) 90 u
         then (case issue_token env db (u_id u) (Some (session_version u)) of
                 Inl _ \<Rightarrow> (Some (Abort 500), s1, g2)
               | Inr t \<Rightarrow> (None, s1, g2\<lparr>g_new_session_token := Some t\<rparr>))
         else (None, s1, g2)))"

text \<open>A reply of the hook ends the request; \<open>None\<close> lets it through to its handler.\<close>

definition load_user_from_jwt ::
  "token_env \<Rightarrow> bool \<Rightarrow> string \<Rightarrow> string option \<Rightarrow> database \<Rightarrow> web_session \<times> request_globals
     \<Rightarrow> reply option \<times> web_session \<times> request_globals" where
  "load_user_from_jwt env testing endpoint cookie db sg =
     (if endpoint = ''main.cast_anonymous_ballot''
      then (None, fst sg, (snd sg)\<lparr>g_active_bind := Some ''voters'', g_login_user := None\<rparr>)
      else
        (case or_else cookie None of
           None \<Rightarrow> (None, if \<not> testing \<and> s_user_id (fst sg) \<noteq> None then reject_session_token sg else sg)
         | Some token \<Rightarrow>
             (case token_user env db token of
                None \<Rightarrow> (None, reject_session_token sg)
              | Some (claims, u) \<Rightarrow> accept_session_token env endpoint db claims u sg)))"

datatype cookie_op =
    Set_cookie string string bool
  | Delete_cookie string

definition maybe_set_refresh_cookie :: "string \<Rightarrow> bool \<Rightarrow> request_globals \<Rightarrow> cookie_op list" where
  "maybe_set_refresh_cookie session_cookie_name secure g =
     (if g_clear_flask_session_cookie g then [Delete_cookie session_cookie_name] else [])
     @ (if g_clear_session_token g then [Delete_cookie ''session_token''] else [])
     @ (case or_else (g_new_session_token g) None of None \<Rightarrow> [] | Some t \<Rightarrow> [Set_cookie ''session_token'' t secure])"

section \<open>Lemmas\<close>

lemma reject_session_token_simps [simp]:
  "fst (reject_session_token sg) = empty_session"
  "g_login_user (snd (reject_session_token sg)) = None"
  "g_clear_session_token (snd (reject_session_token sg))"
  "g_clear_flask_session_cookie (snd (reject_session_token sg))"
  "g_active_bind (snd (reject_session_token sg)) = g_active_bind (snd sg)"
  "g_new_session_token (snd (reject_session_token sg)) = g_new_session_token (snd sg)"
  by (simp_all add: reject_session_token_def logout_user_def)

lemma login_user_eq: "login_user u (s, g) = (s\<lparr>s_user_id := Some (u_id u)\<rparr>, g\<lparr>g_login_user := Some u\<rparr>)"
  by (simp add: login_user_def)

text \<open>A request is identified by a live token of the user's current session version.\<close>

definition live_token :: "token_env \<Rightarrow> database \<Rightarrow> string option \<Rightarrow> user \<Rightarrow> bool" where
  "live_token env db cookie u \<longleftrightarrow> (\<exists>token claims. cookie = Some token \<and> decode_token env token = Some claims
     \<and> int_of_json (jc_sub claims) = Inr (u_id u) \<and> get_user db (u_id u) = Some u
     \<and> lower (account_status u) \<noteq> ''rejected'' \<and> jc_ver claims = JInt (session_version u))"

lemma token_user_SomeD:
  assumes "token_user env db token = Some (claims, u)"
  shows "live_token env db (Some token) u"
  using assms by (auto simp: token_user_def live_token_def token_refused_def dest: get_user_SomeD
      split: option.splits sum.splits if_splits)

lemma accept_session_token_effect:
  assumes "accept_session_token env endpoint db claims u sg = (r, s', g')"
  shows "g_login_user g' = Some u" and "s_user_id s' = Some (u_id u)"
    and "g_clear_session_token g' = g_clear_session_token (snd sg)"
    and "r = None \<Longrightarrow> g_active_bind g' = Some (if is_manager db u \<or> is_delegate db u then ''admin'' else ''voters'')"
    and "r = None \<Longrightarrow> is_password_expired (te_now env) 90 u \<Longrightarrow>
      endpoint \<in> {''password.change_password'', ''auth.logout'', ''static''}"
    and "g_active_bind g' = g_active_bind (snd sg)
      \<or> g_active_bind g' = Some (if is_manager db u \<or> is_delegate db u then ''admin'' else ''voters'')"
  using assms by (auto simp: accept_session_token_def login_user_def flash_def Let_def split: if_splits sum.splits)

lemma load_user_identity:
  assumes "load_user_from_jwt env False endpoint cookie db (s, no_globals) = (r, s', g')"
  shows "g_login_user g' = Some u \<Longrightarrow> live_token env db cookie u \<and> s_user_id s' = Some (u_id u)"
    and "g_login_user g' = None \<Longrightarrow> endpoint \<noteq> ''main.cast_anonymous_ballot'' \<Longrightarrow> s_user_id s' = None"
    and "g_active_bind g' = Some ''admin'' \<Longrightarrow> \<exists>u. g_login_user g' = Some u \<and> (is_manager db u \<or> is_delegate db u)"
proof -
  note run = assms [unfolded load_user_from_jwt_def fst_conv snd_conv]
  have some: "cookie = Some t" if "or_else cookie None = Some t" for t
    using that by (auto simp: or_else_def split: option.splits if_splits)
  have "(g_login_user g' = Some u \<longrightarrow> live_token env db cookie u \<and> s_user_id s' = Some (u_id u))
    \<and> (g_login_user g' = None \<longrightarrow> endpoint \<noteq> ''main.cast_anonymous_ballot'' \<longrightarrow> s_user_id s' = None)
    \<and> (g_active_bind g' = Some ''admin'' \<longrightarrow> (\<exists>u. g_login_user g' = Some u \<and> (is_manager db u \<or> is_delegate db u)))"
  proof (cases "\<exists>token claims v. or_else cookie None = Some token \<and> token_user env db token = Some (claims, v)
      \<and> endpoint \<noteq> ''main.cast_anonymous_ballot''")
    case True
    then obtain token claims v where t: "or_else cookie None = Some token" "token_user env db token = Some (claims, v)"
      "endpoint \<noteq> ''main.cast_anonymous_ballot''" by blast
    then have acc: "accept_session_token env endpoint db claims v (s, no_globals) = (r, s', g')" using run by simp
    show ?thesis
      using accept_session_token_effect [OF acc] token_user_SomeD [OF t(2)] some [OF t(1)]
      by (auto simp: no_globals_def split: if_splits)
  next
    case False
    have anon: "g_login_user (snd sg) = None \<and> s_user_id (fst sg) = None \<and> g_active_bind (snd sg) \<noteq> Some ''admin''"
      if "sg = reject_session_token (s, no_globals) \<or> sg = (s, no_globals) \<and> s_user_id s = None" for sg
      using that by (auto simp: no_globals_def empty_session_def)
    show ?thesis
    proof (cases "endpoint = ''main.cast_anonymous_ballot''")
      case True
      with run show ?thesis by (auto simp: no_globals_def)
    next
      case ep: False
      with run False have "(s', g') = reject_session_token (s, no_globals) \<or> (s', g') = (s, no_globals) \<and> s_user_id s = None"
        by (auto split: option.splits if_splits)
      with anon [of "(s', g')"] show ?thesis by auto
    qed
  qed
  then show "g_login_user g' = Some u \<Longrightarrow> live_token env db cookie u \<and> s_user_id s' = Some (u_id u)"
    and "g_login_user g' = None \<Longrightarrow> endpoint \<noteq> ''main.cast_anonymous_ballot'' \<Longrightarrow> s_user_id s' = None"
    and "g_active_bind g' = Some ''admin'' \<Longrightarrow> \<exists>u. g_login_user g' = Some u \<and> (is_manager db u \<or> is_delegate db u)"
    by blast+
qed

text \<open>
  C18: who a request acts for. Outside test mode the request hooks give a request the identity of a
  user only if its session cookie carries a token that verifies, names that user and has the
  user's present session version, and the user has not been rejected; a request without identity
  keeps none in its cookie session; the elevated database credential is chosen only for a manager
  or a delegate; ballots are always submitted without identity on the voters' credential; and a
  user whose password expired reaches no handler but the password change, logout and static files.
\<close>

theorem request_identity:
  assumes "load_user_from_jwt env False endpoint cookie db (s, no_globals) = (r, s', g')"
  shows "(\<forall>u. g_login_user g' = Some u \<longrightarrow> live_token env db cookie u \<and> s_user_id s' = Some (u_id u)
      \<and> (r = None \<and> is_password_expired (te_now env) 90 u \<longrightarrow>
           endpoint \<in> {''password.change_password'', ''auth.logout'', ''static''}))
    \<and> (g_active_bind g' = Some ''admin'' \<longrightarrow> (\<exists>u. g_login_user g' = Some u \<and> (is_manager db u \<or> is_delegate db u)))
    \<and> (if endpoint = ''main.cast_anonymous_ballot'' then g_login_user g' = None \<and> g_active_bind g' = Some ''voters''
       else g_login_user g' = None \<longrightarrow> s_user_id s' = None)"
proof -
  have expired: "endpoint \<in> {''password.change_password'', ''auth.logout'', ''static''}"
    if "g_login_user g' = Some u" "r = None" "is_password_expired (te_now env) 90 u" for u
  proof -
    have "\<exists>claims v. accept_session_token env endpoint db claims v (s, no_globals) = (r, s', g')"
      using assms that(1) by (auto simp: load_user_from_jwt_def no_globals_def reject_session_token_def logout_user_def
          split: if_splits option.splits)
    then obtain claims v where acc: "accept_session_token env endpoint db claims v (s, no_globals) = (r, s', g')" by blast
    show ?thesis using accept_session_token_effect(1,5) [OF acc] that by simp
  qed
  moreover have "g_login_user g' = None \<and> g_active_bind g' = Some ''voters''" if "endpoint = ''main.cast_anonymous_ballot''"
    using assms that by (auto simp: load_user_from_jwt_def)
  ultimately show ?thesis using load_user_identity [OF assms] by auto
qed

lemma issue_token_versioned:
  "issue_token env db uid (Some v) =
     map_sum (\<lambda>e. e) (jwt_encode (te_jwt env) \<lparr>jc_sub = JStr (show_int uid), jc_iat = epoch_seconds (te_now env),
       jc_exp = epoch_seconds (te_now env) + te_lifetime env, jc_ver = JInt v\<rparr>) (get_secret env)"
  by (simp add: issue_token_def Let_def split: sum.splits)

text \<open>A later request of the same application.\<close>

definition same_secret :: "token_env \<Rightarrow> token_env \<Rightarrow> bool" where
  "same_secret env env' \<longleftrightarrow> te_jwt env' = te_jwt env \<and> get_secret env' = get_secret env"

lemma issued_token_claims:
  assumes "jwt_lib_ok (te_jwt env)" and "issue_token env db uid (Some v) = Inr token" and "same_secret env env'"
  shows "token \<noteq> []"
    and "decode_token env' token = Some claims \<Longrightarrow> jc_ver claims = JInt v \<and> int_of_json (jc_sub claims) = Inr uid"
    and "epoch_seconds (te_now env) \<le> epoch_seconds (te_now env') \<Longrightarrow>
      epoch_seconds (te_now env') < epoch_seconds (te_now env) + te_lifetime env \<Longrightarrow> \<exists>claims. decode_token env' token = Some claims"
proof -
  obtain k where k: "get_secret env = Inr k" "token = jwt_encode (te_jwt env) \<lparr>jc_sub = JStr (show_int uid),
      jc_iat = epoch_seconds (te_now env), jc_exp = epoch_seconds (te_now env) + te_lifetime env, jc_ver = JInt v\<rparr> k"
    using assms(2) by (auto simp: issue_token_versioned map_sum_def split: sum.splits)
  have dec: "decode_token env' token = jwt_decode (te_jwt env) (epoch_seconds (te_now env')) token k"
    using assms(3) k(1) by (simp add: decode_token_def same_secret_def)
  note law = assms(1) [unfolded jwt_lib_ok_def Let_def, rule_format, of "show_int uid" "epoch_seconds (te_now env)"
      "epoch_seconds (te_now env) + te_lifetime env" v k "epoch_seconds (te_now env')", folded k(2)]
  show "token \<noteq> []" using law by blast
  show "jc_ver claims = JInt v \<and> int_of_json (jc_sub claims) = Inr uid" if "decode_token env' token = Some claims"
    using that law unfolding dec by (auto split: if_splits)
  show "\<exists>claims. decode_token env' token = Some claims"
    if "epoch_seconds (te_now env) \<le> epoch_seconds (te_now env')"
      "epoch_seconds (te_now env') < epoch_seconds (te_now env) + te_lifetime env"
    using law that unfolding dec by auto
qed

text \<open>
  A token identifies the user it was issued to until it expires, and is refused with its session as
  soon as the user's session version has changed.
\<close>

lemma fresh_token_identifies:
  assumes "jwt_lib_ok (te_jwt env)" and "issue_token env db0 (u_id u) (Some (session_version u)) = Inr token"
    and "same_secret env env'" and "epoch_seconds (te_now env) \<le> epoch_seconds (te_now env')"
    and "epoch_seconds (te_now env') < epoch_seconds (te_now env) + te_lifetime env"
    and "get_user db (u_id u) = Some u" and "lower (account_status u) \<noteq> ''rejected''"
  shows "\<exists>claims. token_user env' db token = Some (claims, u)"
proof -
  note t = issued_token_claims [OF assms(1,2,3)]
  obtain claims where "decode_token env' token = Some claims" using t(3) [OF assms(4,5)] by blast
  with t(2) [OF this] assms(6,7) show ?thesis by (simp add: token_user_def token_refused_def)
qed

lemma stale_token_refused:
  assumes "jwt_lib_ok (te_jwt env)" and "issue_token env db0 uid (Some v) = Inr token" and "same_secret env env'"
    and "\<And>u. get_user db uid = Some u \<Longrightarrow> session_version u \<noteq> v"
    and "endpoint \<noteq> ''main.cast_anonymous_ballot''"
  shows "load_user_from_jwt env' testing endpoint (Some token) db sg = (None, reject_session_token sg)"
proof -
  note t = issued_token_claims [OF assms(1,2,3)]
  have "token_user env' db token = None"
    using t(2) assms(4) by (auto simp: token_user_def token_refused_def split: option.splits sum.splits)
  then show ?thesis using t(1) assms(5) by (simp add: load_user_from_jwt_def or_else_def)
qed

section \<open>An instance of the token library\<close>

definition toy_encode :: "jwt_claims \<Rightarrow> string \<Rightarrow> string" where
  "toy_encode c k = dumps_utf8 (JObj [(''key'', JStr k), (''sub'', jc_sub c), (''iat'', JInt (jc_iat c)),
     (''exp'', JInt (jc_exp c)), (''ver'', jc_ver c)])"

definition toy_decode :: "int \<Rightarrow> string \<Rightarrow> string \<Rightarrow> jwt_claims option" where
  "toy_decode now token k =
     (case loads token of
        Some (JObj [(a, JStr k'), (b, sub), (c, JInt iat), (d, JInt ex), (e, ver)]) \<Rightarrow>
          if k' = k \<and> iat \<le> now \<and> now < ex
          then Some \<lparr>jc_sub = sub, jc_iat = iat, jc_exp = ex, jc_ver = ver\<rparr> else None
      | _ \<Rightarrow> None)"

definition toy_jwt :: jwt_lib where
  "toy_jwt = \<lparr>jwt_encode = toy_encode, jwt_decode = toy_decode\<rparr>"

lemma toy_jwt_ok: "jwt_lib_ok toy_jwt"
proof -
  have "json_ok (JObj [(''key'', JStr k), (''sub'', JStr s), (''iat'', JInt i), (''exp'', JInt e), (''ver'', JInt v)])"
    for k s i e v by simp
  note rt = loads_dumps_utf8 [OF this]
  have "toy_encode c k \<noteq> []" for c k by (simp add: toy_encode_def dumps_utf8_def)
  then show ?thesis by (simp add: jwt_lib_ok_def Let_def toy_jwt_def toy_decode_def toy_encode_def rt)
qed

definition demo_token_env :: "timestamp \<Rightarrow> token_env" where
  "demo_token_env now = \<lparr>te_jwt = toy_jwt, te_secret_key = Some ''k'', te_environ_secret = None,
     te_lifetime = 900, te_now = now\<rparr>"

lemma demo_same_secret: "same_secret (demo_token_env a) (demo_token_env b)"
  by (simp add: same_secret_def demo_token_env_def get_secret_def)

lemma demo_token_issued: "\<exists>t. issue_token (demo_token_env now) db uid (Some v) = Inr t"
  by (simp add: issue_token_versioned demo_token_env_def get_secret_def or_else_def)

theorem request_identity_witness:
  "\<exists>t r s' g'. load_user_from_jwt (demo_token_env 5) False ''main.dashboard'' (Some t) demo_db (empty_session, no_globals) = (r, s', g')
     \<and> g_login_user g' = Some demo_user \<and> live_token (demo_token_env 5) demo_db (Some t) demo_user \<and> r = None"
proof -
  have u: "get_user demo_db (u_id demo_user) = Some demo_user" "lower (account_status demo_user) \<noteq> ''rejected''"
    "\<not> is_password_expired 5 90 demo_user"
    by (simp add: get_user_def demo_db_def, simp add: demo_user_def, code_simp, code_simp)
  obtain t where t: "issue_token (demo_token_env 0) demo_db (u_id demo_user) (Some (session_version demo_user)) = Inr t"
    using demo_token_issued by blast
  have "\<exists>claims. token_user (demo_token_env 5) demo_db t = Some (claims, demo_user)"
    by (rule fresh_token_identifies [OF _ t demo_same_secret _ _ u(1,2)])
      (simp_all add: demo_token_env_def toy_jwt_ok epoch_seconds_def)
  then obtain claims where claims: "token_user (demo_token_env 5) demo_db t = Some (claims, demo_user)" by blast
  have "t \<noteq> []" using issued_token_claims(1) [OF _ t demo_same_secret] by (simp add: demo_token_env_def toy_jwt_ok)
  obtain r s' g' where run: "load_user_from_jwt (demo_token_env 5) False ''main.dashboard'' (Some t) demo_db
      (empty_session, no_globals) = (r, s', g')" by (metis prod_cases3)
  have acc: "accept_session_token (demo_token_env 5) ''main.dashboard'' demo_db claims demo_user (empty_session, no_globals) = (r, s', g')"
    using run claims \<open>t \<noteq> []\<close> by (simp add: load_user_from_jwt_def or_else_def)
  have "te_now (demo_token_env 5) = 5" by (simp add: demo_token_env_def)
  then have "r = None" using acc u(3) demo_token_issued [of 5 demo_db "u_id demo_user" "session_version demo_user"]
    by (auto simp: accept_session_token_def login_user_def Let_def split: if_splits sum.splits)
  then show ?thesis using run request_identity [OF run] accept_session_token_effect(1) [OF acc] by blast
qed

end
