(* ===== verification/Accounts.thy ===== *)
theory Accounts
  imports Sessions App_State
begin

text \<open>
  Account maintenance: \<^verbatim>\<open>app/routes/password.py\<close>, \<^verbatim>\<open>app/routes/password_reset.py\<close>,
  \<^verbatim>\<open>app/routes/registration.py\<close>, \<^verbatim>\<open>app/utils/public_url.py\<close> and \<^verbatim>\<open>app/routes/admin_users.py\<close>. Flashed
  messages are the second argument of the reply, and mails are values: a handler that sends one
  returns it. A message or page text is modelled without its pictographs.

  The serializer of \<open>itsdangerous\<close> is a parameter: \<open>sz_dumps secret salt now value\<close> and
  \<open>sz_loads secret salt now max_age token\<close>.
\<close>

section \<open>Timed signed links\<close>

datatype serial_exc = SignatureExpired | BadSignature

record serializer =
  sz_dumps :: "string \<Rightarrow> string \<Rightarrow> timestamp \<Rightarrow> json \<Rightarrow> string"
  sz_loads :: "string \<Rightarrow> string \<Rightarrow> timestamp \<Rightarrow> int \<Rightarrow> string \<Rightarrow> serial_exc + json"

text \<open>
  Documented behaviour: a token loads, with the secret and salt that signed it, to the value it was
  made of, until it is older than \<open>max_age\<close> seconds; and nothing loads that was not made with that
  secret and salt. Stated for values that JSON prints without loss.
\<close>

definition serializer_ok :: "serializer \<Rightarrow> bool" where
  "serializer_ok sz \<longleftrightarrow>
     (\<forall>k salt t v now age. json_ok v \<longrightarrow> sz_loads sz k salt now age (sz_dumps sz k salt t v) =
        (if epoch_seconds now - epoch_seconds t \<le> age then Inr v else Inl SignatureExpired))
     \<and> (\<forall>k salt now age token v. sz_loads sz k salt now age token = Inr v \<longrightarrow>
          (\<exists>t. token = sz_dumps sz k salt t v))"

record mail =
  m_to :: "string option"
  m_subject :: string
  m_content :: string

record account_env =
  ac_app :: app_env
  ac_token :: token_env
  ac_password :: password_lib
  ac_salt :: string
  ac_serializer :: serializer
  ac_secret :: string
  ac_public_base_url :: string
  ac_mail_works :: bool
  ac_pepper :: pepper_config

abbreviation ac_now :: "account_env \<Rightarrow> timestamp" where
  "ac_now env \<equiv> e_now (ac_app env)"

definition public_url_for :: "account_env \<Rightarrow> string \<Rightarrow> string" where
  "public_url_for env relative_url = ac_public_base_url env @ relative_url"

section \<open>Changing the password\<close>

definition change_password ::
  "account_env \<Rightarrow> user option \<Rightarrow> string option \<Rightarrow> string option \<Rightarrow> string option
     \<Rightarrow> app_state \<times> web_session \<times> request_globals \<Rightarrow> reply \<times> app_state \<times> web_session \<times> request_globals" where
  "change_password env current_user current_form new_form confirm_form full =
     login_required current_user full
       (\<lambda>u. let (st, sg) = full; page = (\<lambda>m. (Page ''change_password.html'' [m], full));
              arg = (\<lambda>v. case v of None \<Rightarrow> [] | Some s \<Rightarrow> s);
              current_password = arg current_form; new_password = arg new_form; confirm_password = arg confirm_form in
          if current_password = [] \<or> new_password = [] \<or> confirm_password = [] then page ''All fields are required''
          else if \<not> check_password (ac_password env) u current_password then page ''Current password is incorrect''
          else if check_password (ac_password env) u new_password
          then page ''New password must be different from current password''
          else if new_password \<noteq> confirm_password then page ''New passwords do not match''
          else
            (case validate_password_strength new_password of
               (is_valid, error_message) \<Rightarrow>
                 if \<not> is_valid then page (''Password validation failed: '' @ arg error_message)
                 else
                   (case set_password (ac_password env) (ac_salt env) (ac_now env) u new_password of
                      Inl (PasswordValidationError m) \<Rightarrow> page (''Password validation failed: '' @ m)
                    | Inr u' \<Rightarrow>
                        (case commit (update_user u' (a_db st)) of
                           None \<Rightarrow> page ''Password could not be changed. Please try again.''
                         | Some db' \<Rightarrow>
                             (case issue_token (ac_token env) db' (u_id u') (Some (session_version u')) of
                                Inl _ \<Rightarrow>
                                  (Redirect ''auth.login'' [''Password changed successfully. Please sign in again.''],
                                   st\<lparr>a_db := db'\<rparr>, fst (logout_user sg),
                                   (snd (logout_user sg))\<lparr>g_clear_session_token := True\<rparr>)
                              | Inr t \<Rightarrow>
                                  (Redirect ''main.dashboard'' [''Password changed successfully!''],
                                   st\<lparr>a_db := db'\<rparr>, fst sg, (snd sg)\<lparr>g_new_session_token := Some t\<rparr>))))))"

section \<open>Resetting the password\<close>

definition TOKEN_MAX_AGE :: int where
  "TOKEN_MAX_AGE = 1800"

definition reset_token :: "account_env \<Rightarrow> user \<Rightarrow> string" where
  "reset_token env u = sz_dumps (ac_serializer env) (ac_secret env) ''password-reset'' (ac_now env)
     (JObj [(''uid'', JInt (u_id u)), (''ver'', JInt (session_version u))])"

definition send_reset_email :: "account_env \<Rightarrow> user \<Rightarrow> mail option" where
  "send_reset_email env u =
     (if ac_mail_works env
      then Some \<lparr>m_to = email u, m_subject = ''SecureVote - Password Reset Request'',
             m_content = public_url_for env (''/reset-password/'' @ reset_token env u)\<rparr>
      else None)"

definition forgot_password :: "account_env \<Rightarrow> bool \<Rightarrow> string option \<Rightarrow> database \<Rightarrow> reply \<times> mail option" where
  "forgot_password env post email_form db =
     (if post then
        (let address = lower (strip (case email_form of None \<Rightarrow> [] | Some s \<Rightarrow> s)) in
         (Redirect ''auth.login'' [''If an account with that email exists, a password reset link has been sent.''],
          if address = [] then None
          else Option.bind (find (\<lambda>u. email u = Some address) (users db)) (send_reset_email env)))
      else (Page ''forgot_password.html'' [], None))"

text \<open>What the token of a link says: the user's id and session version, both plain integers.\<close>

definition reset_claims :: "account_env \<Rightarrow> string \<Rightarrow> string + int \<times> int" where
  "reset_claims env token =
     (case sz_loads (ac_serializer env) (ac_secret env) ''password-reset'' (ac_now env) TOKEN_MAX_AGE token of
        Inl SignatureExpired \<Rightarrow> Inl ''This reset link has expired. Please request a new one.''
      | Inl BadSignature \<Rightarrow> Inl ''Invalid reset link.''
      | Inr (JObj kvs) \<Rightarrow>
          (case (dict_get kvs ''uid'', dict_get kvs ''ver'') of
             (JInt uid, JInt ver) \<Rightarrow> Inr (uid, ver)
           | _ \<Rightarrow> Inl ''Invalid reset link.'')
      | Inr _ \<Rightarrow> Inl ''Invalid reset link.'')"

text \<open>
  The last part of the handler, under the lock on the user row: the version is compared again, so
  that a request that was checked earlier finds out when another one used the link first.
\<close>

definition commit_reset ::
  "account_env \<Rightarrow> int \<Rightarrow> int \<Rightarrow> string \<Rightarrow> app_state \<Rightarrow> reply \<times> app_state" where
  "commit_reset env user_id token_version new_password st =
     (let refuse = (Redirect ''password_reset.forgot_password'' [''Invalid reset link.''], st) in
      case get_user (a_db st) user_id of
        None \<Rightarrow> refuse
      | Some u \<Rightarrow>
          if session_version u \<noteq> token_version then refuse
          else
            (case set_password (ac_password env) (ac_salt env) (ac_now env) u new_password of
               Inl _ \<Rightarrow> (Abort 500, st)
             | Inr u' \<Rightarrow>
                 (case commit (update_user (u'\<lparr>failed_login_attempts := 0, account_locked_until := None\<rparr>) (a_db st)) of
                    None \<Rightarrow> (Abort 500, st)
                  | Some db' \<Rightarrow>
                      (Redirect ''auth.login'' [''Your password has been reset. Please log in.''], st\<lparr>a_db := db'\<rparr>))))"

definition check_reset ::
  "account_env \<Rightarrow> string \<Rightarrow> (string option \<times> string option) option \<Rightarrow> database \<Rightarrow> reply + int \<times> int \<times> string" where
  "check_reset env token form db =
     (let to_forgot = (\<lambda>m. Inl (Redirect ''password_reset.forgot_password'' [m]));
          page = (\<lambda>ms. Inl (Page ''reset_password.html'' ms)) in
      case reset_claims env token of
        Inl m \<Rightarrow> to_forgot m
      | Inr (user_id, token_version) \<Rightarrow>
          (case get_user db user_id of
             None \<Rightarrow> to_forgot ''Invalid reset link.''
           | Some u \<Rightarrow>
               if session_version u \<noteq> token_version then to_forgot ''Invalid reset link.''
               else
                 (case form of
                    None \<Rightarrow> page []
                  | Some (new_form, confirm_form) \<Rightarrow>
                      (let arg = (\<lambda>v. case v of None \<Rightarrow> [] | Some s \<Rightarrow> s);
                           new_password = arg new_form; confirm_password = arg confirm_form in
                       if new_password = [] \<or> confirm_password = [] then page [''All fields are required.'']
                       else if new_password \<noteq> confirm_password then page [''Passwords do not match.'']
                       else
                         (case validate_password_strength new_password of
                            (is_valid, error_message) \<Rightarrow>
                              if \<not> is_valid then page [''Password too weak: '' @ arg error_message]
                              else Inr (user_id, token_version, new_password))))))"

definition reset_password ::
  "account_env \<Rightarrow> string \<Rightarrow> (string option \<times> string option) option \<Rightarrow> app_state \<Rightarrow> reply \<times> app_state" where
  "reset_password env token form st =
     (case check_reset env token form (a_db st) of
        Inl r \<Rightarrow> (r, st)
      | Inr (user_id, token_version, new_password) \<Rightarrow> commit_reset env user_id token_version new_password st)"

section \<open>Verifying the mail address\<close>

definition VERIFY_TOKEN_MAX_AGE :: int where
  "VERIFY_TOKEN_MAX_AGE = 86400"

definition verify_token :: "account_env \<Rightarrow> user \<Rightarrow> string" where
  "verify_token env u = sz_dumps (ac_serializer env) (ac_secret env) ''email-verify'' (ac_now env)
     (case email u of None \<Rightarrow> JNull | Some a \<Rightarrow> JStr a)"

definition send_verification_email :: "account_env \<Rightarrow> user \<Rightarrow> mail option" where
  "send_verification_email env u =
     (if ac_mail_works env
      then Some \<lparr>m_to = email u, m_subject = ''SecureVote - Verify Your Email'',
             m_content = public_url_for env (''/verify-email/'' @ verify_token env u)\<rparr>
      else None)"

definition verify_email :: "account_env \<Rightarrow> string \<Rightarrow> app_state \<Rightarrow> reply \<times> app_state" where
  "verify_email env token st =
     (let to_login = (\<lambda>m s. (Redirect ''auth.login'' [m], s)) in
      case sz_loads (ac_serializer env) (ac_secret env) ''email-verify'' (ac_now env) VERIFY_TOKEN_MAX_AGE token of
        Inl SignatureExpired \<Rightarrow> to_login ''Verification link has expired. Please request a new link.'' st
      | Inl BadSignature \<Rightarrow> to_login ''Invalid verification link.'' st
      | Inr value \<Rightarrow>
          (case find (\<lambda>u. case value of JStr a \<Rightarrow> email u = Some a | JNull \<Rightarrow> email u = None | _ \<Rightarrow> False)
                  (users (a_db st)) of
             None \<Rightarrow> to_login ''Invalid verification link.'' st
           | Some u \<Rightarrow>
               if email_verified u then to_login ''Email already verified. Please log in.'' st
               else
                 (case commit (update_user (u\<lparr>email_verified := True\<rparr>) (a_db st)) of
                    None \<Rightarrow> (Abort 500, st)
                  | Some db' \<Rightarrow>
                      to_login ''Email verified successfully! Your account is pending admin approval.'' (st\<lparr>a_db := db'\<rparr>))))"

definition resend_verification :: "account_env \<Rightarrow> bool \<Rightarrow> string option \<Rightarrow> database \<Rightarrow> reply \<times> mail option" where
  "resend_verification env post email_form db =
     (if post then
        (let address = lower (strip (case email_form of None \<Rightarrow> [] | Some s \<Rightarrow> s)) in
         (Redirect ''auth.login''
            [''If a pending unverified account exists for that address, a new verification link has been sent.''],
          if address = [] then None
          else Option.bind
                 (find (\<lambda>u. email u = Some address \<and> \<not> email_verified u \<and> account_status u = ''pending'') (users db))
                 (send_verification_email env)))
      else (Page ''resend_verification.html'' [], None))"

section \<open>Administration of users\<close>

definition to_users :: "string \<Rightarrow> reply" where
  "to_users m = Redirect ''admin_users.manage_users'' [m]"

definition approve_user :: "account_env \<Rightarrow> user option \<Rightarrow> int \<Rightarrow> app_state \<Rightarrow> reply \<times> app_state" where
  "approve_user env current_user user_id st =
     admin_only (a_db st) current_user st
       (\<lambda>admin. case get_user (a_db st) user_id of
          None \<Rightarrow> (Abort 404, st)
        | Some u \<Rightarrow>
            if \<not> email_verified u
            then (to_users (''User '' @ [CHR 0x27] @ username u @ [CHR 0x27] @ '' must verify their email before approval.''), st)
            else
              (let db1 = update_user (u\<lparr>account_status := ''approved''\<rparr>) (a_db st);
                   pending = (case enrolment_of db1 (u_id u) of
                                None \<Rightarrow> Inr db1
                              | Some r \<Rightarrow>
                                  (case roll_set_lic_hash (ac_pepper env) (r\<lparr>er_status := ''active'', verified := True\<rparr>) of
                                     Inl e \<Rightarrow> Inl e
                                   | Inr r' \<Rightarrow> Inr (update_roll r' db1))) in
               case pending of
                 Inl _ \<Rightarrow> (Abort 500, st)
               | Inr db2 \<Rightarrow>
                   (case commit db2 of
                      None \<Rightarrow> (Abort 500, st)
                    | Some db' \<Rightarrow>
                        (to_users (''User '' @ [CHR 0x27] @ username u @ [CHR 0x27] @ '' approved.''),
                         audit_action (ac_app env) (Some (u_id admin)) ''user.approve'' ''user'' (u_id u) (st\<lparr>a_db := db'\<rparr>)))))"

definition reject_user :: "account_env \<Rightarrow> user option \<Rightarrow> int \<Rightarrow> app_state \<Rightarrow> reply \<times> app_state" where
  "reject_user env current_user user_id st =
     admin_only (a_db st) current_user st
       (\<lambda>admin. case get_user (a_db st) user_id of
          None \<Rightarrow> (Abort 404, st)
        | Some u \<Rightarrow>
            (case commit (update_user (u\<lparr>account_status := ''rejected'', session_version := session_version u + 1\<rparr>) (a_db st)) of
               None \<Rightarrow> (Abort 500, st)
             | Some db' \<Rightarrow>
                 (to_users (''User '' @ [CHR 0x27] @ username u @ [CHR 0x27] @ '' rejected.''),
                  audit_action (ac_app env) (Some (u_id admin)) ''user.reject'' ''user'' (u_id u) (st\<lparr>a_db := db'\<rparr>))))"

definition unlock_user :: "user option \<Rightarrow> int \<Rightarrow> app_state \<Rightarrow> reply \<times> app_state" where
  "unlock_user current_user user_id st =
     admin_only (a_db st) current_user st
       (\<lambda>admin. case get_user (a_db st) user_id of
          None \<Rightarrow> (Abort 404, st)
        | Some u \<Rightarrow>
            (case commit (update_user (u\<lparr>failed_login_attempts := 0, account_locked_until := None\<rparr>) (a_db st)) of
               None \<Rightarrow> (Abort 500, st)
             | Some db' \<Rightarrow>
                 (to_users (''Account '' @ [CHR 0x27] @ username u @ [CHR 0x27] @ '' has been unlocked.''), st\<lparr>a_db := db'\<rparr>)))"

section \<open>Listings\<close>

definition get_safe_page_limit :: "string option \<Rightarrow> int \<Rightarrow> int" where
  "get_safe_page_limit request_limit max_limit =
     (case or_else request_limit None of
        None \<Rightarrow> 20
      | Some s \<Rightarrow>
          (case py_int 10 s of
             None \<Rightarrow> 20
           | Some requested_limit \<Rightarrow>
               if requested_limit < 1 then 10
               else if requested_limit > 40 then 40
               else min requested_limit (min max_limit 40)))"

text \<open>
  A listing: the rows of the query in order and the page asked for, as they go to the paginator of
  Flask-SQLAlchemy, which is not part of the sources. Rows with equal sort keys keep the table order.
\<close>

record 'r listing =
  l_rows :: "'r list"
  l_page :: int
  l_per_page :: int

text \<open>\<open>request.args.get('page', 1, type=int)\<close>.\<close>

definition page_arg :: "string option \<Rightarrow> int" where
  "page_arg v = (case v of None \<Rightarrow> 1 | Some s \<Rightarrow> (case py_int 10 s of None \<Rightarrow> 1 | Some i \<Rightarrow> i))"

definition newest_first :: "('r \<Rightarrow> timestamp) \<Rightarrow> 'r list \<Rightarrow> 'r list" where
  "newest_first created rs = sort_key (\<lambda>r. - created r) rs"

definition manage_users ::
  "database \<Rightarrow> user option \<Rightarrow> string option \<Rightarrow> string option \<Rightarrow> string option
     \<Rightarrow> reply \<times> (user listing \<times> nat \<times> nat \<times> nat) option" where
  "manage_users db current_user page per_page category =
     admin_only db current_user None
       (\<lambda>_. let cat = (case category of None \<Rightarrow> ''all'' | Some c \<Rightarrow> c);
               having = (\<lambda>s. filter (\<lambda>u. account_status u = s) (users db));
               rows = (if cat \<in> {''pending'', ''approved'', ''rejected''} then having cat else users db) in
            (Page ''admin_users.html'' [],
             Some (\<lparr>l_rows = newest_first u_created_at rows, l_page = page_arg page,
                    l_per_page = get_safe_page_limit per_page 40\<rparr>,
                   length (having ''pending''), length (having ''approved''), length (having ''rejected''))))"

text \<open>SQL \<open>LIKE\<close>; \<open>ilike\<close> compares both sides in lower case.\<close>

fun like :: "string \<Rightarrow> string \<Rightarrow> bool" where
  "like [] s \<longleftrightarrow> s = []"
| "like (p # ps) [] \<longleftrightarrow> p = CHR ''%'' \<and> like ps []"
| "like (p # ps) (c # cs) \<longleftrightarrow>
     (if p = CHR ''%'' then like ps (c # cs) \<or> like (p # ps) cs
      else if p = CHR ''_'' then like ps cs
      else p = c \<and> like ps cs)"

definition ilike :: "string option \<Rightarrow> string \<Rightarrow> bool" where
  "ilike v pattern = (case v of None \<Rightarrow> False | Some s \<Rightarrow> like (lower pattern) (lower s))"

definition manage_voters ::
  "database \<Rightarrow> user option \<Rightarrow> string option \<Rightarrow> string option \<Rightarrow> string option \<Rightarrow> string option
     \<Rightarrow> reply \<times> (user \<times> electoral_roll option) listing option" where
  "manage_voters db current_user page per_page search_form status_form =
     admin_only db current_user None
       (\<lambda>_. let search = strip (case search_form of None \<Rightarrow> [] | Some s \<Rightarrow> s);
               status_filter = (case status_form of None \<Rightarrow> ''all'' | Some s \<Rightarrow> s);
               pattern = ''%'' @ search @ ''%'';
               joined = map (\<lambda>u. (u, enrolment_of db (u_id u))) (filter (\<lambda>u. has_role db u [''voter'']) (users db));
               found = (if search = [] then joined
                        else filter (\<lambda>(u, r). ilike (Some (username u)) pattern \<or> ilike (email u) pattern
                               \<or> ilike (map_option roll_number r) pattern) joined);
               rows = (if status_filter = ''active'' then filter (\<lambda>(u, r). account_status u = ''approved'') found
                       else if status_filter = ''pending'' then filter (\<lambda>(u, r). account_status u = ''pending'') found
                       else if status_filter = ''rejected'' then filter (\<lambda>(u, r). account_status u = ''rejected'') found
                       else found) in
            (Page ''admin_voters.html'' [],
             Some \<lparr>l_rows = newest_first (\<lambda>(u, r). u_created_at u) rows, l_page = page_arg page,
                   l_per_page = get_safe_page_limit per_page 40\<rparr>))"

definition region_named :: "database \<Rightarrow> int \<Rightarrow> string \<Rightarrow> bool" where
  "region_named db gid name \<longleftrightarrow> list_ex (\<lambda>g. g_id g = gid \<and> g_name g = name) (regions db)"

definition manage_candidates ::
  "database \<Rightarrow> user option \<Rightarrow> string option \<Rightarrow> string option \<Rightarrow> string option \<Rightarrow> string option
     \<Rightarrow> reply \<times> (candidate listing \<times> string list) option" where
  "manage_candidates db current_user page per_page search_form party_form =
     admin_only db current_user None
       (\<lambda>_. let search = strip (case search_form of None \<Rightarrow> [] | Some s \<Rightarrow> s);
               party_filter = (case party_form of None \<Rightarrow> ''all'' | Some s \<Rightarrow> s);
               pattern = ''%'' @ search @ ''%'';
               joined = filter (\<lambda>c. c_region_id c \<in> region_ids db) (candidates db);
               found = (if search = [] then joined
                        else filter (\<lambda>c. ilike (Some (c_name c)) pattern \<or> ilike (party c) pattern
                               \<or> ilike (Some (c_position c)) pattern \<or> region_named db (c_region_id c) pattern) joined);
               rows = (if party_filter = ''all'' then found else filter (\<lambda>c. party c = Some party_filter) found);
               parties = filter (\<lambda>p. p \<noteq> []) (sort_key (map ord) (remdups (present (map party (candidates db))))) in
            (Page ''admin_candidates.html'' [],
             Some (\<lparr>l_rows = sort_key (\<lambda>c. map ord (c_name c)) rows, l_page = page_arg page,
                    l_per_page = get_safe_page_limit per_page 40\<rparr>, parties)))"

section \<open>Effects on the user table\<close>

text \<open>An update that keeps the columns under a constraint keeps the constraints.\<close>

definition same_identity :: "user \<Rightarrow> user \<Rightarrow> bool" where
  "same_identity u u' \<longleftrightarrow> u_id u' = u_id u \<and> username u' = username u \<and> email u' = email u
     \<and> driver_lic_hash u' = driver_lic_hash u \<and> u_role_id u' = u_role_id u"

lemma update_user_ok:
  assumes "db_ok db" and "get_user db (u_id u) = Some u" and "same_identity u u'"
  shows "db_ok (update_user u' db)"
proof -
  have uniq: "unique_on u_id (users db)" using assms(1) by (simp add: db_ok_def users_ok_def)
  have same: "x = u" if "x \<in> set (users db)" "u_id x = u_id u'" for x
    using unique_on_eqD [OF uniq that(1), of u] get_user_SomeD [OF assms(2)] that(2) assms(3) by (simp add: same_identity_def)
  let ?us = "update_where (\<lambda>x. u_id x = u_id u') (\<lambda>_. u') (users db)"
  have keys: "map u_id ?us = map u_id (users db)" "map username ?us = map username (users db)"
    "map email ?us = map email (users db)" "map driver_lic_hash ?us = map driver_lic_hash (users db)"
    "map u_role_id ?us = map u_role_id (users db)"
    using same assms(3) by (auto simp: update_where_def same_identity_def)
  have ids: "user_ids (update_user u' db) = user_ids db"
    using arg_cong [OF keys(1), of set] by (simp add: user_ids_def update_user_def)
  have old: "u \<in> set (users db)" using get_user_SomeD [OF assms(2)] by simp
  have "list_all (\<lambda>u. driver_lic_hash u \<noteq> None) ?us" "list_all (\<lambda>u. u_role_id u \<in> role_ids db) ?us"
    using assms(1,3) old by (auto simp: db_ok_def users_ok_def refs_ok_def list_all_iff in_update_where_const same_identity_def)
  then have "users_ok (update_user u' db)"
    using assms(1) keys by (simp add: db_ok_def users_ok_def refs_ok_def update_user_def role_ids_def)
  with assms(1) ids show ?thesis
    by (simp add: db_ok_def roles_ok_def regions_ok_def electoral_rolls_ok_def elections_ok_def candidates_ok_def
        votes_ok_def vote_receipts_ok_def blind_tokens_ok_def nullifiers_ok_def result_keys_ok_def signed_results_ok_def
        otp_challenges_ok_def region_ids_def election_ids_def)
qed

lemma same_identity_simps [simp]:
  "same_identity u (u\<lparr>account_status := a\<rparr>)" "same_identity u (u\<lparr>email_verified := b\<rparr>)"
  "same_identity u (u\<lparr>account_status := a, session_version := v\<rparr>)"
  "same_identity u (u\<lparr>failed_login_attempts := n, account_locked_until := l\<rparr>)"
  by (simp_all add: same_identity_def)

lemma same_identity_trans: "same_identity u v \<Longrightarrow> same_identity v w \<Longrightarrow> same_identity u w"
  by (simp add: same_identity_def)

lemma set_password_keeps:
  assumes "set_password lib salt now u p = Inr u'"
  shows "same_identity u u'" and "session_version u' = session_version u + 1"
    and "account_status u' = account_status u" and "email_verified u' = email_verified u"
  using assms by (auto simp: set_password_cases same_identity_def split: if_splits)

lemma get_user_after_update:
  assumes "get_user db (u_id u) = Some v" and "u_id u' = u_id u"
  shows "get_user (update_user u' db) (u_id u) = Some u'"
  using assms by (simp add: get_user_update)

lemma change_password_effect:
  assumes "change_password env cu cur new conf (st, sg) = (r, st', sg')" and "st' \<noteq> st"
  obtains u u' p where "cu = Some u" and "set_password (ac_password env) (ac_salt env) (ac_now env) u p = Inr u'"
    and "a_db st' = update_user u' (a_db st)" and "db_ok (a_db st')"
  using assms
  by (auto simp: change_password_def login_required_def Let_def commit_Some_iff
      split: option.splits if_splits prod.splits sum.splits password_error.splits)

lemma commit_reset_cases:
  assumes "commit_reset env uid ver p st = (r, st')" and "db_ok (a_db st)"
  shows "(st' = st \<and> r \<noteq> Redirect ''auth.login'' m) \<or>
    (\<exists>u u'. get_user (a_db st) uid = Some u \<and> session_version u = ver
       \<and> set_password (ac_password env) (ac_salt env) (ac_now env) u p = Inr u' \<and> a_db st' = update_user u' (a_db st)
       \<and> db_ok (a_db st'))"
proof -
  have "u'\<lparr>failed_login_attempts := 0, account_locked_until := None\<rparr> = u'"
    if "set_password (ac_password env) (ac_salt env) (ac_now env) u p = Inr u'" for u u'
    using that by (auto simp: set_password_cases split: if_splits)
  then show ?thesis
    using assms by (auto simp: commit_reset_def Let_def commit_Some_iff split: option.splits if_splits sum.splits)
qed

lemma reject_user_effect:
  assumes "reject_user env cu uid st = (r, st')" and "st' \<noteq> st"
  obtains u admin where "cu = Some admin" and "is_manager (a_db st) admin" and "get_user (a_db st) uid = Some u"
    and "a_db st' = update_user (u\<lparr>account_status := ''rejected'', session_version := session_version u + 1\<rparr>) (a_db st)"
    and "db_ok (a_db st')"
  using assms
  by (auto simp: reject_user_def admin_only_def login_required_def commit_Some_iff split: option.splits if_splits)

lemma verify_email_effect:
  assumes "verify_email env token st = (r, st')" and "st' \<noteq> st"
  obtains u claim where "u \<in> set (users (a_db st))" and "a_db st' = update_user (u\<lparr>email_verified := True\<rparr>) (a_db st)"
    and "db_ok (a_db st')" and "claim = (case email u of None \<Rightarrow> JNull | Some a \<Rightarrow> JStr a)"
    and "sz_loads (ac_serializer env) (ac_secret env) ''email-verify'' (ac_now env) VERIFY_TOKEN_MAX_AGE token = Inr claim"
proof -
  obtain claim u where v: "sz_loads (ac_serializer env) (ac_secret env) ''email-verify'' (ac_now env) VERIFY_TOKEN_MAX_AGE token = Inr claim"
    "find (\<lambda>u. case claim of JStr a \<Rightarrow> email u = Some a | JNull \<Rightarrow> email u = None | _ \<Rightarrow> False) (users (a_db st)) = Some u"
    "a_db st' = update_user (u\<lparr>email_verified := True\<rparr>) (a_db st)" "db_ok (a_db st')"
    using assms by (auto simp: verify_email_def Let_def commit_Some_iff split: sum.splits serial_exc.splits option.splits if_splits)
  have "claim = (case email u of None \<Rightarrow> JNull | Some a \<Rightarrow> JStr a)"
    using find_Some_in [OF v(2)] by (auto split: json.splits)
  with v find_Some_in [OF v(2)] that show ?thesis by blast
qed

lemma approve_user_effect:
  assumes "approve_user env cu uid st = (r, st')" and "st' \<noteq> st"
  obtains u admin rs where "cu = Some admin" and "is_manager (a_db st) admin" and "get_user (a_db st) uid = Some u"
    and "email_verified u"
    and "a_db st' = (update_user (u\<lparr>account_status := ''approved''\<rparr>) (a_db st))\<lparr>electoral_rolls := rs\<rparr>" and "db_ok (a_db st')"
proof -
  have keep: "update_user v db = (update_user v db)\<lparr>electoral_rolls := electoral_rolls db\<rparr>" for v db
    by (simp add: update_user_def)
  have roll: "\<exists>rs. update_roll r' db = db\<lparr>electoral_rolls := rs\<rparr>" for r' db by (auto simp: update_roll_def)
  obtain u admin where u: "cu = Some admin" "is_manager (a_db st) admin" "get_user (a_db st) uid = Some u" "email_verified u"
    "\<exists>rs. a_db st' = (update_user (u\<lparr>account_status := ''approved''\<rparr>) (a_db st))\<lparr>electoral_rolls := rs\<rparr>" "db_ok (a_db st')"
    using assms keep roll
    by (auto simp: approve_user_def admin_only_def login_required_def Let_def commit_Some_iff
        split: option.splits if_splits sum.splits) (metis keep)+
  then show ?thesis using that by blast
qed

lemma unlock_user_effect:
  assumes "unlock_user cu uid st = (r, st')" and "st' \<noteq> st"
  obtains u where "get_user (a_db st) uid = Some u" and "db_ok (a_db st')"
    and "a_db st' = update_user (u\<lparr>failed_login_attempts := 0, account_locked_until := None\<rparr>) (a_db st)"
  using assms
  by (auto simp: unlock_user_def admin_only_def login_required_def commit_Some_iff split: option.splits if_splits)

section \<open>Credentials end with the session version\<close>

definition revoked :: "int \<Rightarrow> int \<Rightarrow> database \<Rightarrow> bool" where
  "revoked uid v db \<longleftrightarrow> (\<forall>u. get_user db uid = Some u \<longrightarrow> v < session_version u)"

text \<open>The requests that end the sessions of \<open>u\<close>: a password change, a reset by link, a rejection.\<close>

definition credential_change :: "account_env \<Rightarrow> user \<Rightarrow> app_state \<Rightarrow> app_state \<Rightarrow> bool" where
  "credential_change env u st st' \<longleftrightarrow> st' \<noteq> st \<and>
     ((\<exists>cur new conf sg r sg'. change_password env (Some u) cur new conf (st, sg) = (r, st', sg'))
      \<or> (\<exists>ver p r. commit_reset env (u_id u) ver p st = (r, st'))
      \<or> (\<exists>cu r. reject_user env cu (u_id u) st = (r, st')))"

lemma revoked_update:
  assumes "get_user db uid = Some u" and "u_id u' = uid" and "v < session_version u'"
  shows "revoked uid v (update_user u' db)"
  using assms by (simp add: revoked_def get_user_update)

lemma credential_change_revokes:
  assumes "credential_change env u st st'" and "get_user (a_db st) (u_id u) = Some u" and "db_ok (a_db st)"
    and "v \<le> session_version u"
  shows "revoked (u_id u) v (a_db st')"
proof -
  have new: "st' \<noteq> st" using assms(1) by (simp add: credential_change_def)
  have pw: "revoked (u_id u) v (a_db st')"
    if "set_password (ac_password env) (ac_salt env) (ac_now env) u p = Inr u'" "a_db st' = update_user u' (a_db st)" for p u'
    unfolding that(2) using set_password_keeps [OF that(1)] assms(4)
    by (intro revoked_update [OF assms(2)]) (simp_all add: same_identity_def)
  consider cur nw conf sg r sg' where "change_password env (Some u) cur nw conf (st, sg) = (r, st', sg')"
    | ver p r where "commit_reset env (u_id u) ver p st = (r, st')"
    | cu r where "reject_user env cu (u_id u) st = (r, st')"
    using assms(1) unfolding credential_change_def by blast
  then show ?thesis
  proof cases
    case 1
    show ?thesis by (rule change_password_effect [OF 1 new]) (use pw in auto)
  next
    case 2
    show ?thesis using commit_reset_cases [OF 2 assms(3)] new assms(2) pw by auto
  next
    case 3
    show ?thesis
      by (rule reject_user_effect [OF 3 new]) (use assms(2,4) in \<open>auto intro!: revoked_update\<close>)
  qed
qed

lemma reset_claims_of_link:
  assumes "serializer_ok (ac_serializer env)" and "ac_serializer env' = ac_serializer env" and "ac_secret env' = ac_secret env"
  shows "reset_claims env' (reset_token env u) =
    (if epoch_seconds (ac_now env') - epoch_seconds (ac_now env) \<le> TOKEN_MAX_AGE
     then Inr (u_id u, session_version u) else Inl ''This reset link has expired. Please request a new one.'')"
proof -
  have "json_ok (JObj [(''uid'', JInt (u_id u)), (''ver'', JInt (session_version u))])" by simp
  with assms show ?thesis
    by (simp add: reset_claims_def reset_token_def serializer_ok_def dict_get_def)
qed

lemma reset_refused_when_revoked:
  assumes "revoked uid v db" and "reset_claims env token = Inr (uid, v)"
  shows "check_reset env token form db = Inl (Redirect ''password_reset.forgot_password'' [''Invalid reset link.''])"
  using assms by (auto simp: check_reset_def revoked_def Let_def split: option.splits)

text \<open>
  C20: a password change, a reset and a rejection end every credential issued before. Whatever access
  token was issued to the user under an earlier or the present session version, and whatever reset
  link was mailed, after the request every later request that presents the token loses its whole
  session and both cookies and acts for nobody, and the link is refused; requests that were checked
  before and commit after it are refused too.
\<close>

theorem credentials_revoked:
  assumes "credential_change env u st st'" and "get_user (a_db st) (u_id u) = Some u" and "db_ok (a_db st)"
    and "jwt_lib_ok (te_jwt tenv)" and "issue_token tenv db0 (u_id u) (Some v) = Inr token" and "same_secret tenv tenv'"
    and "v \<le> session_version u" and "endpoint \<noteq> ''main.cast_anonymous_ballot''"
    and "reset_claims env' link = Inr (u_id u, w)" and "w \<le> session_version u"
  shows "load_user_from_jwt tenv' testing endpoint (Some token) (a_db st') sg = (None, reject_session_token sg)
    \<and> check_reset env' link form (a_db st') = Inl (Redirect ''password_reset.forgot_password'' [''Invalid reset link.''])
    \<and> commit_reset env' (u_id u) w p st' = (Redirect ''password_reset.forgot_password'' [''Invalid reset link.''], st')"
proof -
  note rev = credential_change_revokes [OF assms(1-3)]
  have "load_user_from_jwt tenv' testing endpoint (Some token) (a_db st') sg = (None, reject_session_token sg)"
    using rev [OF assms(7)] by (intro stale_token_refused [OF assms(4-6) _ assms(8)]) (auto simp: revoked_def)
  moreover have "commit_reset env' (u_id u) w p st' = (Redirect ''password_reset.forgot_password'' [''Invalid reset link.''], st')"
    using rev [OF assms(10)] by (auto simp: commit_reset_def revoked_def Let_def split: option.splits)
  ultimately show ?thesis using reset_refused_when_revoked [OF rev [OF assms(10)] assms(9)] by blast
qed

text \<open>
  C21: the reset link works, once. The link that is mailed to the address of an account, followed
  within thirty minutes with a new strong password typed twice, is accepted while the account's
  session version has not changed: afterwards exactly the new password opens the account, its
  lockout is lifted and its identity is unchanged, and the same link is refused.
\<close>

theorem reset_link_round_trip:
  assumes "serializer_ok (ac_serializer env)" and "ac_serializer env' = ac_serializer env" and "ac_secret env' = ac_secret env"
    and "password_lib_ok (ac_password env')" and "db_ok (a_db st)"
    and "epoch_seconds (ac_now env') - epoch_seconds (ac_now env) \<le> 1800"
    and "get_user (a_db st) (u_id u) = Some v" and "session_version v = session_version u"
    and "p \<noteq> []" and "fst (validate_password_strength p)"
  shows "\<exists>st' v'. reset_password env' (reset_token env u) (Some (Some p, Some p)) st
      = (Redirect ''auth.login'' [''Your password has been reset. Please log in.''], st')
    \<and> get_user (a_db st') (u_id u) = Some v' \<and> same_identity v v' \<and> db_ok (a_db st')
    \<and> (\<forall>q. check_password (ac_password env') v' q \<longleftrightarrow> q = p) \<and> \<not> is_account_locked now v'
    \<and> fst (reset_password env' (reset_token env u) form st') = Redirect ''password_reset.forgot_password'' [''Invalid reset link.'']"
proof -
  let ?v = "v\<lparr>password_hash := pw_generate (ac_password env') (ac_salt env') p, password_changed_at := Some (ac_now env'),
      session_version := session_version v + 1, failed_login_attempts := 0, account_locked_until := None\<rparr>"
  let ?st = "st\<lparr>a_db := update_user ?v (a_db st)\<rparr>"
  have claims: "reset_claims env' (reset_token env u) = Inr (u_id u, session_version u)"
    using reset_claims_of_link [OF assms(1-3)] assms(6) by (simp add: TOKEN_MAX_AGE_def)
  have id: "u_id v = u_id u" "get_user (a_db st) (u_id v) = Some v" using get_user_SomeD [OF assms(7)] assms(7) by auto
  have ident: "same_identity v ?v" by (simp add: same_identity_def)
  have ok: "db_ok (update_user ?v (a_db st))" by (rule update_user_ok [OF assms(5) id(2) ident])
  have strong: "validate_password_strength p = (True, snd (validate_password_strength p))"
    using assms(10) by (metis prod.collapse)
  have run: "reset_password env' (reset_token env u) (Some (Some p, Some p)) st
      = (Redirect ''auth.login'' [''Your password has been reset. Please log in.''], ?st)"
    using claims assms(7-10) ok
    by (simp add: reset_password_def check_reset_def commit_reset_def Let_def set_password_cases commit_ok)
      (subst strong, simp add: commit_reset_def set_password_cases commit_ok)
  have got: "get_user (a_db ?st) (u_id u) = Some ?v" using id by (simp add: get_user_update)
  then have "revoked (u_id u) (session_version u) (a_db ?st)" using assms(8) by (simp add: revoked_def)
  then have "fst (reset_password env' (reset_token env u) form ?st) = Redirect ''password_reset.forgot_password'' [''Invalid reset link.'']"
    using reset_refused_when_revoked claims by (simp add: reset_password_def)
  moreover have "check_password (ac_password env') ?v q \<longleftrightarrow> q = p" for q
    using assms(4) by (simp add: check_password_def password_lib_ok_def)
  ultimately show ?thesis using run got ident ok by (intro exI [of _ ?st] exI [of _ ?v]) (simp add: is_account_locked_def)
qed

section \<open>An instance of the serializer\<close>

definition signed_text :: "string \<Rightarrow> string \<Rightarrow> timestamp \<Rightarrow> json \<Rightarrow> string" where
  "signed_text k salt t v = dumps_utf8 (JList [JStr k, JStr salt, JInt t, v])"

definition toy_serializer :: serializer where
  "toy_serializer = \<lparr>sz_dumps = signed_text,
     sz_loads = (\<lambda>k salt now age token.
       case loads token of
         Some (JList [_, _, JInt t, v]) \<Rightarrow>
           if token \<noteq> signed_text k salt t v then Inl BadSignature
           else if epoch_seconds now - epoch_seconds t \<le> age then Inr v else Inl SignatureExpired
       | _ \<Rightarrow> Inl BadSignature)\<rparr>"

lemma toy_serializer_ok: "serializer_ok toy_serializer"
proof -
  have "loads (signed_text k salt t v) = Some (JList [JStr k, JStr salt, JInt t, v])" if "json_ok v" for k salt t v
    using that unfolding signed_text_def by (intro loads_dumps_utf8) simp
  then show ?thesis
    by (auto simp: serializer_ok_def toy_serializer_def split: option.splits json.splits list.splits if_splits)
qed

definition demo_account_env :: "timestamp \<Rightarrow> account_env" where
  "demo_account_env now = \<lparr>ac_app = \<lparr>e_lib = toy_lib, e_key_env = demo_key_env, e_audit_key = [1],
       e_audit_path = ''logging_service.py'', e_audit_lineno = 41, e_now = now, e_token_hex = ''t1''\<rparr>,
     ac_token = demo_token_env now, ac_password = demo_password_lib, ac_salt = ''s'', ac_serializer = toy_serializer,
     ac_secret = ''k'', ac_public_base_url = ''https://vote.example'', ac_mail_works = True, ac_pepper = demo_pepper\<rparr>"

definition demo_account_state :: app_state where
  "demo_account_state = \<lparr>a_db = demo_db, a_keys = toy_store, a_audit = init_audit_handler [] None\<rparr>"

lemma demo_account_user: "get_user (a_db demo_account_state) (u_id demo_user) = Some demo_user"
  by (simp add: get_user_def demo_account_state_def demo_db_def)

lemma demo_strong: "fst (validate_password_strength ''Correct-Horse-9'')"
proof -
  have "validate_password_strength ''Correct-Horse-9'' = (True, None)"
    by (simp add: validate_accepts_iff has_upper_def has_lower_def has_special_def is_special_def
        is_upper_ascii_def is_lower_ascii_def ord_def)
  then show ?thesis by simp
qed

theorem reset_link_round_trip_witness:
  "\<exists>st'. reset_password (demo_account_env 60) (reset_token (demo_account_env 0) demo_user)
       (Some (Some ''Correct-Horse-9'', Some ''Correct-Horse-9'')) demo_account_state
     = (Redirect ''auth.login'' [''Your password has been reset. Please log in.''], st')"
proof -
  have "serializer_ok (ac_serializer (demo_account_env 0))" "ac_serializer (demo_account_env 60) = ac_serializer (demo_account_env 0)"
    "ac_secret (demo_account_env 60) = ac_secret (demo_account_env 0)" "password_lib_ok (ac_password (demo_account_env 60))"
    "db_ok (a_db demo_account_state)" "epoch_seconds (ac_now (demo_account_env 60)) - epoch_seconds (ac_now (demo_account_env 0)) \<le> 1800"
    by (simp_all add: demo_account_env_def toy_serializer_ok demo_password_lib_ok demo_account_state_def demo_db_ok epoch_seconds_def)
  from reset_link_round_trip [OF this demo_account_user refl _ demo_strong, where now = 0 and form = None] show ?thesis by blast
qed

lemma demo_reject: "\<exists>r st'. reject_user (demo_account_env 9) (Some demo_manager) 7 demo_account_state = (r, st')
    \<and> credential_change (demo_account_env 9) demo_user demo_account_state st'"
proof -
  have man: "is_manager demo_db demo_manager"
    by (simp add: is_manager_def has_role_def role_of_def demo_defs)
  let ?u = "demo_user\<lparr>account_status := ''rejected'', session_version := 4\<rparr>"
  have "db_ok (update_user ?u demo_db)"
    using update_user_ok [OF demo_db_ok, of demo_user ?u] demo_account_user by (simp add: demo_account_state_def)
  then obtain r st' where st': "reject_user (demo_account_env 9) (Some demo_manager) 7 demo_account_state = (r, st')"
    "a_db st' = update_user ?u demo_db"
    using man demo_account_user
    by (auto simp: reject_user_def admin_only_def login_required_def demo_account_state_def commit_ok demo_user_def)
  have "get_user (a_db st') 7 = Some ?u" using st'(2) demo_account_user
    by (simp add: get_user_update demo_account_state_def) (simp add: demo_user_def)
  then have "st' \<noteq> demo_account_state" using demo_account_user by (auto simp: demo_user_def)
  with st' show ?thesis by (auto simp: credential_change_def demo_user_def)
qed

theorem credentials_revoked_witness:
  "\<exists>(st' :: app_state) token. credential_change (demo_account_env 9) demo_user demo_account_state st'
     \<and> issue_token (demo_token_env 0) demo_db 7 (Some 3) = Inr token
     \<and> load_user_from_jwt (demo_token_env 10) False ''main.dashboard'' (Some token) (a_db st') (empty_session, no_globals)
        = (None, reject_session_token (empty_session, no_globals))"
proof -
  obtain st' where st': "credential_change (demo_account_env 9) demo_user demo_account_state st'" using demo_reject by blast
  obtain token where t: "issue_token (demo_token_env 0) demo_db (u_id demo_user) (Some 3) = Inr token" using demo_token_issued by blast
  have jwt: "jwt_lib_ok (te_jwt (demo_token_env 0))" by (simp add: demo_token_env_def toy_jwt_ok)
  have link: "reset_claims (demo_account_env 10) (reset_token (demo_account_env 0) demo_user) = Inr (u_id demo_user, 3)"
    by (subst reset_claims_of_link)
      (simp_all add: demo_account_env_def toy_serializer_ok epoch_seconds_def TOKEN_MAX_AGE_def, simp add: demo_user_def)
  have "db_ok (a_db demo_account_state)" by (simp add: demo_account_state_def demo_db_ok)
  moreover have "3 \<le> session_version demo_user" "u_id demo_user = 7" by (simp_all add: demo_user_def)
  moreover have "''main.dashboard'' \<noteq> ''main.cast_anonymous_ballot''" by simp
  ultimately show ?thesis
    using st' t credentials_revoked [OF st' demo_account_user _ jwt t demo_same_secret _ _ link] by metis
qed

end
