(* ===== verification/Otp.thy ===== *)
theory Otp
  imports Models
begin

text \<open>
  One-time password challenges: \<^verbatim>\<open>app/services/otp_service.py\<close>. Issuing replaces the row of a user
  and purpose unless a live or locked one blocks it; verifying counts every failed attempt in the
  row and consumes it on success, lockout or expiry. The transition of the row under one attempt
  is \<open>challenge_attempt\<close>; \<open>verify_otp_challenge\<close> reads the row, applies it and commits.
\<close>

section \<open>Operations\<close>

datatype otp_error =
    OtpValueError string
  | OtpChallengeRateLimited string
  | OtpRuntimeError string
  | OtpIntegrityError

definition MAX_FAILED_ATTEMPTS :: int where
  "MAX_FAILED_ATTEMPTS = 5"

declare MAX_FAILED_ATTEMPTS_def [simp]

definition valid_purposes :: "string list" where
  "valid_purposes = [''generic'', ''login_mfa'']"

definition otp_digest :: "string option \<Rightarrow> string \<Rightarrow> string \<Rightarrow> otp_error + string" where
  "otp_digest secret_key challenge_id code =
     (case or_else secret_key None of
        None \<Rightarrow> Inl (OtpRuntimeError ''SECRET_KEY is required for OTP challenges'')
      | Some k \<Rightarrow> Inr (hmac_hex (utf8_encode k) (utf8_encode (challenge_id @ '':'' @ code))))"

definition find_challenge_for :: "database \<Rightarrow> int \<Rightarrow> string \<Rightarrow> otp_challenge option" where
  "find_challenge_for db uid p = find (\<lambda>c. oc_user_id c = uid \<and> purpose c = p) (otp_challenges db)"

definition otp_blocked :: "timestamp \<Rightarrow> otp_challenge \<Rightarrow> bool" where
  "otp_blocked now c \<longleftrightarrow>
     expires_at c > now \<and> (consumed_at c = None \<or> failed_attempts c \<ge> MAX_FAILED_ATTEMPTS)"

text \<open>
  \<open>drawn_id\<close> is \<open>secrets.token_hex(32)\<close> and \<open>drawn_code\<close> the six random digits the code draws
  when no code is supplied.
\<close>

definition issue_otp_challenge ::
  "string option \<Rightarrow> timestamp \<Rightarrow> string \<Rightarrow> string \<Rightarrow> int \<Rightarrow> string \<Rightarrow> int \<Rightarrow> string option \<Rightarrow> database
     \<Rightarrow> otp_error + (string \<times> string) \<times> database" where
  "issue_otp_challenge secret_key now drawn_id drawn_code user_id p ttl_seconds code0 db =
     (if p \<notin> set valid_purposes then Inl (OtpValueError ''Unsupported OTP purpose'')
      else
        (let code = (case code0 of None \<Rightarrow> drawn_code | Some c \<Rightarrow> c) in
         if length code \<noteq> 6 \<or> \<not> isdigit code
         then Inl (OtpValueError ''OTP code must contain exactly six digits'')
         else
           (let existing = find_challenge_for db user_id p in
            if (case existing of None \<Rightarrow> False | Some c \<Rightarrow> otp_blocked now c)
            then Inl (OtpChallengeRateLimited ''An OTP challenge is already active or temporarily locked'')
            else
              (let others = (case existing of
                               None \<Rightarrow> otp_challenges db
                             | Some c \<Rightarrow> filter (\<lambda>x. oc_id x \<noteq> oc_id c) (otp_challenges db)) in
               case otp_digest secret_key drawn_id code of
                 Inl e \<Rightarrow> Inl e
               | Inr digest \<Rightarrow>
                   (let challenge = \<lparr>oc_id = drawn_id, oc_user_id = user_id, purpose = p,
                          code_digest = digest,
                          expires_at = now + seconds (max 60 (min ttl_seconds 900)),
                          failed_attempts = 0, consumed_at = None, oc_created_at = now\<rparr> in
                    case commit (db\<lparr>otp_challenges := others @ [challenge]\<rparr>) of
                      None \<Rightarrow> Inl OtpIntegrityError
                    | Some db' \<Rightarrow> Inr ((drawn_id, code), db'))))))"

definition challenge_attempt ::
  "string option \<Rightarrow> timestamp \<Rightarrow> string \<Rightarrow> otp_challenge \<Rightarrow> otp_error + string \<times> otp_challenge" where
  "challenge_attempt secret_key now code c =
     (if expires_at c \<le> now then Inr (''expired'', c\<lparr>consumed_at := Some now\<rparr>)
      else if failed_attempts c \<ge> MAX_FAILED_ATTEMPTS
      then Inr (''locked'', c\<lparr>consumed_at := Some now\<rparr>)
      else
        (case otp_digest secret_key (oc_id c) code of
           Inl e \<Rightarrow> Inl e
         | Inr supplied_digest \<Rightarrow>
             if supplied_digest \<noteq> code_digest c then
               (let c1 = c\<lparr>failed_attempts := failed_attempts c + 1\<rparr> in
                if failed_attempts c1 \<ge> MAX_FAILED_ATTEMPTS
                then Inr (''locked'', c1\<lparr>consumed_at := Some now\<rparr>)
                else Inr (''invalid'', c1))
             else Inr (''valid'', c\<lparr>consumed_at := Some now\<rparr>)))"

definition update_challenge :: "otp_challenge \<Rightarrow> database \<Rightarrow> database" where
  "update_challenge c db =
     db\<lparr>otp_challenges := update_where (\<lambda>x. oc_id x = oc_id c) (\<lambda>_. c) (otp_challenges db)\<rparr>"

definition verify_otp_challenge ::
  "string option \<Rightarrow> timestamp \<Rightarrow> string \<Rightarrow> int \<Rightarrow> string \<Rightarrow> string \<Rightarrow> database
     \<Rightarrow> otp_error + string \<times> database" where
  "verify_otp_challenge secret_key now challenge_id user_id p code db =
     (if challenge_id = [] \<or> p \<notin> set valid_purposes then Inr (''missing'', db)
      else
        (case find (\<lambda>c. oc_id c = challenge_id \<and> oc_user_id c = user_id \<and> purpose c = p)
                (otp_challenges db) of
           None \<Rightarrow> Inr (''missing'', db)
         | Some c \<Rightarrow>
             if consumed_at c \<noteq> None then Inr (''missing'', db)
             else
               (case challenge_attempt secret_key now code c of
                  Inl e \<Rightarrow> Inl e
                | Inr (result, c') \<Rightarrow>
                    (case commit (update_challenge c' db) of
                       None \<Rightarrow> Inl OtpIntegrityError
                     | Some db' \<Rightarrow> Inr (result, db')))))"

section \<open>Lemmas\<close>

lemma challenge_attempt_key:
  assumes "challenge_attempt sk now code c = Inr (r, c')"
  shows "oc_id c' = oc_id c" and "oc_user_id c' = oc_user_id c" and "purpose c' = purpose c"
    and "code_digest c' = code_digest c" and "expires_at c' = expires_at c"
  using assms by (auto simp: challenge_attempt_def Let_def split: if_splits sum.splits)

lemma challenge_attempt_bounds:
  assumes "challenge_attempt sk now code c = Inr (r, c')"
    and "0 \<le> failed_attempts c \<and> failed_attempts c \<le> 5"
  shows "0 \<le> failed_attempts c' \<and> failed_attempts c' \<le> 5"
  using assms by (auto simp: challenge_attempt_def Let_def split: if_splits sum.splits)

lemma challenge_attempt_progress:
  assumes "challenge_attempt sk now code c = Inr (r, c')" and "consumed_at c = None"
  shows "consumed_at c' = None \<longleftrightarrow> r = ''invalid''"
    and "r = ''invalid'' \<Longrightarrow> failed_attempts c' = failed_attempts c + 1 \<and> failed_attempts c' < 5"
  using assms by (auto simp: challenge_attempt_def Let_def split: if_splits sum.splits)

lemma update_challenge_ok:
  assumes "db_ok db" and "c \<in> set (otp_challenges db)" and "oc_id c' = oc_id c"
    and "oc_user_id c' = oc_user_id c" and "purpose c' = purpose c"
    and "0 \<le> failed_attempts c' \<and> failed_attempts c' \<le> 5"
  shows "db_ok (update_challenge c' db)"
proof -
  have uniq: "unique_on oc_id (otp_challenges db)"
    using assms(1) by (simp add: db_ok_def otp_challenges_ok_def)
  have same: "\<And>x. x \<in> set (otp_challenges db) \<Longrightarrow> oc_id x = oc_id c' \<Longrightarrow> x = c"
    using unique_on_eqD [OF uniq _ assms(2)] assms(3) by simp
  let ?upd = "update_where (\<lambda>x. oc_id x = oc_id c') (\<lambda>_. c') (otp_challenges db)"
  have keys: "map oc_id ?upd = map oc_id (otp_challenges db)"
    "map (\<lambda>c. (oc_user_id c, purpose c)) ?upd = map (\<lambda>c. (oc_user_id c, purpose c)) (otp_challenges db)"
    using same assms(3-5) by (auto simp: update_where_def)
  have "otp_challenges_ok (update_challenge c' db)"
    using assms(1,2,4,6) same keys
    by (auto simp: db_ok_def otp_challenges_ok_def update_challenge_def list_all_iff refs_ok_def
        user_ids_def in_update_where_const)
  with assms(1) show ?thesis
    by (simp add: db_ok_def constraint_defs update_challenge_def)
qed


abbreviation find_challenge :: "database \<Rightarrow> string \<Rightarrow> int \<Rightarrow> string \<Rightarrow> otp_challenge option" where
  "find_challenge db cid uid p \<equiv>
     find (\<lambda>c. oc_id c = cid \<and> oc_user_id c = uid \<and> purpose c = p) (otp_challenges db)"

lemma verify_on_live_row:
  assumes "db_ok db" and "cid \<noteq> []" and "p \<in> set valid_purposes"
    and "find_challenge db cid uid p = Some c" and "consumed_at c = None"
    and "challenge_attempt sk now code c = Inr (r, c')"
  shows "verify_otp_challenge sk now cid uid p code db = Inr (r, update_challenge c' db)"
    and "db_ok (update_challenge c' db)"
    and "find_challenge (update_challenge c' db) cid uid p = Some c'"
proof -
  have c: "c \<in> set (otp_challenges db)" "oc_id c = cid" "oc_user_id c = uid" "purpose c = p"
    using find_Some_in [OF assms(4)] by auto
  have range: "0 \<le> failed_attempts c \<and> failed_attempts c \<le> 5"
    using assms(1) c(1) by (auto simp: db_ok_def otp_challenges_ok_def list_all_iff)
  note key = challenge_attempt_key [OF assms(6)]
  show ok: "db_ok (update_challenge c' db)"
    by (rule update_challenge_ok [OF assms(1) c(1) key(1-3)])
      (rule challenge_attempt_bounds [OF assms(6) range])
  show "verify_otp_challenge sk now cid uid p code db = Inr (r, update_challenge c' db)"
    using assms(2-6) commit_ok [OF ok] by (simp add: verify_otp_challenge_def)
  show "find_challenge (update_challenge c' db) cid uid p = Some c'"
    using find_update_where_hit [OF assms(4), of c' oc_id] key c assms(1)
    by (simp add: update_challenge_def db_ok_def otp_challenges_ok_def)
qed

lemma verify_on_dead_row:
  assumes "case find_challenge db cid uid p of None \<Rightarrow> True | Some c \<Rightarrow> consumed_at c \<noteq> None"
  shows "verify_otp_challenge sk now cid uid p code db = Inr (''missing'', db)"
  using assms by (auto simp: verify_otp_challenge_def split: option.splits)

fun otp_attempts ::
  "string option \<Rightarrow> string \<Rightarrow> int \<Rightarrow> string \<Rightarrow> (timestamp \<times> string) list \<Rightarrow> database
     \<Rightarrow> string list \<times> database" where
  "otp_attempts sk cid uid p [] db = ([], db)"
| "otp_attempts sk cid uid p ((now, code) # as) db =
     (case verify_otp_challenge sk now cid uid p code db of
        Inl e \<Rightarrow> apfst ((#) ''raised'') (otp_attempts sk cid uid p as db)
      | Inr (r, db') \<Rightarrow> apfst ((#) r) (otp_attempts sk cid uid p as db'))"

lemma dead_row_stays:
  assumes "case find_challenge db cid uid p of None \<Rightarrow> True | Some c \<Rightarrow> consumed_at c \<noteq> None"
  shows "otp_attempts sk cid uid p as db = (replicate (length as) ''missing'', db)"
  using verify_on_dead_row [OF assms] by (induction as) auto

lemma challenge_attempt_result:
  assumes "challenge_attempt sk now code c = Inr (r, c')"
  shows "r \<in> {''expired'', ''locked'', ''invalid'', ''valid''}"
  using assms by (auto simp: challenge_attempt_def Let_def split: if_splits sum.splits)

lemma challenge_attempt_total:
  assumes "or_else sk None \<noteq> None"
  shows "\<exists>r c'. challenge_attempt sk now code c = Inr (r, c')"
  using assms by (auto simp: challenge_attempt_def Let_def otp_digest_def split: sum.splits)

definition answered :: "string list \<Rightarrow> string list" where
  "answered rs = filter (\<lambda>r. r \<noteq> ''missing'') rs"

lemma live_row_attempts:
  assumes "db_ok db" and "cid \<noteq> []" and "p \<in> set valid_purposes" and "or_else sk None \<noteq> None"
    and "find_challenge db cid uid p = Some c" and "consumed_at c = None"
  shows "int (length (answered (fst (otp_attempts sk cid uid p as db)))) \<le> max 1 (5 - failed_attempts c)
     \<and> length (filter ((=) ''valid'') (fst (otp_attempts sk cid uid p as db))) \<le> 1
     \<and> ''raised'' \<notin> set (fst (otp_attempts sk cid uid p as db))"
  using assms(1,5,6)
proof (induction as arbitrary: db c)
  case Nil
  then show ?case by (simp add: answered_def)
next
  case (Cons a as)
  obtain now code where a: "a = (now, code)" by (cases a)
  obtain r c' where att: "challenge_attempt sk now code c = Inr (r, c')"
    using challenge_attempt_total [OF assms(4)] by blast
  note step = verify_on_live_row [OF Cons.prems(1) assms(2,3) Cons.prems(2,3) att]
  note prog = challenge_attempt_progress [OF att Cons.prems(3)]
  show ?case
  proof (cases "r = ''invalid''")
    case True
    have "consumed_at c' = None" using True prog(1) by simp
    from Cons.IH [OF step(2,3) this] True prog(2) show ?thesis
      by (simp add: a step(1) answered_def)
  next
    case False
    then have "case find_challenge (update_challenge c' db) cid uid p of
        None \<Rightarrow> True | Some c \<Rightarrow> consumed_at c \<noteq> None"
      using step(3) prog(1) by simp
    from dead_row_stays [OF this] False show ?thesis
      using challenge_attempt_result [OF att] by (auto simp: a step(1) answered_def)
  qed
qed


lemma issue_otp_challenge_SomeD:
  assumes "issue_otp_challenge sk now drawn_id drawn_code uid p ttl code0 db = Inr ((cid, code), db')"
  shows "cid = drawn_id" and "p \<in> set valid_purposes" and "db_ok db'"
    and "\<exists>others digest. otp_digest sk cid code = Inr digest \<and> otp_challenges db' = others @
           [\<lparr>oc_id = cid, oc_user_id = uid, purpose = p, code_digest = digest,
             expires_at = now + seconds (max 60 (min ttl 900)), failed_attempts = 0,
             consumed_at = None, oc_created_at = now\<rparr>]"
  using assms
  by (auto simp: issue_otp_challenge_def Let_def commit_Some_iff split: if_splits sum.splits option.splits)

lemma issued_row:
  assumes "issue_otp_challenge sk now drawn_id drawn_code uid p ttl code0 db = Inr ((cid, code), db')"
  obtains c where "find_challenge db' cid uid p = Some c" and "find_challenge_for db' uid p = Some c"
    and "otp_digest sk cid code = Inr (code_digest c)" and "failed_attempts c = 0"
    and "consumed_at c = None" and "expires_at c = now + seconds (max 60 (min ttl 900))"
    and "oc_id c = cid"
proof -
  obtain others digest where dg: "otp_digest sk cid code = Inr digest" and
    rows: "otp_challenges db' = others @
           [\<lparr>oc_id = cid, oc_user_id = uid, purpose = p, code_digest = digest,
             expires_at = now + seconds (max 60 (min ttl 900)), failed_attempts = 0,
             consumed_at = None, oc_created_at = now\<rparr>]"
    using issue_otp_challenge_SomeD(4) [OF assms] by blast
  let ?c = "\<lparr>oc_id = cid, oc_user_id = uid, purpose = p, code_digest = digest,
             expires_at = now + seconds (max 60 (min ttl 900)), failed_attempts = 0,
             consumed_at = None, oc_created_at = now\<rparr>"
  have ok: "otp_challenges_ok db'" using issue_otp_challenge_SomeD(3) [OF assms] by (simp add: db_ok_def)
  have "find_challenge db' cid uid p = Some ?c"
    by (rule find_by_unique [of oc_id]) (use ok rows in \<open>simp_all add: otp_challenges_ok_def\<close>)
  moreover have "find_challenge_for db' uid p = Some ?c"
    using find_unique_key [of "\<lambda>c. (oc_user_id c, purpose c)" "otp_challenges db'" ?c] ok rows
    by (simp add: find_challenge_for_def otp_challenges_ok_def)
  ultimately show thesis using dg by (intro that [of ?c]) simp_all
qed

text \<open>
  C13: a code that was issued is accepted until the challenge expires, at least a minute and at most
  fifteen minutes later, and at most once: every later attempt with any code answers
  \<open>missing\<close>.
\<close>

theorem otp_issue_then_verify:
  assumes "issue_otp_challenge sk now drawn_id drawn_code uid p ttl code0 db = Inr ((cid, code), db')"
    and "cid \<noteq> []" and "t < now + seconds (max 60 (min ttl 900))"
  shows "\<exists>db''. verify_otp_challenge sk t cid uid p code db' = Inr (''valid'', db'') \<and> db_ok db''
     \<and> (\<forall>t' code'. verify_otp_challenge sk t' cid uid p code' db'' = Inr (''missing'', db''))"
proof -
  obtain c where c: "find_challenge db' cid uid p = Some c"
    "otp_digest sk cid code = Inr (code_digest c)" "failed_attempts c = 0" "consumed_at c = None"
    "expires_at c = now + seconds (max 60 (min ttl 900))" "oc_id c = cid"
    by (rule issued_row [OF assms(1)])
  have att: "challenge_attempt sk t code c = Inr (''valid'', c\<lparr>consumed_at := Some t\<rparr>)"
    using c assms(3) by (simp add: challenge_attempt_def)
  note step = verify_on_live_row [OF issue_otp_challenge_SomeD(3) [OF assms(1)] assms(2)
      issue_otp_challenge_SomeD(2) [OF assms(1)] c(1,4) att]
  have "case find_challenge (update_challenge (c\<lparr>consumed_at := Some t\<rparr>) db') cid uid p of
      None \<Rightarrow> True | Some c \<Rightarrow> consumed_at c \<noteq> None"
    using step(3) by simp
  from verify_on_dead_row [OF this] show ?thesis using step(1,2) by blast
qed


text \<open>
  C14: guessing is bounded. Whatever sequence of attempts is made on one challenge, at most five
  are answered at all (the rest find no challenge), at most one is accepted, and with a secret
  configured no attempt raises.
\<close>

theorem otp_guesses_bounded:
  assumes "db_ok db" and "sk = Some k" and "k \<noteq> []"
  shows "length (answered (fst (otp_attempts sk cid uid p as db))) \<le> 5
     \<and> length (filter ((=) ''valid'') (fst (otp_attempts sk cid uid p as db))) \<le> 1
     \<and> ''raised'' \<notin> set (fst (otp_attempts sk cid uid p as db))"
proof (cases "cid \<noteq> [] \<and> p \<in> set valid_purposes \<and>
    (\<exists>c. find_challenge db cid uid p = Some c \<and> consumed_at c = None)")
  case True
  then obtain c where c: "find_challenge db cid uid p = Some c" "consumed_at c = None" by blast
  have "c \<in> set (otp_challenges db)" using find_Some_in [OF c(1)] by simp
  then have "0 \<le> failed_attempts c"
    using assms(1) by (auto simp: db_ok_def otp_challenges_ok_def list_all_iff)
  with live_row_attempts [OF assms(1) _ _ _ c, of sk as] True assms(2,3) show ?thesis
    by (auto simp: or_else_def)
next
  case False
  then have "verify_otp_challenge sk now cid uid p code db = Inr (''missing'', db)" for now code
    by (auto simp: verify_otp_challenge_def split: option.splits)
  then have "otp_attempts sk cid uid p as db = (replicate (length as) ''missing'', db)"
    by (induction as) auto
  then show ?thesis by (simp add: answered_def)
qed

definition otp_refuses :: "timestamp \<Rightarrow> string option \<Rightarrow> int \<Rightarrow> string \<Rightarrow> database \<Rightarrow> bool" where
  "otp_refuses t sk uid p db \<longleftrightarrow> (\<forall>drawn_id drawn_code ttl.
     length drawn_code = 6 \<longrightarrow> isdigit drawn_code \<longrightarrow>
     (\<exists>m. issue_otp_challenge sk t drawn_id drawn_code uid p ttl None db = Inl (OtpChallengeRateLimited m)))"

lemma blocked_refuses:
  assumes "p \<in> set valid_purposes" and "find_challenge_for db uid p = Some c" and "otp_blocked t c"
  shows "otp_refuses t sk uid p db"
  using assms by (auto simp: otp_refuses_def issue_otp_challenge_def Let_def)

lemma attempts_keep_blocking:
  assumes "db_ok db" and "cid \<noteq> []" and "p \<in> set valid_purposes" and "or_else sk None \<noteq> None"
    and "find_challenge db cid uid p = Some c" and "find_challenge_for db uid p = Some c"
    and "consumed_at c = None" and "\<forall>(t, code) \<in> set as. t < expires_at c"
    and "''valid'' \<notin> set (fst (otp_attempts sk cid uid p as db))"
  shows "\<exists>c'. find_challenge_for (snd (otp_attempts sk cid uid p as db)) uid p = Some c'
     \<and> expires_at c' = expires_at c \<and> (consumed_at c' = None \<or> 5 \<le> failed_attempts c')"
  using assms(1,5-9)
proof (induction as arbitrary: db c)
  case Nil
  then show ?case by auto
next
  case (Cons a as)
  obtain now code where a: "a = (now, code)" by (cases a)
  obtain r c' where att: "challenge_attempt sk now code c = Inr (r, c')"
    using challenge_attempt_total [OF assms(4)] by blast
  note step = verify_on_live_row [OF Cons.prems(1) assms(2,3) Cons.prems(2,4) att]
  note key = challenge_attempt_key [OF att]
  have c: "c \<in> set (otp_challenges db)" using find_Some_in [OF Cons.prems(2)] by simp
  have row: "find_challenge_for (update_challenge c' db) uid p = Some c'"
    using find_update_where_hit [OF Cons.prems(3) [unfolded find_challenge_for_def], of c' oc_id]
      key find_Some_in [OF Cons.prems(2)] Cons.prems(1)
    by (simp add: update_challenge_def find_challenge_for_def db_ok_def otp_challenges_ok_def)
  have notvalid: "r \<noteq> ''valid''" using Cons.prems(6) by (auto simp: a step(1))
  have live: "\<not> expires_at c \<le> now" using Cons.prems(5) by (auto simp: a)
  show ?case
  proof (cases "r = ''invalid''")
    case True
    then have "consumed_at c' = None" using challenge_attempt_progress [OF att Cons.prems(4)] by simp
    from Cons.IH [OF step(2,3) row this] Cons.prems(5,6) key show ?thesis
      by (auto simp: a step(1))
  next
    case False
    then have dead: "case find_challenge (update_challenge c' db) cid uid p of
        None \<Rightarrow> True | Some c \<Rightarrow> consumed_at c \<noteq> None"
      using step(3) challenge_attempt_progress [OF att Cons.prems(4)] by simp
    have "5 \<le> failed_attempts c'"
      using att False notvalid live
      by (auto simp: challenge_attempt_def Let_def split: if_splits sum.splits)
    with row key show ?thesis by (simp add: a step(1) dead_row_stays [OF dead])
  qed
qed

text \<open>
  A fresh code cannot be used to reset the guessing budget. After a challenge was issued, and
  any attempts on it before its expiry of which none was accepted, issuing another for the
  same user and purpose is refused at every time before that expiry.
\<close>

theorem otp_budget_not_reset:
  assumes "issue_otp_challenge sk now drawn_id drawn_code uid p ttl code0 db = Inr ((cid, code), db')"
    and "cid \<noteq> []" and "\<forall>(t, guess) \<in> set as. t < now + seconds (max 60 (min ttl 900))"
    and "''valid'' \<notin> set (fst (otp_attempts sk cid uid p as db'))"
    and "t < now + seconds (max 60 (min ttl 900))"
  shows "otp_refuses t sk uid p (snd (otp_attempts sk cid uid p as db'))"
proof -
  obtain c where c: "find_challenge db' cid uid p = Some c" "find_challenge_for db' uid p = Some c"
    "consumed_at c = None" "expires_at c = now + seconds (max 60 (min ttl 900))"
    and dg: "otp_digest sk cid code = Inr (code_digest c)"
    by (rule issued_row [OF assms(1)])
  from dg have sk: "or_else sk None \<noteq> None" by (auto simp: otp_digest_def split: option.splits)
  obtain c' where "find_challenge_for (snd (otp_attempts sk cid uid p as db')) uid p = Some c'"
    "expires_at c' = expires_at c" "consumed_at c' = None \<or> 5 \<le> failed_attempts c'"
    using attempts_keep_blocking [OF issue_otp_challenge_SomeD(3) [OF assms(1)] assms(2)
        issue_otp_challenge_SomeD(2) [OF assms(1)] sk c(1-3) _ assms(4)] assms(3) c(4) by auto
  then show ?thesis
    using assms(5) c(4) blocked_refuses [OF issue_otp_challenge_SomeD(2) [OF assms(1)]]
    by (auto simp: otp_blocked_def)
qed


section \<open>Witnesses\<close>

definition demo_issue :: "otp_error + (string \<times> string) \<times> database" where
  "demo_issue = issue_otp_challenge (Some ''secret'') 0 ''c1'' ''123456'' 7 ''login_mfa'' 300 None demo_db"

lemma demo_issue_ok: "\<exists>db'. demo_issue = Inr ((''c1'', ''123456''), db')"
proof -
  have digits: "isdigit ''123456''" by code_simp
  have "db_ok (demo_db\<lparr>otp_challenges := [\<lparr>oc_id = ''c1'', oc_user_id = 7, purpose = ''login_mfa'',
      code_digest = d, expires_at = x, failed_attempts = 0, consumed_at = None, oc_created_at = 0\<rparr>]\<rparr>)"
    for d x
    using demo_db_ok by (simp add: db_ok_def constraint_defs demo_db_def demo_user_def)
  then show ?thesis
    using digits by (simp add: demo_issue_def issue_otp_challenge_def valid_purposes_def
        find_challenge_for_def demo_db_def otp_digest_def or_else_def commit_ok Let_def)
qed

theorem otp_issue_then_verify_witness:
  "\<exists>db' db''. demo_issue = Inr ((''c1'', ''123456''), db')
     \<and> verify_otp_challenge (Some ''secret'') 10 ''c1'' 7 ''login_mfa'' ''123456'' db' = Inr (''valid'', db'')
     \<and> verify_otp_challenge (Some ''secret'') 11 ''c1'' 7 ''login_mfa'' ''123456'' db'' = Inr (''missing'', db'')"
proof -
  obtain db' where db': "demo_issue = Inr ((''c1'', ''123456''), db')" using demo_issue_ok ..
  from otp_issue_then_verify [OF db' [unfolded demo_issue_def], of 10] db' show ?thesis
    by (auto simp: seconds_def)
qed

theorem otp_guesses_bounded_witness:
  "\<exists>db'. demo_issue = Inr ((''c1'', ''123456''), db') \<and>
     length (answered (fst (otp_attempts (Some ''secret'') ''c1'' 7 ''login_mfa''
       (map (\<lambda>n. (n, ''000000'')) [1, 2, 3, 4, 5, 6, 7]) db'))) \<le> 5"
proof -
  obtain db' where db': "demo_issue = Inr ((''c1'', ''123456''), db')" using demo_issue_ok ..
  have "db_ok db'" by (rule issue_otp_challenge_SomeD(3) [OF db' [unfolded demo_issue_def]])
  moreover have "''secret'' \<noteq> []" by simp
  ultimately show ?thesis using otp_guesses_bounded [OF _ refl] db' by blast
qed

theorem otp_budget_not_reset_witness:
  "\<exists>db'. demo_issue = Inr ((''c1'', ''123456''), db') \<and> otp_refuses 100 (Some ''secret'') 7 ''login_mfa'' db'"
proof -
  obtain db' where db': "demo_issue = Inr ((''c1'', ''123456''), db')" using demo_issue_ok ..
  from otp_budget_not_reset [OF db' [unfolded demo_issue_def], of "[]" 100] db' show ?thesis
    by (auto simp: seconds_def)
qed

end
