(* ===== verification/Auth.thy ===== *)
theory Auth
  imports Accounts Otp
begin

text \<open>
  Login, second factor, registration and logout: \<^verbatim>\<open>app/auth.py\<close>. The state of a request is the
  database, the cookie session, \<open>flask.g\<close>, the cookies set on the response and the mails sent. The
  metrics counters and log lines of the handlers are left out. The Turnstile service is a parameter:
  \<open>au_turnstile secret response\<close> is the decoded answer, \<open>None\<close> when the request or the decoding raised.
\<close>

section \<open>Redirect targets\<close>

text \<open>
  \<open>urlsplit\<close> on a text that starts with a slash: tabs and line ends are removed, there is no scheme,
  and the network location is what follows two slashes. A malformed location raises \<open>ValueError\<close>,
  which the handler treats like a location: either way it is not empty.
\<close>

definition url_clean :: "string \<Rightarrow> string" where
  "url_clean s = filter (\<lambda>c. ord c \<notin> {9, 10, 13}) s"

definition url_netloc :: "string \<Rightarrow> string" where
  "url_netloc s = (let u = url_clean s in
     if startswith u ''//'' then takeWhile (\<lambda>c. c \<notin> set ''/?#'') (drop 2 u) else [])"

definition safe_relative_next :: "string option \<Rightarrow> string option" where
  "safe_relative_next candidate =
     (case candidate of
        None \<Rightarrow> None
      | Some s \<Rightarrow>
          if \<not> startswith s ''/'' then None
          else if startswith s ''//'' \<or> CHR 0x5C \<in> set s then None
          else if url_netloc s \<noteq> [] then None
          else Some s)"

section \<open>Login\<close>

record auth_env =
  au_account :: account_env
  au_testing :: bool
  au_mfa :: bool
  au_turnstile_secret :: "string option"
  au_turnstile :: "string \<Rightarrow> string \<Rightarrow> json option"
  au_challenge_id :: string
  au_code :: string
  au_nonce :: string
  au_cookie_secure :: bool

record auth_state =
  as_db :: database
  as_session :: web_session
  as_globals :: request_globals
  as_cookies :: "cookie_op list"
  as_mails :: "mail list"

record login_form =
  lf_gotcha :: "string option"
  lf_username :: "string option"
  lf_password :: "string option"
  lf_nonce :: "string option"
  lf_turnstile :: "string option"
  lf_turnstile_0 :: "string option"
  lf_user_agent :: "string option"
  lf_origin :: "string option"
  lf_referer :: "string option"
  lf_next :: "string option"

abbreviation au_now :: "auth_env \<Rightarrow> timestamp" where
  "au_now env \<equiv> ac_now (au_account env)"

abbreviation au_secret_key :: "auth_env \<Rightarrow> string option" where
  "au_secret_key env \<equiv> te_secret_key (ac_token (au_account env))"

definition arg :: "string option \<Rightarrow> string" where
  "arg v = (case v of None \<Rightarrow> [] | Some s \<Rightarrow> s)"

definition on_session :: "(web_session \<Rightarrow> web_session) \<Rightarrow> auth_state \<Rightarrow> auth_state" where
  "on_session f st = st\<lparr>as_session := f (as_session st)\<rparr>"

definition login_page :: "string \<Rightarrow> string \<Rightarrow> auth_state \<Rightarrow> reply \<times> auth_state" where
  "login_page message name st = (Page ''login.html'' [name], on_session (flash message ''message'') st)"

definition clear_mfa :: "web_session \<Rightarrow> web_session" where
  "clear_mfa s = s\<lparr>s_mfa_challenge_id := None, s_mfa_pending_user_id := None, s_mfa_pending_next := None\<rparr>"

text \<open>The signed nonce of the login page, accepted once per session.\<close>

definition check_nonce :: "auth_env \<Rightarrow> string option \<Rightarrow> web_session \<Rightarrow> string + web_session" where
  "check_nonce env login_nonce s =
     (case or_else login_nonce None of
        None \<Rightarrow> Inl ''Human verification required. Please use the web login form in a browser.''
      | Some n \<Rightarrow>
          (case sz_loads (ac_serializer (au_account env)) (ac_secret (au_account env)) ''login-nonce'' (au_now env) 300 n of
             Inl SignatureExpired \<Rightarrow> Inl ''Human verification expired. Please reload the login page and try again.''
           | Inl BadSignature \<Rightarrow> Inl ''Human verification failed. Please use the web login form in a browser.''
           | Inr (JStr v) \<Rightarrow>
               if v \<in> set (s_used_nonces s)
               then Inl ''Human verification failed. Please use the web login form in a browser.''
               else (let used = s_used_nonces s @ [v] in
                     Inr (s\<lparr>s_used_nonces := drop (length used - 10) used\<rparr>))
           | Inr _ \<Rightarrow> Inl ''Human verification failed. Please use the web login form in a browser.''))"

definition cli_signatures :: "string list" where
  "cli_signatures = [''curl'', ''wget'', ''httpie'', ''powershell'', ''python-requests'', ''httpx'']"

definition check_client :: "auth_env \<Rightarrow> login_form \<Rightarrow> string option" where
  "check_client env f =
     (case or_else (au_turnstile_secret env) None of
        None \<Rightarrow>
          (let ua = lower (arg (lf_user_agent f)) in
           if list_ex (contains ua) cli_signatures
           then Some ''Please use a web browser to log in (command-line clients are blocked for security).''
           else if or_else (or_else (lf_origin f) (lf_referer f)) None = None
           then Some ''Human verification required. Please use the web login form in a browser.''
           else None)
      | Some cf_secret \<Rightarrow>
          (case or_else (or_else (lf_turnstile f) (lf_turnstile_0 f)) None of
             None \<Rightarrow> Some ''Human verification failed. Please complete the Turnstile check.''
           | Some cf_token \<Rightarrow>
               (case au_turnstile env cf_secret cf_token of
                  Some (JObj kvs) \<Rightarrow>
                    if truthy (dict_get kvs ''success'') then None
                    else Some ''Human verification failed. Please try again.''
                | _ \<Rightarrow> Some ''Human verification failed (service error). Please try again later.'')))"

definition set_token_cookie :: "auth_env \<Rightarrow> string \<Rightarrow> auth_state \<Rightarrow> auth_state" where
  "set_token_cookie env token st =
     st\<lparr>as_cookies := as_cookies st @ [Set_cookie ''session_token'' token (au_cookie_secure env)]\<rparr>"

definition login_session :: "user \<Rightarrow> auth_state \<Rightarrow> auth_state" where
  "login_session u st = (case login_user u (as_session st, as_globals st) of
     (s, g) \<Rightarrow> st\<lparr>as_session := s, as_globals := g\<rparr>)"

definition complete_login :: "auth_env \<Rightarrow> user \<Rightarrow> string option \<Rightarrow> auth_state \<Rightarrow> reply \<times> auth_state" where
  "complete_login env user next_url0 st =
     (let next_url = safe_relative_next next_url0; u = reset_failed_logins user in
      case commit (update_user u (as_db st)) of
        None \<Rightarrow> (Abort 500, st)
      | Some db' \<Rightarrow>
          (let expired = is_password_expired (au_now env) 90 u;
               st1 = st\<lparr>as_db := db'\<rparr>;
               st2 = (if expired
                      then on_session (flash ''Your password has expired. Please change it to continue.'' ''warning'') st1
                      else st1);
               st3 = login_session u st2 in
           case issue_token (ac_token (au_account env)) db' (u_id u) (Some (session_version u)) of
             Inl _ \<Rightarrow> (Abort 500, st3)
           | Inr token \<Rightarrow>
               (if expired then Redirect ''password.change_password'' []
                else (case next_url of
                        Some p \<Rightarrow> Redirect_path p
                      | None \<Rightarrow> if is_delegate db' u then Redirect ''main.delegate_dashboard'' []
                                else Redirect ''main.dashboard'' []),
                set_token_cookie env token st3)))"

text \<open>The second-factor gate after a correct password.\<close>

definition start_mfa :: "auth_env \<Rightarrow> user \<Rightarrow> string option \<Rightarrow> auth_state \<Rightarrow> reply \<times> auth_state" where
  "start_mfa env user requested_next st =
     (let st1 = on_session (\<lambda>s. s\<lparr>s_mfa_pending_user_id := Some (u_id user),
                                   s_mfa_pending_next := Some (arg requested_next)\<rparr>) st;
          failed = (\<lambda>db. (Redirect ''auth.login'' [],
             on_session (\<lambda>s. flash ''Verification code could not be sent. Please try again.'' ''error'' (clear_mfa s))
               (st1\<lparr>as_db := db\<rparr>))) in
      case issue_otp_challenge (au_secret_key env) (au_now env) (au_challenge_id env) (au_code env) (u_id user)
             ''login_mfa'' 300 None (as_db st) of
        Inl _ \<Rightarrow> failed (as_db st)
      | Inr ((challenge_id, code), db') \<Rightarrow>
          if ac_mail_works (au_account env)
          then (Redirect ''auth.verify_mfa'' [],
                (on_session (\<lambda>s. s\<lparr>s_mfa_challenge_id := Some challenge_id\<rparr>) st1)
                  \<lparr>as_db := db', as_mails := as_mails st @
                     [\<lparr>m_to = email user, m_subject = ''SecureVote - Verification Code'', m_content = code\<rparr>]\<rparr>)
          else
            (case commit (db'\<lparr>otp_challenges := filter (\<lambda>c. oc_id c \<noteq> challenge_id) (otp_challenges db')\<rparr>) of
               None \<Rightarrow> (Abort 500, (on_session (\<lambda>s. s\<lparr>s_mfa_challenge_id := Some challenge_id\<rparr>) st1)\<lparr>as_db := db'\<rparr>)
             | Some db'' \<Rightarrow> failed db''))"

definition check_credentials :: "auth_env \<Rightarrow> login_form \<Rightarrow> string \<Rightarrow> auth_state \<Rightarrow> reply \<times> auth_state" where
  "check_credentials env f name st =
     (case find (\<lambda>u. username u = name) (users (as_db st)) of
        None \<Rightarrow> (Page ''login.html'' [name], on_session (flash_once ''Invalid username or password'' ''message'') st)
      | Some user \<Rightarrow>
          if is_account_locked (au_now env) user
          then login_page (''Account is locked due to multiple failed login attempts. '' @
                           ''Please try again later or contact support.'') name st
          else if arg (lf_password f) = [] \<or> \<not> check_password (ac_password (au_account env)) user (arg (lf_password f))
          then
            (let user' = record_failed_login (au_now env) 5 30 user in
             case commit (update_user user' (as_db st)) of
               None \<Rightarrow> (Abort 500, st)
             | Some db' \<Rightarrow>
                 (let st1 = on_session (flash_once ''Invalid username or password'' ''message'') (st\<lparr>as_db := db'\<rparr>) in
                  (Page ''login.html'' [name],
                   if is_account_locked (au_now env) user'
                   then on_session (flash (''Account has been locked due to multiple failed login attempts. '' @
                          ''Please try again in 30 minutes or contact support.'') ''error'') st1
                   else st1)))
          else
            (let requested_next = safe_relative_next (lf_next f) in
             if au_mfa env then start_mfa env user requested_next st
             else complete_login env user requested_next st))"

definition current_user :: "auth_state \<Rightarrow> user option" where
  "current_user st =
     (case g_login_user (as_globals st) of
        Some u \<Rightarrow> Some u
      | None \<Rightarrow> Option.bind (s_user_id (as_session st)) (get_user (as_db st)))"

definition login :: "auth_env \<Rightarrow> login_form option \<Rightarrow> auth_state \<Rightarrow> reply \<times> auth_state" where
  "login env form st =
     (if current_user st \<noteq> None then (Redirect ''main.dashboard'' [], st)
      else
        (case form of
           None \<Rightarrow> (Page ''login.html'' [], st)
         | Some f \<Rightarrow>
             if strip (arg (lf_gotcha f)) \<noteq> []
             then login_page ''Bot-like activity detected. If you are a human, please try again.'' (arg (lf_username f)) st
             else
               (let name = strip (arg (lf_username f)) in
                if au_testing env then check_credentials env f name st
                else
                  (case check_nonce env (lf_nonce f) (as_session st) of
                     Inl m \<Rightarrow> login_page m name st
                   | Inr s \<Rightarrow>
                       (let st1 = st\<lparr>as_session := s\<rparr> in
                        case check_client env f of
                          Some m \<Rightarrow> login_page m name st1
                        | None \<Rightarrow> check_credentials env f name st1)))))"

definition verify_mfa :: "auth_env \<Rightarrow> string option option \<Rightarrow> auth_state \<Rightarrow> reply \<times> auth_state" where
  "verify_mfa env form st =
     (let s = as_session st;
          to_login = (\<lambda>m f s'. (Redirect ''auth.login'' [], s'\<lparr>as_session := flash m ''error'' (f (as_session s'))\<rparr>)) in
      case (case s_mfa_pending_user_id s of Some i \<Rightarrow> if i = 0 then None else Some i | None \<Rightarrow> None) of
        None \<Rightarrow> to_login ''Please sign in first.'' (\<lambda>s. s) st
      | Some uid \<Rightarrow>
          (case get_user (as_db st) uid of
             None \<Rightarrow> to_login ''Session expired. Please sign in again.'' (\<lambda>s. s\<lparr>s_mfa_pending_user_id := None\<rparr>) st
           | Some user \<Rightarrow>
               (case form of
                  None \<Rightarrow> (Page ''verify_mfa.html'' [arg (email user)], st)
                | Some otp \<Rightarrow>
                    (case or_else (s_mfa_challenge_id s) None of
                       None \<Rightarrow> to_login ''Verification code expired. Please sign in again.''
                                 (\<lambda>s. s\<lparr>s_mfa_pending_user_id := None\<rparr>) st
                     | Some challenge_id \<Rightarrow>
                         (case verify_otp_challenge (au_secret_key env) (au_now env) challenge_id (u_id user) ''login_mfa''
                                 (strip (arg otp)) (as_db st) of
                            Inl _ \<Rightarrow> (Abort 500, st)
                          | Inr (result, db') \<Rightarrow>
                              (let st1 = st\<lparr>as_db := db'\<rparr> in
                               if result \<in> {''missing'', ''expired''}
                               then to_login ''Verification code expired. Please sign in again.'' clear_mfa st1
                               else if result = ''locked''
                               then to_login ''Too many attempts. Please sign in again.'' clear_mfa st1
                               else if result \<noteq> ''valid''
                               then (Page ''verify_mfa.html'' [arg (email user)],
                                     on_session (flash ''Invalid verification code.'' ''error'') st1)
                               else complete_login env user (or_else (s_mfa_pending_next s) None) (on_session clear_mfa st1)))))))"

definition login_nonce :: "auth_env \<Rightarrow> reply" where
  "login_nonce env = Json_reply 200 (JObj [(''nonce'', JStr (sz_dumps (ac_serializer (au_account env))
     (ac_secret (au_account env)) ''login-nonce'' (au_now env) (JStr (au_nonce env))))])"

text \<open>
  \<open>logout\<close> flashes a farewell and then clears the session, which holds the flashed messages: what is
  left is the empty session.
\<close>

definition logout :: "auth_state \<Rightarrow> reply \<times> auth_state" where
  "logout st =
     (let (s, g) = logout_user (as_session st, as_globals st) in
      (Redirect ''auth.login'' [],
       st\<lparr>as_session := empty_session, as_globals := g,
          as_cookies := as_cookies st @ [Delete_cookie ''otp_session'', Delete_cookie ''session_token'']\<rparr>))"

section \<open>Registration\<close>

text \<open>\<open>USERNAME_RE\<close> and \<open>EMAIL_RE\<close>, matched against the whole text.\<close>

definition username_ok :: "string \<Rightarrow> bool" where
  "username_ok s \<longleftrightarrow> 3 \<le> length s \<and> length s \<le> 32 \<and> list_all (\<lambda>c. is_alnum_ascii c \<or> c \<in> set ''_.-'') s"

definition email_ok :: "string \<Rightarrow> bool" where
  "email_ok s \<longleftrightarrow>
     (let name = takeWhile (\<lambda>c. c \<noteq> CHR ''@'') s; domain = drop (length name + 1) s in
      name \<noteq> [] \<and> length name < length s \<and> list_all (\<lambda>c. \<not> is_space c) s \<and> CHR ''@'' \<notin> set domain
      \<and> list_ex (\<lambda>i. domain ! i = CHR ''.'') [1..<length domain - 1])"

definition validate_driver_lic :: "string \<Rightarrow> string option \<Rightarrow> bool" where
  "validate_driver_lic lic_no state =
     (if lic_no = [] then False
      else
        (let lic = filter (\<lambda>c. c \<noteq> CHR '' '') (strip lic_no) in
         if \<not> (6 \<le> length lic \<and> length lic \<le> 10 \<and> list_all is_alnum_ascii lic) then False
         else
           (case or_else state None of
              None \<Rightarrow> True
            | Some s \<Rightarrow> upper s \<in> {''ACT'', ''NSW'', ''NT'', ''QLD'', ''SA'', ''TAS'', ''VIC'', ''WA''})))"

definition region_names :: "(string \<times> string) list" where
  "region_names = [(''NSW'', ''Sydney''), (''VIC'', ''VIC east''), (''QLD'', ''QLD''), (''SA'', ''SA''), (''WA'', ''WA''),
     (''TAS'', ''TAS''), (''ACT'', ''ACT''), (''NT'', ''NT'')]"

definition map_state_to_region :: "database \<Rightarrow> string option \<Rightarrow> region option" where
  "map_state_to_region db state_code =
     (case or_else state_code None of
        None \<Rightarrow> None
      | Some s \<Rightarrow>
          (case map_of region_names (upper s) of
             None \<Rightarrow> None
           | Some name \<Rightarrow> find (\<lambda>g. g_name g = name) (regions db)))"

record register_form =
  rf_username :: "string option"
  rf_email :: "string option"
  rf_password :: "string option"
  rf_confirm :: "string option"
  rf_lic_no :: "string option"
  rf_lic_state :: "string option"
  rf_geo_state :: "string option"
  rf_geo_headers :: "string option list"
  rf_geo_environ :: "string option"

definition fullname_map :: "(string \<times> string) list" where
  "fullname_map = [(''NEW SOUTH WALES'', ''NSW''), (''NSW'', ''NSW''), (''VICTORIA'', ''VIC''), (''VIC'', ''VIC''),
     (''QUEENSLAND'', ''QLD''), (''QLD'', ''QLD''), (''SOUTH AUSTRALIA'', ''SA''), (''SA'', ''SA''),
     (''WESTERN AUSTRALIA'', ''WA''), (''WA'', ''WA''), (''TASMANIA'', ''TAS''), (''TAS'', ''TAS''),
     (''NORTHERN TERRITORY'', ''NT''), (''NT'', ''NT''), (''AUSTRALIAN CAPITAL TERRITORY'', ''ACT''), (''ACT'', ''ACT'')]"

text \<open>
  The state the middleware or a proxy detected: \<open>g.geo_state\<close>, else the first header that is set of
  \<open>X-GeoIP-Subdivision\<close>, \<open>X-GeoIP-State\<close> and \<open>X-Country-Subdivision\<close>, else the environment.
\<close>

definition detected_state_code :: "register_form \<Rightarrow> string option" where
  "detected_state_code f =
     (case or_else (rf_geo_state f) (foldr or_else (rf_geo_headers f) (or_else (rf_geo_environ f) None)) of
        None \<Rightarrow> None
      | Some s \<Rightarrow> map_of fullname_map (upper (strip s)))"

text \<open>The row of the new user, before \<open>set_password\<close>.\<close>

definition new_user :: "auth_env \<Rightarrow> database \<Rightarrow> string \<Rightarrow> string \<Rightarrow> string \<Rightarrow> string \<Rightarrow> string option \<Rightarrow> role \<Rightarrow> user" where
  "new_user env db name address lic_no lic_state lic_hash voter_role =
     \<lparr>u_id = fresh_id (map u_id (users db)), username = name, email = Some address, password_hash = [],
      driver_lic_no = lic_no, driver_lic_hash = lic_hash,
      driver_lic_state = (if lic_state = [] then None else Some (upper lic_state)), u_role_id = r_id voter_role,
      account_status = ''pending'', email_verified = False, u_created_at = au_now env, password_changed_at = None,
      session_version = 0, failed_login_attempts = 0, account_locked_until = None\<rparr>"

definition new_roll :: "database \<Rightarrow> user \<Rightarrow> electoral_roll" where
  "new_roll db u =
     \<lparr>er_id = fresh_id (map er_id (electoral_rolls db)), roll_number = ''ER-'' @ zpad 4 (u_id u),
      driver_license_number = driver_lic_no u, driver_license_hash = None, full_name = username u,
      date_of_birth = ''1995-01-01'', address_line1 = ''N/A'', address_line2 = None, suburb = ''N/A'',
      er_state = (case or_else (driver_lic_state u) None of None \<Rightarrow> ''N/A'' | Some s \<Rightarrow> s), postcode = ''0000'',
      er_region_id = map_option g_id (map_state_to_region db (driver_lic_state u)),
      er_status = ''pending'', verified = False, verified_at = None, er_user_id = Some (u_id u)\<rparr>"

text \<open>
  The rows of a registration: the user is flushed first (a violated constraint raises there), then
  the enrolment is added and the transaction committed. \<open>None\<close> is the caught failure of the commit.
\<close>

definition insert_registration ::
  "auth_env \<Rightarrow> user \<Rightarrow> database \<Rightarrow> reply + database option" where
  "insert_registration env u0 db =
     (case user_set_lic_hash_before_insert (ac_pepper (au_account env)) u0 of
        Inl _ \<Rightarrow> Inl (Abort 500)
      | Inr u \<Rightarrow>
          (case commit (db\<lparr>users := users db @ [u]\<rparr>) of
             None \<Rightarrow> Inl (Abort 500)
           | Some db1 \<Rightarrow>
               (case roll_set_lic_hash (ac_pepper (au_account env)) (new_roll db1 u) of
                  Inl _ \<Rightarrow> Inr None
                | Inr r \<Rightarrow> Inr (commit (db1\<lparr>electoral_rolls := electoral_rolls db1 @ [r]\<rparr>)))))"

text \<open>
  The checks of the submitted form, in the order of the handler: the flash function and the message of
  the first that fails.
\<close>

abbreviation rf_name :: "register_form \<Rightarrow> string" where
  "rf_name f \<equiv> strip (arg (rf_username f))"

abbreviation rf_address :: "register_form \<Rightarrow> string" where
  "rf_address f \<equiv> lower (strip (arg (rf_email f)))"

abbreviation rf_licence :: "register_form \<Rightarrow> string" where
  "rf_licence f \<equiv> strip (arg (rf_lic_no f))"

abbreviation rf_state :: "register_form \<Rightarrow> string" where
  "rf_state f \<equiv> strip (arg (rf_lic_state f))"

definition registration_error ::
  "register_form \<Rightarrow> database \<Rightarrow> ((string \<Rightarrow> string \<Rightarrow> web_session \<Rightarrow> web_session) \<times> string) option" where
  "registration_error f db =
     (let password = arg (rf_password f) in
      if rf_state f \<noteq> [] \<and>
         (case detected_state_code f of None \<Rightarrow> False | Some d \<Rightarrow> d \<noteq> [] \<and> upper (strip (rf_state f)) \<noteq> d)
      then Some (flash_once, ''Selected state does not match the detected location from your IP address. '' @
             ''If you are using a VPN or the detection failed, contact an administrator for support.'')
      else if \<not> username_ok (rf_name f) then Some (flash_once, ''Username must be 3-32 chars (letters, digits, _.-)'')
      else if list_ex (\<lambda>u. username u = rf_name f) (users db) then Some (flash_once, ''Username already taken'')
      else if \<not> email_ok (rf_address f) then Some (flash_once, ''Invalid email format'')
      else if list_ex (\<lambda>u. email u = Some (rf_address f)) (users db) then Some (flash_once, ''Email already registered'')
      else if password \<noteq> arg (rf_confirm f) then Some (flash_once, ''Passwords do not match'')
      else if \<not> fst (validate_password_strength password)
      then Some (flash, ''Password too weak: '' @ arg (snd (validate_password_strength password)))
      else if \<not> validate_driver_lic (rf_licence f) (or_else (Some (rf_state f)) None)
      then Some (flash_once, ''Invalid driver licence number'')
      else None)"

definition register :: "auth_env \<Rightarrow> register_form option \<Rightarrow> auth_state \<Rightarrow> reply \<times> auth_state" where
  "register env form st =
     (case form of
        None \<Rightarrow> (Page ''register.html'' [], st)
      | Some f \<Rightarrow>
          (let db = as_db st;
               page = (\<lambda>fl m. (Page ''register.html'' [rf_name f, rf_address f, rf_state f], on_session (fl m ''message'') st)) in
           case registration_error f db of
             Some (fl, m) \<Rightarrow> page fl m
           | None \<Rightarrow>
               (case hash_lic (ac_pepper (au_account env)) (Some (rf_licence f)) of
                  Inl _ \<Rightarrow> (Abort 500, st)
                | Inr lic_hash \<Rightarrow>
                    if lic_hash \<noteq> None \<and> list_ex (\<lambda>u. driver_lic_hash u = lic_hash) (users db)
                    then page flash ''Driver licence already bound to another account''
                    else
                      (case find (\<lambda>r. r_name r = ''voter'') (roles db) of
                         None \<Rightarrow> page flash ''Registration is temporarily unavailable. Please contact support.''
                       | Some voter_role \<Rightarrow>
                           (case set_password (ac_password (au_account env)) (ac_salt (au_account env)) (au_now env)
                                   (new_user env db (rf_name f) (rf_address f) (rf_licence f) (rf_state f) lic_hash voter_role)
                                   (arg (rf_password f)) of
                              Inl _ \<Rightarrow> (Abort 500, st)
                            | Inr u \<Rightarrow>
                                (case insert_registration env u db of
                                   Inl r \<Rightarrow> (r, st)
                                 | Inr None \<Rightarrow> page flash_once ''Registration could not be completed. Please try again.''
                                 | Inr (Some db') \<Rightarrow>
                                     (case send_verification_email (au_account env) u of
                                        Some m \<Rightarrow>
                                          (Redirect ''auth.login'' [],
                                           on_session (flash_once ''Registration submitted. Verify your email, then wait for admin approval.'' ''message'')
                                             (st\<lparr>as_db := db', as_mails := as_mails st @ [m]\<rparr>))
                                      | None \<Rightarrow>
                                          (Redirect ''auth.login'' [],
                                           on_session (flash_once (''Registration submitted, but the verification email could not be sent. '' @
                                               ''Use Resend verification after email delivery is restored.'') ''message'')
                                             (st\<lparr>as_db := db'\<rparr>)))))))))"

section \<open>Where a login redirect leads\<close>

text \<open>
  How a browser resolves a location against an http(s) page (the URL standard): leading controls and
  spaces and all tabs and line ends are dropped; two leading slashes, each forward or backward, start
  an authority, any further slashes being skipped; one leading slash is a path of the same origin.
\<close>

definition slash :: "char \<Rightarrow> bool" where
  "slash c \<longleftrightarrow> c = CHR ''/'' \<or> c = CHR 0x5C"

definition leaves_origin :: "string \<Rightarrow> bool" where
  "leaves_origin s = (case url_clean (dropWhile (\<lambda>c. ord c \<le> 32) s) of
     a # b # rest \<Rightarrow> slash a \<and> slash b | _ \<Rightarrow> False)"

definition one_line :: "string \<Rightarrow> bool" where
  "one_line s \<longleftrightarrow> (\<forall>c \<in> set s. ord c \<notin> {9, 10, 13})"

lemma url_clean_id: "one_line s \<Longrightarrow> url_clean s = s"
  unfolding url_clean_def one_line_def by (rule filter_True) simp

lemma startswith_slash: "startswith s ''/'' \<longleftrightarrow> (\<exists>t. s = CHR ''/'' # t)"
  by (cases s) (auto simp: startswith_def)

lemma safe_relative_next_SomeD:
  assumes "safe_relative_next c = Some p"
  shows "c = Some p" and "\<exists>t. p = CHR ''/'' # t" and "\<not> startswith p ''//''" and "CHR 0x5C \<notin> set p"
  using assms by (auto simp: safe_relative_next_def startswith_slash split: option.splits if_splits)

text \<open>
  The redirect after login. What the handler accepts as target is the given text itself, a path
  that starts with one slash. If it contains no tab and no line end, the browser stays on the
  origin; the check is not complete for the others: a text with a tab between slashes is accepted,
  unchanged, although a browser that resolves it leaves the origin.
\<close>

theorem safe_next_same_origin:
  "(\<forall>c p. safe_relative_next c = Some p \<longrightarrow>
      c = Some p \<and> startswith p ''/'' \<and> (one_line p \<longrightarrow> \<not> leaves_origin p))
   \<and> (let p = ''/'' @ [CHR 0x09] @ ''//evil.example'' in safe_relative_next (Some p) = Some p \<and> leaves_origin p)"
proof -
  have "\<not> leaves_origin p" if acc: "safe_relative_next c = Some p" and plain: "one_line p" for c p
  proof -
    obtain t where t: "p = CHR ''/'' # t" using safe_relative_next_SomeD(2) [OF acc] by blast
    have "ord (CHR ''/'') = 47" by (simp add: ord_def)
    then have "url_clean (dropWhile (\<lambda>c. ord c \<le> 32) p) = p" using t url_clean_id [OF plain] by simp
    then show ?thesis
      using t safe_relative_next_SomeD(3,4) [OF acc] by (auto simp: leaves_origin_def slash_def startswith_def split: list.splits)
  qed
  moreover have "let p = ''/'' @ [CHR 0x09] @ ''//evil.example'' in safe_relative_next (Some p) = Some p \<and> leaves_origin p"
    by code_simp
  moreover have "c = Some p \<and> startswith p ''/''" if "safe_relative_next c = Some p" for c p
    using safe_relative_next_SomeD(1,2) [OF that] by (simp add: startswith_slash)
  ultimately show ?thesis by blast
qed

theorem safe_next_same_origin_witness:
  "safe_relative_next (Some ''/vote?x=1'') = Some ''/vote?x=1'' \<and> \<not> leaves_origin ''/vote?x=1''"
proof -
  have "safe_relative_next (Some ''/vote?x=1'') = Some ''/vote?x=1''" "one_line ''/vote?x=1''" by code_simp+
  then show ?thesis using safe_next_same_origin by blast
qed


section \<open>Both factors\<close>

text \<open>The first factor of \<open>f\<close>: the named account is not locked and the password is its own.\<close>

definition password_proven :: "auth_env \<Rightarrow> login_form \<Rightarrow> database \<Rightarrow> user \<Rightarrow> bool" where
  "password_proven env f db u \<longleftrightarrow> find (\<lambda>u. username u = strip (arg (lf_username f))) (users db) = Some u
     \<and> \<not> is_account_locked (au_now env) u \<and> check_password (ac_password (au_account env)) u (arg (lf_password f))"

definition code_proven :: "auth_env \<Rightarrow> string option \<Rightarrow> auth_state \<Rightarrow> user \<Rightarrow> bool" where
  "code_proven env otp st u \<longleftrightarrow> (\<exists>cid db'. s_mfa_challenge_id (as_session st) = Some cid
     \<and> verify_otp_challenge (au_secret_key env) (au_now env) cid (u_id u) ''login_mfa'' (strip (arg otp)) (as_db st) = Inr (''valid'', db'))"

lemma on_session_simps [simp]:
  "as_db (on_session h st) = as_db st" "as_session (on_session h st) = h (as_session st)"
  "as_globals (on_session h st) = as_globals st" "as_cookies (on_session h st) = as_cookies st"
  "as_mails (on_session h st) = as_mails st"
  by (simp_all add: on_session_def)

lemma flash_simps [simp]:
  "s_user_id (flash m c s) = s_user_id s" "s_mfa_pending_user_id (flash m c s) = s_mfa_pending_user_id s"
  "s_mfa_challenge_id (flash m c s) = s_mfa_challenge_id s"
  "s_user_id (flash_once m c s) = s_user_id s" "s_mfa_pending_user_id (flash_once m c s) = s_mfa_pending_user_id s"
  "s_mfa_challenge_id (flash_once m c s) = s_mfa_challenge_id s"
  "s_user_id (clear_mfa s) = s_user_id s" "s_mfa_pending_user_id (clear_mfa s) = None" "s_mfa_challenge_id (clear_mfa s) = None"
  by (simp_all add: flash_def flash_once_def clear_mfa_def)

text \<open>A request opens no session: no cookie, no identity.\<close>

definition no_session :: "auth_state \<Rightarrow> auth_state \<Rightarrow> bool" where
  "no_session st st' \<longleftrightarrow> as_cookies st' = as_cookies st \<and> as_globals st' = as_globals st
     \<and> s_user_id (as_session st') = s_user_id (as_session st)"

lemma start_mfa_effect:
  assumes "start_mfa env u n st = (r, st')"
  shows "no_session st st'"
    and "s_mfa_pending_user_id (as_session st') \<in> {None, Some (u_id u)}"
  using assms by (auto simp: start_mfa_def no_session_def Let_def split: sum.splits if_splits option.splits prod.splits)

lemma complete_login_effect:
  assumes "complete_login env u n st = (r, st')"
  shows "s_mfa_pending_user_id (as_session st') = s_mfa_pending_user_id (as_session st)"
    and "no_session st st' \<or> s_user_id (as_session st') = Some (u_id u) \<and>
      (as_cookies st' = as_cookies st \<or> (\<exists>t db'. issue_token (ac_token (au_account env)) db' (u_id u) (Some (session_version u)) = Inr t
          \<and> as_cookies st' = as_cookies st @ [Set_cookie ''session_token'' t (au_cookie_secure env)]))"
  using assms by (auto simp: complete_login_def no_session_def Let_def login_session_def login_user_def set_token_cookie_def
      reset_failed_logins_def split: option.splits if_splits sum.splits)

lemma check_credentials_effect:
  assumes "check_credentials env f (strip (arg (lf_username f))) st = (r, st')"
  shows "(no_session st st' \<and> s_mfa_pending_user_id (as_session st') = s_mfa_pending_user_id (as_session st))
    \<or> (\<exists>u. password_proven env f (as_db st) u \<and>
         (if au_mfa env then start_mfa env u (safe_relative_next (lf_next f)) st = (r, st')
          else complete_login env u (safe_relative_next (lf_next f)) st = (r, st')))"
proof -
  have quiet: "no_session st (on_session (flash m c) st) \<and> no_session st (on_session (flash_once m c) st)" for m c
    by (simp add: no_session_def)
  show ?thesis
  proof (cases "find (\<lambda>u. username u = strip (arg (lf_username f))) (users (as_db st))")
    case None
    with assms quiet show ?thesis by (auto simp: check_credentials_def)
  next
    case (Some u)
    show ?thesis
    proof (cases "is_account_locked (au_now env) u \<or> arg (lf_password f) = []
        \<or> \<not> check_password (ac_password (au_account env)) u (arg (lf_password f))")
      case True
      with assms Some quiet show ?thesis
        by (auto simp: check_credentials_def login_page_def Let_def no_session_def split: if_splits option.splits)
    next
      case False
      with Some have "password_proven env f (as_db st) u" by (simp add: password_proven_def)
      with assms Some False show ?thesis by (auto simp: check_credentials_def Let_def split: if_splits)
    qed
  qed
qed

lemma check_nonce_keeps:
  "check_nonce env n s = Inr s' \<Longrightarrow> s_user_id s' = s_user_id s \<and> s_mfa_pending_user_id s' = s_mfa_pending_user_id s"
  by (auto simp: check_nonce_def Let_def split: option.splits sum.splits serial_exc.splits json.splits if_splits)

lemma login_effect:
  assumes "login env form st = (r, st')"
  shows "(no_session st st' \<and> s_mfa_pending_user_id (as_session st') = s_mfa_pending_user_id (as_session st))
    \<or> (\<exists>f u st1. form = Some f \<and> password_proven env f (as_db st) u \<and> current_user st = None \<and> as_cookies st1 = as_cookies st
         \<and> no_session st st1 \<and> s_mfa_pending_user_id (as_session st1) = s_mfa_pending_user_id (as_session st) \<and>
         (if au_mfa env then start_mfa env u (safe_relative_next (lf_next f)) st1 = (r, st')
          else complete_login env u (safe_relative_next (lf_next f)) st1 = (r, st')))"
proof (cases "current_user st = None \<and> (\<exists>f. form = Some f \<and> strip (arg (lf_gotcha f)) = [])")
  case False
  with assms show ?thesis by (auto simp: login_def login_page_def no_session_def Let_def split: option.splits if_splits)
next
  case True
  then obtain f where f: "current_user st = None" "form = Some f" "strip (arg (lf_gotcha f)) = []" by blast
  have quiet: "no_session st st' \<and> s_mfa_pending_user_id (as_session st') = s_mfa_pending_user_id (as_session st)"
    if "login_page m n (st\<lparr>as_session := s1\<rparr>) = (r, st')" "s_user_id s1 = s_user_id (as_session st)"
      "s_mfa_pending_user_id s1 = s_mfa_pending_user_id (as_session st)" for m n s1
    using that by (auto simp: login_page_def no_session_def)
  have same: "st\<lparr>as_session := as_session st\<rparr> = st" by simp
  consider s1 where "check_credentials env f (strip (arg (lf_username f))) (st\<lparr>as_session := s1\<rparr>) = (r, st')"
      "s_user_id s1 = s_user_id (as_session st)" "s_mfa_pending_user_id s1 = s_mfa_pending_user_id (as_session st)"
    | "no_session st st' \<and> s_mfa_pending_user_id (as_session st') = s_mfa_pending_user_id (as_session st)"
  proof (cases "au_testing env")
    case True
    with assms f have "check_credentials env f (strip (arg (lf_username f))) (st\<lparr>as_session := as_session st\<rparr>) = (r, st')"
      by (simp add: login_def)
    then show ?thesis by (rule that(1)) simp_all
  next
    case live: False
    show ?thesis
    proof (cases "check_nonce env (lf_nonce f) (as_session st)")
      case (Inl m)
      with assms f live have "login_page m (strip (arg (lf_username f))) (st\<lparr>as_session := as_session st\<rparr>) = (r, st')"
        by (simp add: login_def)
      from quiet [OF this] show ?thesis by (intro that(2)) simp
    next
      case (Inr s1)
      note keep = check_nonce_keeps [OF Inr]
      show ?thesis
      proof (cases "check_client env f")
        case None
        with assms f live Inr have "check_credentials env f (strip (arg (lf_username f))) (st\<lparr>as_session := s1\<rparr>) = (r, st')"
          by (simp add: login_def)
        then show ?thesis by (rule that(1)) (use keep in simp_all)
      next
        case (Some m)
        with assms f live Inr have "login_page m (strip (arg (lf_username f))) (st\<lparr>as_session := s1\<rparr>) = (r, st')"
          by (simp add: login_def)
        from quiet [OF this] keep show ?thesis by (intro that(2)) simp
      qed
    qed
  qed
  then show ?thesis
  proof cases
    case 1
    let ?st = "st\<lparr>as_session := s1\<rparr>"
    have "no_session st ?st" using 1 by (simp add: no_session_def)
    note st = this
    consider "no_session ?st st'" "s_mfa_pending_user_id (as_session st') = s_mfa_pending_user_id s1"
      | u where "password_proven env f (as_db st) u"
         "if au_mfa env then start_mfa env u (safe_relative_next (lf_next f)) ?st = (r, st')
          else complete_login env u (safe_relative_next (lf_next f)) ?st = (r, st')"
      using check_credentials_effect [OF 1(1)] by auto
    then show ?thesis
    proof cases
      case ended: 1
      with st 1(2,3) show ?thesis by (intro disjI1) (simp add: no_session_def)
    next
      case proven: 2
      with st 1(2,3) f show ?thesis by (intro disjI2 exI [of _ f] exI [of _ u] exI [of _ ?st]) (simp add: no_session_def)
    qed
  qed auto
qed

text \<open>
  The requests of one browser session with the second factor switched on: \<open>P\<close> collects the users
  whose password was given in it. Between the requests the database may change in any way, and the
  session may be emptied or lose its pending login.
\<close>

inductive mfa_run :: "web_session \<Rightarrow> int set \<Rightarrow> bool" where
  fresh: "mfa_run empty_session {}"
| login_request: "mfa_run (as_session st) P \<Longrightarrow> au_mfa env \<Longrightarrow> login env form st = (r, st') \<Longrightarrow>
    mfa_run (as_session st') (P \<union> {u_id u | f u. form = Some f \<and> password_proven env f (as_db st) u})"
| code_request: "mfa_run (as_session st) P \<Longrightarrow> verify_mfa env form st = (r, st') \<Longrightarrow> mfa_run (as_session st') P"
| other_request: "mfa_run s P \<Longrightarrow> s_mfa_pending_user_id s' \<in> {None, s_mfa_pending_user_id s} \<Longrightarrow> mfa_run s' P"

lemma verify_mfa_effect:
  assumes "verify_mfa env form st = (r, st')"
  shows "(no_session st st' \<and> s_mfa_pending_user_id (as_session st') \<in> {None, s_mfa_pending_user_id (as_session st)})
    \<or> (\<exists>otp u n st1. form = Some otp \<and> s_mfa_pending_user_id (as_session st) = Some (u_id u)
         \<and> get_user (as_db st) (u_id u) = Some u \<and> code_proven env otp st u
         \<and> no_session st st1 \<and> s_mfa_pending_user_id (as_session st1) = None \<and> complete_login env u n st1 = (r, st'))"
proof (cases "\<exists>uid u otp cid db'. s_mfa_pending_user_id (as_session st) = Some uid \<and> uid \<noteq> 0 \<and> get_user (as_db st) uid = Some u
      \<and> form = Some otp \<and> or_else (s_mfa_challenge_id (as_session st)) None = Some cid
      \<and> verify_otp_challenge (au_secret_key env) (au_now env) cid (u_id u) ''login_mfa'' (strip (arg otp)) (as_db st) = Inr (''valid'', db')")
  case True
  then obtain uid u otp cid db' where u: "s_mfa_pending_user_id (as_session st) = Some uid" "uid \<noteq> 0" "get_user (as_db st) uid = Some u"
    "form = Some otp" "or_else (s_mfa_challenge_id (as_session st)) None = Some cid"
    "verify_otp_challenge (au_secret_key env) (au_now env) cid (u_id u) ''login_mfa'' (strip (arg otp)) (as_db st) = Inr (''valid'', db')"
    by blast
  let ?st = "on_session clear_mfa (st\<lparr>as_db := db'\<rparr>)"
  have run: "complete_login env u (or_else (s_mfa_pending_next (as_session st)) None) ?st = (r, st')"
    using assms u by (simp add: verify_mfa_def)
  have "s_mfa_challenge_id (as_session st) = Some cid" using u(5) by (auto simp: or_else_def split: option.splits if_splits)
  then have "code_proven env otp st u" using u(6) by (auto simp: code_proven_def)
  moreover have "u_id u = uid" using get_user_SomeD [OF u(3)] by simp
  moreover have "no_session st ?st" by (simp add: no_session_def)
  ultimately show ?thesis using u run
    by (intro disjI2 exI [of _ otp] exI [of _ u] exI [of _ "or_else (s_mfa_pending_next (as_session st)) None"] exI [of _ ?st]) simp
next
  case False
  with assms show ?thesis
    by (intro disjI1) (fastforce simp: verify_mfa_def no_session_def Let_def split: option.splits if_splits sum.splits prod.splits)
qed

lemma mfa_run_pending: "mfa_run s P \<Longrightarrow> s_mfa_pending_user_id s = Some uid \<Longrightarrow> uid \<in> P"
proof (induction arbitrary: uid rule: mfa_run.induct)
  case (login_request st P env form r st')
  from login_effect [OF login_request(3)] show ?case
  proof (elim disjE exE conjE)
    assume "s_mfa_pending_user_id (as_session st') = s_mfa_pending_user_id (as_session st)"
    then show ?thesis using login_request.IH login_request.prems by auto
  next
    fix f u st1
    assume f: "form = Some f" "password_proven env f (as_db st) u"
      and "if au_mfa env then start_mfa env u (safe_relative_next (lf_next f)) st1 = (r, st')
        else complete_login env u (safe_relative_next (lf_next f)) st1 = (r, st')"
    then have "start_mfa env u (safe_relative_next (lf_next f)) st1 = (r, st')" using login_request(2) by simp
    from start_mfa_effect(2) [OF this] f login_request.prems show ?thesis by auto
  qed
next
  case (code_request st P env form r st')
  from verify_mfa_effect [OF code_request(2)] code_request.IH code_request.prems complete_login_effect(1) show ?case by fastforce
qed (auto simp: empty_session_def)

text \<open>
  C19: with the second factor switched on nobody gets a session with one factor. The login request
  itself never sets a cookie or an identity; and when the code request of a browser session does,
  then for a user whose password was given in that same browser session, while the account was not
  locked, and who now gave the code of the unexpired, unused challenge issued to that user.
\<close>

theorem two_factors_required:
  assumes "mfa_run (as_session st) P" and "au_mfa env"
  shows "(\<forall>form r st'. login env form st = (r, st') \<longrightarrow> no_session st st')
    \<and> (\<forall>form r st'. verify_mfa env form st = (r, st') \<and> \<not> no_session st st' \<longrightarrow>
         (\<exists>otp u. form = Some otp \<and> u_id u \<in> P \<and> get_user (as_db st) (u_id u) = Some u \<and> code_proven env otp st u
           \<and> s_user_id (as_session st') = Some (u_id u)))"
proof (intro conjI allI impI)
  fix form r st' assume run: "login env form st = (r, st')"
  from login_effect [OF run] assms(2) start_mfa_effect(1) show "no_session st st'" by (fastforce simp: no_session_def)
next
  fix form r st' assume run: "verify_mfa env form st = (r, st') \<and> \<not> no_session st st'"
  from verify_mfa_effect [OF conjunct1 [OF run]] run obtain otp u n st1 where
    u: "form = Some otp" "s_mfa_pending_user_id (as_session st) = Some (u_id u)" "get_user (as_db st) (u_id u) = Some u"
      "code_proven env otp st u" "no_session st st1" "complete_login env u n st1 = (r, st')" by blast
  have "\<not> no_session st1 st'" using run u(5) by (auto simp: no_session_def)
  then have "s_user_id (as_session st') = Some (u_id u)" using complete_login_effect(2) [OF u(6)] by blast
  with u mfa_run_pending [OF assms(1) u(2)] show "\<exists>otp u. form = Some otp \<and> u_id u \<in> P \<and> get_user (as_db st) (u_id u) = Some u
      \<and> code_proven env otp st u \<and> s_user_id (as_session st') = Some (u_id u)" by blast
qed

definition demo_auth_env :: auth_env where
  "demo_auth_env = \<lparr>au_account = demo_account_env 100, au_testing = True, au_mfa = True, au_turnstile_secret = None,
     au_turnstile = (\<lambda>_ _. None), au_challenge_id = ''c1'', au_code = ''123456'', au_nonce = ''n'', au_cookie_secure = True\<rparr>"

definition demo_login :: login_form where
  "demo_login = \<lparr>lf_gotcha = None, lf_username = Some ''alice'', lf_password = Some ''x'', lf_nonce = None, lf_turnstile = None,
     lf_turnstile_0 = None, lf_user_agent = None, lf_origin = None, lf_referer = None, lf_next = None\<rparr>"

definition demo_auth_state :: auth_state where
  "demo_auth_state = \<lparr>as_db = demo_db, as_session = empty_session, as_globals = no_globals, as_cookies = [], as_mails = []\<rparr>"

lemma demo_login_pending:
  "\<exists>st1. login demo_auth_env (Some demo_login) demo_auth_state = (Redirect ''auth.verify_mfa'' [], st1)
     \<and> s_mfa_pending_user_id (as_session st1) = Some 7"
proof -
  have digits: "isdigit ''123456''" and name: "strip ''alice'' = ''alice''" and empty: "strip [] = []" by code_simp+
  have "db_ok (demo_db\<lparr>otp_challenges := [\<lparr>oc_id = ''c1'', oc_user_id = 7, purpose = ''login_mfa'',
      code_digest = d, expires_at = x, failed_attempts = 0, consumed_at = None, oc_created_at = y\<rparr>]\<rparr>)" for d x y
    using demo_db_ok by (simp add: db_ok_def constraint_defs demo_db_def demo_user_def)
  then have "\<exists>db'. issue_otp_challenge (Some ''k'') 100 ''c1'' ''123456'' 7 ''login_mfa'' 300 None demo_db = Inr ((''c1'', ''123456''), db')"
    using digits by (simp add: issue_otp_challenge_def valid_purposes_def
        find_challenge_for_def demo_db_def otp_digest_def or_else_def commit_ok Let_def)
  then obtain db' where issue: "issue_otp_challenge (Some ''k'') 100 ''c1'' ''123456'' 7 ''login_mfa'' 300 None demo_db
      = Inr ((''c1'', ''123456''), db')" by blast
  have user: "find (\<lambda>u. username u = ''alice'') (users demo_db) = Some demo_user" "\<not> is_account_locked 100 demo_user"
    "check_password demo_password_lib demo_user ''x''" "u_id demo_user = 7"
    by (simp_all add: demo_defs is_account_locked_def check_password_def demo_password_lib_def)
  show ?thesis
    using issue user name empty
    by (simp add: login_def demo_auth_state_def demo_login_def demo_auth_env_def current_user_def no_globals_def empty_session_def
        arg_def check_credentials_def start_mfa_def demo_account_env_def demo_token_env_def Let_def)
qed

theorem two_factors_required_witness:
  "\<exists>st1. mfa_run (as_session st1) {7} \<and> s_mfa_pending_user_id (as_session st1) = Some 7 \<and> no_session demo_auth_state st1"
proof -
  obtain st1 where st1: "login demo_auth_env (Some demo_login) demo_auth_state = (Redirect ''auth.verify_mfa'' [], st1)"
    "s_mfa_pending_user_id (as_session st1) = Some 7" using demo_login_pending by blast
  have start: "mfa_run (as_session demo_auth_state) {}" by (simp add: demo_auth_state_def mfa_run.fresh)
  have mfa: "au_mfa demo_auth_env" by (simp add: demo_auth_env_def)
  let ?P = "{u_id u | f u. Some demo_login = Some f \<and> password_proven demo_auth_env f (as_db demo_auth_state) u}"
  have run: "mfa_run (as_session st1) ({} \<union> ?P)" by (rule mfa_run.login_request [OF start mfa st1(1)])
  have "7 \<in> ?P" using mfa_run_pending [OF run st1(2)] by simp
  moreover have "i = 7" if "i \<in> ?P" for i
    using that calculation by (auto simp: password_proven_def)
  ultimately have "?P = {7}" by blast
  with run st1 two_factors_required [OF start mfa] show ?thesis by auto
qed


section \<open>What a registration stores\<close>

lemma map_state_to_region_None [simp]: "map_state_to_region db None = None"
  by (simp add: map_state_to_region_def or_else_def)

lemma insert_registration_SomeD:
  assumes "insert_registration env u0 db = Inr (Some db')"
  shows "\<exists>h r. db' = db\<lparr>users := users db @ [u0\<lparr>driver_lic_hash := h\<rparr>], electoral_rolls := electoral_rolls db @ [r]\<rparr>
    \<and> db_ok db' \<and> er_user_id r = Some (u_id u0) \<and> er_status r = ''pending'' \<and> \<not> verified r \<and> er_region_id r \<noteq> None
    \<and> roll_number r = ''ER-'' @ zpad 4 (u_id u0) \<and> driver_lic_state u0 \<noteq> None"
proof -
  obtain u db1 r where u: "user_set_lic_hash_before_insert (ac_pepper (au_account env)) u0 = Inr u"
    and db1: "commit (db\<lparr>users := users db @ [u]\<rparr>) = Some db1"
    and r: "roll_set_lic_hash (ac_pepper (au_account env)) (new_roll db1 u) = Inr r"
    and db': "commit (db1\<lparr>electoral_rolls := electoral_rolls db1 @ [r]\<rparr>) = Some db'"
    using assms by (auto simp: insert_registration_def split: sum.splits option.splits)
  obtain h where h: "u = u0\<lparr>driver_lic_hash := h\<rparr>"
    using u by (auto simp: user_set_lic_hash_before_insert_def split: sum.splits)
  obtain k where k: "r = (new_roll db1 u)\<lparr>driver_license_hash := k\<rparr>"
    using r by (auto simp: roll_set_lic_hash_def split: sum.splits)
  have ok: "db_ok db'" "db' = db\<lparr>users := users db @ [u], electoral_rolls := electoral_rolls db @ [r]\<rparr>"
    using db1 db' by (auto simp: commit_Some_iff)
  then have "er_region_id r \<noteq> None" by (simp add: db_ok_def electoral_rolls_ok_def)
  moreover from this have "driver_lic_state u0 \<noteq> None" using h k by (cases "driver_lic_state u0") (auto simp: new_roll_def)
  ultimately show ?thesis using ok h k by (intro exI [of _ h] exI [of _ r]) (simp add: new_roll_def)
qed

lemma registration_error_None:
  assumes "registration_error f db = None"
  shows "username_ok (rf_name f)" and "email_ok (rf_address f)" and "arg (rf_confirm f) = arg (rf_password f)"
    and "fst (validate_password_strength (arg (rf_password f)))"
    and "validate_driver_lic (rf_licence f) (or_else (Some (rf_state f)) None)"
    and "rf_name f \<notin> username ` set (users db)" and "Some (rf_address f) \<notin> email ` set (users db)"
  using assms by (auto simp: registration_error_def Let_def list_ex_iff split: if_splits)

text \<open>A registration is accepted with these rows and this mail, or it leaves the tables and the mails as they were.\<close>

definition registered :: "auth_env \<Rightarrow> register_form \<Rightarrow> user \<Rightarrow> auth_state \<Rightarrow> auth_state \<Rightarrow> bool" where
  "registered env f u st st' \<longleftrightarrow> (\<exists>h role. registration_error f (as_db st) = None
     \<and> find (\<lambda>r. r_name r = ''voter'') (roles (as_db st)) = Some role
     \<and> set_password (ac_password (au_account env)) (ac_salt (au_account env)) (au_now env)
         (new_user env (as_db st) (rf_name f) (rf_address f) (rf_licence f) (rf_state f) h role) (arg (rf_password f)) = Inr u)
     \<and> insert_registration env u (as_db st) = Inr (Some (as_db st'))
     \<and> as_mails st' = as_mails st @ (case send_verification_email (au_account env) u of None \<Rightarrow> [] | Some m \<Rightarrow> [m])"

lemma register_cases:
  assumes "register env (Some f) st = (r, st')"
  shows "(as_db st' = as_db st \<and> as_mails st' = as_mails st \<and> r \<noteq> Redirect ''auth.login'' [])
    \<or> (r = Redirect ''auth.login'' [] \<and> (\<exists>u. registered env f u st st'))"
proof (cases "registration_error f (as_db st)")
  case (Some e)
  with assms show ?thesis by (cases e) (auto simp: register_def Let_def)
next
  case None
  note run = assms [unfolded register_def option.case Let_def None]
  have abort: "insert_registration env u db = Inl r \<Longrightarrow> r = Abort 500" for u db r
    by (auto simp: insert_registration_def split: sum.splits option.splits)
  show ?thesis
  proof (cases "\<exists>h role u db'. find (\<lambda>r. r_name r = ''voter'') (roles (as_db st)) = Some role
      \<and> hash_lic (ac_pepper (au_account env)) (Some (rf_licence f)) = Inr h
      \<and> \<not> (h \<noteq> None \<and> list_ex (\<lambda>u. driver_lic_hash u = h) (users (as_db st)))
      \<and> set_password (ac_password (au_account env)) (ac_salt (au_account env)) (au_now env)
         (new_user env (as_db st) (rf_name f) (rf_address f) (rf_licence f) (rf_state f) h role) (arg (rf_password f)) = Inr u
      \<and> insert_registration env u (as_db st) = Inr (Some db')")
    case True
    then obtain h role u db' where u: "find (\<lambda>r. r_name r = ''voter'') (roles (as_db st)) = Some role"
      "hash_lic (ac_pepper (au_account env)) (Some (rf_licence f)) = Inr h"
      "\<not> (h \<noteq> None \<and> list_ex (\<lambda>u. driver_lic_hash u = h) (users (as_db st)))"
      "set_password (ac_password (au_account env)) (ac_salt (au_account env)) (au_now env)
         (new_user env (as_db st) (rf_name f) (rf_address f) (rf_licence f) (rf_state f) h role) (arg (rf_password f)) = Inr u"
      "insert_registration env u (as_db st) = Inr (Some db')" by blast
    have "r = Redirect ''auth.login'' [] \<and> as_db st' = db'
      \<and> as_mails st' = as_mails st @ (case send_verification_email (au_account env) u of None \<Rightarrow> [] | Some m \<Rightarrow> [m])"
      using run u by (cases "send_verification_email (au_account env) u") auto
    with u None show ?thesis by (auto simp: registered_def)
  next
    case False
    have "as_db st' = as_db st \<and> as_mails st' = as_mails st \<and> r \<noteq> Redirect ''auth.login'' []"
      using run False abort by (auto split: sum.splits if_splits option.splits)
    then show ?thesis ..
  qed
qed

text \<open>
  C22: what a registration does. Either nothing is stored and nothing is mailed, or exactly one user
  and one enrolment are added: a voter with the given name and address, whose password is the one
  typed twice, pending and with an unverified address, and the pending, unverified enrolment of
  that user; and at most one mail is sent, to that address. Without a licence state, which the form
  treats as optional, no registration is ever stored: the enrolment has no region then and the
  commit fails.
\<close>

theorem registration_effect:
  assumes "register env (Some f) st = (r, st')" and "password_lib_ok (ac_password (au_account env))"
  shows "(as_db st' = as_db st \<and> as_mails st' = as_mails st \<and> r \<noteq> Redirect ''auth.login'' [])
    \<or> (r = Redirect ''auth.login'' [] \<and> rf_state f \<noteq> [] \<and>
       (\<exists>u row ms. as_db st' = (as_db st)\<lparr>users := users (as_db st) @ [u], electoral_rolls := electoral_rolls (as_db st) @ [row]\<rparr>
          \<and> db_ok (as_db st') \<and> username u = rf_name f \<and> email u = Some (rf_address f)
          \<and> (\<forall>q. check_password (ac_password (au_account env)) u q \<longleftrightarrow> q = arg (rf_password f))
          \<and> has_role (as_db st') u [''voter''] \<and> account_status u = ''pending'' \<and> \<not> email_verified u
          \<and> er_user_id row = Some (u_id u) \<and> er_status row = ''pending'' \<and> \<not> verified row
          \<and> as_mails st' = as_mails st @ ms \<and> length ms \<le> 1 \<and> (\<forall>m \<in> set ms. m_to m = Some (rf_address f))))"
proof -
  consider "as_db st' = as_db st \<and> as_mails st' = as_mails st \<and> r \<noteq> Redirect ''auth.login'' []"
    | u where "r = Redirect ''auth.login'' []" "registered env f u st st'"
    using register_cases [OF assms(1)] by blast
  then show ?thesis
  proof cases
    case (2 u)
    obtain h role where role: "find (\<lambda>r. r_name r = ''voter'') (roles (as_db st)) = Some role"
      and u: "u = (new_user env (as_db st) (rf_name f) (rf_address f) (rf_licence f) (rf_state f) h role)
        \<lparr>password_hash := pw_generate (ac_password (au_account env)) (ac_salt (au_account env)) (arg (rf_password f)),
         password_changed_at := Some (au_now env), session_version := 1, failed_login_attempts := 0, account_locked_until := None\<rparr>"
      and ins: "insert_registration env u (as_db st) = Inr (Some (as_db st'))"
      using 2(2) by (auto simp: registered_def set_password_cases new_user_def split: if_splits)
    obtain k row where row: "as_db st' = (as_db st)\<lparr>users := users (as_db st) @ [u\<lparr>driver_lic_hash := k\<rparr>],
        electoral_rolls := electoral_rolls (as_db st) @ [row]\<rparr>" "db_ok (as_db st')" "er_user_id row = Some (u_id u)"
      "er_status row = ''pending''" "\<not> verified row" "driver_lic_state u \<noteq> None"
      using insert_registration_SomeD [OF ins] by blast
    have state: "rf_state f \<noteq> []" using row(6) u by (auto simp: new_user_def)
    let ?ms = "case send_verification_email (au_account env) u of None \<Rightarrow> [] | Some m \<Rightarrow> [m]"
    have mails: "as_mails st' = as_mails st @ ?ms" "length ?ms \<le> 1" "\<forall>m \<in> set ?ms. m_to m = Some (rf_address f)"
      using 2(2) u by (auto simp: registered_def send_verification_email_def new_user_def split: option.splits if_splits)
    have "find (\<lambda>x. r_id x = r_id role) (roles (as_db st)) = Some role"
      using find_by_unique [of r_id "roles (as_db st)" role] find_Some_in [OF role] row(1,2) by (simp add: db_ok_def roles_ok_def)
    then have "has_role (as_db st') u [''voter'']"
      using find_Some_in [OF role] u row(1) by (simp add: has_role_def role_of_def new_user_def)
    moreover have "check_password (ac_password (au_account env)) u q \<longleftrightarrow> q = arg (rf_password f)" for q
      using assms(2) u by (simp add: check_password_def password_lib_ok_def)
    moreover have "username u = rf_name f" "email u = Some (rf_address f)" "account_status u = ''pending''" "\<not> email_verified u"
      using u by (simp_all add: new_user_def)
    ultimately show ?thesis using 2(1) row mails state
      by (intro disjI2 conjI exI [of _ "u\<lparr>driver_lic_hash := k\<rparr>"] exI [of _ row] exI [of _ ?ms])
        (simp_all add: has_role_def role_of_def check_password_def)
  qed blast
qed

definition demo_register :: register_form where
  "demo_register = \<lparr>rf_username = Some '' carol'', rf_email = Some ''Carol@Example.org'', rf_password = Some ''Correct-Horse-9'',
     rf_confirm = Some ''Correct-Horse-9'', rf_lic_no = Some ''NSW 12345'', rf_lic_state = Some ''nsw'', rf_geo_state = None,
     rf_geo_headers = [None, Some ''New South Wales'', None], rf_geo_environ = None\<rparr>"

lemma demo_register_checks:
  "Option.is_none (registration_error demo_register demo_db)" "rf_licence demo_register = ''NSW 12345''"
  "upper (rf_state demo_register) = ''NSW''" "rf_state demo_register \<noteq> []" "normalize_lic (Some ''NSW 12345'') = Some ''NSW12345''"
  "map_of region_names (upper ''NSW'') = Some ''Sydney''" "zpad 4 9 = ''0009''"
  by code_simp+

lemma demo_licence: "\<exists>h. hash_lic demo_pepper (Some ''NSW 12345'') = Inr (Some h) \<and> length h = 64"
  using demo_register_checks(5) by (simp add: hash_lic_def get_hash_pepper_def demo_pepper_def)

lemma demo_register_runs:
  "\<exists>st'. register demo_auth_env (Some demo_register) demo_auth_state = (Redirect ''auth.login'' [], st')"
proof -
  let ?env = "demo_account_env 100"
  obtain h where h: "hash_lic demo_pepper (Some ''NSW 12345'') = Inr (Some h)" "length h = 64" using demo_licence by blast
  have "h \<noteq> []" using h(2) by auto
  have env: "au_account demo_auth_env = ?env" "ac_pepper ?env = demo_pepper" "ac_password ?env = demo_password_lib" "as_db demo_auth_state = demo_db"
    by (simp_all add: demo_auth_env_def demo_account_env_def demo_auth_state_def)
  have none: "registration_error demo_register demo_db = None" using demo_register_checks(1) by (simp add: Option.is_none_def)
  have role: "find (\<lambda>r. r_name r = ''voter'') (roles demo_db) = Some \<lparr>r_id = 1, r_name = ''voter'', r_description = None\<rparr>"
    by (simp add: demo_db_def)
  have new: "\<not> list_ex (\<lambda>u. driver_lic_hash u = Some h) (users demo_db)" using h(2) by (auto simp: demo_defs)
  have taken: "strip '' carol'' = ''carol''" "lower (strip ''Carol@Example.org'') = ''carol@example.org''"
    by code_simp+
  obtain u where u: "set_password demo_password_lib (ac_salt ?env) (au_now demo_auth_env)
      (new_user demo_auth_env demo_db (rf_name demo_register) (rf_address demo_register) (rf_licence demo_register)
        (rf_state demo_register) (Some h) \<lparr>r_id = 1, r_name = ''voter'', r_description = None\<rparr>) (arg (rf_password demo_register)) = Inr u"
    "u_id u = 9" "username u = ''carol''" "email u = Some ''carol@example.org''" "driver_lic_hash u = Some h" "u_role_id u = 1"
    "driver_lic_no u = ''NSW 12345''" "driver_lic_state u = Some ''NSW''"
    using demo_strong demo_register_checks(2-4)
    by (simp add: set_password_cases new_user_def taken demo_register_def arg_def demo_defs fresh_id_def)
  have ev: "user_set_lic_hash_before_insert demo_pepper u = Inr u"
    using h u by (auto simp: user_set_lic_hash_before_insert_def or_else_def split: if_splits)
  let ?db1 = "demo_db\<lparr>users := users demo_db @ [u]\<rparr>"
  have ok1: "db_ok ?db1" using demo_db_ok u h(2)
    by (auto simp: db_ok_def constraint_defs demo_defs map_filter_simps)
  obtain r where r: "roll_set_lic_hash demo_pepper (new_roll ?db1 u) = Inr r" "driver_license_hash r = Some h" "er_id r = 2"
    "roll_number r = ''ER-0009''" "er_region_id r = Some 1" "er_user_id r = Some 9"
    using h(1) \<open>h \<noteq> []\<close> u(2-) demo_register_checks(6,7)
    by (auto simp: roll_set_lic_hash_def new_roll_def or_else_def map_state_to_region_def demo_defs fresh_id_def split: if_splits)
  have "db_ok (?db1\<lparr>electoral_rolls := electoral_rolls ?db1 @ [r]\<rparr>)" using ok1 r u h(2)
    by (auto simp: db_ok_def constraint_defs demo_defs map_filter_simps)
  then have ins: "insert_registration demo_auth_env u demo_db = Inr (Some (?db1\<lparr>electoral_rolls := electoral_rolls ?db1 @ [r]\<rparr>))"
    using ev ok1 r(1) env by (simp add: insert_registration_def commit_ok)
  have "send_verification_email ?env u \<noteq> None" by (simp add: send_verification_email_def demo_account_env_def)
  then show ?thesis
    using none h(1) new role u(1) ins env demo_register_checks(2) by (auto simp: register_def Let_def)
qed

theorem registration_effect_witness:
  "\<exists>st' u row. register demo_auth_env (Some demo_register) demo_auth_state = (Redirect ''auth.login'' [], st')
     \<and> as_db st' = demo_db\<lparr>users := users demo_db @ [u], electoral_rolls := electoral_rolls demo_db @ [row]\<rparr>"
proof -
  obtain st' where run: "register demo_auth_env (Some demo_register) demo_auth_state = (Redirect ''auth.login'' [], st')"
    using demo_register_runs by blast
  have "password_lib_ok (ac_password (au_account demo_auth_env))" "as_db demo_auth_state = demo_db"
    by (simp_all add: demo_auth_env_def demo_account_env_def demo_password_lib_ok demo_auth_state_def)
  with registration_effect [OF run] run show ?thesis by auto
qed

end
