(* ===== verification/Py_Errors.thy ===== *)
theory Py_Errors
  imports Prelude
begin

text \<open>
  Sequencing of code that may raise: \<open>Inl\<close> carries the exception, \<open>Inr\<close> the value. The start-up and
  maintenance code is a long sequence of such steps; the rules below open and close one step at a time.
\<close>

named_theorems raise_simps \<open>rules that run a sequence of steps that may raise\<close>

definition then_do :: "'e + 'a \<Rightarrow> ('a \<Rightarrow> 'e + 'b) \<Rightarrow> 'e + 'b" where
  "then_do r f = (case r of Inl e \<Rightarrow> Inl e | Inr v \<Rightarrow> f v)"

definition raise_if :: "bool \<Rightarrow> 'e \<Rightarrow> 'e + unit" where
  "raise_if b e = (if b then Inl e else Inr ())"

text \<open>\<open>raise ... from exc\<close>: another exception in place of the caught one.\<close>

definition reraise :: "('e \<Rightarrow> 'f) \<Rightarrow> 'e + 'a \<Rightarrow> 'f + 'a" where
  "reraise f r = (case r of Inl e \<Rightarrow> Inl (f e) | Inr v \<Rightarrow> Inr v)"

text \<open>A loop whose body may raise, over the elements of a collection.\<close>

fun for_each :: "('x \<Rightarrow> 's \<Rightarrow> 'e + 's) \<Rightarrow> 'x list \<Rightarrow> 's \<Rightarrow> 'e + 's" where
  "for_each f [] s = Inr s"
| "for_each f (x # xs) s = then_do (f x s) (for_each f xs)"

lemma then_do_simps [simp, raise_simps]:
  "then_do (Inl e) f = Inl e"
  "then_do (Inr v) f = f v"
  by (simp_all add: then_do_def)

lemma then_do_Inr_iff: "then_do r f = Inr y \<longleftrightarrow> (\<exists>v. r = Inr v \<and> f v = Inr y)"
  by (cases r) (auto simp: then_do_def)

lemma then_do_Inl_iff: "then_do r f = Inl e \<longleftrightarrow> r = Inl e \<or> (\<exists>v. r = Inr v \<and> f v = Inl e)"
  by (cases r) (auto simp: then_do_def)

lemma then_doE:
  assumes "then_do r f = Inr y"
  obtains v where "r = Inr v" and "f v = Inr y"
  using assms by (auto simp: then_do_Inr_iff)

lemma raise_if_Inr_iff [simp]: "raise_if b e = Inr u \<longleftrightarrow> \<not> b"
  by (simp add: raise_if_def)

lemma raise_if_simps [simp, raise_simps]:
  "raise_if False e = Inr ()"
  "raise_if True e = Inl e"
  by (simp_all add: raise_if_def)

lemma reraise_Inr_iff [simp]: "reraise f r = Inr y \<longleftrightarrow> r = Inr y"
  by (cases r) (auto simp: reraise_def)

lemma reraise_simps [simp, raise_simps]:
  "reraise f (Inl e) = Inl (f e)"
  "reraise f (Inr v) = Inr v"
  by (simp_all add: reraise_def)

text \<open>An assertion on the state that every step keeps holds after the loop.\<close>

lemma for_each_invariant:
  assumes "for_each f xs s = Inr s'" and "I s"
    and "\<And>x s s'. x \<in> set xs \<Longrightarrow> I s \<Longrightarrow> f x s = Inr s' \<Longrightarrow> I s'"
  shows "I s'"
  using assms
proof (induction xs arbitrary: s)
  case (Cons x xs)
  then obtain s1 where "f x s = Inr s1" "for_each f xs s1 = Inr s'" by (auto simp: then_do_Inr_iff)
  with Cons show ?case by (meson list.set_intros)
qed simp

lemma for_each_append: "for_each f (xs @ ys) s = then_do (for_each f xs s) (for_each f ys)"
  by (induction xs arbitrary: s) (simp_all add: then_do_def split: sum.splits)

text \<open>A loop that completes has completed every iteration from some state.\<close>

lemma for_each_step:
  assumes "for_each f xs s = Inr s'" and "x \<in> set xs"
  shows "\<exists>t t'. f x t = Inr t'"
  using assms by (induction xs arbitrary: s) (auto simp: then_do_Inr_iff)

text \<open>What one iteration achieves and no iteration undoes holds after the loop.\<close>

lemma for_each_establish:
  assumes "for_each f xs s = Inr s'" and "x \<in> set xs" and "\<And>s s'. f x s = Inr s' \<Longrightarrow> Q s'"
    and "\<And>y s s'. y \<in> set xs \<Longrightarrow> f y s = Inr s' \<Longrightarrow> Q s \<Longrightarrow> Q s'"
  shows "Q s'"
proof -
  obtain xs1 xs2 where xs: "xs = xs1 @ x # xs2" using split_list [OF assms(2)] by blast
  then obtain s1 s2 where "f x s1 = Inr s2" and rest: "for_each f xs2 s2 = Inr s'"
    using assms(1) by (auto simp: for_each_append then_do_Inr_iff)
  then have "Q s2" using assms(3) by blast
  with rest show ?thesis by (rule for_each_invariant [where I = Q]) (use assms(4) xs in auto)
qed

end
