(* ===== verification/Config.thy ===== *)
theory Config
  imports Encryption Auth Py_Errors
begin

text \<open>
  Configuration at start-up: the part of \<^verbatim>\<open>create_app\<close> in \<^verbatim>\<open>app/__init__.py\<close> that reads the environment
  and refuses unsafe settings, the database addresses of \<^verbatim>\<open>app/utils/db_utils.py\<close>, and the second
  environment detector of \<^verbatim>\<open>app/environment.py\<close>. The environment is a map from names to texts;
  \<open>create_app\<close> is modelled as it starts in deployment, without the overrides its tests pass.

  SQLAlchemy's URL functions and the check of a bracketed IP literal are parameters.
\<close>

section \<open>Reading settings\<close>

type_synonym environ = "string \<Rightarrow> string option"

text \<open>
  \<open>UnsupportedEnv name v\<close> is the runtime error whose message shows the refused value; \<open>ValueErr\<close> stands
  for the \<open>ValueError\<close> of \<open>int\<close> and \<open>urlsplit\<close>, and \<open>UrlErr\<close> for what \<open>make_url\<close> raises.
\<close>

datatype config_error = RuntimeErr string | UnsupportedEnv string string | ValueErr string | UrlErr string

text \<open>\<open>os.environ.get(name, '')\<close>.\<close>

definition getenv :: "environ \<Rightarrow> string \<Rightarrow> string" where
  "getenv e name = (case e name of None \<Rightarrow> [] | Some v \<Rightarrow> v)"

definition explicit_bool :: "string \<Rightarrow> bool option" where
  "explicit_bool v =
     (let n = lower (strip v) in
      if n \<in> {''true'', ''1'', ''yes'', ''on''} then Some True
      else if n \<in> {''false'', ''0'', ''no'', ''off''} then Some False else None)"

definition env_bool :: "environ \<Rightarrow> string \<Rightarrow> bool \<Rightarrow> config_error + bool" where
  "env_bool e name dflt =
     (case e name of
        None \<Rightarrow> Inr dflt
      | Some v \<Rightarrow> (case explicit_bool v of
                    None \<Rightarrow> Inl (RuntimeErr (name @ '' must be an explicit true or false value.''))
                  | Some b \<Rightarrow> Inr b))"

text \<open>The first failing check of a sequence of guards.\<close>

fun first_error :: "(bool \<times> string) list \<Rightarrow> config_error option" where
  "first_error [] = None"
| "first_error ((ok, m) # cs) = (if ok then first_error cs else Some (RuntimeErr m))"

definition placeholder :: "string list \<Rightarrow> string \<Rightarrow> bool" where
  "placeholder prefixes v \<longleftrightarrow> list_ex (startswith (upper v)) prefixes"

section \<open>Deployment mode\<close>

record deployment =
  dep_production_like :: bool
  dep_testing :: bool
  dep_local :: bool
  dep_cookie_secure :: bool

definition allowed_deployment_environments :: "string set" where
  "allowed_deployment_environments =
     {[], ''development'', ''local'', ''local-demo'', ''testing'', ''staging'', ''prod'', ''production''}"

definition allowed_flask_environments :: "string set" where
  "allowed_flask_environments = {[], ''development'', ''testing'', ''staging'', ''production''}"

definition deployment_is_production_like :: "string \<Rightarrow> bool" where
  "deployment_is_production_like d \<longleftrightarrow> d \<in> {''prod'', ''production'', ''staging''}"

definition flask_is_production_like :: "string \<Rightarrow> bool" where
  "flask_is_production_like f \<longleftrightarrow> f \<in> {''production'', ''staging''}"

definition deployment_mode :: "string \<Rightarrow> string \<Rightarrow> bool \<Rightarrow> deployment" where
  "deployment_mode d f secure =
     (let production_like = deployment_is_production_like d \<or> flask_is_production_like f \<or> (d = [] \<and> f = []) in
      \<lparr>dep_production_like = production_like,
       dep_testing = (\<not> production_like \<and> (d = ''testing'' \<or> f = ''testing'')),
       dep_local = (d \<in> {''development'', ''local'', ''local-demo''} \<or> f = ''development''),
       dep_cookie_secure = secure\<rparr>)"

definition read_deployment :: "environ \<Rightarrow> config_error + deployment" where
  "read_deployment e =
     (let d = lower (strip (getenv e ''DEPLOYMENT_ENV'')); f = lower (strip (getenv e ''FLASK_ENV'')) in
      if d \<notin> allowed_deployment_environments then Inl (UnsupportedEnv ''DEPLOYMENT_ENV'' d)
      else if f \<notin> allowed_flask_environments then Inl (UnsupportedEnv ''FLASK_ENV'' f)
      else if d \<noteq> [] \<and> f \<noteq> [] \<and> deployment_is_production_like d \<noteq> flask_is_production_like f
      then Inl (RuntimeErr ''DEPLOYMENT_ENV and FLASK_ENV describe conflicting security modes.'')
      else
        (case e ''SESSION_COOKIE_SECURE'' of
           None \<Rightarrow> Inr (deployment_mode d f (\<not> (dep_testing (deployment_mode d f True) \<or> dep_local (deployment_mode d f True))))
         | Some v \<Rightarrow>
             (case explicit_bool v of
                None \<Rightarrow> Inl (RuntimeErr ''SESSION_COOKIE_SECURE must be an explicit true or false value.'')
              | Some b \<Rightarrow> Inr (deployment_mode d f b))))"

section \<open>Public origin and trusted hosts\<close>

record split_url =
  su_scheme :: string
  su_netloc :: string
  su_path :: string
  su_query :: string
  su_fragment :: string

definition is_scheme_char :: "char \<Rightarrow> bool" where
  "is_scheme_char c \<longleftrightarrow> is_alnum_ascii c \<or> c \<in> set ''+-.''"

text \<open>\<open>urlsplit\<close>; \<open>brackets_ok\<close> judges the host in square brackets.\<close>

definition urlsplit :: "(string \<Rightarrow> bool) \<Rightarrow> string \<Rightarrow> config_error + split_url" where
  "urlsplit brackets_ok url =
     (let u = url_clean (dropWhile (\<lambda>c. ord c \<le> 32) url);
          pre = takeWhile (\<lambda>c. c \<noteq> CHR '':'') u;
          has_scheme = (pre \<noteq> [] \<and> length pre < length u \<and> list_all is_scheme_char pre \<and> \<not> is_ascii_digit (hd pre)
                        \<and> hd pre \<notin> set ''+-.'');
          rest = (if has_scheme then drop (length pre + 1) u else u);
          netloc = (if startswith rest ''//'' then takeWhile (\<lambda>c. c \<notin> set ''/?#'') (drop 2 rest) else []);
          tail = (if startswith rest ''//'' then drop (length netloc + 2) rest else rest);
          before_fragment = takeWhile (\<lambda>c. c \<noteq> CHR ''#'') tail;
          path = takeWhile (\<lambda>c. c \<noteq> CHR ''?'') before_fragment in
      if (CHR ''['' \<in> set netloc) \<noteq> (CHR '']'' \<in> set netloc) then Inl (ValueErr ''Invalid IPv6 URL'')
      else if CHR ''['' \<in> set netloc \<and> \<not> brackets_ok netloc then Inl (ValueErr ''Invalid IPv6 URL'')
      else Inr \<lparr>su_scheme = (if has_scheme then lower pre else []), su_netloc = netloc, su_path = path,
                su_query = drop (length path + 1) before_fragment, su_fragment = drop (length before_fragment + 1) tail\<rparr>)"

text \<open>\<open>hostname\<close>: what follows the last at sign, without port, in lower case up to a zone.\<close>

definition url_hostname :: "string \<Rightarrow> string option" where
  "url_hostname netloc =
     (let hostinfo = rev (takeWhile (\<lambda>c. c \<noteq> CHR ''@'') (rev netloc));
          h = (if CHR ''['' \<in> set hostinfo
               then takeWhile (\<lambda>c. c \<noteq> CHR '']'') (tl (dropWhile (\<lambda>c. c \<noteq> CHR ''['') hostinfo))
               else takeWhile (\<lambda>c. c \<noteq> CHR '':'') hostinfo) in
      if h = [] then None
      else Some (lower (takeWhile (\<lambda>c. c \<noteq> CHR ''%'') h) @ dropWhile (\<lambda>c. c \<noteq> CHR ''%'') h))"

definition origin_missing :: config_error where
  "origin_missing = RuntimeErr (''PUBLIC_BASE_URL is required outside test mode so security emails '' @
     ''never depend on an untrusted request Host header.'')"

definition origin_malformed :: config_error where
  "origin_malformed = RuntimeErr (''PUBLIC_BASE_URL must be a bare http(s) origin without credentials, '' @
     ''a path, query, or fragment.'')"

definition normalize_public_origin :: "(string \<Rightarrow> bool) \<Rightarrow> string option \<Rightarrow> bool \<Rightarrow> config_error + string \<times> string" where
  "normalize_public_origin brackets_ok raw require_https =
     (case raw of
        None \<Rightarrow> Inl origin_missing
      | Some v \<Rightarrow>
          if strip v = [] then Inl origin_missing
          else
            then_do (urlsplit brackets_ok (strip v)) (\<lambda>p.
              case url_hostname (su_netloc p) of
                None \<Rightarrow> Inl origin_malformed
              | Some h \<Rightarrow>
                  if su_scheme p \<notin> {''http'', ''https''} \<or> CHR ''@'' \<in> set (su_netloc p) \<or> su_path p \<notin> {[], ''/''}
                     \<or> su_query p \<noteq> [] \<or> su_fragment p \<noteq> []
                  then Inl origin_malformed
                  else if require_https \<and> su_scheme p \<noteq> ''https''
                  then Inl (RuntimeErr ''Production requires an HTTPS PUBLIC_BASE_URL.'')
                  else Inr (su_scheme p @ ''://'' @ su_netloc p, lower h)))"

definition valid_host_entry :: "string \<Rightarrow> bool" where
  "valid_host_entry host \<longleftrightarrow> (if startswith host ''.'' then tl host else host) \<noteq> [] \<and> \<not> contains host ''://''
     \<and> CHR ''/'' \<notin> set host \<and> \<not> list_ex is_space host"

definition host_trusted :: "string list \<Rightarrow> string \<Rightarrow> bool" where
  "host_trusted hosts public_hostname \<longleftrightarrow>
     list_ex (\<lambda>h. h = public_hostname \<or> startswith h ''.'' \<and> (public_hostname = tl h \<or> endswith public_hostname h)) hosts"

definition parse_trusted_hosts :: "string option \<Rightarrow> string \<Rightarrow> config_error + string list" where
  "parse_trusted_hosts raw public_hostname =
     (let listed = (case raw of None \<Rightarrow> []
                    | Some v \<Rightarrow> map (\<lambda>x. lower (strip x)) (filter (\<lambda>x. strip x \<noteq> []) (split_on (CHR '','') v)));
          hosts = (if listed = []
                   then public_hostname # (if public_hostname = ''localhost'' then [''127.0.0.1''] else [])
                   else listed) in
      if \<not> list_all valid_host_entry hosts
      then Inl (RuntimeErr ''TRUSTED_HOSTS entries must contain hostnames only, without schemes or paths.'')
      else if \<not> host_trusted hosts public_hostname
      then Inl (RuntimeErr ''TRUSTED_HOSTS must include the hostname from PUBLIC_BASE_URL.'')
      else Inr hosts)"

section \<open>Mail delivery\<close>

record delivery =
  ml_server :: "string option"
  ml_username :: "string option"
  ml_password :: "string option"
  ml_sender :: "string option"
  ml_tls :: bool
  ml_ssl :: bool
  ml_port :: int
  ml_mfa :: bool

definition mail_setting_ok :: "string option \<Rightarrow> bool" where
  "mail_setting_ok v =
     (case v of None \<Rightarrow> False
      | Some s \<Rightarrow> strip s \<noteq> [] \<and> \<not> placeholder [''CHANGE_ME'', ''REPLACE_'', ''YOUR-''] (strip s))"

definition validate_delivery_config :: "bool \<Rightarrow> bool \<Rightarrow> delivery \<Rightarrow> config_error option" where
  "validate_delivery_config testing production_like m =
     (if testing then None
      else
        (let required = (\<lambda>v n. (mail_setting_ok v, n @ '' is required outside test mode because account verification '' @
               ''and password recovery depend on email delivery.'')) in
         first_error
           [required (ml_server m) ''MAIL_SERVER'', required (ml_username m) ''MAIL_USERNAME'',
            required (ml_password m) ''MAIL_PASSWORD'', required (ml_sender m) ''MAIL_DEFAULT_SENDER'',
            (case ml_sender m of None \<Rightarrow> False | Some s \<Rightarrow> CHR ''@'' \<in> set s,
             ''MAIL_DEFAULT_SENDER must be a valid email address.''),
            (\<not> (ml_tls m \<and> ml_ssl m), ''MAIL_USE_TLS and MAIL_USE_SSL cannot both be enabled.''),
            (1 \<le> ml_port m \<and> ml_port m \<le> 65535, ''MAIL_PORT must be an integer from 1 to 65535.''),
            (\<not> production_like \<or> ml_tls m \<or> ml_ssl m, ''Production SMTP requires TLS or SSL.''),
            (\<not> production_like \<or> ml_mfa m, ''Production requires ENABLE_MFA=true.'')]))"

section \<open>Database addresses\<close>

text \<open>
  The functions of SQLAlchemy are parameters: \<open>make_url\<close> parses an address or raises, \<open>get_backend_name\<close>
  names the kind of database and \<open>render_as_string\<close> prints an address with its password.
\<close>

record sql_url =
  url_drivername :: string
  url_username :: "string option"
  url_password :: "string option"
  url_host :: "string option"
  url_port :: "int option"
  url_database :: "string option"

record sqlalchemy =
  make_url :: "string \<Rightarrow> config_error + sql_url"
  get_backend_name :: "sql_url \<Rightarrow> string"
  render_as_string :: "sql_url \<Rightarrow> string"

definition validated_database_secret :: "string \<Rightarrow> string option \<Rightarrow> config_error + string" where
  "validated_database_secret name v =
     (case v of
        None \<Rightarrow> Inl (RuntimeErr (name @ '' must be an explicit non-placeholder value of at least 16 characters''))
      | Some s \<Rightarrow>
          if length s < 16 \<or> placeholder [''CHANGE_ME'', ''REPLACE_''] s
          then Inl (RuntimeErr (name @ '' must be an explicit non-placeholder value of at least 16 characters''))
          else Inr s)"

text \<open>A setting that counts as present: set, and not the empty text.\<close>

definition nonempty_setting :: "string option \<Rightarrow> string option" where
  "nonempty_setting v = (case v of None \<Rightarrow> None | Some s \<Rightarrow> if s = [] then None else Some s)"

definition missing_names :: "environ \<Rightarrow> string list \<Rightarrow> string list" where
  "missing_names e names = filter (\<lambda>n. nonempty_setting (e n) = None) names"

definition path_join :: "string \<Rightarrow> string \<Rightarrow> string" where
  "path_join d f = (if d = [] \<or> last d = CHR ''/'' then d @ f else d @ ''/'' @ f)"

definition get_database_url :: "sqlalchemy \<Rightarrow> environ \<Rightarrow> string \<Rightarrow> config_error + string" where
  "get_database_url lib e instance_path =
     (case nonempty_setting (e ''DATABASE_URL'') of
        Some explicit \<Rightarrow>
          then_do (make_url lib explicit) (\<lambda>parsed.
            if get_backend_name lib parsed = ''mysql''
            then then_do (validated_database_secret ''DATABASE_URL password'' (url_password parsed)) (\<lambda>_. Inr explicit)
            else Inr explicit)
      | None \<Rightarrow>
          (case nonempty_setting (e ''DB_HOST'') of
             Some host \<Rightarrow>
               (let missing = missing_names e [''MYSQL_USER'', ''MYSQL_PASSWORD'', ''MYSQL_DATABASE''] in
                then_do (raise_if (missing \<noteq> []) (RuntimeErr (''Missing primary database configuration: '' @ join '', '' missing)))
                  (\<lambda>_. then_do (validated_database_secret ''MYSQL_PASSWORD'' (e ''MYSQL_PASSWORD'')) (\<lambda>password.
                     case py_int 10 (case e ''DB_PORT'' of None \<Rightarrow> ''3306'' | Some p \<Rightarrow> p) of
                       None \<Rightarrow> Inl (ValueErr ''DB_PORT'')
                     | Some port \<Rightarrow>
                         Inr (render_as_string lib
                           \<lparr>url_drivername = ''mysql+pymysql'', url_username = e ''MYSQL_USER'', url_password = Some password,
                            url_host = Some host, url_port = Some port, url_database = e ''MYSQL_DATABASE''\<rparr>))))
           | None \<Rightarrow> Inr (''sqlite:///'' @ path_join instance_path ''app.db'')))"

definition build_bind_url :: "sqlalchemy \<Rightarrow> string \<Rightarrow> string \<Rightarrow> string \<Rightarrow> string \<Rightarrow> config_error + string" where
  "build_bind_url lib base_url usr password db_name =
     then_do (make_url lib base_url) (\<lambda>u.
       Inr (render_as_string lib (u\<lparr>url_username := Some usr, url_password := Some password, url_database := Some db_name\<rparr>)))"

record db_binds =
  bind_admin :: string
  bind_voters :: string

definition build_db_binds :: "sqlalchemy \<Rightarrow> environ \<Rightarrow> string \<Rightarrow> config_error + db_binds" where
  "build_db_binds lib e instance_path =
     then_do (get_database_url lib e instance_path) (\<lambda>base_url.
       if startswith base_url ''sqlite'' then Inr \<lparr>bind_admin = base_url, bind_voters = base_url\<rparr>
       else
         (let missing = missing_names e [''VOTING_ADMIN_USER'', ''VOTING_ADMIN_PASS'', ''VOTING_VOTER_USER'', ''VOTING_VOTER_PASS''] in
          then_do (raise_if (missing \<noteq> []) (RuntimeErr (''Missing split-database credentials: '' @ join '', '' missing))) (\<lambda>_.
          then_do (validated_database_secret ''VOTING_ADMIN_PASS'' (e ''VOTING_ADMIN_PASS'')) (\<lambda>admin_pass.
          then_do (validated_database_secret ''VOTING_VOTER_PASS'' (e ''VOTING_VOTER_PASS'')) (\<lambda>voter_pass.
          then_do (make_url lib base_url) (\<lambda>parsed.
            case (case nonempty_setting (e ''MYSQL_DATABASE'') of Some n \<Rightarrow> Some n | None \<Rightarrow> nonempty_setting (url_database parsed)) of
              None \<Rightarrow> Inl (RuntimeErr ''MYSQL_DATABASE or a database name in DATABASE_URL is required'')
            | Some db_name \<Rightarrow>
                then_do (build_bind_url lib base_url (getenv e ''VOTING_ADMIN_USER'') admin_pass db_name) (\<lambda>admin.
                then_do (build_bind_url lib base_url (getenv e ''VOTING_VOTER_USER'') voter_pass db_name) (\<lambda>voters.
                  Inr \<lparr>bind_admin = admin, bind_voters = voters\<rparr>))))))))"

section \<open>The application configuration\<close>

record app_config =
  cfg_app_secret :: "string option"
  cfg_audit_key :: "string option"
  cfg_database_uri :: string
  cfg_binds :: db_binds
  cfg_max_content_length :: int
  cfg_testing :: bool
  cfg_mail :: delivery
  cfg_public_base_url :: string
  cfg_trusted_hosts :: "string list"
  cfg_vault_addr :: "string option"
  cfg_vault_cluster_id :: "string option"
  cfg_vault_namespace :: string
  cfg_vault_mount :: string
  cfg_vault_transit_key :: string
  cfg_session_cookie_secure :: bool
  cfg_session_cookie_samesite :: string
  cfg_debug_db_bind :: bool
  cfg_pii_key :: bytes
  cfg_blueprints :: "string list"
  cfg_create_tables :: bool

definition getenv_or :: "environ \<Rightarrow> string \<Rightarrow> string \<Rightarrow> string" where
  "getenv_or e name dflt = (case e name of None \<Rightarrow> dflt | Some v \<Rightarrow> v)"

definition read_delivery :: "environ \<Rightarrow> config_error + delivery" where
  "read_delivery e =
     (case py_int 10 (getenv_or e ''MAIL_PORT'' ''587'') of
        None \<Rightarrow> Inl (ValueErr ''MAIL_PORT'')
      | Some port \<Rightarrow>
          then_do (env_bool e ''MAIL_USE_TLS'' True) (\<lambda>tls.
          then_do (env_bool e ''MAIL_USE_SSL'' False) (\<lambda>ssl.
          then_do (env_bool e ''ENABLE_MFA'' False) (\<lambda>mfa.
            Inr \<lparr>ml_server = Some (getenv_or e ''MAIL_SERVER'' ''smtp.gmail.com''), ml_username = e ''MAIL_USERNAME'',
                 ml_password = e ''MAIL_PASSWORD'',
                 ml_sender = (case nonempty_setting (e ''MAIL_DEFAULT_SENDER'') of Some s \<Rightarrow> Some s | None \<Rightarrow> e ''MAIL_USERNAME''),
                 ml_tls = tls, ml_ssl = ssl, ml_port = port, ml_mfa = mfa\<rparr>))))"

text \<open>The key of the personal data; in test mode a drawn key serves when none is set.\<close>

definition read_pii_key :: "environ \<Rightarrow> bool \<Rightarrow> bytes \<Rightarrow> config_error + bytes" where
  "read_pii_key e testing drawn =
     (case (case nonempty_setting (e ''VOTER_PII_KEY_BASE64'') of Some k \<Rightarrow> Some k
            | None \<Rightarrow> if testing then Some (b64encode drawn) else None) of
        None \<Rightarrow> Inl (RuntimeErr ''VOTER_PII_KEY_BASE64 is required outside test mode and must remain stable.'')
      | Some k \<Rightarrow>
          (case b64decode k of
             None \<Rightarrow> Inl (RuntimeErr ''VOTER_PII_KEY_BASE64 is not valid Base64 encoding.'')
           | Some bs \<Rightarrow>
               if length bs \<noteq> 32
               then Inl (RuntimeErr (''VOTER_PII_KEY_BASE64 must decode to exactly 32 bytes for '' @ ''ChaCha20-Poly1305.''))
               else Inr bs))"

definition strong_secret :: "string option \<Rightarrow> bool" where
  "strong_secret v = (case v of None \<Rightarrow> False | Some s \<Rightarrow> 32 \<le> length s \<and> \<not> placeholder [''CHANGE_ME'', ''REPLACE_''] s)"

definition check_secrets :: "environ \<Rightarrow> config_error option" where
  "check_secrets e =
     first_error (map (\<lambda>n. (strong_secret (e n), n @ '' must be an explicit non-placeholder value of at least 32 characters.''))
       [''SECRET_KEY'', ''LICENSE_HASH_PEPPER'', ''AUDIT_HMAC_KEY''])"

definition raise_opt :: "'e option \<Rightarrow> 'e + unit" where
  "raise_opt r = (case r of None \<Rightarrow> Inr () | Some err \<Rightarrow> Inl err)"

definition truthy_flag :: "environ \<Rightarrow> string \<Rightarrow> string \<Rightarrow> bool" where
  "truthy_flag e name dflt \<longleftrightarrow> lower (getenv_or e name dflt) \<in> {''true'', ''1'', ''yes''}"

definition registered_blueprints :: "bool \<Rightarrow> string list" where
  "registered_blueprints with_dev =
     [''auth'', ''main''] @ (if with_dev then [''dev''] else []) @
     [''health'', ''candidates'', ''registration'', ''results'', ''password'', ''password_reset'', ''elections'', ''audit'',
      ''metrics'', ''admin_users'']"

definition app_configuration ::
  "environ \<Rightarrow> deployment \<Rightarrow> string \<Rightarrow> db_binds \<Rightarrow> delivery \<Rightarrow> bytes \<Rightarrow> string \<Rightarrow> string list \<Rightarrow> app_config" where
  "app_configuration e dep uri binds m key origin hosts =
     \<lparr>cfg_app_secret = e ''SECRET_KEY'', cfg_audit_key = e ''AUDIT_HMAC_KEY'', cfg_database_uri = uri,
      cfg_binds = (if dep_testing dep then \<lparr>bind_admin = uri, bind_voters = uri\<rparr> else binds),
      cfg_max_content_length = 64 * 1024, cfg_testing = dep_testing dep, cfg_mail = m,
      cfg_public_base_url = origin, cfg_trusted_hosts = hosts,
      cfg_vault_addr = e ''VAULT_ADDR'', cfg_vault_cluster_id = e ''VAULT_CLUSTER_ID'',
      cfg_vault_namespace = getenv e ''VAULT_NAMESPACE'', cfg_vault_mount = getenv_or e ''VAULT_MOUNT'' ''transit'',
      cfg_vault_transit_key = getenv_or e ''VAULT_TRANSIT_KEY'' ''results-signing'',
      cfg_session_cookie_secure = dep_cookie_secure dep, cfg_session_cookie_samesite = ''Lax'',
      cfg_debug_db_bind = truthy_flag e ''DEBUG_DB_BIND'' ''false'', cfg_pii_key = key,
      cfg_blueprints = registered_blueprints (\<not> dep_production_like dep \<and> (dep_testing dep \<or> dep_local dep)),
      cfg_create_tables = (\<not> dep_testing dep \<and> truthy_flag e ''AUTO_CREATE_ALL'' ''0'')\<rparr>"

definition create_app :: "sqlalchemy \<Rightarrow> (string \<Rightarrow> bool) \<Rightarrow> environ \<Rightarrow> string \<Rightarrow> bytes \<Rightarrow> config_error + app_config" where
  "create_app lib brackets_ok e instance_path drawn =
     then_do (read_deployment e) (\<lambda>dep.
     then_do (get_database_url lib e instance_path) (\<lambda>uri.
     then_do (build_db_binds lib e instance_path) (\<lambda>binds.
     then_do (read_delivery e) (\<lambda>m.
     then_do (raise_if (dep_production_like dep \<and> \<not> dep_cookie_secure dep)
                (RuntimeErr ''Production requires SESSION_COOKIE_SECURE=true and HTTPS.'')) (\<lambda>_.
     then_do (read_pii_key e (dep_testing dep) drawn) (\<lambda>key.
     then_do (if dep_testing dep then Inr () else raise_opt (check_secrets e)) (\<lambda>_.
     then_do (normalize_public_origin brackets_ok
                (if dep_testing dep \<and> nonempty_setting (e ''PUBLIC_BASE_URL'') = None then Some ''http://localhost''
                 else e ''PUBLIC_BASE_URL'') (dep_production_like dep)) (\<lambda>(origin, public_hostname).
     then_do (parse_trusted_hosts (e ''TRUSTED_HOSTS'') public_hostname) (\<lambda>hosts.
     then_do (raise_opt (validate_delivery_config (dep_testing dep) (dep_production_like dep) m)) (\<lambda>_.
       Inr (app_configuration e dep uri binds m key origin hosts)))))))))))"

section \<open>What a start guarantees\<close>

text \<open>An environment that names a local or a test mode.\<close>

definition names_relaxed :: "environ \<Rightarrow> bool" where
  "names_relaxed e \<longleftrightarrow> lower (strip (getenv e ''DEPLOYMENT_ENV'')) \<in> {''development'', ''local'', ''local-demo'', ''testing''}
     \<or> lower (strip (getenv e ''FLASK_ENV'')) \<in> {''development'', ''testing''}"

lemma read_deployment_ok:
  fixes e :: environ
  defines "d \<equiv> lower (strip (getenv e ''DEPLOYMENT_ENV''))" and "f \<equiv> lower (strip (getenv e ''FLASK_ENV''))"
  assumes "read_deployment e = Inr dep"
  shows "d \<in> allowed_deployment_environments" and "f \<in> allowed_flask_environments"
    and "d = [] \<or> f = [] \<or> deployment_is_production_like d = flask_is_production_like f"
    and "\<exists>secure. dep = deployment_mode d f secure"
  using assms(3) unfolding read_deployment_def Let_def d_def [symmetric] f_def [symmetric]
  by (auto split: if_splits option.splits)

lemma mode_of_names:
  assumes "d \<in> allowed_deployment_environments" and "f \<in> allowed_flask_environments"
    and "d = [] \<or> f = [] \<or> deployment_is_production_like d = flask_is_production_like f"
  shows "(deployment_is_production_like d \<or> flask_is_production_like f \<or> (d = [] \<and> f = [])) \<longleftrightarrow>
    \<not> (d \<in> {''development'', ''local'', ''local-demo'', ''testing''} \<or> f \<in> {''development'', ''testing''})"
  using assms unfolding allowed_deployment_environments_def allowed_flask_environments_def
    deployment_is_production_like_def flask_is_production_like_def
  by (elim insertE emptyE; hypsubst; simp)

lemma read_deployment_mode:
  assumes "read_deployment e = Inr dep"
  shows "dep_production_like dep \<longleftrightarrow> \<not> names_relaxed e"
    and "dep_production_like dep \<Longrightarrow> \<not> dep_testing dep"
proof -
  note ok = read_deployment_ok [OF assms]
  show "dep_production_like dep \<longleftrightarrow> \<not> names_relaxed e"
    using ok(4) mode_of_names [OF ok(1-3)] by (auto simp: names_relaxed_def deployment_mode_def)
  show "dep_production_like dep \<Longrightarrow> \<not> dep_testing dep" using ok(4) by (auto simp: deployment_mode_def Let_def)
qed

lemma first_error_None: "first_error cs = None \<longleftrightarrow> list_all fst cs"
  by (induction cs rule: first_error.induct) auto

lemma raise_opt_Inr [simp]: "raise_opt r = Inr u \<longleftrightarrow> r = None"
  by (cases r) (auto simp: raise_opt_def)

lemma read_pii_key_ok:
  assumes "read_pii_key e testing drawn = Inr key"
  shows "length key = 32" and "\<not> testing \<Longrightarrow> \<exists>k. e ''VOTER_PII_KEY_BASE64'' = Some k \<and> b64decode k = Some key"
  using assms by (auto simp: read_pii_key_def nonempty_setting_def split: if_splits option.splits)

lemma normalize_public_origin_ok:
  assumes "normalize_public_origin brackets_ok raw https = Inr (origin, h)"
  shows "\<exists>netloc h0. url_hostname netloc = Some h0 \<and> h = lower h0 \<and> CHR ''@'' \<notin> set netloc
    \<and> (origin = ''https://'' @ netloc \<or> \<not> https \<and> origin = ''http://'' @ netloc)"
  using assms by (auto simp: normalize_public_origin_def then_do_Inr_iff split: option.splits if_splits)

lemma parse_trusted_hosts_ok:
  assumes "parse_trusted_hosts raw h = Inr hosts"
  shows "host_trusted hosts h" and "list_all valid_host_entry hosts"
  using assms by (auto simp: parse_trusted_hosts_def Let_def split: if_splits)

lemma validate_delivery_ok:
  assumes "validate_delivery_config testing True m = None" and "\<not> testing"
  shows "ml_tls m \<noteq> ml_ssl m" and "ml_mfa m" and "1 \<le> ml_port m" and "ml_port m \<le> 65535"
  using assms by (auto simp: validate_delivery_config_def first_error_None Let_def simp del: first_error.simps)

lemma check_secrets_ok:
  assumes "check_secrets e = None"
  shows "strong_secret (e ''SECRET_KEY'')" and "strong_secret (e ''LICENSE_HASH_PEPPER'')"
    and "strong_secret (e ''AUDIT_HMAC_KEY'')"
  using assms by (simp_all add: check_secrets_def first_error_None del: first_error.simps)

lemma create_app_stages:
  assumes "create_app lib brackets_ok e instance_path drawn = Inr c"
  obtains dep uri binds m key origin h hosts where
    "read_deployment e = Inr dep" "get_database_url lib e instance_path = Inr uri"
    "build_db_binds lib e instance_path = Inr binds" "read_delivery e = Inr m"
    "\<not> (dep_production_like dep \<and> \<not> dep_cookie_secure dep)" "read_pii_key e (dep_testing dep) drawn = Inr key"
    "dep_testing dep \<or> check_secrets e = None"
    "\<exists>raw. normalize_public_origin brackets_ok raw (dep_production_like dep) = Inr (origin, h)"
    "parse_trusted_hosts (e ''TRUSTED_HOSTS'') h = Inr hosts"
    "validate_delivery_config (dep_testing dep) (dep_production_like dep) m = None"
    "c = app_configuration e dep uri binds m key origin hosts"
  using assms unfolding create_app_def
  apply (elim then_doE)
  subgoal for dep uri binds m _ key _ oh
    by (cases oh, simp, elim then_doE, rule that [of dep uri binds m key "fst oh" "snd oh"]) (auto split: if_splits)
  done

text \<open>What each stage of a successful start returned.\<close>

lemma create_appE:
  assumes "create_app lib brackets_ok e instance_path drawn = Inr c"
  obtains dep binds h where "read_deployment e = Inr dep"
    and "get_database_url lib e instance_path = Inr (cfg_database_uri c)"
    and "build_db_binds lib e instance_path = Inr binds"
    and "\<not> dep_testing dep \<Longrightarrow> cfg_binds c = binds"
    and "dep_production_like dep \<Longrightarrow> dep_cookie_secure dep"
    and "read_pii_key e (dep_testing dep) drawn = Inr (cfg_pii_key c)"
    and "\<not> dep_testing dep \<Longrightarrow> check_secrets e = None"
    and "\<exists>raw. normalize_public_origin brackets_ok raw (dep_production_like dep) = Inr (cfg_public_base_url c, h)"
    and "parse_trusted_hosts (e ''TRUSTED_HOSTS'') h = Inr (cfg_trusted_hosts c)"
    and "validate_delivery_config (dep_testing dep) (dep_production_like dep) (cfg_mail c) = None"
    and "cfg_testing c = dep_testing dep" and "cfg_session_cookie_secure c = dep_cookie_secure dep"
    and "cfg_blueprints c = registered_blueprints (\<not> dep_production_like dep \<and> (dep_testing dep \<or> dep_local dep))"
    and "cfg_app_secret c = e ''SECRET_KEY''" and "cfg_audit_key c = e ''AUDIT_HMAC_KEY''"
proof -
  obtain dep uri binds m key origin h hosts where
    "read_deployment e = Inr dep" "get_database_url lib e instance_path = Inr uri"
    "build_db_binds lib e instance_path = Inr binds" "read_delivery e = Inr m"
    "\<not> (dep_production_like dep \<and> \<not> dep_cookie_secure dep)" "read_pii_key e (dep_testing dep) drawn = Inr key"
    "dep_testing dep \<or> check_secrets e = None"
    "\<exists>raw. normalize_public_origin brackets_ok raw (dep_production_like dep) = Inr (origin, h)"
    "parse_trusted_hosts (e ''TRUSTED_HOSTS'') h = Inr hosts"
    "validate_delivery_config (dep_testing dep) (dep_production_like dep) m = None"
    "cfg_database_uri c = uri" "\<not> dep_testing dep \<longrightarrow> cfg_binds c = binds" "cfg_pii_key c = key"
    "cfg_public_base_url c = origin" "cfg_trusted_hosts c = hosts" "cfg_mail c = m"
    "cfg_testing c = dep_testing dep" "cfg_session_cookie_secure c = dep_cookie_secure dep"
    "cfg_blueprints c = registered_blueprints (\<not> dep_production_like dep \<and> (dep_testing dep \<or> dep_local dep))"
    "cfg_app_secret c = e ''SECRET_KEY''" "cfg_audit_key c = e ''AUDIT_HMAC_KEY''"
    using assms by (elim create_app_stages) (simp add: app_configuration_def)
  then show thesis by (intro that [of dep binds h]) simp_all
qed

text \<open>Outside test mode the two request credentials are never the primary one of a hosted database.\<close>

definition strong_db_secret :: "string option \<Rightarrow> bool" where
  "strong_db_secret v = (case v of None \<Rightarrow> False | Some s \<Rightarrow> 16 \<le> length s \<and> \<not> placeholder [''CHANGE_ME'', ''REPLACE_''] s)"

lemma validated_database_secret_ok:
  "validated_database_secret n v = Inr s \<longleftrightarrow> v = Some s \<and> strong_db_secret v"
  by (auto simp: validated_database_secret_def strong_db_secret_def split: option.splits if_splits)

lemma build_db_binds_ok:
  assumes "build_db_binds lib e instance_path = Inr binds" and "get_database_url lib e instance_path = Inr uri"
    and "\<not> startswith uri ''sqlite''"
  shows "strong_db_secret (e ''VOTING_ADMIN_PASS'') \<and> strong_db_secret (e ''VOTING_VOTER_PASS'')"
    and "\<exists>u n. make_url lib uri = Inr u
      \<and> bind_admin binds = render_as_string lib (u\<lparr>url_username := e ''VOTING_ADMIN_USER'',
           url_password := e ''VOTING_ADMIN_PASS'', url_database := Some n\<rparr>)
      \<and> bind_voters binds = render_as_string lib (u\<lparr>url_username := e ''VOTING_VOTER_USER'',
           url_password := e ''VOTING_VOTER_PASS'', url_database := Some n\<rparr>)"
  using assms
  by (auto simp: build_db_binds_def build_bind_url_def then_do_Inr_iff validated_database_secret_ok missing_names_def
      nonempty_setting_def getenv_def Let_def split: option.splits if_splits)


section \<open>A deployment that starts\<close>

text \<open>A hosted deployment with a database server; addresses are rendered from their parts.\<close>

definition demo_url :: sql_url where
  "demo_url = \<lparr>url_drivername = ''mysql+pymysql'', url_username = Some ''app'', url_password = Some ''primary-password'',
     url_host = Some ''db'', url_port = Some 3306, url_database = Some ''securevote''\<rparr>"

definition demo_sqlalchemy :: sqlalchemy where
  "demo_sqlalchemy = \<lparr>make_url = (\<lambda>s. if s = ''mysql://db'' then Inr demo_url else Inl (UrlErr s)),
     get_backend_name = (\<lambda>u. takeWhile (\<lambda>c. c \<noteq> CHR ''+'') (url_drivername u)),
     render_as_string = (\<lambda>u. url_drivername u @ ''://'' @ the (url_username u) @ '':'' @ the (url_password u) @ ''@'' @
        the (url_host u) @ ''/'' @ the (url_database u))\<rparr>"

definition demo_environ :: environ where
  "demo_environ = map_of
     [(''DATABASE_URL'', ''mysql://db''), (''SECRET_KEY'', replicate 32 (CHR ''s'')), (''AUDIT_HMAC_KEY'', replicate 32 (CHR ''a'')),
      (''LICENSE_HASH_PEPPER'', replicate 32 (CHR ''p'')), (''VOTER_PII_KEY_BASE64'', replicate 43 (CHR ''A'') @ ''=''),
      (''PUBLIC_BASE_URL'', ''https://Vote.example/''), (''TRUSTED_HOSTS'', ''vote.example''), (''ENABLE_MFA'', ''true''),
      (''MAIL_USERNAME'', ''mailer@vote.example''), (''MAIL_PASSWORD'', ''mail-password''),
      (''VOTING_ADMIN_USER'', ''adm''), (''VOTING_ADMIN_PASS'', ''admin-password-1''),
      (''VOTING_VOTER_USER'', ''vot''), (''VOTING_VOTER_PASS'', ''voter-password-1'')]"

definition demo_config :: app_config where
  "demo_config = projr (create_app demo_sqlalchemy (\<lambda>_. True) demo_environ ''/srv/instance'' [])"

lemma demo_app: "create_app demo_sqlalchemy (\<lambda>_. True) demo_environ ''/srv/instance'' [] = Inr demo_config"
proof -
  have "isl (create_app demo_sqlalchemy (\<lambda>_. True) demo_environ ''/srv/instance'' []) = False" by code_simp
  then show ?thesis by (cases "create_app demo_sqlalchemy (\<lambda>_. True) demo_environ ''/srv/instance'' []") (simp_all add: demo_config_def)
qed


end
