(* ===== verification/Access_Filters.thy ===== *)
theory Access_Filters
  imports Ip_Address Config
begin

text \<open>
  What decides whether a request is looked at at all: the address filters of \<^verbatim>\<open>app/security/helpers.py\<close>, the
  country filter of \<^verbatim>\<open>app/geo_service.py\<close> and \<^verbatim>\<open>app/middleware.py\<close>, the developer routes of
  \<^verbatim>\<open>app/routes/dev_routes.py\<close> they guard, the health endpoints of \<^verbatim>\<open>app/routes/health.py\<close> and the choice of
  the database engine in \<open>RoutingSession.get_bind\<close> of \<^verbatim>\<open>app/__init__.py\<close>.

  The GeoIP readers are parameters.
\<close>

section \<open>Addresses\<close>

record http_request =
  rq_path :: string
  rq_header :: "string \<Rightarrow> string option"
  rq_remote_addr :: "string option"

definition DEFAULT_ALLOWED_IPS :: string where
  "DEFAULT_ALLOWED_IPS = ''127.0.0.1,192.168.1.1,10.0.0.0/8,172.16.0.0/12,192.168.0.0/16''"

definition get_allowed_dev_subnets :: "environ \<Rightarrow> string list" where
  "get_allowed_dev_subnets e =
     (let env = (case e ''ALLOWED_IPS'' of None \<Rightarrow> DEFAULT_ALLOWED_IPS | Some v \<Rightarrow> v) in
      map strip (filter (\<lambda>ip. strip ip \<noteq> []) (split_on (CHR '','') env)))"

definition get_client_ip :: "http_request \<Rightarrow> string option" where
  "get_client_ip r =
     (case rq_header r ''X-Real-IP'' of
        Some (c # cs) \<Rightarrow> Some (strip (c # cs))
      | _ \<Rightarrow>
          (case rq_header r ''X-Forwarded-For'' of
             Some (c # cs) \<Rightarrow> Some (strip (hd (split_on (CHR '','') (c # cs))))
           | _ \<Rightarrow> rq_remote_addr r))"

definition entry_allows :: "string \<Rightarrow> string \<Rightarrow> bool" where
  "entry_allows client allowed =
     (if CHR ''/'' \<in> set allowed
      then (case (ip_network allowed, ip_address client) of (Some net, Some a) \<Rightarrow> in_network a net | _ \<Rightarrow> False)
      else allowed = client)"

definition is_ip_allowed :: "environ \<Rightarrow> string option \<Rightarrow> string list \<Rightarrow> bool" where
  "is_ip_allowed e client_ip allowed_list =
     (case client_ip of
        None \<Rightarrow> False
      | Some ip \<Rightarrow>
          if ip = [] then False
          else list_ex (entry_allows ip) (if allowed_list = [] then get_allowed_dev_subnets e else allowed_list))"

text \<open>\<open>socket.gethostbyname\<close> is a parameter.\<close>

definition resolve_container_ip :: "(string \<Rightarrow> string option) \<Rightarrow> string \<Rightarrow> string option" where
  "resolve_container_ip gethostbyname hostname = gethostbyname hostname"

section \<open>Countries\<close>

text \<open>A reader's answer: the address is not in its database, is no address, or has the data.\<close>

datatype 'a geo_answer = Address_not_found | Invalid_address | Located 'a

record city_data =
  city_country :: "string option"
  city_subdivision :: "(string option \<times> string option) option"

record geo_service =
  geo_reader :: "(string option \<Rightarrow> string option geo_answer) option"
  geo_city_reader :: "(string option \<Rightarrow> city_data geo_answer) option"

definition ALLOWED_COUNTRIES :: "environ \<Rightarrow> string list" where
  "ALLOWED_COUNTRIES e = split_on (CHR '','') (case e ''ALLOWED_COUNTRIES'' of None \<Rightarrow> ''AU'' | Some v \<Rightarrow> v)"

text \<open>\<open>GeoIPService.is_ip_allowed\<close>; \<open>None\<close> is the uncaught exception of a text that is no address.\<close>

definition geo_is_ip_allowed :: "environ \<Rightarrow> geo_service \<Rightarrow> string option \<Rightarrow> bool option" where
  "geo_is_ip_allowed e geo ip =
     (case geo_reader geo of
        None \<Rightarrow> Some True
      | Some country \<Rightarrow>
          (case country ip of
             Located code \<Rightarrow> Some (code \<in> Some ` set (ALLOWED_COUNTRIES e))
           | Address_not_found \<Rightarrow> Some True
           | Invalid_address \<Rightarrow> None))"

definition get_state_code :: "geo_service \<Rightarrow> string option \<Rightarrow> string option" where
  "get_state_code geo ip =
     (case geo_city_reader geo of
        None \<Rightarrow> None
      | Some city \<Rightarrow>
          (case city ip of
             Located d \<Rightarrow>
               (case (city_country d = Some ''AU'', city_subdivision d) of
                  (True, Some (code, title)) \<Rightarrow>
                    map_of fullname_map (upper (case or_else code (or_else title None) of None \<Rightarrow> [] | Some t \<Rightarrow> t))
                | _ \<Rightarrow> None)
           | _ \<Rightarrow> None))"

definition GEO_FILTER_ENABLED :: "environ \<Rightarrow> bool" where
  "GEO_FILTER_ENABLED e \<longleftrightarrow> e ''GEO_FILTER_ENABLED'' = Some ''True''"

text \<open>The reply that ends the request, if any, and \<open>g.geo_state\<close> where it is set.\<close>

definition check_geo_ip :: "environ \<Rightarrow> geo_service \<Rightarrow> http_request \<Rightarrow> reply option \<times> string option option" where
  "check_geo_ip e geo r =
     (if \<not> GEO_FILTER_ENABLED e then (None, None)
      else if startswith (rq_path r) ''/static'' then (None, None)
      else
        (case geo_is_ip_allowed e geo (rq_remote_addr r) of
           None \<Rightarrow> (Some (Abort 500), None)
         | Some False \<Rightarrow> (Some (Abort 403), None)
         | Some True \<Rightarrow> (None, Some (get_state_code geo (rq_remote_addr r)))))"

section \<open>Developer routes\<close>

definition db_type_name :: "string \<Rightarrow> string" where
  "db_type_name uri =
     (if startswith uri ''sqlite:///'' then ''SQLite''
      else if contains uri ''mysql'' then ''MySQL''
      else if contains uri ''postgresql'' then ''PostgreSQL'' else ''Unknown'')"

text \<open>Whether the configured addresses are more than one.\<close>

definition split_enabled :: "string \<Rightarrow> (string \<Rightarrow> string option) \<Rightarrow> bool" where
  "split_enabled uri binds \<longleftrightarrow>
     1 < length (remdups (uri # concat (map (\<lambda>n. case binds n of Some (c # cs) \<Rightarrow> [c # cs] | _ \<Rightarrow> []) [''admin'', ''voters''])))"

record dev_page =
  dp_users :: "user list"
  dp_candidates :: "candidate list"
  dp_votes :: "vote list"
  dp_db_type :: string
  dp_active_bind :: string
  dp_split :: bool

definition header_or :: "http_request \<Rightarrow> string \<Rightarrow> string" where
  "header_or r name = (case rq_header r name of None \<Rightarrow> ''Not set'' | Some v \<Rightarrow> v)"

text \<open>\<open>Inl\<close> is the 403 answer. An unset remote address is shown as \<open>None\<close>.\<close>

definition dev_dashboard ::
  "environ \<Rightarrow> string \<Rightarrow> (string \<Rightarrow> string option) \<Rightarrow> request_globals \<Rightarrow> database \<Rightarrow> http_request \<Rightarrow> string + dev_page" where
  "dev_dashboard e uri binds g db r =
     (let client_ip = get_client_ip r in
      if \<not> is_ip_allowed e client_ip (get_allowed_dev_subnets e)
      then Inl (''Access denied: Developer dashboard only available locally (client IP: ''
             @ (case client_ip of None \<Rightarrow> ''None'' | Some ip \<Rightarrow> ip) @ '', forwarded: '' @ header_or r ''X-Forwarded-For'' @ '')'')
      else Inr \<lparr>dp_users = users db, dp_candidates = candidates db, dp_votes = votes db, dp_db_type = db_type_name uri,
             dp_active_bind = (case or_else (g_active_bind g) None of None \<Rightarrow> ''default'' | Some b \<Rightarrow> b), dp_split = split_enabled uri binds\<rparr>)"

text \<open>The end of a log file: \<open>None\<close> for a missing file, \<open>Inl\<close> for a failed read.\<close>

definition read_last_lines :: "string \<Rightarrow> (string + string list) option \<Rightarrow> nat \<Rightarrow> string" where
  "read_last_lines path content n =
     (case content of
        None \<Rightarrow> ''File not found: '' @ path
      | Some (Inl e) \<Rightarrow> ''Error reading file: '' @ e
      | Some (Inr ls) \<Rightarrow> concat (if n = 0 then ls else drop (length ls - n) ls))"

definition get_logs :: "environ \<Rightarrow> string \<Rightarrow> (string + string list) option \<Rightarrow> string \<Rightarrow> http_request \<Rightarrow> reply" where
  "get_logs e path content docker_logs r =
     (if \<not> is_ip_allowed e (get_client_ip r) (get_allowed_dev_subnets e) then json_error 403 ''Access denied''
      else Json_reply 200 (JObj [(''web_logs'', JStr (read_last_lines path content 100)),
             (''nginx_access_log'', JStr docker_logs), (''nginx_error_log'', JStr docker_logs)]))"

section \<open>Health\<close>

definition healthz :: reply where
  "healthz = Json_reply 200 (JObj [(''status'', JStr ''ok'')])"

definition readiness :: "bool \<Rightarrow> reply" where
  "readiness database_answers =
     (if database_answers then Json_reply 200 (JObj [(''status'', JStr ''ready''), (''database'', JStr ''connected'')])
      else Json_reply 503 (JObj [(''status'', JStr ''not ready''), (''database'', JStr ''disconnected'')]))"

definition liveness :: reply where
  "liveness = Json_reply 200 (JObj [(''status'', JStr ''alive'')])"

section \<open>The engine of a statement\<close>

definition get_bind ::
  "(string \<Rightarrow> 'engine option) \<Rightarrow> 'engine \<Rightarrow> 'engine option \<Rightarrow> request_globals option \<Rightarrow> runtime_error + 'engine" where
  "get_bind engines default_engine bind request_context =
     (case bind of
        Some b \<Rightarrow> Inr b
      | None \<Rightarrow>
          (case Option.bind request_context (\<lambda>g. or_else (g_active_bind g) None) of
             None \<Rightarrow> Inr default_engine
           | Some name \<Rightarrow>
               (case engines name of
                  None \<Rightarrow> Inl (RuntimeError (''Configured database bind '' @ [CHR 0x27] @ name @ [CHR 0x27] @ '' is unavailable.''))
                | Some engine \<Rightarrow> Inr engine)))"


section \<open>What the filters admit\<close>

text \<open>An address lies in a network text when it has its version and its leading bits.\<close>

definition matches_network :: "string \<Rightarrow> string \<Rightarrow> bool" where
  "matches_network client net \<longleftrightarrow>
     (\<exists>a v n p. ip_address client = Some a \<and> ip_network net = Some (net_of v n p) \<and> p \<le> max_prefixlen v
        \<and> 0 \<le> n \<and> n < 2 ^ max_prefixlen v \<and> ip_version_of a = v
        \<and> ip_int a div 2 ^ (max_prefixlen v - p) = n div 2 ^ (max_prefixlen v - p))"

lemma entry_allows_iff:
  "entry_allows client entry \<longleftrightarrow> (if CHR ''/'' \<in> set entry then matches_network client entry else entry = client)"
proof (cases "CHR ''/'' \<in> set entry")
  case True
  show ?thesis
  proof (cases "ip_network entry = None \<or> ip_address client = None")
    case True
    then show ?thesis using \<open>CHR ''/'' \<in> set entry\<close> by (auto simp: entry_allows_def matches_network_def split: option.splits)
  next
    case False
    then obtain net a where na: "ip_network entry = Some net" "ip_address client = Some a" by auto
    obtain v n p where net: "net = net_of v n p" "p \<le> max_prefixlen v" "0 \<le> n" "n < 2 ^ max_prefixlen v"
      by (rule ip_network_shape [OF na(1)])
    note iff = in_network_iff [of _ _ _ a]
    have range: "0 \<le> ip_int a" "ip_int a < 2 ^ max_prefixlen (ip_version_of a)" using ip_address_range [OF na(2)] by auto
    have "in_network a net" if "matches_network client entry"
      using that na range iff by (auto simp: matches_network_def)
    moreover have "matches_network client entry" if "in_network a net"
      unfolding matches_network_def using na net that iff [OF net(2-4) range] by blast
    ultimately show ?thesis using na True by (auto simp: entry_allows_def)
  qed
qed (simp add: entry_allows_def)

text \<open>The list that holds when the environment names none.\<close>

lemma default_subnets:
  "e ''ALLOWED_IPS'' = None \<Longrightarrow>
   get_allowed_dev_subnets e = [''127.0.0.1'', ''192.168.1.1'', ''10.0.0.0/8'', ''172.16.0.0/12'', ''192.168.0.0/16'']"
proof -
  have "map strip (filter (\<lambda>ip. strip ip \<noteq> []) (split_on (CHR '','') DEFAULT_ALLOWED_IPS))
      = [''127.0.0.1'', ''192.168.1.1'', ''10.0.0.0/8'', ''172.16.0.0/12'', ''192.168.0.0/16'']" by code_simp
  then show "e ''ALLOWED_IPS'' = None \<Longrightarrow> ?thesis" by (simp add: get_allowed_dev_subnets_def)
qed

lemma default_networks:
  "ip_network ''10.0.0.0/8'' = Some (net_of IPv4 167772160 8)" "ip_network ''172.16.0.0/12'' = Some (net_of IPv4 2886729728 12)"
  "ip_network ''192.168.0.0/16'' = Some (net_of IPv4 3232235520 16)"
  by code_simp+

lemma entry_allows_ipv4:
  assumes "ip_network entry = Some (net_of IPv4 n p)" and "CHR ''/'' \<in> set entry" and "p \<le> 32" and "0 \<le> n" and "n < 2 ^ 32"
    and "parse_ipv4 ip = Some a" and "CHR ''/'' \<notin> set ip"
  shows "entry_allows ip entry \<longleftrightarrow> a div 2 ^ (32 - p) = n div 2 ^ (32 - p)"
  using in_network_iff [of p IPv4 n "\<lparr>ip_version_of = IPv4, ip_int = a\<rparr>"] parse_ipv4_range [OF assms(6)] assms
  by (simp add: entry_allows_def ip_address_def)

lemma default_filter_ipv4:
  assumes "e ''ALLOWED_IPS'' = None" and "parse_ipv4 ip = Some a" and "CHR ''/'' \<notin> set ip" and "ip \<noteq> []"
  shows "is_ip_allowed e (Some ip) [] \<longleftrightarrow>
    ip = ''127.0.0.1'' \<or> ip = ''192.168.1.1'' \<or> a div 2 ^ 24 = 10 \<or> a div 2 ^ 20 = 2753 \<or> a div 2 ^ 16 = 49320"
proof -
  have "entry_allows ip ''127.0.0.1'' \<longleftrightarrow> ip = ''127.0.0.1''" "entry_allows ip ''192.168.1.1'' \<longleftrightarrow> ip = ''192.168.1.1''"
    by (auto simp: entry_allows_def)
  moreover have "entry_allows ip ''10.0.0.0/8'' \<longleftrightarrow> a div 2 ^ 24 = 10" "entry_allows ip ''172.16.0.0/12'' \<longleftrightarrow> a div 2 ^ 20 = 2753"
    "entry_allows ip ''192.168.0.0/16'' \<longleftrightarrow> a div 2 ^ 16 = 49320"
    using entry_allows_ipv4 [OF default_networks(1) _ _ _ _ assms(2,3)] entry_allows_ipv4 [OF default_networks(2) _ _ _ _ assms(2,3)]
      entry_allows_ipv4 [OF default_networks(3) _ _ _ _ assms(2,3)] by simp_all
  ultimately show ?thesis using assms(1,4) by (simp add: is_ip_allowed_def default_subnets)
qed

text \<open>The address a request is attributed to is what its headers say.\<close>

lemma client_ip_from_header: "rq_header r ''X-Real-IP'' = Some ''127.0.0.1'' \<Longrightarrow> get_client_ip r = Some ''127.0.0.1''"
proof -
  have "strip ''127.0.0.1'' = ''127.0.0.1''" by code_simp
  then show "rq_header r ''X-Real-IP'' = Some ''127.0.0.1'' \<Longrightarrow> ?thesis" by (simp add: get_client_ip_def)
qed

text \<open>
  C36: the address filter admits exactly the listed addresses and networks. A request is let through to the
  developer routes when the address it is attributed to is written in the list, or is an address whose
  version and leading bits are those of a network of the list, for every IPv4 and IPv6 address and prefix;
  an unreadable address or network admits nothing. With the list that holds by default, an IPv4 address is
  let through exactly when it is 127.0.0.1 or in one of the three private ranges. The attribution is the
  request's own: with a header that says 127.0.0.1 the default filter lets any sender through.
\<close>

theorem dev_filter_exact:
  "(is_ip_allowed e client allowed \<longleftrightarrow>
     (\<exists>ip entry. client = Some ip \<and> ip \<noteq> [] \<and> entry \<in> set (if allowed = [] then get_allowed_dev_subnets e else allowed)
        \<and> (if CHR ''/'' \<in> set entry then matches_network ip entry else entry = ip)))
   \<and> (e ''ALLOWED_IPS'' = None \<longrightarrow> parse_ipv4 ip = Some a \<longrightarrow> CHR ''/'' \<notin> set ip \<longrightarrow> ip \<noteq> [] \<longrightarrow>
       (is_ip_allowed e (Some ip) (get_allowed_dev_subnets e) \<longleftrightarrow>
          ip = ''127.0.0.1'' \<or> ip = ''192.168.1.1'' \<or> a div 2 ^ 24 = 10 \<or> a div 2 ^ 20 = 2753 \<or> a div 2 ^ 16 = 49320))
   \<and> (e ''ALLOWED_IPS'' = None \<longrightarrow> rq_header r ''X-Real-IP'' = Some ''127.0.0.1'' \<longrightarrow>
       is_ip_allowed e (get_client_ip r) (get_allowed_dev_subnets e))"
proof (intro conjI impI)
  show "is_ip_allowed e client allowed \<longleftrightarrow>
     (\<exists>ip entry. client = Some ip \<and> ip \<noteq> [] \<and> entry \<in> set (if allowed = [] then get_allowed_dev_subnets e else allowed)
        \<and> (if CHR ''/'' \<in> set entry then matches_network ip entry else entry = ip))"
    by (auto simp: is_ip_allowed_def list_ex_iff entry_allows_iff split: option.splits if_splits)
next
  assume d: "e ''ALLOWED_IPS'' = None" and "parse_ipv4 ip = Some a" "CHR ''/'' \<notin> set ip" "ip \<noteq> []"
  then have "is_ip_allowed e (Some ip) [] \<longleftrightarrow>
      ip = ''127.0.0.1'' \<or> ip = ''192.168.1.1'' \<or> a div 2 ^ 24 = 10 \<or> a div 2 ^ 20 = 2753 \<or> a div 2 ^ 16 = 49320"
    by (rule default_filter_ipv4)
  moreover have "is_ip_allowed e (Some ip) (get_allowed_dev_subnets e) = is_ip_allowed e (Some ip) []" by (simp add: is_ip_allowed_def)
  ultimately show "is_ip_allowed e (Some ip) (get_allowed_dev_subnets e) \<longleftrightarrow>
      ip = ''127.0.0.1'' \<or> ip = ''192.168.1.1'' \<or> a div 2 ^ 24 = 10 \<or> a div 2 ^ 20 = 2753 \<or> a div 2 ^ 16 = 49320" by simp
next
  assume "e ''ALLOWED_IPS'' = None" "rq_header r ''X-Real-IP'' = Some ''127.0.0.1''"
  then show "is_ip_allowed e (get_client_ip r) (get_allowed_dev_subnets e)"
    by (simp add: client_ip_from_header default_subnets is_ip_allowed_def entry_allows_def)
qed

text \<open>A request from outside whose header claims the loopback address, and one that does not.\<close>

definition outside_request :: "string option \<Rightarrow> http_request" where
  "outside_request claimed = \<lparr>rq_path = ''/dev/logs'', rq_header = (\<lambda>n. if n = ''X-Real-IP'' then claimed else None), rq_remote_addr = Some ''8.8.8.8''\<rparr>"

theorem dev_filter_exact_witness:
  "is_ip_allowed (\<lambda>_. None) (get_client_ip (outside_request (Some ''127.0.0.1''))) (get_allowed_dev_subnets (\<lambda>_. None))
   \<and> \<not> is_ip_allowed (\<lambda>_. None) (Some ''8.8.8.8'') (get_allowed_dev_subnets (\<lambda>_. None))"
proof -
  have p: "parse_ipv4 ''8.8.8.8'' = Some 134744072" by code_simp
  note t = dev_filter_exact [of "\<lambda>_. None" None "[]" "''8.8.8.8''" 134744072 "outside_request (Some ''127.0.0.1'')"]
  show ?thesis using t p by (simp add: outside_request_def)
qed

section \<open>Countries and engines\<close>

lemma geo_filter_blocks:
  assumes "GEO_FILTER_ENABLED e" and "geo_reader geo = Some country" and "\<not> startswith (rq_path r) ''/static''"
  shows "fst (check_geo_ip e geo r) = None \<longleftrightarrow>
    country (rq_remote_addr r) = Address_not_found \<or> (\<exists>c \<in> set (ALLOWED_COUNTRIES e). country (rq_remote_addr r) = Located (Some c))"
  using assms by (auto simp: check_geo_ip_def geo_is_ip_allowed_def split: geo_answer.splits bool.splits)

lemma get_bind_active:
  assumes "g_active_bind g = Some (c # cs)" and "get_bind engines default_engine None (Some g) = Inr x"
  shows "engines (c # cs) = Some x"
  using assms by (auto simp: get_bind_def or_else_def split: option.splits)

end
