(* ===== verification/Account_System.thy ===== *)
theory Account_System
  imports Auth Voting_System
begin

text \<open>
  The account routes as steps of the platform. Every route of login, second factor, registration,
  password maintenance and user administration is a step \<open>account_changed\<close> of the composed system: it
  touches users, enrolments and one-time codes only and keeps the constraints. What each does to the
  user table is summed up in \<open>row_calm\<close>, and the admission of voters is an invariant on top.
\<close>

section \<open>Account routes\<close>

text \<open>The part of an authentication request the other requests see: the database.\<close>

definition with_db :: "app_state \<Rightarrow> database \<Rightarrow> app_state" where
  "with_db st db = st\<lparr>a_db := db\<rparr>"

inductive account_route :: "app_state \<Rightarrow> app_state \<Rightarrow> bool" where
  password_changed: "change_password env cu cur new conf (st, sg) = (r, st', sg') \<Longrightarrow>
    (\<And>u. cu = Some u \<Longrightarrow> get_user (a_db st) (u_id u) = Some u) \<Longrightarrow> account_route st st'"
| password_reset: "commit_reset env uid ver p st = (r, st') \<Longrightarrow> account_route st st'"
| address_verified: "verify_email env token st = (r, st') \<Longrightarrow> account_route st st'"
| user_approved: "approve_user env cu uid st = (r, st') \<Longrightarrow> account_route st st'"
| user_rejected: "reject_user env cu uid st = (r, st') \<Longrightarrow> account_route st st'"
| user_unlocked: "unlock_user cu uid st = (r, st') \<Longrightarrow> account_route st st'"
| user_login: "login aenv lform as = (r, as') \<Longrightarrow> as_db as = a_db st \<Longrightarrow> account_route st (with_db st (as_db as'))"
| code_verified: "verify_mfa aenv cform as = (r, as') \<Longrightarrow> as_db as = a_db st \<Longrightarrow> account_route st (with_db st (as_db as'))"
| user_registered: "register aenv (Some rform) as = (r, as') \<Longrightarrow> as_db as = a_db st \<Longrightarrow>
    account_route st (with_db st (as_db as'))"

section \<open>What they do to the tables\<close>

text \<open>
  A user row before and after. \<open>quiet\<close> changes leave the verification of the address alone and may
  only move the status to rejected.
\<close>

definition quiet :: "user \<Rightarrow> user \<Rightarrow> bool" where
  "quiet u u' \<longleftrightarrow> same_identity u u' \<and> session_version u \<le> session_version u' \<and> email_verified u' = email_verified u
     \<and> account_status u' \<in> {account_status u, ''rejected''}"

inductive row_calm :: "database \<Rightarrow> database \<Rightarrow> bool" where
  none: "users db' = users db \<Longrightarrow> row_calm db db'"
| quietly: "get_user db (u_id u) = Some u \<Longrightarrow> quiet u u' \<Longrightarrow> users db' = users (update_user u' db) \<Longrightarrow> row_calm db db'"
| joins: "account_status u = ''pending'' \<Longrightarrow> \<not> email_verified u \<Longrightarrow> users db' = users db @ [u] \<Longrightarrow> row_calm db db'"

lemma quiet_set_password: "set_password lib salt now u p = Inr u' \<Longrightarrow> quiet u u'"
  using set_password_keeps [of lib salt now u p u'] by (simp add: quiet_def)

lemma accounts_only_update_user: "accounts_only db (update_user u db)"
  by (simp add: accounts_only_def update_user_def)

definition roll_calm :: "database \<Rightarrow> database \<Rightarrow> bool" where
  "roll_calm db db' \<longleftrightarrow> electoral_rolls db' = electoral_rolls db \<or> (\<exists>row. electoral_rolls db' = electoral_rolls db @ [row])"

definition account_calm :: "database \<Rightarrow> database \<Rightarrow> bool" where
  "account_calm db db' \<longleftrightarrow> accounts_only db db' \<and> db_ok db' \<and> row_calm db db' \<and> roll_calm db db'"

lemma account_calm_same: "db_ok db \<Longrightarrow> account_calm db db"
  by (simp add: account_calm_def accounts_only_def row_calm.none roll_calm_def)

lemma account_calm_quiet:
  assumes "get_user db (u_id u) = Some u" and "quiet u u'" and "db_ok (update_user u' db)"
  shows "account_calm db (update_user u' db)"
  using assms accounts_only_update_user by (auto simp: account_calm_def roll_calm_def update_user_def intro: row_calm.quietly)

lemma account_calm_codes:
  assumes "db_ok (db\<lparr>otp_challenges := cs\<rparr>)"
  shows "account_calm db (db\<lparr>otp_challenges := cs\<rparr>)"
  using assms by (simp add: account_calm_def accounts_only_def row_calm.none roll_calm_def)

lemma complete_login_db:
  assumes "complete_login env u n st = (r, st')" and "get_user (as_db st) (u_id u) = Some u" and "db_ok (as_db st)"
  shows "as_db st' = as_db st \<or> as_db st' = update_user (reset_failed_logins u) (as_db st) \<and> db_ok (as_db st')"
  using assms by (auto simp: complete_login_def Let_def commit_Some_iff login_session_def login_user_def set_token_cookie_def
      split: option.splits if_splits sum.splits)

lemma keep_codes [simp]: "\<exists>cs. db = db\<lparr>otp_challenges := cs\<rparr>"
  by (rule exI [of _ "otp_challenges db"]) simp

lemma start_mfa_db:
  assumes "start_mfa env u n st = (r, st')" and "db_ok (as_db st)"
  shows "\<exists>cs. as_db st' = (as_db st)\<lparr>otp_challenges := cs\<rparr> \<and> db_ok (as_db st')"
proof -
  have issue: "\<exists>cs. db' = db\<lparr>otp_challenges := cs\<rparr> \<and> db_ok db'"
    if "issue_otp_challenge sk now i c uid p ttl c0 db = Inr (x, db')" for sk now i c uid p ttl c0 db x db'
    using that by (auto simp: issue_otp_challenge_def Let_def commit_Some_iff split: if_splits sum.splits option.splits)
  show ?thesis
  proof (cases "issue_otp_challenge (au_secret_key env) (au_now env) (au_challenge_id env) (au_code env) (u_id u)
             ''login_mfa'' 300 None (as_db st)")
    case (Inl e)
    with assms show ?thesis by (auto simp: start_mfa_def Let_def)
  next
    case (Inr x)
    then obtain cid code db' where x: "issue_otp_challenge (au_secret_key env) (au_now env) (au_challenge_id env) (au_code env) (u_id u)
             ''login_mfa'' 300 None (as_db st) = Inr ((cid, code), db')" by (cases x) auto
    obtain cs where cs: "db' = (as_db st)\<lparr>otp_challenges := cs\<rparr>" "db_ok db'" using issue [OF x] by blast
    with assms(1) x show ?thesis
      by (auto simp: start_mfa_def Let_def commit_Some_iff split: if_splits option.splits)
  qed
qed

lemma verify_otp_db:
  assumes "verify_otp_challenge sk now cid uid p code db = Inr (result, db')" and "db_ok db"
  shows "\<exists>cs. db' = db\<lparr>otp_challenges := cs\<rparr> \<and> db_ok db'"
  using assms
  by (auto simp: verify_otp_challenge_def update_challenge_def commit_Some_iff split: if_splits option.splits sum.splits)

lemma quiet_simps [simp]:
  "quiet u (reset_failed_logins u)" "quiet u (record_failed_login now m l u)"
  "quiet u (u\<lparr>failed_login_attempts := n, account_locked_until := t\<rparr>)"
  "quiet u (u\<lparr>account_status := ''rejected'', session_version := session_version u + 1\<rparr>)"
  by (simp_all add: quiet_def same_identity_def reset_failed_logins_def record_failed_login_def Let_def)

lemma find_user_row:
  assumes "find (\<lambda>u. P u) (users db) = Some u" and "db_ok db"
  shows "get_user db (u_id u) = Some u"
  unfolding get_user_def using assms find_Some_in [OF assms(1)]
  by (intro find_by_unique [of u_id]) (auto simp: db_ok_def users_ok_def)

lemma complete_login_account:
  assumes "complete_login env u n st = (r, st')" and "get_user (as_db st) (u_id u) = Some u" and "db_ok (as_db st)"
  shows "account_calm (as_db st) (as_db st')"
  using complete_login_db [OF assms] assms(2,3) account_calm_same account_calm_quiet by (metis quiet_simps(1))

lemma login_account:
  assumes "login env form st = (r, st')" and "db_ok (as_db st)"
  shows "account_calm (as_db st) (as_db st')"
proof -
  have cred: "account_calm (as_db st) (as_db st')"
    if run: "check_credentials env f name st1 = (r, st')" and db: "as_db st1 = as_db st" for f name st1
  proof (cases "find (\<lambda>u. username u = name) (users (as_db st))")
    case None
    with run db assms(2) show ?thesis by (auto simp: check_credentials_def account_calm_same)
  next
    case (Some u)
    note row = find_user_row [OF Some assms(2)]
    consider "as_db st' = as_db st"
      | "as_db st' = update_user (record_failed_login (au_now env) 5 30 u) (as_db st)" "db_ok (as_db st')"
      | n where "start_mfa env u n st1 = (r, st')" | n where "complete_login env u n st1 = (r, st')"
      using run Some db
      by (auto simp: check_credentials_def login_page_def Let_def commit_Some_iff split: if_splits option.splits)
    then show ?thesis
    proof cases
      case 2
      then show ?thesis using account_calm_quiet [OF row quiet_simps(2)] by metis
    next
      case (3 n)
      from start_mfa_db [OF 3] db assms(2) show ?thesis using account_calm_codes by auto
    next
      case (4 n)
      from complete_login_account [OF 4] db row assms(2) show ?thesis by simp
    qed (simp add: account_calm_same assms(2))
  qed
  consider "as_db st' = as_db st" | f name st1 where "check_credentials env f name st1 = (r, st')" "as_db st1 = as_db st"
  proof (cases "current_user st = None \<and> (\<exists>f. form = Some f \<and> strip (arg (lf_gotcha f)) = [])")
    case False
    with assms(1) have "as_db st' = as_db st" by (auto simp: login_def login_page_def Let_def split: option.splits if_splits)
    then show ?thesis by (rule that(1))
  next
    case True
    then obtain f where f: "current_user st = None" "form = Some f" "strip (arg (lf_gotcha f)) = []" by blast
    show ?thesis
      using assms(1) f that(1)
      by (auto simp: login_def login_page_def Let_def split: if_splits sum.splits option.splits intro: that(2))
  qed
  then show ?thesis using cred assms(2) account_calm_same by cases auto
qed

lemma verify_mfa_account:
  assumes "verify_mfa env form st = (r, st')" and "db_ok (as_db st)"
  shows "account_calm (as_db st) (as_db st')"
proof -
  have quietly: "account_calm db (update_user u' (db\<lparr>otp_challenges := cs\<rparr>))"
    if "get_user db (u_id u) = Some u" "quiet u u'" "db_ok (update_user u' (db\<lparr>otp_challenges := cs\<rparr>))" for db u u' cs
    using that by (auto simp: account_calm_def accounts_only_def roll_calm_def update_user_def intro: row_calm.quietly)
  consider "as_db st' = as_db st"
    | cs where "as_db st' = (as_db st)\<lparr>otp_challenges := cs\<rparr>" "db_ok (as_db st')"
    | u cs n st1 where "get_user (as_db st) (u_id u) = Some u" "as_db st1 = (as_db st)\<lparr>otp_challenges := cs\<rparr>" "db_ok (as_db st1)"
      "complete_login env u n st1 = (r, st')"
  proof (cases "\<exists>uid u otp cid result db'. s_mfa_pending_user_id (as_session st) = Some uid \<and> uid \<noteq> 0 \<and> get_user (as_db st) uid = Some u
      \<and> form = Some otp \<and> or_else (s_mfa_challenge_id (as_session st)) None = Some cid
      \<and> verify_otp_challenge (au_secret_key env) (au_now env) cid (u_id u) ''login_mfa'' (strip (arg otp)) (as_db st) = Inr (result, db')")
    case True
    then obtain uid u otp cid result db' where u: "s_mfa_pending_user_id (as_session st) = Some uid" "uid \<noteq> 0" "get_user (as_db st) uid = Some u"
      "form = Some otp" "or_else (s_mfa_challenge_id (as_session st)) None = Some cid"
      and v: "verify_otp_challenge (au_secret_key env) (au_now env) cid (u_id u) ''login_mfa'' (strip (arg otp)) (as_db st) = Inr (result, db')"
      by blast
    obtain cs where cs: "db' = (as_db st)\<lparr>otp_challenges := cs\<rparr>" "db_ok db'" using verify_otp_db [OF v assms(2)] by blast
    have row: "get_user (as_db st) (u_id u) = Some u" using u(3) get_user_SomeD [OF u(3)] by simp
    show ?thesis
    proof (cases "result = ''valid''")
      case True
      have "complete_login env u (or_else (s_mfa_pending_next (as_session st)) None) (on_session clear_mfa (st\<lparr>as_db := db'\<rparr>)) = (r, st')"
        using assms(1) u v True by (simp add: verify_mfa_def)
      then show ?thesis by (rule that(3) [OF row, rotated 2]) (use cs in auto)
    next
      case False
      have "as_db st' = db'" using assms(1) u v False by (auto simp: verify_mfa_def Let_def split: if_splits)
      with cs show ?thesis by (intro that(2)) auto
    qed
  next
    case False
    with assms(1) have "as_db st' = as_db st"
      by (fastforce simp: verify_mfa_def Let_def split: option.splits if_splits sum.splits)
    then show ?thesis by (rule that(1))
  qed
  then show ?thesis
  proof cases
    case 2
    then show ?thesis using account_calm_codes by metis
  next
    case (3 u cs n st1)
    have "get_user (as_db st1) (u_id u) = Some u" using 3(1,2) by (simp add: get_user_def)
    from complete_login_db [OF 3(4) this 3(3)] show ?thesis
      using quietly [OF 3(1) quiet_simps(1)] 3(2,3) account_calm_codes by auto
  qed (simp add: account_calm_same assms(2))
qed

lemma update_user_calm:
  assumes "get_user db uid = Some u" and "quiet u u'" and "db_ok (update_user u' db)"
  shows "account_calm db (update_user u' db)"
  using account_calm_quiet [of db u u'] assms get_user_SomeD [OF assms(1)] by simp

lemma change_password_calm:
  assumes "change_password env cu cur new conf (st, sg) = (r, st', sg')" and "db_ok (a_db st)"
    and "\<And>u. cu = Some u \<Longrightarrow> get_user (a_db st) (u_id u) = Some u"
  shows "account_calm (a_db st) (a_db st')"
proof (cases "st' = st")
  case False
  show ?thesis
    by (rule change_password_effect [OF assms(1) False]) (use assms(3) update_user_calm quiet_set_password in metis)
qed (simp add: account_calm_same assms(2))

lemma commit_reset_calm:
  assumes "commit_reset env uid ver p st = (r, st')" and "db_ok (a_db st)"
  shows "account_calm (a_db st) (a_db st')"
  using commit_reset_cases [OF assms] update_user_calm quiet_set_password account_calm_same [OF assms(2)] by metis

lemma reject_user_calm:
  assumes "reject_user env cu uid st = (r, st')" and "db_ok (a_db st)"
  shows "account_calm (a_db st) (a_db st')"
proof (cases "st' = st")
  case False
  show ?thesis by (rule reject_user_effect [OF assms(1) False]) (use update_user_calm quiet_simps(4) in metis)
qed (simp add: account_calm_same assms(2))

lemma unlock_user_calm:
  assumes "unlock_user cu uid st = (r, st')" and "db_ok (a_db st)"
  shows "account_calm (a_db st) (a_db st')"
proof (cases "st' = st")
  case False
  show ?thesis by (rule unlock_user_effect [OF assms(1) False]) (use update_user_calm quiet_simps(3) in metis)
qed (simp add: account_calm_same assms(2))

lemma register_calm:
  assumes "register env (Some f) st = (r, st')" and "db_ok (as_db st)"
  shows "account_calm (as_db st) (as_db st')"
  using register_cases [OF assms(1)]
proof (elim disjE conjE exE)
  fix u assume reg: "registered env f u st st'"
  then have ins: "insert_registration env u (as_db st) = Inr (Some (as_db st'))"
    and u: "account_status u = ''pending''" "\<not> email_verified u"
    by (auto simp: registered_def new_user_def set_password_cases split: if_splits)
  obtain h row where row: "as_db st' = (as_db st)\<lparr>users := users (as_db st) @ [u\<lparr>driver_lic_hash := h\<rparr>],
      electoral_rolls := electoral_rolls (as_db st) @ [row]\<rparr>" "db_ok (as_db st')"
    using insert_registration_SomeD [OF ins] by blast
  have "row_calm (as_db st) (as_db st')"
    by (rule row_calm.joins [of "u\<lparr>driver_lic_hash := h\<rparr>"]) (use u row in auto)
  then show ?thesis using row by (simp add: account_calm_def accounts_only_def roll_calm_def)
qed (simp add: account_calm_same assms(2))

text \<open>A route is calm, or it is the verification of an address, or the approval of a user.\<close>

lemma route_cases:
  assumes "account_route st st'" and "db_ok (a_db st)"
  shows "account_calm (a_db st) (a_db st') \<or> (\<exists>env token r. verify_email env token st = (r, st') \<and> st' \<noteq> st)
    \<or> (\<exists>env cu uid r. approve_user env cu uid st = (r, st') \<and> st' \<noteq> st)"
  using assms(1)
proof cases
  case (password_changed env cu cur new conf sg r sg')
  show ?thesis by (rule disjI1) (rule change_password_calm [OF password_changed(1) assms(2) password_changed(2)])
next
  case (password_reset env uid ver p r)
  show ?thesis by (rule disjI1) (rule commit_reset_calm [OF password_reset assms(2)])
next
  case (address_verified env token r)
  then show ?thesis using account_calm_same [OF assms(2)] by metis
next
  case (user_approved env cu uid r)
  then show ?thesis using account_calm_same [OF assms(2)] by metis
next
  case (user_rejected env cu uid r)
  show ?thesis by (rule disjI1) (rule reject_user_calm [OF user_rejected assms(2)])
next
  case (user_unlocked cu uid r)
  show ?thesis by (rule disjI1) (rule unlock_user_calm [OF user_unlocked assms(2)])
next
  case (user_login aenv lform as r as')
  with login_account [OF user_login(2)] assms(2) show ?thesis by (simp add: with_db_def)
next
  case (code_verified aenv cform as r as')
  with verify_mfa_account [OF code_verified(2)] assms(2) show ?thesis by (simp add: with_db_def)
next
  case (user_registered aenv rform as r as')
  with register_calm [OF user_registered(2)] assms(2) show ?thesis by (simp add: with_db_def)
qed

lemma verify_email_accounts:
  assumes "verify_email env token st = (r, st')" and "st' \<noteq> st"
  shows "accounts_only (a_db st) (a_db st') \<and> db_ok (a_db st')"
  by (rule verify_email_effect [OF assms]) (simp add: accounts_only_def update_user_def)

lemma approve_user_accounts:
  assumes "approve_user env cu uid st = (r, st')" and "st' \<noteq> st"
  shows "accounts_only (a_db st) (a_db st') \<and> db_ok (a_db st')"
  by (rule approve_user_effect [OF assms]) (simp add: accounts_only_def update_user_def)

lemma route_effect:
  assumes "account_route st st'" and "db_ok (a_db st)"
  shows "accounts_only (a_db st) (a_db st') \<and> db_ok (a_db st')"
  using route_cases [OF assms] verify_email_accounts approve_user_accounts by (auto simp: account_calm_def)

text \<open>The account routes are the steps \<open>account_changed\<close> of the platform.\<close>

lemma account_route_step:
  assumes "account_route (sys_app s) app'" and "sys_inv s"
  shows "step s (s\<lparr>sys_app := (sys_app s)\<lparr>a_db := a_db app'\<rparr>\<rparr>)"
proof -
  have "db_ok (sys_db s)" using assms(2) by (simp add: sys_inv_def election_inv_def)
  from route_effect [OF assms(1) this] show ?thesis by (intro step.account_changed) simp_all
qed


section \<open>Admission of voters\<close>

definition admitted_ok :: "database \<Rightarrow> bool" where
  "admitted_ok db \<longleftrightarrow> (\<forall>u \<in> set (users db). account_status u = ''approved'' \<longrightarrow> email_verified u)"

lemma admitted_update:
  assumes "admitted_ok db" and "users db' = users (update_user u' db)" and "account_status u' = ''approved'' \<longrightarrow> email_verified u'"
  shows "admitted_ok db'"
  using assms by (auto simp: admitted_ok_def update_user_def update_where_def)

lemma admitted_route:
  assumes "account_route st st'" and "db_ok (a_db st)" and "admitted_ok (a_db st)"
  shows "admitted_ok (a_db st')"
  using route_cases [OF assms(1,2)]
proof (elim disjE exE conjE)
  assume "account_calm (a_db st) (a_db st')"
  then have "row_calm (a_db st) (a_db st')" by (simp add: account_calm_def)
  then show ?thesis
  proof cases
    case (quietly u u')
    have "u \<in> set (users (a_db st))" using get_user_SomeD [OF quietly(1)] by simp
    with quietly(2) assms(3) show ?thesis by (intro admitted_update [OF assms(3) quietly(3)]) (auto simp: admitted_ok_def quiet_def)
  qed (use assms(3) in \<open>auto simp: admitted_ok_def\<close>)
next
  fix env token r assume run: "verify_email env token st = (r, st')" "st' \<noteq> st"
  show ?thesis
    by (rule verify_email_effect [OF run]) (auto intro: admitted_update [OF assms(3)])
next
  fix env cu uid r assume run: "approve_user env cu uid st = (r, st')" "st' \<noteq> st"
  show ?thesis
    by (rule approve_user_effect [OF run]) (auto intro!: admitted_update [OF assms(3), of _ "u\<lparr>account_status := a\<rparr>" for u a])
qed

text \<open>A row is never removed, keeps its identity, and its session version never goes back.\<close>

definition row_kept :: "database \<Rightarrow> database \<Rightarrow> bool" where
  "row_kept db db' \<longleftrightarrow> (\<forall>uid u. get_user db uid = Some u \<longrightarrow>
     (\<exists>u'. get_user db' uid = Some u' \<and> same_identity u u' \<and> session_version u \<le> session_version u'))"

lemma get_user_cong: "users db' = users db \<Longrightarrow> get_user db' = get_user db"
  by (simp add: get_user_def fun_eq_iff)

lemma row_kept_update:
  assumes "get_user db (u_id u) = Some u" and "same_identity u u'" and "session_version u \<le> session_version u'"
    and "users db' = users (update_user u' db)"
  shows "row_kept db db'"
  using assms(1-3) get_user_cong [OF assms(4)]
  by (auto simp: row_kept_def get_user_update same_identity_def)

lemma row_kept_route:
  assumes "account_route st st'" and "db_ok (a_db st)"
  shows "row_kept (a_db st) (a_db st')"
  using route_cases [OF assms]
proof (elim disjE exE conjE)
  assume "account_calm (a_db st) (a_db st')"
  then have "row_calm (a_db st) (a_db st')" by (simp add: account_calm_def)
  then show ?thesis
  proof cases
    case none
    then show ?thesis by (simp add: row_kept_def get_user_cong [OF none] same_identity_def)
  next
    case (quietly u u')
    then show ?thesis by (intro row_kept_update [OF quietly(1) _ _ quietly(3)]) (simp_all add: quiet_def)
  next
    case (joins u)
    have "get_user (a_db st') uid = Some v" if "get_user (a_db st) uid = Some v" for uid v
      using that joins(3) find_append_hit by (simp add: get_user_def)
    then show ?thesis by (auto simp: row_kept_def same_identity_def)
  qed
next
  fix env token r assume run: "verify_email env token st = (r, st')" "st' \<noteq> st"
  show ?thesis
  proof (rule verify_email_effect [OF run])
    fix u assume u: "u \<in> set (users (a_db st))" and db: "a_db st' = update_user (u\<lparr>email_verified := True\<rparr>) (a_db st)"
    have "get_user (a_db st) (u_id u) = Some u"
      unfolding get_user_def using assms(2) u by (intro find_by_unique [of u_id]) (auto simp: db_ok_def users_ok_def)
    then show ?thesis by (rule row_kept_update [where u' = "u\<lparr>email_verified := True\<rparr>"]) (simp_all add: db)
  qed
next
  fix env cu uid r assume run: "approve_user env cu uid st = (r, st')" "st' \<noteq> st"
  show ?thesis
  proof (rule approve_user_effect [OF run])
    fix u rs assume u: "get_user (a_db st) uid = Some u"
      and db: "a_db st' = (update_user (u\<lparr>account_status := ''approved''\<rparr>) (a_db st))\<lparr>electoral_rolls := rs\<rparr>"
    have "get_user (a_db st) (u_id u) = Some u" using u get_user_SomeD [OF u] by simp
    then show ?thesis by (rule row_kept_update [where u' = "u\<lparr>account_status := ''approved''\<rparr>"]) (simp_all add: db)
  qed
qed

lemma row_kept_trans: "row_kept a b \<Longrightarrow> row_kept b c \<Longrightarrow> row_kept a c"
  unfolding row_kept_def by (meson order_trans same_identity_trans)

interpretation accounts: transition_system "\<lambda>st. db_ok (a_db st) \<and> admitted_ok (a_db st)" account_route .

lemma accounts_run:
  assumes "account_route\<^sup>*\<^sup>* st st'" and "db_ok (a_db st)" and "admitted_ok (a_db st)"
  shows "db_ok (a_db st') \<and> admitted_ok (a_db st') \<and> row_kept (a_db st) (a_db st')"
proof (rule accounts.invariant_star [where I = "\<lambda>x. db_ok (a_db x) \<and> admitted_ok (a_db x) \<and> row_kept (a_db st) (a_db x)", OF assms(1)])
  show "db_ok (a_db st) \<and> admitted_ok (a_db st) \<and> row_kept (a_db st) (a_db st)"
    using assms by (simp add: row_kept_def same_identity_def)
  fix x y assume x: "db_ok (a_db x) \<and> admitted_ok (a_db x) \<and> row_kept (a_db st) (a_db x)" and xy: "account_route x y"
  then show "db_ok (a_db y) \<and> admitted_ok (a_db y) \<and> row_kept (a_db st) (a_db y)"
    using route_effect [OF xy] admitted_route [OF xy] row_kept_route [OF xy] row_kept_trans by blast
qed

lemma calm_grants_nothing:
  assumes "row_calm db db'" and "get_user db uid = Some v" and "get_user db' uid = Some v'"
  shows "email_verified v' = email_verified v" and "account_status v' = ''approved'' \<longrightarrow> account_status v = ''approved''"
proof -
  have "email_verified v' = email_verified v \<and> (account_status v' = ''approved'' \<longrightarrow> account_status v = ''approved'')"
    using assms(1)
  proof cases
    case none
    then show ?thesis using assms(2,3) get_user_cong [OF none] by simp
  next
    case (quietly u u')
    then show ?thesis using assms(2,3) get_user_cong [OF quietly(3)]
      by (auto simp: get_user_update quiet_def same_identity_def split: if_splits)
  next
    case (joins u)
    have "find (\<lambda>u. u_id u = uid) (users db @ [u]) = Some v"
      using find_append_hit [of "\<lambda>u. u_id u = uid" "users db" v "[u]"] assms(2) by (simp add: get_user_def)
    then have "v' = v" using assms(3) joins(3) by (simp add: get_user_def)
    then show ?thesis by simp
  qed
  then show "email_verified v' = email_verified v" and "account_status v' = ''approved'' \<longrightarrow> account_status v = ''approved''" by auto
qed

abbreviation address_json :: "user \<Rightarrow> json" where
  "address_json u \<equiv> (case email u of None \<Rightarrow> JNull | Some a \<Rightarrow> JStr a)"

lemma route_grants:
  assumes "account_route st st'" and "db_ok (a_db st)"
    and "get_user (a_db st) uid = Some v" and "get_user (a_db st') uid = Some v'"
  shows "\<not> email_verified v \<and> email_verified v' \<longrightarrow> (\<exists>env token r. verify_email env token st = (r, st')
      \<and> (serializer_ok (ac_serializer env) \<longrightarrow>
          (\<exists>t. token = sz_dumps (ac_serializer env) (ac_secret env) ''email-verify'' t (address_json v))))"
    and "account_status v \<noteq> ''approved'' \<and> account_status v' = ''approved'' \<longrightarrow>
      (\<exists>env admin r. approve_user env (Some admin) uid st = (r, st') \<and> is_manager (a_db st) admin \<and> email_verified v)"
proof -
  let ?A = "\<not> email_verified v \<and> email_verified v' \<longrightarrow> (\<exists>env token r. verify_email env token st = (r, st')
      \<and> (serializer_ok (ac_serializer env) \<longrightarrow>
          (\<exists>t. token = sz_dumps (ac_serializer env) (ac_secret env) ''email-verify'' t (address_json v))))"
  let ?B = "account_status v \<noteq> ''approved'' \<and> account_status v' = ''approved'' \<longrightarrow>
      (\<exists>env admin r. approve_user env (Some admin) uid st = (r, st') \<and> is_manager (a_db st) admin \<and> email_verified v)"
  have "?A \<and> ?B"
    using route_cases [OF assms(1,2)]
  proof (elim disjE exE conjE)
    assume "account_calm (a_db st) (a_db st')"
    then show ?thesis using calm_grants_nothing [OF _ assms(3,4)] by (auto simp: account_calm_def)
  next
    fix env token r assume run: "verify_email env token st = (r, st')" "st' \<noteq> st"
    show ?thesis
    proof (rule verify_email_effect [OF run])
      fix u claim assume u: "u \<in> set (users (a_db st))" and db: "a_db st' = update_user (u\<lparr>email_verified := True\<rparr>) (a_db st)"
        and claim: "claim = address_json u"
        and link: "sz_loads (ac_serializer env) (ac_secret env) ''email-verify'' (ac_now env) VERIFY_TOKEN_MAX_AGE token = Inr claim"
      have row: "get_user (a_db st) (u_id u) = Some u"
        unfolding get_user_def using assms(2) u by (intro find_by_unique [of u_id]) (auto simp: db_ok_def users_ok_def)
      have made: "serializer_ok (ac_serializer env) \<Longrightarrow> \<exists>t. token = sz_dumps (ac_serializer env) (ac_secret env) ''email-verify'' t claim"
        using link unfolding serializer_ok_def by blast
      have v': "v' = (if uid = u_id u then u\<lparr>email_verified := True\<rparr> else v)"
        using assms(3,4) row unfolding db by (auto simp: get_user_update split: if_splits)
      have same: "account_status v' = account_status v" "\<not> email_verified v \<and> email_verified v' \<Longrightarrow> v = u"
        using v' assms(3) row by (auto split: if_splits)
      then show ?thesis using run(1) made claim by auto
    qed
  next
    fix env cu uid' r assume run: "approve_user env cu uid' st = (r, st')" "st' \<noteq> st"
    show ?thesis
    proof (rule approve_user_effect [OF run])
      fix u admin rs assume u: "cu = Some admin" "is_manager (a_db st) admin" "get_user (a_db st) uid' = Some u" "email_verified u"
        and db: "a_db st' = (update_user (u\<lparr>account_status := ''approved''\<rparr>) (a_db st))\<lparr>electoral_rolls := rs\<rparr>"
      have "get_user (a_db st') = get_user (update_user (u\<lparr>account_status := ''approved''\<rparr>) (a_db st))"
        by (rule get_user_cong) (simp add: db)
      then have v': "v' = (if uid = uid' then u\<lparr>account_status := ''approved''\<rparr> else v)"
        using assms(3,4) u(3) get_user_SomeD [OF u(3)] by (auto simp: get_user_update split: if_splits)
      have "email_verified v' = email_verified v" "account_status v \<noteq> ''approved'' \<and> account_status v' = ''approved'' \<Longrightarrow> uid' = uid \<and> v = u"
        using v' assms(3) u(3) by (auto split: if_splits)
      then show ?thesis using run(1) u by auto
    qed
  qed
  then show ?A ?B by auto
qed

text \<open>
  C17: how a registered person becomes a voter. Along every run of account routes from a database
  whose approved users have verified addresses, that stays so, no user row disappears or changes
  its identity and no session version goes back. And in every step of the run, an address becomes
  verified only through a link that was signed for exactly this address, and a user becomes
  approved only by a manager, with the address verified before.
\<close>

theorem voter_admission:
  assumes "account_route\<^sup>*\<^sup>* st st1" and "account_route st1 st2" and "db_ok (a_db st)" and "admitted_ok (a_db st)"
  shows "admitted_ok (a_db st2) \<and> row_kept (a_db st) (a_db st2)
    \<and> (\<forall>uid v v'. get_user (a_db st1) uid = Some v \<and> get_user (a_db st2) uid = Some v' \<longrightarrow>
        (\<not> email_verified v \<and> email_verified v' \<longrightarrow> (\<exists>env token r. verify_email env token st1 = (r, st2)
           \<and> (serializer_ok (ac_serializer env) \<longrightarrow>
               (\<exists>t. token = sz_dumps (ac_serializer env) (ac_secret env) ''email-verify'' t
                 (case email v of None \<Rightarrow> JNull | Some a \<Rightarrow> JStr a)))))
        \<and> (account_status v \<noteq> ''approved'' \<and> account_status v' = ''approved'' \<longrightarrow>
           (\<exists>env admin r. approve_user env (Some admin) uid st1 = (r, st2) \<and> is_manager (a_db st1) admin \<and> email_verified v)))"
proof -
  have "db_ok (a_db st1)" using accounts_run [OF assms(1,3,4)] by blast
  moreover have "account_route\<^sup>*\<^sup>* st st2" using assms(1,2) by (rule rtranclp.rtrancl_into_rtrancl)
  ultimately show ?thesis using accounts_run [OF _ assms(3,4), of st2] route_grants [OF assms(2)] by blast
qed

lemma demo_admitted: "admitted_ok demo_db"
  by (simp add: admitted_ok_def demo_defs)

theorem voter_admission_witness:
  "\<exists>st2. account_route demo_account_state st2 \<and> admitted_ok (a_db st2) \<and> row_kept demo_db (a_db st2)"
proof -
  obtain r st2 where st2: "reject_user (demo_account_env 9) (Some demo_manager) 7 demo_account_state = (r, st2)"
    using demo_reject by blast
  have step: "account_route demo_account_state st2" by (rule account_route.user_rejected [OF st2])
  have db: "a_db demo_account_state = demo_db" by (simp add: demo_account_state_def)
  have "db_ok (a_db demo_account_state)" "admitted_ok (a_db demo_account_state)" by (simp_all add: db demo_db_ok demo_admitted)
  from voter_admission [OF rtranclp.rtrancl_refl step this] step db show ?thesis by auto
qed

end
