(* ===== verification/Environment.thy ===== *)
theory Environment
  imports Config
begin

text \<open>
  The environment detector of \<^verbatim>\<open>app/environment.py\<close>, a second reading of the deployment variables
  beside the one of \<open>create_app\<close>, and the retry loops that wait for the database in
  \<^verbatim>\<open>app/utils/db_utils.py\<close> and \<^verbatim>\<open>scripts/init_db_users.py\<close>. Log lines are left out.
\<close>

section \<open>The detector\<close>

datatype environment = PRODUCTION | STAGING | DEVELOPMENT | LOCAL | TESTING

definition environment_value :: "environment \<Rightarrow> string" where
  "environment_value v = (case v of PRODUCTION \<Rightarrow> ''production'' | STAGING \<Rightarrow> ''staging'' | DEVELOPMENT \<Rightarrow> ''development''
     | LOCAL \<Rightarrow> ''local'' | TESTING \<Rightarrow> ''testing'')"

text \<open>\<open>Environment(text)\<close>; \<open>None\<close> is the \<open>ValueError\<close> of an unknown value.\<close>

definition environment_of :: "string \<Rightarrow> environment option" where
  "environment_of s = find (\<lambda>v. environment_value v = s) [PRODUCTION, STAGING, DEVELOPMENT, LOCAL, TESTING]"

definition PRODUCTION_INDICATORS :: "string list" where
  "PRODUCTION_INDICATORS =
     [''DATABASE_URL'', ''HEROKU_APP_NAME'', ''AWS_REGION'', ''GOOGLE_CLOUD_PROJECT'', ''AZURE_SUBSCRIPTION_ID'']"

definition has_production_indicators :: "environ \<Rightarrow> bool" where
  "has_production_indicators e \<longleftrightarrow> list_ex (\<lambda>n. e n \<noteq> None) PRODUCTION_INDICATORS"

definition detect_by_flask :: "environ \<Rightarrow> environment" where
  "detect_by_flask e =
     (let f = strip (lower (getenv e ''FLASK_ENV'')) in
      if f = ''production'' then PRODUCTION
      else if f = ''development'' then DEVELOPMENT
      else if f = ''testing'' then TESTING
      else if has_production_indicators e then PRODUCTION else LOCAL)"

definition detect_environment :: "environ \<Rightarrow> environment" where
  "detect_environment e =
     (let d = strip (lower (getenv e ''DEPLOYMENT_ENV'')) in
      if d = [] then detect_by_flask e
      else (case environment_of d of Some v \<Rightarrow> v | None \<Rightarrow> detect_by_flask e))"

definition check_safe_for_testing :: "environment \<Rightarrow> bool" where
  "check_safe_for_testing v \<longleftrightarrow> v \<in> {LOCAL, DEVELOPMENT, TESTING}"

record detector =
  det_env :: environment
  det_safe :: bool

definition new_detector :: "environ \<Rightarrow> detector" where
  "new_detector e = \<lparr>det_env = detect_environment e, det_safe = check_safe_for_testing (detect_environment e)\<rparr>"

text \<open>\<open>get_environment_detector\<close>: the instance of the process is made at the first call and kept.\<close>

definition get_environment_detector :: "environ \<Rightarrow> detector option \<Rightarrow> detector \<times> detector option" where
  "get_environment_detector e g = (let d = (case g of Some d \<Rightarrow> d | None \<Rightarrow> new_detector e) in (d, Some d))"

definition det_is_production :: "detector \<Rightarrow> bool" where
  "det_is_production d \<longleftrightarrow> det_env d = PRODUCTION"

definition require_safe_environment :: "detector \<Rightarrow> string \<Rightarrow> config_error + bool" where
  "require_safe_environment d feature_name =
     (if det_is_production d
      then Inl (RuntimeErr (feature_name @ '' cannot be enabled in production environment. '' @ ''Current environment: '' @
             environment_value (det_env d)))
      else if \<not> det_safe d then Inr False else Inr True)"

definition is_safe_for_test_features :: "environ \<Rightarrow> detector option \<Rightarrow> bool" where
  "is_safe_for_test_features e g = det_safe (fst (get_environment_detector e g))"

text \<open>The decision is made once: later changes of the environment variables do not reach it.\<close>

lemma detector_frozen:
  "fst (get_environment_detector e' (snd (get_environment_detector e g))) = fst (get_environment_detector e g)"
  by (cases g) (simp_all add: get_environment_detector_def Let_def)

lemma require_safe_environment_cases:
  "require_safe_environment (new_detector e) n =
     (case detect_environment e of
        PRODUCTION \<Rightarrow> Inl (RuntimeErr (n @ '' cannot be enabled in production environment. Current environment: production''))
      | STAGING \<Rightarrow> Inr False | _ \<Rightarrow> Inr True)"
  by (auto simp: require_safe_environment_def new_detector_def det_is_production_def check_safe_for_testing_def
      environment_value_def split: environment.splits)

section \<open>Where the two readings differ\<close>

lemma environment_of_simps [simp]:
  "environment_of ''production'' = Some PRODUCTION" "environment_of ''staging'' = Some STAGING"
  "environment_of ''development'' = Some DEVELOPMENT" "environment_of ''local'' = Some LOCAL"
  "environment_of ''testing'' = Some TESTING" "environment_of ''prod'' = None" "environment_of ''local-demo'' = None"
  by (simp_all add: environment_of_def environment_value_def)

lemma strip_lower: "strip (lower s) = lower (strip s)"
proof -
  have sp: "is_space (lower_char c) = is_space c" for c
    by (auto simp: is_space_def lower_char_def is_upper_ascii_def Let_def)
  have l: "dropWhile is_space (map lower_char t) = map lower_char (dropWhile is_space t)" for t
    by (induction t) (simp_all add: sp)
  show ?thesis by (simp add: strip_def lstrip_def lower_def l rev_map)
qed

definition deployment_text :: "environ \<Rightarrow> string" where
  "deployment_text e = lower (strip (getenv e ''DEPLOYMENT_ENV''))"

definition flask_text :: "environ \<Rightarrow> string" where
  "flask_text e = lower (strip (getenv e ''FLASK_ENV''))"

lemma detect_of_texts:
  assumes "deployment_text e \<in> allowed_deployment_environments" and "flask_text e \<in> allowed_flask_environments"
  shows "check_safe_for_testing (detect_environment e) \<longleftrightarrow>
     deployment_text e \<in> {''development'', ''local'', ''testing''}
     \<or> deployment_text e \<in> {[], ''prod'', ''local-demo''}
        \<and> (flask_text e \<in> {''development'', ''testing''} \<or> flask_text e \<in> {[], ''staging''} \<and> \<not> has_production_indicators e)"
  using assms
  unfolding detect_environment_def detect_by_flask_def check_safe_for_testing_def strip_lower Let_def
    deployment_text_def [symmetric] flask_text_def [symmetric]
    allowed_deployment_environments_def allowed_flask_environments_def
  by (elim insertE emptyE) simp_all

text \<open>
  The two readings of the deployment variables disagree. Where \<open>create_app\<close> starts a hosted
  (production-like) process, the detector calls test features safe exactly when the deployment
  variable is empty or \<open>prod\<close>, the Flask variable is empty or \<open>staging\<close>, and none of five marker
  variables is set; where it starts a local or test process, the detector refuses them exactly for
  \<open>local-demo\<close> with an empty Flask variable and a marker such as \<open>DATABASE_URL\<close> set.
\<close>

theorem detector_disagrees:
  assumes "read_deployment e = Inr dep"
  shows "dep_production_like dep \<Longrightarrow> is_safe_for_test_features e None \<longleftrightarrow>
           deployment_text e \<in> {[], ''prod''} \<and> flask_text e \<in> {[], ''staging''} \<and> \<not> has_production_indicators e"
    and "\<not> dep_production_like dep \<Longrightarrow> \<not> is_safe_for_test_features e None \<longleftrightarrow>
           deployment_text e = ''local-demo'' \<and> flask_text e = [] \<and> has_production_indicators e"
proof -
  note ok = read_deployment_ok [OF assms, folded deployment_text_def flask_text_def]
  have safe: "is_safe_for_test_features e None = check_safe_for_testing (detect_environment e)"
    by (simp add: is_safe_for_test_features_def get_environment_detector_def new_detector_def Let_def)
  have mode: "dep_production_like dep \<longleftrightarrow> \<not> (deployment_text e \<in> {''development'', ''local'', ''local-demo'', ''testing''}
      \<or> flask_text e \<in> {''development'', ''testing''})"
    using read_deployment_mode(1) [OF assms] by (simp add: names_relaxed_def deployment_text_def flask_text_def)
  show "is_safe_for_test_features e None \<longleftrightarrow>
      deployment_text e \<in> {[], ''prod''} \<and> flask_text e \<in> {[], ''staging''} \<and> \<not> has_production_indicators e"
    if "dep_production_like dep"
    using that ok(1-3) unfolding safe detect_of_texts [OF ok(1,2)] mode by blast
  show "\<not> is_safe_for_test_features e None \<longleftrightarrow>
      deployment_text e = ''local-demo'' \<and> flask_text e = [] \<and> has_production_indicators e"
    if "\<not> dep_production_like dep"
    using that ok(1-3) unfolding safe detect_of_texts [OF ok(1,2)] mode
      allowed_deployment_environments_def allowed_flask_environments_def
      deployment_is_production_like_def flask_is_production_like_def
    by (elim insertE emptyE) simp_all
qed

theorem detector_disagrees_witness:
  "is_safe_for_test_features (map_of [(''DEPLOYMENT_ENV'', ''prod'')]) None"
proof -
  have d: "read_deployment (map_of [(''DEPLOYMENT_ENV'', ''prod'')]) = Inr (deployment_mode ''prod'' [] True)" by code_simp
  have "dep_production_like (deployment_mode ''prod'' [] True)"
    and "deployment_text (map_of [(''DEPLOYMENT_ENV'', ''prod'')]) = ''prod''" "flask_text (map_of [(''DEPLOYMENT_ENV'', ''prod'')]) = []"
    and "\<not> has_production_indicators (map_of [(''DEPLOYMENT_ENV'', ''prod'')])" by code_simp+
  then show ?thesis using detector_disagrees(1) [OF d] by simp
qed

section \<open>Waiting for the database\<close>

text \<open>
  A trial is the state of the database server at one attempt: \<open>None\<close> when connecting and probing
  succeed, else the exception. The loop returns the trials it used and the pauses it made.
\<close>

record wait_state =
  ws_attempts :: int
  ws_slept :: int

function wait_loop :: "(int \<Rightarrow> 'x option) \<Rightarrow> int \<Rightarrow> int \<Rightarrow> wait_state \<Rightarrow> ('x \<times> wait_state) + wait_state" where
  "wait_loop trial max_attempts delay s =
     (if ws_attempts s < max_attempts
      then (case trial (ws_attempts s) of
              None \<Rightarrow> Inr s
            | Some exc \<Rightarrow>
                (let s1 = s\<lparr>ws_attempts := ws_attempts s + 1\<rparr> in
                 if max_attempts \<le> ws_attempts s1 then Inl (exc, s1)
                 else wait_loop trial max_attempts delay (s1\<lparr>ws_slept := ws_slept s1 + delay\<rparr>)))
      else Inr s)"
  by pat_completeness auto
termination by (relation "measure (\<lambda>(trial, max_attempts, delay, s). nat (max_attempts - ws_attempts s))") auto

declare wait_loop.simps [simp del]

definition wait_for_db :: "(int \<Rightarrow> 'x option) \<Rightarrow> int \<Rightarrow> int \<Rightarrow> ('x \<times> wait_state) + wait_state" where
  "wait_for_db trial max_attempts delay = wait_loop trial max_attempts delay \<lparr>ws_attempts = 0, ws_slept = 0\<rparr>"

text \<open>The loop of the provisioning script counts from one and ends in its own error.\<close>

fun wait_range :: "(int \<Rightarrow> 'x option) \<Rightarrow> int \<Rightarrow> int \<Rightarrow> int list \<Rightarrow> int \<Rightarrow> config_error + int" where
  "wait_range trial max_attempts delay [] slept = Inr slept"
| "wait_range trial max_attempts delay (attempt # rest) slept =
     (case trial (attempt - 1) of
        None \<Rightarrow> Inr slept
      | Some exc \<Rightarrow>
          if max_attempts \<le> attempt
          then Inl (RuntimeErr (''Database not ready after '' @ show_int max_attempts @ '' attempts''))
          else wait_range trial max_attempts delay rest (slept + delay))"

definition wait_for_mysql :: "(int \<Rightarrow> 'x option) \<Rightarrow> int \<Rightarrow> int \<Rightarrow> config_error + int" where
  "wait_for_mysql trial max_attempts delay = wait_range trial max_attempts delay [1..max_attempts] 0"

lemma wait_loop_ready:
  assumes "ws_attempts s \<le> k" "k < m" "trial k = None" "\<forall>j. ws_attempts s \<le> j \<and> j < k \<longrightarrow> trial j \<noteq> None"
  shows "wait_loop trial m delay s = Inr \<lparr>ws_attempts = k, ws_slept = ws_slept s + (k - ws_attempts s) * delay\<rparr>"
  using assms
proof (induction "nat (k - ws_attempts s)" arbitrary: s)
  case 0
  then show ?case by (subst wait_loop.simps) (simp add: wait_state.equality)
next
  case (Suc n)
  then obtain x where "trial (ws_attempts s) = Some x" by fastforce
  with Suc show ?case by (subst wait_loop.simps) (simp add: Let_def algebra_simps)
qed

lemma wait_loop_fails:
  assumes "ws_attempts s < m" "\<forall>j. ws_attempts s \<le> j \<and> j < m \<longrightarrow> trial j \<noteq> None"
  shows "wait_loop trial m delay s
    = Inl (the (trial (m - 1)), \<lparr>ws_attempts = m, ws_slept = ws_slept s + (m - 1 - ws_attempts s) * delay\<rparr>)"
  using assms
proof (induction "nat (m - 1 - ws_attempts s)" arbitrary: s)
  case 0
  then have "m = ws_attempts s + 1" "\<exists>x. trial (ws_attempts s) = Some x" by auto
  then show ?case by (subst wait_loop.simps) (auto simp: Let_def)
next
  case (Suc n)
  then obtain x where "trial (ws_attempts s) = Some x" by fastforce
  moreover have "ws_attempts s + 1 < m" using Suc.hyps(2) by linarith
  ultimately show ?case using Suc by (subst wait_loop.simps) (simp add: Let_def algebra_simps)
qed

lemma wait_range_ready:
  assumes "a \<le> k" "k < m" "trial k = None" "\<forall>j. a \<le> j \<and> j < k \<longrightarrow> trial j \<noteq> None"
  shows "wait_range trial m delay [a + 1..m] slept = Inr (slept + (k - a) * delay)"
  using assms
proof (induction "nat (k - a)" arbitrary: a slept)
  case (Suc n)
  then obtain x where "trial a = Some x" by fastforce
  moreover have "a + 1 < m" "a + 1 \<le> k" "n = nat (k - (a + 1))" using Suc.hyps(2) Suc.prems by linarith+
  ultimately show ?case using Suc.hyps(1) [of "a + 1" "slept + delay"] Suc.prems
    by (subst upto.simps) (simp add: algebra_simps)
qed (simp add: upto.simps)

lemma wait_range_fails:
  assumes "a < m" "\<forall>j. a \<le> j \<and> j < m \<longrightarrow> trial j \<noteq> None"
  shows "wait_range trial m delay [a + 1..m] slept
    = Inl (RuntimeErr (''Database not ready after '' @ show_int m @ '' attempts''))"
  using assms
proof (induction "nat (m - 1 - a)" arbitrary: a slept)
  case 0
  then have "m = a + 1" "\<exists>x. trial a = Some x" by auto
  then show ?case by (subst upto.simps) auto
next
  case (Suc n)
  then obtain x where "trial a = Some x" by fastforce
  moreover have "a + 1 < m" "n = nat (m - 1 - (a + 1))" using Suc.hyps(2) by linarith+
  ultimately show ?case using Suc.hyps(1) [of "a + 1" "slept + delay"] Suc.prems
    by (subst upto.simps) (simp add: algebra_simps)
qed

text \<open>Some attempt is the first to succeed, or all fail, or none is allowed.\<close>

lemma first_trial:
  "(\<exists>k. 0 \<le> k \<and> k < m \<and> trial k = None \<and> (\<forall>j. 0 \<le> j \<and> j < k \<longrightarrow> trial j \<noteq> None))
   \<or> 0 < m \<and> (\<forall>j. 0 \<le> j \<and> j < (m::int) \<longrightarrow> trial j \<noteq> None) \<or> m \<le> 0"
proof (cases "\<exists>n. int n < m \<and> trial (int n) = None")
  case True
  define n where "n = (LEAST n. int n < m \<and> trial (int n) = None)"
  have "int n < m \<and> trial (int n) = None" unfolding n_def using True by (rule LeastI_ex)
  moreover have "trial (int i) \<noteq> None" if "i < n" for i
    using not_less_Least [OF that [unfolded n_def]] that calculation by auto
  ultimately have "0 \<le> int n \<and> int n < m \<and> trial (int n) = None \<and> (\<forall>j. 0 \<le> j \<and> j < int n \<longrightarrow> trial j \<noteq> None)"
    by (metis nat_less_iff nat_0_le of_nat_0_le_iff)
  then show ?thesis by blast
qed (metis nat_0_le not_less)

text \<open>
  C31: waiting for the database ends, whatever the server does. Both loops stop at the first attempt
  that succeeds, after one pause for each failure before it; when each of the allowed attempts fails they raise after the last one
  without a further pause; and with no attempt allowed they return at once, without having reached a database.
\<close>

theorem database_wait_ends:
  "(\<forall>k. 0 \<le> k \<and> k < m \<and> trial k = None \<and> (\<forall>j. 0 \<le> j \<and> j < k \<longrightarrow> trial j \<noteq> None) \<longrightarrow>
      wait_for_db trial m delay = Inr \<lparr>ws_attempts = k, ws_slept = k * delay\<rparr>
      \<and> wait_for_mysql trial m delay = Inr (k * delay))
   \<and> (0 < m \<and> (\<forall>j. 0 \<le> j \<and> j < m \<longrightarrow> trial j \<noteq> None) \<longrightarrow>
      wait_for_db trial m delay = Inl (the (trial (m - 1)), \<lparr>ws_attempts = m, ws_slept = (m - 1) * delay\<rparr>)
      \<and> wait_for_mysql trial m delay = Inl (RuntimeErr (''Database not ready after '' @ show_int m @ '' attempts'')))
   \<and> (m \<le> 0 \<longrightarrow> wait_for_db trial m delay = Inr \<lparr>ws_attempts = 0, ws_slept = 0\<rparr> \<and> wait_for_mysql trial m delay = Inr 0)
   \<and> ((\<exists>k. 0 \<le> k \<and> k < m \<and> trial k = None \<and> (\<forall>j. 0 \<le> j \<and> j < k \<longrightarrow> trial j \<noteq> None))
      \<or> 0 < m \<and> (\<forall>j. 0 \<le> j \<and> j < m \<longrightarrow> trial j \<noteq> None) \<or> m \<le> 0)"
proof -
  let ?s = "\<lparr>ws_attempts = 0, ws_slept = 0\<rparr>"
  have ready: "wait_loop trial m delay ?s = Inr \<lparr>ws_attempts = k, ws_slept = k * delay\<rparr>"
      "wait_range trial m delay [1..m] 0 = Inr (k * delay)"
    if "0 \<le> k" "k < m" "trial k = None" "\<forall>j. 0 \<le> j \<and> j < k \<longrightarrow> trial j \<noteq> None" for k
    using that wait_loop_ready [of ?s k m trial delay] wait_range_ready [of 0 k m trial delay 0] by simp_all
  have fails: "wait_loop trial m delay ?s = Inl (the (trial (m - 1)), \<lparr>ws_attempts = m, ws_slept = (m - 1) * delay\<rparr>)"
      "wait_range trial m delay [1..m] 0 = Inl (RuntimeErr (''Database not ready after '' @ show_int m @ '' attempts''))"
    if "0 < m" "\<forall>j. 0 \<le> j \<and> j < m \<longrightarrow> trial j \<noteq> None"
    using that wait_loop_fails [of ?s m trial delay] wait_range_fails [of 0 m trial delay 0] by simp_all
  have none: "wait_loop trial m delay ?s = Inr ?s" "wait_range trial m delay [1..m] 0 = Inr 0" if "m \<le> 0"
    using that by (simp_all add: wait_loop.simps)
  show ?thesis
    unfolding wait_for_db_def wait_for_mysql_def
    by (intro conjI first_trial impI none allI; (elim conjE)?) (rule ready fails none; assumption)+
qed

theorem database_wait_ends_witness:
  "wait_for_db (\<lambda>i. if i < 3 then Some ''refused'' else None) 30 2 = Inr \<lparr>ws_attempts = 3, ws_slept = 6\<rparr>"
  using database_wait_ends [of 30 "\<lambda>i. if i < 3 then Some ''refused'' else None" 2, THEN conjunct1, rule_format, of 3]
  by simp

end
