(* ===== verification/Db_Users.thy ===== *)
theory Db_Users
  imports Account_System Environment
begin

text \<open>
  The two MySQL accounts of the application: \<^verbatim>\<open>scripts/init_db_users.py\<close>. The server keeps, per account
  name, a password and a set of grants; its statements take effect at once and are not undone by a
  rollback, as MySQL commits account statements implicitly. The waiting loop of the script is in
  the theory of the environment.
\<close>

section \<open>The server's accounts\<close>

text \<open>A grant names a database, a table or all tables, and a privilege.\<close>

type_synonym grant = "string \<times> string option \<times> string"

record db_account =
  acc_password :: string
  acc_grants :: "grant set"

record db_server =
  srv_accounts :: "string \<Rightarrow> db_account option"
  srv_tables :: "string \<Rightarrow> string list"

datatype account_stmt =
    Create_user string string
  | Alter_user string string
  | Revoke_all string
  | Grant_select string string
  | Grant_on string string string string

datatype account_error = Provision_error string | Server_error string

definition split_privileges :: "string \<Rightarrow> string list" where
  "split_privileges s = map strip (split_on (CHR '','') s)"

definition on_account :: "string \<Rightarrow> (db_account \<Rightarrow> db_account) \<Rightarrow> db_server \<Rightarrow> account_error + db_server" where
  "on_account name f srv =
     (case srv_accounts srv name of
        None \<Rightarrow> Inl (Server_error ''unknown account'')
      | Some a \<Rightarrow> Inr (srv\<lparr>srv_accounts := (srv_accounts srv)(name \<mapsto> f a)\<rparr>))"

definition exec_stmt :: "account_stmt \<Rightarrow> db_server \<Rightarrow> account_error + db_server" where
  "exec_stmt st srv =
     (case st of
        Create_user name pw \<Rightarrow>
          Inr (if srv_accounts srv name \<noteq> None then srv
               else srv\<lparr>srv_accounts := (srv_accounts srv)(name \<mapsto> \<lparr>acc_password = pw, acc_grants = {}\<rparr>)\<rparr>)
      | Alter_user name pw \<Rightarrow> on_account name (\<lambda>a. a\<lparr>acc_password := pw\<rparr>) srv
      | Revoke_all name \<Rightarrow> on_account name (\<lambda>a. a\<lparr>acc_grants := {}\<rparr>) srv
      | Grant_select db name \<Rightarrow> on_account name (\<lambda>a. a\<lparr>acc_grants := insert (db, None, ''SELECT'') (acc_grants a)\<rparr>) srv
      | Grant_on privs db tab name \<Rightarrow>
          if tab \<notin> set (srv_tables srv db) then Inl (Server_error ''no such table'')
          else on_account name (\<lambda>a. a\<lparr>acc_grants := acc_grants a \<union> set (map (\<lambda>p. (db, Some tab, p)) (split_privileges privs))\<rparr>) srv)"

text \<open>One statement after the other; what ran before an error stays.\<close>

fun exec_all :: "account_stmt list \<Rightarrow> db_server \<Rightarrow> (account_error + unit) \<times> db_server" where
  "exec_all [] srv = (Inr (), srv)"
| "exec_all (s # ss) srv = (case exec_stmt s srv of Inl e \<Rightarrow> (Inl e, srv) | Inr srv' \<Rightarrow> exec_all ss srv')"

section \<open>The script\<close>

definition ADMIN_TABLE_PRIVILEGES :: "(string \<times> string) list" where
  "ADMIN_TABLE_PRIVILEGES =
     [(''user'', ''UPDATE''), (''electoral_roll'', ''UPDATE''), (''candidate'', ''INSERT, UPDATE, DELETE''),
      (''election'', ''INSERT, UPDATE''), (''result_signing_public_key'', ''INSERT''), (''signed_election_result'', ''INSERT'')]"

definition VOTER_TABLE_PRIVILEGES :: "(string \<times> string) list" where
  "VOTER_TABLE_PRIVILEGES =
     [(''user'', ''INSERT, UPDATE''), (''electoral_roll'', ''INSERT''), (''vote'', ''INSERT''), (''vote_receipt'', ''INSERT''),
      (''blind_signature_token'', ''INSERT''), (''spent_ballot_nullifier'', ''INSERT''), (''otp_challenge'', ''INSERT, UPDATE, DELETE'')]"

definition required_env :: "environ \<Rightarrow> string \<Rightarrow> bool \<Rightarrow> account_error + string" where
  "required_env e name secret =
     (case or_else (e name) None of
        None \<Rightarrow> Inl (Provision_error (name @ '' is required''))
      | Some v \<Rightarrow>
          if secret \<and> (length v < 16 \<or> placeholder [''CHANGE_ME'', ''REPLACE_''] v)
          then Inl (Provision_error (name @ '' must be an explicit non-placeholder value of at least 16 characters''))
          else Inr v)"

definition sql_identifier :: "string \<Rightarrow> string \<Rightarrow> account_error + string" where
  "sql_identifier v label =
     (if v \<noteq> [] \<and> list_all (\<lambda>c. is_alnum_ascii c \<or> c = CHR ''_'') v then Inr v
      else Inl (Provision_error (label @ '' must contain only letters, digits, or underscore'')))"

text \<open>\<open>int(os.environ.get('DB_PORT', '3306'))\<close> and the root password, which the connection needs.\<close>

definition connection_settings :: "environ \<Rightarrow> account_error + string \<times> int \<times> string" where
  "connection_settings e =
     (case py_int 10 (case e ''DB_PORT'' of None \<Rightarrow> ''3306'' | Some v \<Rightarrow> v) of
        None \<Rightarrow> Inl (Server_error ''ValueError'')
      | Some port \<Rightarrow>
          then_do (required_env e ''MYSQL_ROOT_PASSWORD'' True) (\<lambda>pw.
            Inr (case e ''DB_HOST'' of None \<Rightarrow> ''db'' | Some v \<Rightarrow> v, port, pw)))"

definition reset_account :: "string \<Rightarrow> string \<Rightarrow> account_stmt list" where
  "reset_account name pw = [Create_user name pw, Alter_user name pw, Revoke_all name]"

definition grant_table_privileges :: "string \<Rightarrow> string \<Rightarrow> (string \<times> string) list \<Rightarrow> account_stmt list" where
  "grant_table_privileges db name grants = map (\<lambda>(tab, privs). Grant_on privs db tab name) grants"

definition account_statements :: "string \<Rightarrow> string \<times> string \<Rightarrow> string \<times> string \<Rightarrow> account_stmt list" where
  "account_statements db admin voter =
     reset_account (fst admin) (snd admin) @ reset_account (fst voter) (snd voter)
     @ Grant_select db (fst admin) # grant_table_privileges db (fst admin) ADMIN_TABLE_PRIVILEGES
     @ Grant_select db (fst voter) # grant_table_privileges db (fst voter) VOTER_TABLE_PRIVILEGES"

text \<open>The names and passwords, checked in the order of the code.\<close>

definition account_settings :: "environ \<Rightarrow> account_error + string \<times> (string \<times> string) \<times> string \<times> string" where
  "account_settings e =
     then_do (required_env e ''MYSQL_PASSWORD'' True) (\<lambda>_.
     then_do (then_do (required_env e ''MYSQL_DATABASE'' False) (\<lambda>v. sql_identifier v ''MYSQL_DATABASE'')) (\<lambda>database.
     then_do (then_do (required_env e ''VOTING_ADMIN_USER'' False) (\<lambda>v. sql_identifier v ''VOTING_ADMIN_USER'')) (\<lambda>admin_user.
     then_do (then_do (required_env e ''VOTING_VOTER_USER'' False) (\<lambda>v. sql_identifier v ''VOTING_VOTER_USER'')) (\<lambda>voter_user.
     then_do (raise_if (admin_user = voter_user) (Provision_error ''Admin and voter database usernames must differ'')) (\<lambda>_.
     then_do (required_env e ''VOTING_ADMIN_PASS'' True) (\<lambda>admin_password.
     then_do (required_env e ''VOTING_VOTER_PASS'' True) (\<lambda>voter_password.
     then_do (connection_settings e) (\<lambda>_.
       Inr (database, (admin_user, admin_password), voter_user, voter_password)))))))))"

text \<open>\<open>connects\<close>: whether the root connection is accepted.\<close>

definition create_db_users :: "environ \<Rightarrow> bool \<Rightarrow> db_server \<Rightarrow> (account_error + unit) \<times> db_server" where
  "create_db_users e connects srv =
     (case account_settings e of
        Inl err \<Rightarrow> (Inl err, srv)
      | Inr (database, admin, voter) \<Rightarrow>
          if \<not> connects then (Inl (Server_error ''connection refused''), srv)
          else exec_all (account_statements database admin voter) srv)"

section \<open>The grants a run leaves\<close>

definition table_grants :: "string \<Rightarrow> (string \<times> string) list \<Rightarrow> grant set" where
  "table_grants db gs = {(db, Some tab, p) | tab p. \<exists>privs. (tab, privs) \<in> set gs \<and> p \<in> set (split_privileges privs)}"

definition account_grants :: "string \<Rightarrow> (string \<times> string) list \<Rightarrow> grant set" where
  "account_grants db gs = insert (db, None, ''SELECT'') (table_grants db gs)"

lemma table_grants_Cons: "table_grants db ((tab, privs) # gs) = (\<lambda>p. (db, Some tab, p)) ` set (split_privileges privs) \<union> table_grants db gs"
  by (auto simp: table_grants_def)

text \<open>What a successful statement does to the accounts.\<close>

fun apply_stmt :: "account_stmt \<Rightarrow> (string \<Rightarrow> db_account option) \<Rightarrow> string \<Rightarrow> db_account option" where
  "apply_stmt (Create_user n pw) accs = (if accs n \<noteq> None then accs else accs(n \<mapsto> \<lparr>acc_password = pw, acc_grants = {}\<rparr>))"
| "apply_stmt (Alter_user n pw) accs = accs(n := map_option (\<lambda>a. a\<lparr>acc_password := pw\<rparr>) (accs n))"
| "apply_stmt (Revoke_all n) accs = accs(n := map_option (\<lambda>a. a\<lparr>acc_grants := {}\<rparr>) (accs n))"
| "apply_stmt (Grant_select db n) accs = accs(n := map_option (\<lambda>a. a\<lparr>acc_grants := insert (db, None, ''SELECT'') (acc_grants a)\<rparr>) (accs n))"
| "apply_stmt (Grant_on privs db tab n) accs =
     accs(n := map_option (\<lambda>a. a\<lparr>acc_grants := acc_grants a \<union> (\<lambda>p. (db, Some tab, p)) ` set (split_privileges privs)\<rparr>) (accs n))"

lemma exec_stmt_Inr: "exec_stmt s srv = Inr srv' \<Longrightarrow> srv_accounts srv' = apply_stmt s (srv_accounts srv) \<and> srv_tables srv' = srv_tables srv"
  by (cases s) (auto simp: exec_stmt_def on_account_def split: option.splits if_splits)

lemma exec_all_Inr:
  "exec_all ss srv = (Inr (), srv') \<Longrightarrow> srv_accounts srv' = fold apply_stmt ss (srv_accounts srv) \<and> srv_tables srv' = srv_tables srv"
proof (induction ss arbitrary: srv)
  case (Cons s ss)
  obtain srv1 where s1: "exec_stmt s srv = Inr srv1" "exec_all ss srv1 = (Inr (), srv')"
    using Cons.prems by (auto split: sum.splits)
  then show ?case using Cons.IH [OF s1(2)] exec_stmt_Inr [OF s1(1)] by simp
qed simp

lemma fold_grants:
  "fold apply_stmt (grant_table_privileges db n gs) accs =
     accs(n := map_option (\<lambda>a. a\<lparr>acc_grants := acc_grants a \<union> table_grants db gs\<rparr>) (accs n))"
proof (induction gs arbitrary: accs)
  case Nil
  have "map_option (\<lambda>a. a\<lparr>acc_grants := acc_grants a \<union> table_grants db []\<rparr>) (accs n) = accs n"
    by (simp add: table_grants_def option.map_ident)
  then show ?case by (simp add: grant_table_privileges_def)
next
  case (Cons g gs)
  obtain tab privs where g: "g = (tab, privs)" by (cases g)
  have "fold apply_stmt (grant_table_privileges db n (g # gs)) accs
      = fold apply_stmt (grant_table_privileges db n gs) (apply_stmt (Grant_on privs db tab n) accs)"
    by (simp add: grant_table_privileges_def g)
  also have "\<dots> = accs(n := map_option (\<lambda>a. a\<lparr>acc_grants := acc_grants a \<union> table_grants db (g # gs)\<rparr>) (accs n))"
    unfolding Cons.IH by (cases "accs n") (auto simp: g table_grants_Cons Un_assoc)
  finally show ?case .
qed

lemma fold_reset: "fold apply_stmt (reset_account n pw) accs = accs(n \<mapsto> \<lparr>acc_password = pw, acc_grants = {}\<rparr>)"
  by (cases "accs n") (auto simp: reset_account_def)

lemma statements_effect:
  assumes "admin \<noteq> voter"
  shows "fold apply_stmt (account_statements db (admin, pa) (voter, pv)) accs =
    accs(admin \<mapsto> \<lparr>acc_password = pa, acc_grants = account_grants db ADMIN_TABLE_PRIVILEGES\<rparr>,
         voter \<mapsto> \<lparr>acc_password = pv, acc_grants = account_grants db VOTER_TABLE_PRIVILEGES\<rparr>)"
  using assms
  by (simp add: account_statements_def fold_reset fold_grants account_grants_def fun_upd_twist)

lemma required_env_Inr: "required_env e n secret = Inr v \<Longrightarrow> e n = Some v \<and> (secret \<longrightarrow> 16 \<le> length v)"
  by (auto simp: required_env_def or_else_def split: option.splits if_splits)

lemma sql_identifier_Inr: "sql_identifier v l = Inr w \<Longrightarrow> w = v \<and> list_all (\<lambda>c. is_alnum_ascii c \<or> c = CHR ''_'') w"
  by (auto simp: sql_identifier_def split: if_splits)

lemma account_settings_names:
  assumes "account_settings e = Inr (db, (admin, pa), voter, pv)"
  shows "admin \<noteq> voter" and "e ''VOTING_ADMIN_USER'' = Some admin" and "e ''VOTING_VOTER_USER'' = Some voter"
    and "e ''MYSQL_DATABASE'' = Some db" and "e ''VOTING_ADMIN_PASS'' = Some pa" and "e ''VOTING_VOTER_PASS'' = Some pv"
    and "16 \<le> length pa" and "16 \<le> length pv" and "list_all (\<lambda>c. is_alnum_ascii c \<or> c = CHR ''_'') (db @ admin @ voter)"
proof -
  obtain v1 v2 v3 where s: "required_env e ''MYSQL_DATABASE'' False = Inr v1" "sql_identifier v1 ''MYSQL_DATABASE'' = Inr db"
    "required_env e ''VOTING_ADMIN_USER'' False = Inr v2" "sql_identifier v2 ''VOTING_ADMIN_USER'' = Inr admin"
    "required_env e ''VOTING_VOTER_USER'' False = Inr v3" "sql_identifier v3 ''VOTING_VOTER_USER'' = Inr voter"
    "raise_if (admin = voter) (Provision_error ''Admin and voter database usernames must differ'') = Inr ()"
    "required_env e ''VOTING_ADMIN_PASS'' True = Inr pa" "required_env e ''VOTING_VOTER_PASS'' True = Inr pv"
    using assms unfolding account_settings_def then_do_Inr_iff by force
  note r = required_env_Inr [OF s(1)] required_env_Inr [OF s(3)] required_env_Inr [OF s(5)] required_env_Inr [OF s(8)] required_env_Inr [OF s(9)]
  note i = sql_identifier_Inr [OF s(2)] sql_identifier_Inr [OF s(4)] sql_identifier_Inr [OF s(6)]
  show "admin \<noteq> voter" using s(7) by (auto simp: raise_if_def)
  show "e ''VOTING_ADMIN_USER'' = Some admin" "e ''VOTING_VOTER_USER'' = Some voter" "e ''MYSQL_DATABASE'' = Some db"
    "e ''VOTING_ADMIN_PASS'' = Some pa" "e ''VOTING_VOTER_PASS'' = Some pv" "16 \<le> length pa" "16 \<le> length pv"
    "list_all (\<lambda>c. is_alnum_ascii c \<or> c = CHR ''_'') (db @ admin @ voter)" using r i by auto
qed

text \<open>
  C37: the two database accounts have exactly their privileges. When the provisioning script ends without an
  error, the account named for administration and the one named for voters are different, have the
  passwords of the environment (of at least sixteen characters) and exactly the written privileges on the
  configured database and nothing else, whatever they had before; every other account is as it was, and
  the names that go into the statements consist of letters, digits and underscores. A rejected
  setting changes nothing.
\<close>

theorem accounts_least_privilege:
  "(create_db_users e connects srv = (Inr (), srv') \<longrightarrow>
     (\<exists>db admin pa voter pv. e ''MYSQL_DATABASE'' = Some db \<and> e ''VOTING_ADMIN_USER'' = Some admin \<and> e ''VOTING_VOTER_USER'' = Some voter
        \<and> admin \<noteq> voter \<and> 16 \<le> length pa \<and> 16 \<le> length pv \<and> e ''VOTING_ADMIN_PASS'' = Some pa \<and> e ''VOTING_VOTER_PASS'' = Some pv
        \<and> list_all (\<lambda>c. is_alnum_ascii c \<or> c = CHR ''_'') (db @ admin @ voter)
        \<and> srv_accounts srv' admin = Some \<lparr>acc_password = pa, acc_grants = account_grants db ADMIN_TABLE_PRIVILEGES\<rparr>
        \<and> srv_accounts srv' voter = Some \<lparr>acc_password = pv, acc_grants = account_grants db VOTER_TABLE_PRIVILEGES\<rparr>
        \<and> (\<forall>n. n \<notin> {admin, voter} \<longrightarrow> srv_accounts srv' n = srv_accounts srv n)))
   \<and> (isl (account_settings e) \<longrightarrow> snd (create_db_users e connects srv) = srv)"
proof (intro conjI impI)
  assume run: "create_db_users e connects srv = (Inr (), srv')"
  obtain db admin pa voter pv where s: "account_settings e = Inr (db, (admin, pa), voter, pv)"
    and x: "exec_all (account_statements db (admin, pa) (voter, pv)) srv = (Inr (), srv')"
    using run by (auto simp: create_db_users_def split: sum.splits if_splits)
  note names = account_settings_names [OF s]
  have "srv_accounts srv' = (srv_accounts srv)(admin \<mapsto> \<lparr>acc_password = pa, acc_grants = account_grants db ADMIN_TABLE_PRIVILEGES\<rparr>,
      voter \<mapsto> \<lparr>acc_password = pv, acc_grants = account_grants db VOTER_TABLE_PRIVILEGES\<rparr>)"
    using exec_all_Inr [OF x] statements_effect [OF names(1)] by simp
  then show "\<exists>db admin pa voter pv. e ''MYSQL_DATABASE'' = Some db \<and> e ''VOTING_ADMIN_USER'' = Some admin \<and> e ''VOTING_VOTER_USER'' = Some voter
        \<and> admin \<noteq> voter \<and> 16 \<le> length pa \<and> 16 \<le> length pv \<and> e ''VOTING_ADMIN_PASS'' = Some pa \<and> e ''VOTING_VOTER_PASS'' = Some pv
        \<and> list_all (\<lambda>c. is_alnum_ascii c \<or> c = CHR ''_'') (db @ admin @ voter)
        \<and> srv_accounts srv' admin = Some \<lparr>acc_password = pa, acc_grants = account_grants db ADMIN_TABLE_PRIVILEGES\<rparr>
        \<and> srv_accounts srv' voter = Some \<lparr>acc_password = pv, acc_grants = account_grants db VOTER_TABLE_PRIVILEGES\<rparr>
        \<and> (\<forall>n. n \<notin> {admin, voter} \<longrightarrow> srv_accounts srv' n = srv_accounts srv n)"
    using names by (intro exI [of _ db] exI [of _ admin] exI [of _ pa] exI [of _ voter] exI [of _ pv]) simp
next
  assume "isl (account_settings e)"
  then show "snd (create_db_users e connects srv) = srv" by (auto simp: create_db_users_def split: sum.splits)
qed


section \<open>The privileges the routes need\<close>

text \<open>The kinds of statement that turn one set of rows into another, the rows told apart by a key.\<close>

definition writes :: "string \<Rightarrow> ('r \<Rightarrow> 'k) \<Rightarrow> 'r list \<Rightarrow> 'r list \<Rightarrow> (string \<times> string) set" where
  "writes tab key rs rs' =
     {(tab, ''INSERT'') | r. r \<in> set rs' \<and> key r \<notin> key ` set rs} \<union> {(tab, ''DELETE'') | r. r \<in> set rs \<and> key r \<notin> key ` set rs'}
     \<union> {(tab, ''UPDATE'') | r. r \<in> set rs' \<and> key r \<in> key ` set rs \<and> r \<notin> set rs}"

definition needed :: "database \<Rightarrow> database \<Rightarrow> (string \<times> string) set" where
  "needed db db' =
     writes ''roles'' r_id (roles db) (roles db') \<union> writes ''regions'' g_id (regions db) (regions db')
     \<union> writes ''user'' u_id (users db) (users db') \<union> writes ''electoral_roll'' er_id (electoral_rolls db) (electoral_rolls db')
     \<union> writes ''election'' el_id (elections db) (elections db') \<union> writes ''candidate'' c_id (candidates db) (candidates db')
     \<union> writes ''vote'' v_id (votes db) (votes db') \<union> writes ''vote_receipt'' vr_id (vote_receipts db) (vote_receipts db')
     \<union> writes ''blind_signature_token'' bt_id (blind_tokens db) (blind_tokens db')
     \<union> writes ''spent_ballot_nullifier'' sn_id (nullifiers db) (nullifiers db')
     \<union> writes ''result_signing_public_key'' pk_key_id (result_keys db) (result_keys db')
     \<union> writes ''signed_election_result'' sr_id (signed_results db) (signed_results db')
     \<union> writes ''otp_challenge'' oc_id (otp_challenges db) (otp_challenges db')"

definition allowed_writes :: "(string \<times> string) list \<Rightarrow> (string \<times> string) list" where
  "allowed_writes gs = concat (map (\<lambda>(tab, privs). map (\<lambda>p. (tab, p)) (split_privileges privs)) gs)"

lemma allowed_writes_grants: "(tab, p) \<in> set (allowed_writes gs) \<longleftrightarrow> (db, Some tab, p) \<in> account_grants db gs"
  by (auto simp: allowed_writes_def account_grants_def table_grants_def)

lemma writes_same [simp]: "writes tab key rs rs = {}"
  by (simp add: writes_def)

lemma writes_append:
  assumes "unique_on key (rs @ xs)" shows "writes tab key rs (rs @ xs) \<subseteq> {(tab, ''INSERT'')}"
proof -
  have "key r \<notin> key ` set rs" if "r \<in> set xs" for r using assms that by (auto simp: image_iff)
  then show ?thesis by (auto simp: writes_def)
qed

lemma writes_update:
  assumes "\<And>r. p r \<Longrightarrow> key (f r) = key r" shows "writes tab key rs (update_where p f rs) \<subseteq> {(tab, ''UPDATE'')}"
proof -
  have "map key (update_where p f rs) = map key rs" using assms by (simp add: update_where_def)
  then have "key ` set (update_where p f rs) = key ` set rs" by (metis list.set_map)
  then show ?thesis by (auto simp: writes_def)
qed

lemma writes_any: "writes tab key rs rs' \<subseteq> {(tab, ''INSERT''), (tab, ''DELETE''), (tab, ''UPDATE'')}"
  by (auto simp: writes_def)

abbreviation voter_may :: "(string \<times> string) set" where
  "voter_may \<equiv> set (allowed_writes VOTER_TABLE_PRIVILEGES)"

abbreviation admin_may :: "(string \<times> string) set" where
  "admin_may \<equiv> set (allowed_writes ADMIN_TABLE_PRIVILEGES)"

lemma voter_may_write:
  "(''user'', ''INSERT'') \<in> voter_may" "(''user'', ''UPDATE'') \<in> voter_may" "(''electoral_roll'', ''INSERT'') \<in> voter_may"
  "(''vote'', ''INSERT'') \<in> voter_may" "(''blind_signature_token'', ''INSERT'') \<in> voter_may" "(''spent_ballot_nullifier'', ''INSERT'') \<in> voter_may"
  "(''otp_challenge'', ''INSERT'') \<in> voter_may" "(''otp_challenge'', ''DELETE'') \<in> voter_may" "(''otp_challenge'', ''UPDATE'') \<in> voter_may"
  by code_simp+

lemma admin_may_write:
  "(''user'', ''UPDATE'') \<in> admin_may" "(''electoral_roll'', ''UPDATE'') \<in> admin_may" "(''candidate'', ''INSERT'') \<in> admin_may"
  "(''candidate'', ''DELETE'') \<in> admin_may" "(''candidate'', ''UPDATE'') \<in> admin_may" "(''election'', ''INSERT'') \<in> admin_may"
  "(''election'', ''UPDATE'') \<in> admin_may" "(''result_signing_public_key'', ''INSERT'') \<in> admin_may" "(''signed_election_result'', ''INSERT'') \<in> admin_may"
  by code_simp+

lemma needed_same [simp]: "needed db db = {}"
  by (simp add: needed_def)

lemma may_write_row:
  "(tab, op) \<in> A \<Longrightarrow> W \<subseteq> {(tab, op)} \<Longrightarrow> W \<subseteq> A"
  by blast

lemma token_needs:
  assumes "insert_token ue db = Some db'" shows "needed db db' \<subseteq> voter_may"
proof -
  obtain row where db': "db' = db\<lparr>blind_tokens := blind_tokens db @ [row]\<rparr>" using insert_token_SomeD(2) [OF assms] by blast
  have "unique_on bt_id (blind_tokens db @ [row])" using insert_token_SomeD(1) [OF assms] by (simp add: db_ok_def blind_tokens_ok_def db')
  from may_write_row [OF voter_may_write(5) writes_append [OF this]] show ?thesis by (simp add: needed_def db')
qed

lemma ballot_needs:
  assumes "insert_ballot b db = Some db'" shows "needed db db' \<subseteq> voter_may"
proof -
  obtain v n where db': "db' = db\<lparr>votes := votes db @ [v], nullifiers := nullifiers db @ [n]\<rparr>" using insert_ballot_SomeD(2) [OF assms] by blast
  have u: "unique_on v_id (votes db @ [v])" "unique_on sn_id (nullifiers db @ [n])"
    using insert_ballot_SomeD(1) [OF assms] by (simp_all add: db_ok_def votes_ok_def nullifiers_ok_def db')
  from may_write_row [OF voter_may_write(4) writes_append [OF u(1)]] may_write_row [OF voter_may_write(6) writes_append [OF u(2)]]
  show ?thesis by (simp add: needed_def db')
qed

lemma update_user_needs: "writes ''user'' u_id (users db) (users (update_user u db)) \<subseteq> {(''user'', ''UPDATE'')}"
proof -
  have "users (update_user u db) = update_where (\<lambda>x. u_id x = u_id u) (\<lambda>_. u) (users db)" by (simp add: update_user_def)
  then show ?thesis by (simp only:) (rule writes_update, simp)
qed

lemma account_needs:
  assumes "account_calm db db'" shows "needed db db' \<subseteq> voter_may"
proof -
  have c: "accounts_only db db'" "db_ok db'" "row_calm db db'" "roll_calm db db'" using assms by (simp_all add: account_calm_def)
  have "writes ''user'' u_id (users db) (users db') \<subseteq> voter_may"
    using c(3)
  proof cases
    case (quietly u u')
    show ?thesis unfolding quietly(3) by (rule may_write_row [OF voter_may_write(2) update_user_needs])
  next
    case (joins u)
    have "unique_on u_id (users db @ [u])" using c(2) joins(3) by (simp add: db_ok_def users_ok_def)
    from may_write_row [OF voter_may_write(1) writes_append [OF this]] show ?thesis unfolding joins(3) .
  qed simp
  moreover have "writes ''electoral_roll'' er_id (electoral_rolls db) (electoral_rolls db') \<subseteq> voter_may"
  proof (cases "electoral_rolls db' = electoral_rolls db")
    case False
    then obtain row where row: "electoral_rolls db' = electoral_rolls db @ [row]" using c(4) by (auto simp: roll_calm_def)
    have "unique_on er_id (electoral_rolls db @ [row])" using c(2) row by (simp add: db_ok_def electoral_rolls_ok_def)
    from may_write_row [OF voter_may_write(3) writes_append [OF this]] show ?thesis unfolding row .
  qed simp
  moreover have "writes ''otp_challenge'' oc_id (otp_challenges db) (otp_challenges db') \<subseteq> voter_may"
    by (rule subset_trans [OF writes_any]) (simp add: voter_may_write)
  ultimately show ?thesis by (simp add: needed_def accounts_only_simps [OF c(1)])
qed


lemma approval_needs:
  assumes "approve_user env cu uid st = (r, st')" shows "needed (a_db st) (a_db st') \<subseteq> admin_may"
proof (cases "a_db st' = a_db st")
  case False
  have "\<exists>u. a_db st' = update_user u (a_db st) \<or> (\<exists>row. a_db st' = update_roll row (update_user u (a_db st)))"
    using assms False by (auto simp: approve_user_def admin_only_def roles_required_def login_required_def Let_def commit_Some_iff
        split: option.splits if_splits sum.splits) blast+
  then obtain u where u: "a_db st' = update_user u (a_db st) \<or> (\<exists>row. a_db st' = update_roll row (update_user u (a_db st)))" by blast
  have "writes ''user'' u_id (users (a_db st)) (users (a_db st')) \<subseteq> admin_may"
  proof -
    have "users (a_db st') = users (update_user u (a_db st))" using u by (auto simp: update_roll_def)
    then show ?thesis using may_write_row [OF admin_may_write(1) update_user_needs] by simp
  qed
  moreover have "writes ''electoral_roll'' er_id (electoral_rolls (a_db st)) (electoral_rolls (a_db st')) \<subseteq> admin_may"
  proof -
    have "writes ''electoral_roll'' er_id rs (update_where (\<lambda>x. er_id x = er_id row) (\<lambda>_. row) rs) \<subseteq> admin_may" for rs row
      by (rule may_write_row [OF admin_may_write(2) writes_update]) simp
    moreover have "electoral_rolls (a_db st') = electoral_rolls (a_db st)
        \<or> (\<exists>row. electoral_rolls (a_db st') = update_where (\<lambda>x. er_id x = er_id row) (\<lambda>_. row) (electoral_rolls (a_db st)))"
      using u by (auto simp: update_roll_def update_user_def)
    ultimately show ?thesis by (elim disjE exE) simp_all
  qed
  moreover have "accounts_only (a_db st) (a_db st')" using u by (auto simp: accounts_only_def update_roll_def update_user_def)
  moreover have "otp_challenges (a_db st') = otp_challenges (a_db st)" using u by (auto simp: update_roll_def update_user_def)
  ultimately show ?thesis by (simp add: needed_def accounts_only_simps)
qed simp

lemma management_needs:
  assumes "draft_added db db' \<or> election_changed how db db' \<or> (\<exists>i. roster_changed i db db') \<or> result_added db db'"
    and "db_ok db'" and "election_inv db"
  shows "needed db db' \<subseteq> admin_may"
  using assms(1)
proof (elim disjE exE)
  assume "draft_added db db'"
  then obtain row where db': "db' = db\<lparr>elections := elections db @ [row]\<rparr>" by (auto simp: draft_added_def)
  have "unique_on el_id (elections db @ [row])" using assms(2) by (simp add: db_ok_def elections_ok_def db')
  from may_write_row [OF admin_may_write(6) writes_append [OF this]] show ?thesis by (simp add: needed_def db')
next
  assume "election_changed how db db'"
  then obtain e where db': "db' = db\<lparr>elections := update_where (\<lambda>x. el_id x = el_id e) (\<lambda>_. e) (elections db)\<rparr>"
    by (auto simp: election_changed_def update_election_def)
  have "writes ''election'' el_id (elections db) (update_where (\<lambda>x. el_id x = el_id e) (\<lambda>_. e) (elections db)) \<subseteq> admin_may"
    by (rule may_write_row [OF admin_may_write(7) writes_update]) simp
  then show ?thesis by (simp add: needed_def db')
next
  fix i assume "roster_changed i db db'"
  then obtain e cs vs where e: "get_election db i = Some e" "el_status e = ''draft''"
    and vs: "filter (\<lambda>v. v_election_id v \<noteq> i) vs = filter (\<lambda>v. v_election_id v \<noteq> i) (votes db)" "set vs \<subseteq> set (votes db)"
    and db': "db' = db\<lparr>candidates := cs, votes := vs\<rparr>" by (auto simp: roster_changed_def)
  have "unused db i" using election_invD(5) [OF assms(3), of e] e get_election_SomeD [OF e(1)] by blast
  then have none: "\<forall>v \<in> set (votes db). v_election_id v \<noteq> i" by (auto simp: unused_def)
  then have "filter (\<lambda>v. v_election_id v \<noteq> i) (votes db) = votes db" by (simp add: filter_id_conv)
  moreover have "filter (\<lambda>v. v_election_id v \<noteq> i) vs = vs" using none vs(2) by (auto simp: filter_id_conv)
  ultimately have "vs = votes db" using vs(1) by simp
  moreover have "writes ''candidate'' c_id (candidates db) cs \<subseteq> admin_may"
    by (rule subset_trans [OF writes_any]) (simp add: admin_may_write)
  ultimately show ?thesis by (simp add: needed_def db')
next
  assume "result_added db db'"
  then obtain row ks where db': "db' = db\<lparr>signed_results := signed_results db @ [row], result_keys := result_keys db @ ks\<rparr>"
    by (auto simp: result_added_def)
  have u: "unique_on sr_id (signed_results db @ [row])" "unique_on pk_key_id (result_keys db @ ks)"
    using assms(2) by (simp_all add: db_ok_def signed_results_ok_def result_keys_ok_def db')
  from may_write_row [OF admin_may_write(9) writes_append [OF u(1)]] may_write_row [OF admin_may_write(8) writes_append [OF u(2)]]
  show ?thesis by (simp add: needed_def db')
qed


lemma verification_needs:
  assumes "verify_email env token st = (r, st')" and "st' \<noteq> st" shows "needed (a_db st) (a_db st') \<subseteq> voter_may"
proof (rule verify_email_effect [OF assms])
  fix u assume db': "a_db st' = update_user (u\<lparr>email_verified := True\<rparr>) (a_db st)"
  show ?thesis
    using may_write_row [OF voter_may_write(2) update_user_needs [of "a_db st" "u\<lparr>email_verified := True\<rparr>"]]
    unfolding db' by (simp add: needed_def update_user_def)
qed



section \<open>A run of the script\<close>

definition demo_db_environ :: environ where
  "demo_db_environ n = map_of [(''MYSQL_PASSWORD'', ''application-password''), (''MYSQL_DATABASE'', ''securevote''),
     (''VOTING_ADMIN_USER'', ''voting_admin''), (''VOTING_VOTER_USER'', ''voting_voter''), (''VOTING_ADMIN_PASS'', ''admin-password-1''),
     (''VOTING_VOTER_PASS'', ''voter-password-1''), (''MYSQL_ROOT_PASSWORD'', ''root-password-123'')] n"

text \<open>A server on which the voter account once had every privilege.\<close>

definition demo_server :: db_server where
  "demo_server = \<lparr>srv_accounts = [''voting_voter'' \<mapsto> \<lparr>acc_password = ''old'', acc_grants = {(''securevote'', Some ''election'', ''UPDATE'')}\<rparr>],
     srv_tables = (\<lambda>_. map fst (ADMIN_TABLE_PRIVILEGES @ VOTER_TABLE_PRIVILEGES))\<rparr>"

lemma demo_db_run: "fst (create_db_users demo_db_environ True demo_server) = Inr ()"
  by code_simp

theorem accounts_least_privilege_witness:
  "\<exists>srv' pv. create_db_users demo_db_environ True demo_server = (Inr (), srv')
     \<and> srv_accounts srv' ''voting_voter'' = Some \<lparr>acc_password = pv, acc_grants = account_grants ''securevote'' VOTER_TABLE_PRIVILEGES\<rparr>"
proof -
  obtain srv' where r: "create_db_users demo_db_environ True demo_server = (Inr (), srv')" using demo_db_run by (metis prod.collapse)
  have e: "demo_db_environ ''VOTING_VOTER_USER'' = Some ''voting_voter''" "demo_db_environ ''MYSQL_DATABASE'' = Some ''securevote''"
    by (simp_all add: demo_db_environ_def)
  show ?thesis using accounts_least_privilege [of demo_db_environ True demo_server srv'] r e by auto
qed


end
