(* ===== verification/Relational.thy ===== *)
theory Relational
  imports Py_Errors Json
begin

text \<open>
  Tables as the migrations see them: columns, named constraints and rows, with the SQL statements and
  the schema operations of Alembic that the scripts under \<^verbatim>\<open>migrations/versions\<close> issue. A row maps
  column names to values, \<open>None\<close> being \<open>NULL\<close>. Dates and numbers are integers.
\<close>

section \<open>Tables\<close>

datatype sql_value = SInt int | SText string | SBool bool

type_synonym row = "string \<Rightarrow> sql_value option"

record column =
  col_name :: string
  col_nullable :: bool
  col_default :: "sql_value option"

record unique_constraint =
  uq_name :: "string option"
  uq_columns :: "string list"

record foreign_key =
  fk_name :: "string option"
  fk_columns :: "string list"
  fk_table :: string
  fk_referred :: "string list"

record table =
  t_columns :: "column list"
  t_uniques :: "unique_constraint list"
  t_fks :: "foreign_key list"
  t_indexes :: "unique_constraint list"
  t_rows :: "row list"

type_synonym tables = "string \<Rightarrow> table option"

datatype schema_error =
    Missing_table string
  | Missing_column string string
  | Nullable_column string string
  | Legacy_column string string
  | Missing_unique string "string list"
  | Missing_foreign_key string "string list" string "string list"

datatype sql_error =
    NoSuchTable string
  | NoSuchColumn string string
  | DuplicateColumn string string
  | DuplicateTable string
  | IntegrityViolation string
  | NoSuchConstraint string
  | ColumnInUse string string
  | MigrationRefused "schema_error list"

definition column_names :: "table \<Rightarrow> string list" where
  "column_names t = map col_name (t_columns t)"

definition table_of :: "tables \<Rightarrow> string \<Rightarrow> sql_error + table" where
  "table_of db name = (case db name of None \<Rightarrow> Inl (NoSuchTable name) | Some t \<Rightarrow> Inr t)"

definition rows_of :: "tables \<Rightarrow> string \<Rightarrow> row list" where
  "rows_of db name = (case db name of None \<Rightarrow> [] | Some t \<Rightarrow> t_rows t)"

definition on_table :: "string \<Rightarrow> (table \<Rightarrow> sql_error + table) \<Rightarrow> tables \<Rightarrow> sql_error + tables" where
  "on_table name f db = then_do (table_of db name) (\<lambda>t. then_do (f t) (\<lambda>t'. Inr (db(name \<mapsto> t'))))"

section \<open>Constraints on rows\<close>

text \<open>A key with a \<open>NULL\<close> part never collides and never refers.\<close>

definition row_key :: "string list \<Rightarrow> row \<Rightarrow> sql_value list option" where
  "row_key cols r = (if list_ex (\<lambda>c. r c = None) cols then None else Some (map (\<lambda>c. the (r c)) cols))"

definition unique_holds :: "string list \<Rightarrow> row list \<Rightarrow> bool" where
  "unique_holds cols rs \<longleftrightarrow> distinct (List.map_filter (row_key cols) rs)"

definition not_null_holds :: "string \<Rightarrow> row list \<Rightarrow> bool" where
  "not_null_holds c rs \<longleftrightarrow> list_all (\<lambda>r. r c \<noteq> None) rs"

definition refers :: "string list \<Rightarrow> row list \<Rightarrow> string list \<Rightarrow> row list \<Rightarrow> bool" where
  "refers cols rs refcols targets \<longleftrightarrow>
     list_all (\<lambda>r. row_key cols r = None \<or> row_key cols r \<in> set (map (row_key refcols) targets)) rs"

definition rows_ok :: "table \<Rightarrow> bool" where
  "rows_ok t \<longleftrightarrow> list_all (\<lambda>k. col_nullable k \<or> not_null_holds (col_name k) (t_rows t)) (t_columns t)
     \<and> list_all (\<lambda>u. unique_holds (uq_columns u) (t_rows t)) (t_uniques t)"

definition checked :: "string \<Rightarrow> table \<Rightarrow> sql_error + table" where
  "checked name t = (if rows_ok t then Inr t else Inl (IntegrityViolation name))"

section \<open>Statements\<close>

text \<open>\<open>UPDATE\<close> of one column, in every row to the value \<open>f\<close> computes from it.\<close>

definition set_column :: "string \<Rightarrow> string \<Rightarrow> (row \<Rightarrow> sql_value option) \<Rightarrow> tables \<Rightarrow> sql_error + tables" where
  "set_column name c f = on_table name (\<lambda>t.
     if c \<notin> set (column_names t) then Inl (NoSuchColumn name c)
     else checked name (t\<lparr>t_rows := map (\<lambda>r. r(c := f r)) (t_rows t)\<rparr>))"

definition delete_rows :: "string \<Rightarrow> tables \<Rightarrow> sql_error + tables" where
  "delete_rows name = on_table name (\<lambda>t. Inr (t\<lparr>t_rows := []\<rparr>))"

definition row_id :: "row \<Rightarrow> int" where
  "row_id r = (case r ''id'' of Some (SInt i) \<Rightarrow> i | _ \<Rightarrow> 0)"

definition next_id :: "table \<Rightarrow> int" where
  "next_id t = fresh_id (map row_id (t_rows t))"

text \<open>\<open>INSERT\<close> with an automatic id and the defaults of the columns that are not given.\<close>

definition new_row :: "table \<Rightarrow> (string \<times> sql_value option) list \<Rightarrow> row" where
  "new_row t vs = (\<lambda>c. if c = ''id'' then Some (SInt (next_id t))
     else (case map_of vs c of Some v \<Rightarrow> v
       | None \<Rightarrow> (case find (\<lambda>k. col_name k = c) (t_columns t) of Some k \<Rightarrow> col_default k | None \<Rightarrow> None)))"

definition insert_row :: "string \<Rightarrow> (string \<times> sql_value option) list \<Rightarrow> tables \<Rightarrow> sql_error + tables" where
  "insert_row name vs = on_table name (\<lambda>t.
     if \<not> list_all (\<lambda>(c, _). c \<in> set (column_names t)) vs \<or> ''id'' \<notin> set (column_names t)
     then Inl (NoSuchColumn name (join '', '' (map fst vs)))
     else checked name (t\<lparr>t_rows := t_rows t @ [new_row t vs]\<rparr>))"

section \<open>Schema operations\<close>

definition add_column :: "string \<Rightarrow> string \<Rightarrow> bool \<Rightarrow> sql_value option \<Rightarrow> tables \<Rightarrow> sql_error + tables" where
  "add_column name c nullable dflt = on_table name (\<lambda>t.
     if c \<in> set (column_names t) then Inl (DuplicateColumn name c)
     else checked name (t\<lparr>t_columns := t_columns t @ [\<lparr>col_name = c, col_nullable = nullable, col_default = dflt\<rparr>],
                 t_rows := map (\<lambda>r. r(c := dflt)) (t_rows t)\<rparr>))"

definition create_table :: "string \<Rightarrow> table \<Rightarrow> tables \<Rightarrow> sql_error + tables" where
  "create_table name t db = (if db name \<noteq> None then Inl (DuplicateTable name) else Inr (db(name \<mapsto> t)))"

text \<open>The operations of one \<open>batch_alter_table\<close> block.\<close>

datatype ddl =
    Set_not_null string
  | Create_check string string "sql_value list"
  | Create_unique string "string list"
  | Create_foreign_key string "string list" string "string list"
  | Create_index string "string list"
  | Drop_unique string
  | Drop_foreign_key string
  | Drop_index string
  | Drop_column string

text \<open>
  Dropping a column drops the constraints that use it; a server refuses while a foreign key does.
\<close>

definition without_column :: "string \<Rightarrow> table \<Rightarrow> table" where
  "without_column c t =
     t\<lparr>t_columns := filter (\<lambda>k. col_name k \<noteq> c) (t_columns t),
       t_uniques := filter (\<lambda>u. c \<notin> set (uq_columns u)) (t_uniques t),
       t_fks := filter (\<lambda>f. c \<notin> set (fk_columns f)) (t_fks t),
       t_indexes := filter (\<lambda>u. c \<notin> set (uq_columns u)) (t_indexes t),
       t_rows := map (\<lambda>r. r(c := None)) (t_rows t)\<rparr>"

text \<open>\<open>fk_checked\<close>: whether the engine checks foreign keys against the rows that are already there.\<close>

definition alter_table :: "bool \<Rightarrow> tables \<Rightarrow> string \<Rightarrow> ddl \<Rightarrow> table \<Rightarrow> sql_error + table" where
  "alter_table fk_checked db name d t =
     (case d of
        Set_not_null c \<Rightarrow>
          if c \<notin> set (column_names t) then Inl (NoSuchColumn name c)
          else checked name (t\<lparr>t_columns := map (\<lambda>k. if col_name k = c then k\<lparr>col_nullable := False\<rparr> else k) (t_columns t)\<rparr>)
      | Create_check n c vs \<Rightarrow>
          if list_all (\<lambda>r. r c = None \<or> r c \<in> set (map Some vs)) (t_rows t) then Inr t else Inl (IntegrityViolation n)
      | Create_unique n cols \<Rightarrow>
          if \<not> set cols \<subseteq> set (column_names t) then Inl (NoSuchColumn name (join '', '' cols))
          else checked n (t\<lparr>t_uniques := t_uniques t @ [\<lparr>uq_name = Some n, uq_columns = cols\<rparr>]\<rparr>)
      | Create_foreign_key n cols ref refcols \<Rightarrow>
          if db ref = None then Inl (NoSuchTable ref)
          else if fk_checked \<and> \<not> refers cols (t_rows t) refcols (rows_of db ref) then Inl (IntegrityViolation n)
          else Inr (t\<lparr>t_fks := t_fks t @ [\<lparr>fk_name = Some n, fk_columns = cols, fk_table = ref, fk_referred = refcols\<rparr>]\<rparr>)
      | Create_index n cols \<Rightarrow> Inr (t\<lparr>t_indexes := t_indexes t @ [\<lparr>uq_name = Some n, uq_columns = cols\<rparr>]\<rparr>)
      | Drop_unique n \<Rightarrow>
          if \<not> list_ex (\<lambda>u. uq_name u = Some n) (t_uniques t) then Inl (NoSuchConstraint n)
          else Inr (t\<lparr>t_uniques := filter (\<lambda>u. uq_name u \<noteq> Some n) (t_uniques t)\<rparr>)
      | Drop_foreign_key n \<Rightarrow>
          if \<not> list_ex (\<lambda>f. fk_name f = Some n) (t_fks t) then Inl (NoSuchConstraint n)
          else Inr (t\<lparr>t_fks := filter (\<lambda>f. fk_name f \<noteq> Some n) (t_fks t)\<rparr>)
      | Drop_index n \<Rightarrow>
          if \<not> list_ex (\<lambda>u. uq_name u = Some n) (t_indexes t) then Inl (NoSuchConstraint n)
          else Inr (t\<lparr>t_indexes := filter (\<lambda>u. uq_name u \<noteq> Some n) (t_indexes t)\<rparr>)
      | Drop_column c \<Rightarrow>
          if c \<notin> set (column_names t) then Inl (NoSuchColumn name c)
          else if fk_checked \<and> list_ex (\<lambda>f. c \<in> set (fk_columns f)) (t_fks t) then Inl (ColumnInUse name c)
          else Inr (without_column c t))"

definition batch_alter_table :: "bool \<Rightarrow> string \<Rightarrow> ddl list \<Rightarrow> tables \<Rightarrow> sql_error + tables" where
  "batch_alter_table fk_checked name ds db = for_each (\<lambda>d db. on_table name (alter_table fk_checked db name d) db) ds db"

section \<open>Reflection\<close>

text \<open>MySQL reports a unique constraint also as an index of the same name.\<close>

definition get_indexes :: "bool \<Rightarrow> table \<Rightarrow> unique_constraint list" where
  "get_indexes sqlite_mode t = t_indexes t @ (if sqlite_mode then [] else t_uniques t)"

definition names_of :: "string option list \<Rightarrow> string list" where
  "names_of ns = sort (remdups (List.map_filter (\<lambda>n. case n of Some [] \<Rightarrow> None | m \<Rightarrow> m) ns))"

section \<open>Lemmas\<close>

text \<open>
  A table is well typed when its rows hold values in declared columns only and satisfy the declared
  constraints. Every statement and schema operation keeps this.
\<close>

definition typed :: "table \<Rightarrow> bool" where
  "typed t \<longleftrightarrow> rows_ok t \<and> (\<forall>r \<in> set (t_rows t). \<forall>c. r c \<noteq> None \<longrightarrow> c \<in> set (column_names t))
     \<and> (\<forall>u \<in> set (t_uniques t). \<forall>c \<in> set (uq_columns u). c \<in> set (column_names t))"

definition well_typed :: "tables \<Rightarrow> bool" where
  "well_typed db \<longleftrightarrow> (\<forall>name t. db name = Some t \<longrightarrow> typed t)"

lemma on_table_InrD:
  assumes "on_table name f db = Inr db'"
  obtains t t' where "db name = Some t" "f t = Inr t'" "db' = db(name \<mapsto> t')"
  using assms by (auto simp: on_table_def table_of_def then_do_Inr_iff split: option.splits)

lemma checked_Inr_iff [simp]: "checked n t = Inr t' \<longleftrightarrow> t' = t \<and> rows_ok t"
  by (auto simp: checked_def)

lemma well_typed_on_table:
  assumes "on_table name f db = Inr db'" and "well_typed db" and "\<And>t t'. typed t \<Longrightarrow> f t = Inr t' \<Longrightarrow> typed t'"
  shows "well_typed db'"
proof (rule on_table_InrD [OF assms(1)])
  fix t t' assume t: "db name = Some t" "f t = Inr t'" "db' = db(name \<mapsto> t')"
  then have "typed t'" using assms(2,3) by (auto simp: well_typed_def)
  then show ?thesis using t assms(2) by (auto simp: well_typed_def split: if_splits)
qed

lemma column_names_simps [simp]:
  "column_names (t\<lparr>t_rows := rs\<rparr>) = column_names t" "column_names (t\<lparr>t_uniques := us\<rparr>) = column_names t"
  "column_names (t\<lparr>t_fks := fs\<rparr>) = column_names t" "column_names (t\<lparr>t_indexes := xs\<rparr>) = column_names t"
  "column_names (t\<lparr>t_columns := map (\<lambda>k. if col_name k = c then k\<lparr>col_nullable := False\<rparr> else k) (t_columns t)\<rparr>) = column_names t"
  by (auto simp: column_names_def)

lemma row_key_upd [simp]: "c \<notin> set cols \<Longrightarrow> row_key cols (r(c := v)) = row_key cols r"
  by (auto simp: row_key_def list_ex_iff)

lemma unique_holds_upd [simp]: "c \<notin> set cols \<Longrightarrow> unique_holds cols (map (\<lambda>r. r(c := f r)) rs) = unique_holds cols rs"
  by (simp add: unique_holds_def List.map_filter_def filter_map comp_def)

lemma not_null_upd [simp]: "c \<noteq> k \<Longrightarrow> not_null_holds k (map (\<lambda>r. r(c := f r)) rs) = not_null_holds k rs"
  by (simp add: not_null_holds_def list_all_iff)

lemma typed_without_column:
  assumes "typed t"
  shows "typed (without_column c t)"
proof -
  have "rows_ok (without_column c t)"
    using assms by (auto simp: typed_def rows_ok_def without_column_def list_all_iff)
  then show ?thesis
    using assms by (fastforce simp: typed_def without_column_def column_names_def image_iff)
qed

lemma typed_alter_table:
  assumes "typed t" and "alter_table fk db name d t = Inr t'"
  shows "typed t'"
proof (cases d)
  case (Drop_column c)
  then show ?thesis using assms by (auto simp: alter_table_def typed_without_column split: if_splits)
qed (use assms in \<open>auto simp: alter_table_def typed_def rows_ok_def list_all_iff split: if_splits\<close>)

lemma well_typed_batch:
  assumes "batch_alter_table fk name ds db = Inr db'" and "well_typed db"
  shows "well_typed db'"
  using assms(1) unfolding batch_alter_table_def
proof (rule for_each_invariant [where I = well_typed])
  fix d db db' assume "well_typed db" "on_table name (alter_table fk db name d) db = Inr db'"
  then show "well_typed db'" using well_typed_on_table typed_alter_table by metis
qed (rule assms(2))

lemma well_typed_statements:
  assumes "well_typed db"
  shows "set_column name c f db = Inr db' \<Longrightarrow> well_typed db'"
    and "delete_rows name db = Inr db' \<Longrightarrow> well_typed db'"
    and "insert_row name vs db = Inr db' \<Longrightarrow> well_typed db'"
    and "add_column name c nullable dflt db = Inr db' \<Longrightarrow> well_typed db'"
    and "create_table name t db = Inr db' \<Longrightarrow> typed t \<Longrightarrow> well_typed db'"
proof -
  show "well_typed db'" if "set_column name c f db = Inr db'"
    using that unfolding set_column_def
    by (rule well_typed_on_table [OF _ assms]) (auto simp: typed_def split: if_splits)
  show "well_typed db'" if "delete_rows name db = Inr db'"
    using that unfolding delete_rows_def
    by (rule well_typed_on_table [OF _ assms]) (auto simp: typed_def rows_ok_def not_null_holds_def unique_holds_def List.map_filter_def list_all_iff)
  show "well_typed db'" if "insert_row name vs db = Inr db'"
    using that unfolding insert_row_def
  proof (rule well_typed_on_table [OF _ assms])
    fix t t' assume t: "typed t" and i: "(if \<not> list_all (\<lambda>(c, _). c \<in> set (column_names t)) vs \<or> ''id'' \<notin> set (column_names t)
       then Inl (NoSuchColumn name (join '', '' (map fst vs))) else checked name (t\<lparr>t_rows := t_rows t @ [new_row t vs]\<rparr>)) = Inr t'"
    have "new_row t vs c \<noteq> None \<Longrightarrow> c \<in> set (column_names t)" for c
      using i by (auto simp: new_row_def list_all_iff column_names_def find_Some_iff split: if_splits option.splits dest!: map_of_SomeD)
    then show "typed t'" using t i by (auto simp: typed_def split: if_splits)
  qed
  show "well_typed db'" if "add_column name c nullable dflt db = Inr db'"
    using that unfolding add_column_def
    by (rule well_typed_on_table [OF _ assms]) (auto simp: typed_def column_names_def split: if_splits)
  show "well_typed db'" if "create_table name t db = Inr db'" "typed t"
    using that assms by (auto simp: create_table_def well_typed_def split: if_splits)
qed

end
