(* ===== verification/Schema_Analysis.thy ===== *)
theory Schema_Analysis
  imports Relational
begin

text \<open>
  What a sequence of statements and schema operations does to a database, without running it: relations
  between the databases before and after that every step keeps (a locale for such relations), and facts about
  a schema with the operations that establish or spoil them.
\<close>

section \<open>Relations every step keeps\<close>

locale step_relation =
  fixes R :: "tables \<Rightarrow> tables \<Rightarrow> bool"
  assumes kept_refl: "R db db"
    and kept_trans: "R db db1 \<Longrightarrow> R db1 db2 \<Longrightarrow> R db db2"
begin

lemma kept_then:
  assumes "then_do r k = Inr db'" and "\<And>db1. r = Inr db1 \<Longrightarrow> R db db1" and "\<And>db1. r = Inr db1 \<Longrightarrow> k db1 = Inr db' \<Longrightarrow> R db1 db'"
  shows "R db db'"
  using assms by (auto simp: then_do_Inr_iff intro: kept_trans)

lemma kept_for_each:
  assumes "for_each f xs db = Inr db'" and "\<And>x s s'. x \<in> set xs \<Longrightarrow> f x s = Inr s' \<Longrightarrow> R s s'"
  shows "R db db'"
  using assms(1) by (rule for_each_invariant [where I = "R db"]) (auto intro: kept_refl kept_trans assms(2))

lemma kept_batch:
  assumes "batch_alter_table fk n ds db = Inr db'"
    and "\<And>d db t t'. d \<in> set ds \<Longrightarrow> db n = Some t \<Longrightarrow> alter_table fk db n d t = Inr t' \<Longrightarrow> R db (db(n \<mapsto> t'))"
  shows "R db db'"
  using assms(1) unfolding batch_alter_table_def
  by (rule kept_for_each) (auto elim!: on_table_InrD intro: assms(2))

end

section \<open>Columns of rows\<close>

definition col_of :: "tables \<Rightarrow> string \<Rightarrow> string \<Rightarrow> sql_value option list" where
  "col_of db name c = map (\<lambda>r. r c) (rows_of db name)"

definition same_col :: "string \<Rightarrow> string \<Rightarrow> tables \<Rightarrow> tables \<Rightarrow> bool" where
  "same_col name c db db' \<longleftrightarrow> col_of db' name c = col_of db name c"

interpretation sc: step_relation "same_col name c" for name c
  by unfold_locales (simp_all add: same_col_def)

lemma rows_of_upd [simp]: "rows_of (db(n \<mapsto> t)) m = (if m = n then t_rows t else rows_of db m)"
  by (simp add: rows_of_def)

lemma rows_of_Some: "db n = Some t \<Longrightarrow> rows_of db n = t_rows t"
  by (simp add: rows_of_def)

lemma rows_alter_table:
  assumes "alter_table fk db n d t = Inr t'"
  shows "t_rows t' = (case d of Drop_column c \<Rightarrow> map (\<lambda>r. r(c := None)) (t_rows t) | _ \<Rightarrow> t_rows t)"
  using assms by (auto simp: alter_table_def without_column_def split: ddl.splits if_splits)

text \<open>Which columns each operation leaves alone.\<close>

lemma col_kept:
  "set_column n c f db = Inr db' \<Longrightarrow> n \<noteq> name \<or> c \<noteq> k \<Longrightarrow> same_col name k db db'"
  "delete_rows n db = Inr db' \<Longrightarrow> n \<noteq> name \<Longrightarrow> same_col name k db db'"
  "insert_row n vs db = Inr db' \<Longrightarrow> n \<noteq> name \<Longrightarrow> same_col name k db db'"
  "add_column n c nullable dflt db = Inr db' \<Longrightarrow> n \<noteq> name \<or> c \<noteq> k \<Longrightarrow> same_col name k db db'"
  "create_table n t db = Inr db' \<Longrightarrow> t_rows t = [] \<Longrightarrow> same_col name k db db'"
  "batch_alter_table fk n ds db = Inr db' \<Longrightarrow> n \<noteq> name \<or> Drop_column k \<notin> set ds \<Longrightarrow> same_col name k db db'"
proof -
  assume b: "batch_alter_table fk n ds db = Inr db'" and ne: "n \<noteq> name \<or> Drop_column k \<notin> set ds"
  show "same_col name k db db'"
  proof (rule sc.kept_batch [OF b])
    fix d db t t' assume d: "d \<in> set ds" "db n = Some t" "alter_table fk db n d t = Inr t'"
    then show "same_col name k db (db(n \<mapsto> t'))"
      using ne rows_alter_table [OF d(3)] by (auto simp: same_col_def col_of_def rows_of_Some split: ddl.splits)
  qed
qed (auto simp: set_column_def delete_rows_def insert_row_def add_column_def create_table_def same_col_def col_of_def
    rows_of_Some rows_of_def split: if_splits elim!: on_table_InrD)

text \<open>Columns whose values are only added to.\<close>

definition col_grows :: "string \<Rightarrow> string \<Rightarrow> tables \<Rightarrow> tables \<Rightarrow> bool" where
  "col_grows name c db db' \<longleftrightarrow> set (col_of db name c) \<subseteq> set (col_of db' name c)"

interpretation cg: step_relation "col_grows name c" for name c
  by unfold_locales (auto simp: col_grows_def)

lemma same_col_grows: "same_col name c db db' \<Longrightarrow> col_grows name c db db'"
  by (simp add: same_col_def col_grows_def)

lemma insert_row_col:
  assumes "insert_row n vs db = Inr db'"
  shows "col_grows n c db db'" and "c \<noteq> ''id'' \<Longrightarrow> map_of vs c = Some v \<Longrightarrow> col_of db' n c = col_of db n c @ [v]"
  using assms by (auto simp: insert_row_def col_grows_def col_of_def rows_of_def new_row_def split: if_splits elim!: on_table_InrD)

lemma set_column_col:
  "set_column n c f db = Inr db' \<Longrightarrow> col_of db' n c = map f (rows_of db n)"
  by (auto simp: set_column_def col_of_def rows_of_def split: if_splits elim!: on_table_InrD)

lemma not_null_col:
  assumes "well_typed db" and "db n = Some t" and "k \<in> set (t_columns t)" and "\<not> col_nullable k"
  shows "None \<notin> set (col_of db n (col_name k))"
  using assms by (fastforce simp: well_typed_def typed_def rows_ok_def not_null_holds_def list_all_iff col_of_def rows_of_def)

section \<open>Facts about a schema\<close>

datatype schema_fact =
    Has_column string
  | Is_not_null string
  | Lacks_column string
  | Declares_unique string "string list"
  | Declares_foreign_key string "string list" string "string list"

fun fact_holds :: "table \<Rightarrow> schema_fact \<Rightarrow> bool" where
  "fact_holds t (Has_column c) \<longleftrightarrow> c \<in> set (column_names t)"
| "fact_holds t (Is_not_null c) \<longleftrightarrow> c \<in> set (column_names t) \<and> (\<forall>k \<in> set (t_columns t). col_name k = c \<longrightarrow> \<not> col_nullable k)"
| "fact_holds t (Lacks_column c) \<longleftrightarrow> c \<notin> set (column_names t)"
| "fact_holds t (Declares_unique n cols) \<longleftrightarrow> \<lparr>uq_name = Some n, uq_columns = cols\<rparr> \<in> set (t_uniques t)"
| "fact_holds t (Declares_foreign_key n cols ref refcols) \<longleftrightarrow>
     \<lparr>fk_name = Some n, fk_columns = cols, fk_table = ref, fk_referred = refcols\<rparr> \<in> set (t_fks t)"

fun establishes :: "ddl \<Rightarrow> schema_fact \<Rightarrow> bool" where
  "establishes (Set_not_null c) f \<longleftrightarrow> f = Is_not_null c \<or> f = Has_column c"
| "establishes (Create_unique n cols) f \<longleftrightarrow> f = Declares_unique n cols"
| "establishes (Create_foreign_key n cols ref refcols) f \<longleftrightarrow> f = Declares_foreign_key n cols ref refcols"
| "establishes (Drop_column c) f \<longleftrightarrow> f = Lacks_column c"
| "establishes _ f \<longleftrightarrow> False"

fun spoils :: "ddl \<Rightarrow> schema_fact \<Rightarrow> bool" where
  "spoils (Drop_unique n) f \<longleftrightarrow> (\<exists>cols. f = Declares_unique n cols)"
| "spoils (Drop_foreign_key n) f \<longleftrightarrow> (\<exists>cols ref refcols. f = Declares_foreign_key n cols ref refcols)"
| "spoils (Drop_column c) f \<longleftrightarrow>
     (case f of Has_column d \<Rightarrow> c = d | Is_not_null d \<Rightarrow> c = d | Lacks_column d \<Rightarrow> False
      | Declares_unique n cols \<Rightarrow> c \<in> set cols | Declares_foreign_key n cols ref refcols \<Rightarrow> c \<in> set cols)"
| "spoils _ f \<longleftrightarrow> False"

lemma column_names_without [simp]: "column_names (without_column c t) = filter (\<lambda>k. k \<noteq> c) (column_names t)"
  by (simp add: without_column_def column_names_def filter_map comp_def)

lemma without_column_simps [simp]:
  "t_columns (without_column c t) = filter (\<lambda>k. col_name k \<noteq> c) (t_columns t)"
  "t_uniques (without_column c t) = filter (\<lambda>u. c \<notin> set (uq_columns u)) (t_uniques t)"
  "t_fks (without_column c t) = filter (\<lambda>f. c \<notin> set (fk_columns f)) (t_fks t)"
  by (simp_all add: without_column_def)

lemma fact_alter_table:
  assumes "alter_table fk db n d t = Inr t'" and "establishes d f \<or> fact_holds t f \<and> \<not> spoils d f"
  shows "fact_holds t' f"
proof (cases d)
  case (Set_not_null c)
  then have t': "t' = t\<lparr>t_columns := map (\<lambda>k. if col_name k = c then k\<lparr>col_nullable := False\<rparr> else k) (t_columns t)\<rparr>"
    and c: "c \<in> set (column_names t)" using assms(1) unfolding alter_table_def
    by (simp_all split: if_split_asm)
  have same: "column_names t' = column_names t" "t_uniques t' = t_uniques t" "t_fks t' = t_fks t" by (simp_all add: t')
  have tc: "t_columns t' = map (\<lambda>k. if col_name k = c then k\<lparr>col_nullable := False\<rparr> else k) (t_columns t)" by (simp add: t')
  have cols: "\<not> col_nullable k \<or> col_name k \<noteq> c \<and> k \<in> set (t_columns t)" if "k \<in> set (t_columns t')" for k
  proof -
    from that obtain x where "x \<in> set (t_columns t)" "k = (if col_name x = c then x\<lparr>col_nullable := False\<rparr> else x)"
      unfolding tc set_map by blast
    then show ?thesis by (cases "col_name x = c") simp_all
  qed
  show ?thesis
  proof (cases f)
    case (Is_not_null x)
    then show ?thesis using assms(2) c cols by (auto simp: same Set_not_null)
  qed (use assms(2) c in \<open>auto simp: same Set_not_null\<close>)
next
  case (Drop_column c)
  then have t': "t' = without_column c t" using assms(1) unfolding alter_table_def by (simp split: if_split_asm)
  show ?thesis using assms(2) unfolding Drop_column t' by (cases f) auto
next
  case (Create_unique n cols)
  then have t': "t' = t\<lparr>t_uniques := t_uniques t @ [\<lparr>uq_name = Some n, uq_columns = cols\<rparr>]\<rparr>"
    using assms(1) unfolding alter_table_def by (simp split: if_split_asm)
  show ?thesis using assms(2) unfolding Create_unique t' by (cases f) auto
qed (use assms in \<open>cases f; auto simp: alter_table_def split: if_split_asm\<close>)+

text \<open>The fact after a list of operations, given whether it held before.\<close>

fun holds_after :: "ddl list \<Rightarrow> schema_fact \<Rightarrow> bool \<Rightarrow> bool" where
  "holds_after [] f b = b"
| "holds_after (d # ds) f b = holds_after ds f (establishes d f \<or> b \<and> \<not> spoils d f)"

lemma holds_after_append [simp]: "holds_after (ds @ ds') f b = holds_after ds' f (holds_after ds f b)"
  by (induction ds arbitrary: b) auto

lemma holds_after_kept: "b \<Longrightarrow> \<forall>d \<in> set ds. \<not> spoils d f \<Longrightarrow> holds_after ds f b"
  by (induction ds arbitrary: b) auto

definition db_fact :: "tables \<Rightarrow> string \<Rightarrow> schema_fact \<Rightarrow> bool" where
  "db_fact db n f \<longleftrightarrow> (\<exists>t. db n = Some t \<and> fact_holds t f)"

definition fact_kept :: "string \<Rightarrow> schema_fact \<Rightarrow> tables \<Rightarrow> tables \<Rightarrow> bool" where
  "fact_kept n f db db' \<longleftrightarrow> (db_fact db n f \<longrightarrow> db_fact db' n f)"

interpretation fk: step_relation "fact_kept n f" for n f
  by unfold_locales (auto simp: fact_kept_def)

lemma fact_batch:
  assumes "batch_alter_table fk n ds db = Inr db'" and "db n = Some t" and "holds_after ds f (fact_holds t f)"
  shows "db_fact db' n f"
proof -
  have "for_each (\<lambda>d db. on_table n (alter_table fk db n d) db) ds db = Inr db' \<Longrightarrow> db n = Some t \<Longrightarrow>
      b \<longrightarrow> fact_holds t f \<Longrightarrow> holds_after ds f b \<Longrightarrow> db_fact db' n f" for b
  proof (induction ds arbitrary: db t b)
    case (Cons d ds)
    then obtain t1 where d: "alter_table fk db n d t = Inr t1"
      and ds: "for_each (\<lambda>d db. on_table n (alter_table fk db n d) db) ds (db(n \<mapsto> t1)) = Inr db'"
      by (auto simp: then_do_Inr_iff elim!: on_table_InrD)
    show ?case
    proof (rule Cons.IH [OF ds])
      show "(db(n \<mapsto> t1)) n = Some t1" by simp
      show "establishes d f \<or> b \<and> \<not> spoils d f \<longrightarrow> fact_holds t1 f"
        using fact_alter_table [OF d, of f] Cons.prems(3) by blast
      show "holds_after ds f (establishes d f \<or> b \<and> \<not> spoils d f)" using Cons.prems(4) by simp
    qed
  qed (auto simp: db_fact_def)
  then show ?thesis using assms unfolding batch_alter_table_def by blast
qed

lemma fact_rows [simp]: "fact_holds (t\<lparr>t_rows := rs\<rparr>) f = fact_holds t f"
  by (cases f) simp_all

lemma fact_stays:
  "set_column m c g db = Inr db' \<Longrightarrow> fact_kept n f db db'"
  "delete_rows m db = Inr db' \<Longrightarrow> fact_kept n f db db'"
  "insert_row m vs db = Inr db' \<Longrightarrow> fact_kept n f db db'"
  "create_table m t db = Inr db' \<Longrightarrow> fact_kept n f db db'"
  "add_column m c nullable dflt db = Inr db' \<Longrightarrow> n \<noteq> m \<or> f \<noteq> Lacks_column c \<and> f \<noteq> Is_not_null c \<Longrightarrow> fact_kept n f db db'"
  "batch_alter_table fk m ds db = Inr db' \<Longrightarrow> n \<noteq> m \<or> (\<forall>d \<in> set ds. \<not> spoils d f) \<Longrightarrow> fact_kept n f db db'"
proof -
  assume b: "batch_alter_table fk m ds db = Inr db'" and ne: "n \<noteq> m \<or> (\<forall>d \<in> set ds. \<not> spoils d f)"
  show "fact_kept n f db db'"
  proof (rule fk.kept_batch [OF b])
    fix d db t t' assume d: "d \<in> set ds" "db m = Some t" "alter_table fk db m d t = Inr t'"
    then show "fact_kept n f db (db(m \<mapsto> t'))"
      using ne fact_alter_table [OF d(3), of f] by (auto simp: fact_kept_def db_fact_def)
  qed
next
  assume "add_column m c nullable dflt db = Inr db'" and ne: "n \<noteq> m \<or> f \<noteq> Lacks_column c \<and> f \<noteq> Is_not_null c"
  then show "fact_kept n f db db'"
    by (cases f) (auto simp: add_column_def fact_kept_def db_fact_def column_names_def split: if_splits elim!: on_table_InrD)
qed (auto simp: set_column_def delete_rows_def insert_row_def create_table_def fact_kept_def db_fact_def
    split: if_splits elim!: on_table_InrD)

lemma fact_add_column:
  assumes "add_column n c nullable dflt db = Inr db'"
  shows "db_fact db' n (Has_column c)" and "\<not> nullable \<Longrightarrow> db_fact db' n (Is_not_null c)"
  using assms by (auto simp: add_column_def db_fact_def column_names_def elim!: on_table_InrD split: if_splits)

lemma holds_after_established:
  "d \<in> set ds \<Longrightarrow> establishes d f \<Longrightarrow> \<forall>d \<in> set ds. \<not> spoils d f \<Longrightarrow> holds_after ds f b"
  by (induction ds arbitrary: b) (auto intro: holds_after_kept)

lemma fact_not_null_col:
  assumes "well_typed db" and "db_fact db n (Is_not_null c)"
  shows "None \<notin> set (col_of db n c)"
proof -
  obtain t k where "db n = Some t" "k \<in> set (t_columns t)" "col_name k = c" "\<not> col_nullable k"
    using assms(2) by (auto simp: db_fact_def column_names_def)
  then show ?thesis using not_null_col [OF assms(1)] by blast
qed

lemma fact_lacks_col:
  assumes "well_typed db" and "db_fact db n (Lacks_column c)"
  shows "set (col_of db n c) \<subseteq> {None}"
  using assms by (fastforce simp: db_fact_def well_typed_def typed_def col_of_def rows_of_def)

lemma fact_unique:
  assumes "well_typed db" and "db_fact db n (Declares_unique m cols)"
  shows "unique_holds cols (rows_of db n)"
  using assms by (fastforce simp: db_fact_def well_typed_def typed_def rows_ok_def list_all_iff rows_of_def)

section \<open>Typing\<close>

definition typing_kept :: "tables \<Rightarrow> tables \<Rightarrow> bool" where
  "typing_kept db db' \<longleftrightarrow> (well_typed db \<longrightarrow> well_typed db')"

interpretation ty: step_relation typing_kept
  by unfold_locales (auto simp: typing_kept_def)

lemma typing_stays:
  "set_column m c g db = Inr db' \<Longrightarrow> typing_kept db db'"
  "delete_rows m db = Inr db' \<Longrightarrow> typing_kept db db'"
  "insert_row m vs db = Inr db' \<Longrightarrow> typing_kept db db'"
  "add_column m c nullable dflt db = Inr db' \<Longrightarrow> typing_kept db db'"
  "create_table m t db = Inr db' \<Longrightarrow> typed t \<Longrightarrow> typing_kept db db'"
  "batch_alter_table fk m ds db = Inr db' \<Longrightarrow> typing_kept db db'"
  unfolding typing_kept_def using well_typed_statements well_typed_batch by metis+

end
