(* ===== verification/Election_Scope.thy ===== *)
theory Election_Scope
  imports Schema_Analysis
begin

text \<open>
  The migration \<^verbatim>\<open>migrations/versions/20260714_election_scope.py\<close>: it gives every candidate, ballot and
  receipt its election, keeps who has voted as receipts, removes the columns that tie a ballot to a
  voter and creates the tables of the anonymous ballot. A schema that already carries part of the result
  is checked in full and refused when incomplete.

  The sets of names the script iterates over are lists here, in the order it writes them.
\<close>

section \<open>The check of a current schema\<close>

definition objects_using_column :: "bool \<Rightarrow> table \<Rightarrow> string \<Rightarrow> string list \<times> string list \<times> string list" where
  "objects_using_column sqlite_mode t c =
     (let foreign_keys = names_of (map fk_name (filter (\<lambda>f. c \<in> set (fk_columns f)) (t_fks t)));
          uniques = names_of (map uq_name (filter (\<lambda>u. c \<in> set (uq_columns u)) (t_uniques t)));
          indexes = names_of (map uq_name (filter (\<lambda>u. c \<in> set (uq_columns u)) (get_indexes sqlite_mode t))) in
      (foreign_keys, uniques, filter (\<lambda>n. n \<notin> set uniques) indexes))"

definition has_unique :: "table \<Rightarrow> string list \<Rightarrow> bool" where
  "has_unique t cols \<longleftrightarrow> list_ex (\<lambda>u. uq_columns u = cols) (t_uniques t)"

definition has_foreign_key :: "table \<Rightarrow> string list \<Rightarrow> string \<Rightarrow> string list \<Rightarrow> bool" where
  "has_foreign_key t cols ref refcols \<longleftrightarrow>
     list_ex (\<lambda>f. fk_columns f = cols \<and> fk_table f = ref \<and> fk_referred f = refcols) (t_fks t)"

definition required_columns :: "(string \<times> string list) list" where
  "required_columns =
     [(''election'', [''id'', ''blind_signing_key_id'', ''blind_key_recovery_required'']),
      (''candidate'', [''id'', ''election_id'']),
      (''vote'', [''id'', ''voter_token'', ''candidate_id'', ''election_id'']),
      (''vote_receipt'', [''id'', ''user_id'', ''election_id'']),
      (''blind_signature_token'', [''id'', ''user_id'', ''election_id'']),
      (''spent_ballot_nullifier'', [''id'', ''election_id'', ''nullifier_hash'', ''spent_at'']),
      (''result_signing_public_key'', [''key_id'', ''algorithm'', ''public_key_pem'', ''created_at'']),
      (''signed_election_result'', [''id'', ''election_id'', ''payload'', ''signature'', ''signer_backend'',
        ''signature_algorithm'', ''signing_key_id'', ''signing_key_version'', ''signed_at'', ''signed_by''])]"

definition non_nullable :: "(string \<times> string list) list" where
  "non_nullable =
     [(''election'', [''blind_key_recovery_required'']), (''candidate'', [''election_id'']),
      (''vote'', [''voter_token'', ''candidate_id'', ''election_id'']), (''vote_receipt'', [''user_id'', ''election_id'']),
      (''blind_signature_token'', [''user_id'', ''election_id'']),
      (''spent_ballot_nullifier'', [''election_id'', ''nullifier_hash'', ''spent_at'']),
      (''signed_election_result'', [''election_id'', ''payload'', ''signature'', ''signer_backend'', ''signature_algorithm'',
        ''signing_key_id'', ''signed_at''])]"

definition legacy_token_columns :: "string list" where
  "legacy_token_columns = [''ballot_nonce_hash'', ''issued_at'', ''redeemed'', ''redeemed_at'']"

definition forbidden_columns :: "(string \<times> string list) list" where
  "forbidden_columns = [(''vote'', [''user_id'']), (''blind_signature_token'', legacy_token_columns)]"

definition unique_requirements :: "(string \<times> string list) list" where
  "unique_requirements =
     [(''candidate'', [''id'', ''election_id'']), (''vote'', [''voter_token'']), (''vote_receipt'', [''user_id'', ''election_id'']),
      (''blind_signature_token'', [''user_id'', ''election_id'']), (''spent_ballot_nullifier'', [''election_id'', ''nullifier_hash'']),
      (''signed_election_result'', [''election_id''])]"

definition foreign_key_requirements :: "(string \<times> string list \<times> string \<times> string list) list" where
  "foreign_key_requirements =
     [(''candidate'', [''election_id''], ''election'', [''id'']),
      (''vote'', [''candidate_id'', ''election_id''], ''candidate'', [''id'', ''election_id'']),
      (''vote'', [''election_id''], ''election'', [''id'']), (''vote_receipt'', [''election_id''], ''election'', [''id'']),
      (''blind_signature_token'', [''election_id''], ''election'', [''id'']),
      (''spent_ballot_nullifier'', [''election_id''], ''election'', [''id'']),
      (''signed_election_result'', [''election_id''], ''election'', [''id''])]"

definition missing_columns :: "tables \<Rightarrow> schema_error list" where
  "missing_columns db = concat (map (\<lambda>(name, cols).
     case db name of
       None \<Rightarrow> [Missing_table name]
     | Some t \<Rightarrow> map (Missing_column name) (sort (filter (\<lambda>c. c \<notin> set (column_names t)) cols))) required_columns)"

definition is_nullable :: "table \<Rightarrow> string \<Rightarrow> bool" where
  "is_nullable t c = (case find (\<lambda>k. col_name k = c) (t_columns t) of None \<Rightarrow> True | Some k \<Rightarrow> col_nullable k)"

definition schema_of :: "tables \<Rightarrow> string \<Rightarrow> table" where
  "schema_of db name = (case db name of Some t \<Rightarrow> t | None \<Rightarrow> \<lparr>t_columns = [], t_uniques = [], t_fks = [], t_indexes = [], t_rows = []\<rparr>)"

definition current_schema_errors :: "tables \<Rightarrow> schema_error list" where
  "current_schema_errors db =
     (if missing_columns db \<noteq> [] then missing_columns db
      else
        concat (map (\<lambda>(name, cols). map (Nullable_column name) (filter (is_nullable (schema_of db name)) cols)) non_nullable)
        @ concat (map (\<lambda>(name, cols). map (Legacy_column name) (sort (filter (\<lambda>c. c \<in> set (column_names (schema_of db name))) cols)))
            forbidden_columns)
        @ map (\<lambda>(name, cols). Missing_unique name cols)
            (filter (\<lambda>(name, cols). \<not> has_unique (schema_of db name) cols) unique_requirements)
        @ map (\<lambda>(name, cols, ref, refcols). Missing_foreign_key name cols ref refcols)
            (filter (\<lambda>(name, cols, ref, refcols). \<not> has_foreign_key (schema_of db name) cols ref refcols) foreign_key_requirements))"

definition current_markers :: "tables \<Rightarrow> string list" where
  "current_markers db =
     filter (\<lambda>name. db name \<noteq> None) [''spent_ballot_nullifier'', ''result_signing_public_key'', ''signed_election_result'']
     @ (case db ''election'' of None \<Rightarrow> []
        | Some t \<Rightarrow> filter (\<lambda>c. c \<in> set (column_names t)) [''blind_signing_key_id'', ''blind_key_recovery_required''])"

section \<open>Moving the rows\<close>

record mig_env =
  mig_sqlite :: bool
  mig_now :: int
  mig_token :: "nat \<Rightarrow> string"

definition has_column :: "tables \<Rightarrow> string \<Rightarrow> string \<Rightarrow> bool" where
  "has_column db name c \<longleftrightarrow> c \<in> set (column_names (schema_of db name))"

text \<open>One \<open>UPDATE vote SET voter_token = ... WHERE id = ...\<close> per row, each with a drawn text.\<close>

definition add_voter_tokens :: "mig_env \<Rightarrow> tables \<Rightarrow> sql_error + tables" where
  "add_voter_tokens env db =
     (if has_column db ''vote'' ''voter_token'' then Inr db
      else
        then_do (add_column ''vote'' ''voter_token'' True None db) (\<lambda>db1.
          for_each (\<lambda>(n, vote_id). set_column ''vote'' ''voter_token''
              (\<lambda>r. if r ''id'' = vote_id then Some (SText (mig_token env n)) else r ''voter_token''))
            (enumerate 0 (map (\<lambda>r. r ''id'') (rows_of db1 ''vote''))) db1))"

definition add_scope_columns :: "tables \<Rightarrow> sql_error + tables" where
  "add_scope_columns db =
     then_do (add_column ''election'' ''blind_signing_key_id'' True None db) (\<lambda>db.
     then_do (add_column ''election'' ''blind_key_recovery_required'' False (Some (SBool False)) db) (\<lambda>db.
     then_do (add_column ''candidate'' ''election_id'' True None db) (\<lambda>db.
     then_do (add_column ''vote'' ''election_id'' True None db) (\<lambda>db.
     then_do (add_column ''vote_receipt'' ''election_id'' True None db) (\<lambda>db.
       add_column ''blind_signature_token'' ''election_id'' True None db)))))"

text \<open>\<open>ORDER BY created_at ASC, id ASC LIMIT 1\<close>, \<open>NULL\<close> first.\<close>

definition value_less :: "sql_value option \<Rightarrow> sql_value option \<Rightarrow> bool" where
  "value_less a b = (case (a, b) of (None, Some _) \<Rightarrow> True | (Some (SInt m), Some (SInt n)) \<Rightarrow> m < n | _ \<Rightarrow> False)"

definition row_before :: "row \<Rightarrow> row \<Rightarrow> bool" where
  "row_before r s \<longleftrightarrow> value_less (r ''created_at'') (s ''created_at'')
     \<or> r ''created_at'' = s ''created_at'' \<and> value_less (r ''id'') (s ''id'')"

fun earliest :: "row list \<Rightarrow> row option" where
  "earliest [] = None"
| "earliest (r # rs) = (case earliest rs of None \<Rightarrow> Some r | Some s \<Rightarrow> if row_before s r then Some s else Some r)"

text \<open>The election all legacy rows go to: the oldest one, or an imported closed one.\<close>

definition choose_election :: "mig_env \<Rightarrow> tables \<Rightarrow> sql_error + sql_value option \<times> tables" where
  "choose_election env db =
     (if \<not> has_column db ''election'' ''created_at'' then Inl (NoSuchColumn ''election'' ''created_at'')
      else case earliest (rows_of db ''election'') of
        Some r \<Rightarrow> Inr (r ''id'', db)
      | None \<Rightarrow>
          then_do (insert_row ''election'' [(''name'', Some (SText ''Imported legacy election'')), (''status'', Some (SText ''closed'')),
                     (''created_at'', Some (SInt (mig_now env)))] db) (\<lambda>db1.
            Inr (Some (SInt (next_id (schema_of db ''election''))), db1)))"

definition election_of_candidate :: "tables \<Rightarrow> sql_value option \<Rightarrow> sql_value option" where
  "election_of_candidate db cid =
     (if cid = None then None
      else (case find (\<lambda>c. c ''id'' = cid) (rows_of db ''candidate'') of None \<Rightarrow> None | Some c \<Rightarrow> c ''election_id''))"

definition assign_election :: "sql_value option \<Rightarrow> tables \<Rightarrow> sql_error + tables" where
  "assign_election eid db =
     then_do (set_column ''candidate'' ''election_id'' (\<lambda>_. eid) db) (\<lambda>db.
     then_do (set_column ''vote'' ''election_id'' (\<lambda>v. election_of_candidate db (v ''candidate_id'')) db) (\<lambda>db.
       set_column ''vote_receipt'' ''election_id'' (\<lambda>_. eid) db))"

definition has_receipt :: "tables \<Rightarrow> sql_value option \<Rightarrow> bool" where
  "has_receipt db u \<longleftrightarrow> u \<noteq> None \<and> list_ex (\<lambda>r. r ''user_id'' = u) (rows_of db ''vote_receipt'')"

definition insert_receipt :: "sql_value option \<Rightarrow> sql_value option \<Rightarrow> sql_value option \<Rightarrow> tables \<Rightarrow> sql_error + tables" where
  "insert_receipt u eid at = insert_row ''vote_receipt'' [(''user_id'', u), (''election_id'', eid), (''voted_at'', at)]"

text \<open>One \<open>INSERT ... SELECT\<close>: the selection is made before the first row is inserted.\<close>

definition receipts_of_votes :: "sql_value option \<Rightarrow> tables \<Rightarrow> sql_error + tables" where
  "receipts_of_votes eid db =
     (if \<not> has_column db ''vote'' ''created_at'' then Inl (NoSuchColumn ''vote'' ''created_at'')
      else for_each (\<lambda>v. insert_receipt (v ''user_id'') eid (v ''created_at''))
             (filter (\<lambda>v. v ''user_id'' \<noteq> None \<and> \<not> has_receipt db (v ''user_id'')) (rows_of db ''vote'')) db)"

text \<open>The flagged users one after the other, each unless a receipt exists by then.\<close>

definition receipts_of_flags :: "mig_env \<Rightarrow> sql_value option \<Rightarrow> tables \<Rightarrow> sql_error + tables" where
  "receipts_of_flags env eid db =
     for_each (\<lambda>u db. if has_receipt db (u ''id'') then Inr db
                      else insert_receipt (u ''id'') eid (Some (SInt (mig_now env))) db)
       (filter (\<lambda>u. u ''has_voted'' = Some (SBool True)) (rows_of db ''user'')) db"

text \<open>Authorizations of the old kind are removed; an open election that had any is marked.\<close>

definition retire_authorizations :: "tables \<Rightarrow> sql_error + tables" where
  "retire_authorizations db =
     then_do (table_of db ''blind_signature_token'') (\<lambda>t.
     then_do (if t_rows t = [] then Inr db
              else set_column ''election'' ''blind_key_recovery_required''
                (\<lambda>e. if e ''status'' = Some (SText ''open'') then Some (SBool True) else e ''blind_key_recovery_required'') db)
       (delete_rows ''blind_signature_token''))"

section \<open>The new constraints\<close>

definition scope_election :: "mig_env \<Rightarrow> tables \<Rightarrow> sql_error + tables" where
  "scope_election env = batch_alter_table (\<not> mig_sqlite env) ''election''
     [Create_check ''ck_election_status'' ''status'' [SText ''draft'', SText ''open'', SText ''closed'']]"

definition scope_candidate :: "mig_env \<Rightarrow> tables \<Rightarrow> sql_error + tables" where
  "scope_candidate env = batch_alter_table (\<not> mig_sqlite env) ''candidate''
     [Set_not_null ''election_id'', Create_foreign_key ''fk_candidate_election'' [''election_id''] ''election'' [''id''],
      Create_unique ''uq_candidate_id_election'' [''id'', ''election_id''], Create_index ''ix_candidate_election_id'' [''election_id'']]"

definition scope_vote :: "mig_env \<Rightarrow> bool \<Rightarrow> tables \<Rightarrow> sql_error + tables" where
  "scope_vote env legacy_user db =
     (let (fks, uniques, indexes) = (if legacy_user then objects_using_column (mig_sqlite env) (schema_of db ''vote'') ''user_id''
                                     else ([], [], [])) in
      batch_alter_table (\<not> mig_sqlite env) ''vote''
        (map Drop_foreign_key fks @ map Drop_index indexes @ map Drop_unique uniques
         @ (if legacy_user then [Drop_column ''user_id''] else [])
         @ [Set_not_null ''voter_token'', Set_not_null ''election_id'',
            Create_foreign_key ''fk_vote_candidate_election'' [''candidate_id'', ''election_id''] ''candidate'' [''id'', ''election_id''],
            Create_foreign_key ''fk_vote_election'' [''election_id''] ''election'' [''id''],
            Create_unique ''uq_vote_voter_token'' [''voter_token''], Create_index ''ix_vote_election_id'' [''election_id'']]) db)"

definition scope_receipt :: "mig_env \<Rightarrow> tables \<Rightarrow> sql_error + tables" where
  "scope_receipt env db =
     batch_alter_table (\<not> mig_sqlite env) ''vote_receipt''
       ([Set_not_null ''election_id'', Create_unique ''uq_vote_receipt_user_election'' [''user_id'', ''election_id'']]
        @ (if Some ''uq_vote_receipt_user'' \<in> set (map uq_name (t_uniques (schema_of db ''vote_receipt'')))
           then [Drop_unique ''uq_vote_receipt_user''] else [])
        @ [Create_foreign_key ''fk_vote_receipt_election'' [''election_id''] ''election'' [''id''],
           Create_index ''ix_vote_receipt_election_id'' [''election_id'']]) db"

definition drop_voted_flag :: "mig_env \<Rightarrow> bool \<Rightarrow> tables \<Rightarrow> sql_error + tables" where
  "drop_voted_flag env legacy_flag db =
     (if legacy_flag then batch_alter_table (\<not> mig_sqlite env) ''user'' [Drop_column ''has_voted''] db else Inr db)"

definition token_legacy_objects :: "bool \<Rightarrow> table \<Rightarrow> string list \<times> string list \<times> string list" where
  "token_legacy_objects sqlite_mode t =
     (let objs = map (objects_using_column sqlite_mode t) (filter (\<lambda>c. c \<in> set (column_names t)) legacy_token_columns);
          union = (\<lambda>f. sort (remdups (concat (map f objs)))) in
      (union fst, union (fst \<circ> snd), union (snd \<circ> snd)))"

definition scope_token :: "mig_env \<Rightarrow> tables \<Rightarrow> sql_error + tables" where
  "scope_token env db =
     (let t = schema_of db ''blind_signature_token'';
          (fks, uniques, indexes) = token_legacy_objects (mig_sqlite env) t in
      batch_alter_table (\<not> mig_sqlite env) ''blind_signature_token''
        (map Drop_foreign_key fks @ map Drop_index indexes
         @ map Drop_unique (filter (\<lambda>n. n \<noteq> ''uq_blind_sig_token_user'') uniques)
         @ [Set_not_null ''election_id'', Create_unique ''uq_blind_sig_token_user_election'' [''user_id'', ''election_id'']]
         @ (if Some ''uq_blind_sig_token_user'' \<in> set (map uq_name (t_uniques t)) then [Drop_unique ''uq_blind_sig_token_user''] else [])
         @ map Drop_column (filter (\<lambda>c. c \<in> set (column_names t)) legacy_token_columns)
         @ [Create_foreign_key ''fk_blind_signature_token_election'' [''election_id''] ''election'' [''id''],
            Create_index ''ix_blind_signature_token_election_id'' [''election_id'']]) db)"

definition fresh_table :: "(string \<times> bool) list \<Rightarrow> (string option \<times> string list) list
    \<Rightarrow> (string list \<times> string) list \<Rightarrow> (string \<times> string list) list \<Rightarrow> table" where
  "fresh_table cols uniques fks indexes =
     \<lparr>t_columns = map (\<lambda>(n, nullable). \<lparr>col_name = n, col_nullable = nullable, col_default = None\<rparr>) cols,
      t_uniques = map (\<lambda>(n, cs). \<lparr>uq_name = n, uq_columns = cs\<rparr>) uniques,
      t_fks = map (\<lambda>(cs, ref). \<lparr>fk_name = None, fk_columns = cs, fk_table = ref, fk_referred = [''id'']\<rparr>) fks,
      t_indexes = map (\<lambda>(n, cs). \<lparr>uq_name = Some n, uq_columns = cs\<rparr>) indexes, t_rows = []\<rparr>"

definition nullifier_table :: table where
  "nullifier_table = fresh_table [(''id'', False), (''election_id'', False), (''nullifier_hash'', False), (''spent_at'', False)]
     [(Some ''uq_spent_nullifier_election_hash'', [''election_id'', ''nullifier_hash''])] [([''election_id''], ''election'')]
     [(''ix_spent_ballot_nullifier_election_id'', [''election_id''])]"

definition result_key_table :: table where
  "result_key_table = fresh_table [(''key_id'', False), (''algorithm'', False), (''public_key_pem'', False), (''created_at'', False)] [] [] []"

definition signed_result_table :: table where
  "signed_result_table = fresh_table
     [(''id'', False), (''election_id'', False), (''payload'', False), (''signature'', False), (''signer_backend'', False),
      (''signature_algorithm'', False), (''signing_key_id'', False), (''signing_key_version'', True), (''signed_at'', False),
      (''signed_by'', True)]
     [(Some ''uq_signed_election_result_election'', [''election_id''])]
     [([''election_id''], ''election''), ([''signed_by''], ''user'')] []"

definition create_ballot_tables :: "tables \<Rightarrow> sql_error + tables" where
  "create_ballot_tables db =
     then_do (create_table ''spent_ballot_nullifier'' nullifier_table db) (\<lambda>db.
     then_do (create_table ''result_signing_public_key'' result_key_table db) (\<lambda>db.
       create_table ''signed_election_result'' signed_result_table db))"

section \<open>The migration\<close>

definition move_rows :: "mig_env \<Rightarrow> bool \<Rightarrow> bool \<Rightarrow> tables \<Rightarrow> sql_error + tables" where
  "move_rows env legacy_user legacy_flag db =
     then_do (add_voter_tokens env db) (\<lambda>db.
     then_do (add_scope_columns db) (\<lambda>db.
     then_do (choose_election env db) (\<lambda>(eid, db).
     then_do (assign_election eid db) (\<lambda>db.
     then_do (if legacy_user then receipts_of_votes eid db else Inr db) (\<lambda>db.
     then_do (if legacy_flag then receipts_of_flags env eid db else Inr db) (\<lambda>db.
       retire_authorizations db))))))"

definition scope_tables :: "mig_env \<Rightarrow> bool \<Rightarrow> bool \<Rightarrow> tables \<Rightarrow> sql_error + tables" where
  "scope_tables env legacy_user legacy_flag db =
     then_do (scope_election env db) (\<lambda>db.
     then_do (scope_candidate env db) (\<lambda>db.
     then_do (scope_vote env legacy_user db) (\<lambda>db.
     then_do (scope_receipt env db) (\<lambda>db.
     then_do (drop_voted_flag env legacy_flag db) (\<lambda>db.
     then_do (scope_token env db) create_ballot_tables)))))"

definition upgrade_legacy :: "mig_env \<Rightarrow> tables \<Rightarrow> sql_error + tables" where
  "upgrade_legacy env db =
     then_do (table_of db ''vote'') (\<lambda>v. then_do (table_of db ''user'') (\<lambda>u.
       let legacy_user = ''user_id'' \<in> set (column_names v); legacy_flag = ''has_voted'' \<in> set (column_names u) in
       then_do (move_rows env legacy_user legacy_flag db) (scope_tables env legacy_user legacy_flag)))"

text \<open>
  With the state of SQLite's foreign-key pragma: off while the tables are rebuilt, on again unless
  a statement raised.
\<close>

definition upgrade :: "mig_env \<Rightarrow> tables \<Rightarrow> bool \<Rightarrow> (sql_error + tables) \<times> bool" where
  "upgrade env db pragma =
     (let restored = mig_sqlite env \<or> pragma in
      if current_markers db \<noteq> []
      then (let errors = current_schema_errors db in
            (if errors \<noteq> [] then Inl (MigrationRefused errors) else Inr db, restored))
      else
        (case upgrade_legacy env db of
           Inl e \<Rightarrow> (Inl e, \<not> mig_sqlite env \<and> pragma)
         | Inr db' \<Rightarrow> (Inr db', restored)))"

end
