(* ===== verification/Election_Scope_Correct.thy ===== *)
theory Election_Scope_Correct
  imports Election_Scope
begin

text \<open>
  Correctness of the election-scope migration: what each part leaves alone, the receipts it creates,
  the schema it arrives at, and the three properties: no ballot and no voter is lost, the result passes the migration's own check,
  and its rows are well typed.
\<close>

section \<open>What each part leaves alone\<close>

lemma col_add_voter_tokens:
  "add_voter_tokens env db = Inr db' \<Longrightarrow> (n, c) \<noteq> (''vote'', ''voter_token'') \<Longrightarrow> same_col n c db db'"
  unfolding add_voter_tokens_def
  by (auto elim!: sc.kept_then sc.kept_for_each intro: sc.kept_refl col_kept split: if_splits)

lemma col_add_scope_columns:
  "add_scope_columns db = Inr db' \<Longrightarrow>
   c \<notin> {''election_id'', ''blind_signing_key_id'', ''blind_key_recovery_required''}
     \<or> n \<notin> {''election'', ''candidate'', ''vote'', ''vote_receipt'', ''blind_signature_token''} \<Longrightarrow>
   same_col n c db db'"
  unfolding add_scope_columns_def by (elim sc.kept_then) (erule col_kept(4), fastforce)+

lemma col_assign_election:
  "assign_election eid db = Inr db' \<Longrightarrow> c \<noteq> ''election_id'' \<or> n \<notin> {''candidate'', ''vote'', ''vote_receipt''} \<Longrightarrow> same_col n c db db'"
  unfolding assign_election_def by (auto elim!: sc.kept_then intro: col_kept)

lemma col_receipts_of_votes:
  "receipts_of_votes eid db = Inr db' \<Longrightarrow> n \<noteq> ''vote_receipt'' \<Longrightarrow> same_col n c db db'"
  unfolding receipts_of_votes_def insert_receipt_def
  by (auto elim!: sc.kept_for_each intro: col_kept split: if_splits)

lemma col_receipts_of_flags:
  "receipts_of_flags env eid db = Inr db' \<Longrightarrow> n \<noteq> ''vote_receipt'' \<Longrightarrow> same_col n c db db'"
  unfolding receipts_of_flags_def insert_receipt_def
  by (auto elim!: sc.kept_for_each intro: sc.kept_refl col_kept split: if_splits)

lemma col_retire_authorizations:
  "retire_authorizations db = Inr db' \<Longrightarrow> n \<noteq> ''blind_signature_token'' \<Longrightarrow> (n, c) \<noteq> (''election'', ''blind_key_recovery_required'') \<Longrightarrow>
   same_col n c db db'"
  unfolding retire_authorizations_def
  by (auto simp: then_do_Inr_iff [of "table_of _ _"] elim!: sc.kept_then intro: sc.kept_refl col_kept split: if_splits)

lemma col_choose_election:
  "choose_election env db = Inr (eid, db') \<Longrightarrow> n \<noteq> ''election'' \<Longrightarrow> same_col n c db db'"
  unfolding choose_election_def
  by (auto simp: then_do_Inr_iff intro: sc.kept_refl col_kept split: if_splits option.splits)

lemma col_scope_parts:
  "scope_election env db = Inr db' \<Longrightarrow> same_col n c db db'"
  "scope_candidate env db = Inr db' \<Longrightarrow> same_col n c db db'"
  "scope_vote env b db = Inr db' \<Longrightarrow> (n, c) \<noteq> (''vote'', ''user_id'') \<Longrightarrow> same_col n c db db'"
  "scope_receipt env db = Inr db' \<Longrightarrow> same_col n c db db'"
  "drop_voted_flag env b db = Inr db' \<Longrightarrow> (n, c) \<noteq> (''user'', ''has_voted'') \<Longrightarrow> same_col n c db db'"
  "scope_token env db = Inr db' \<Longrightarrow> n \<noteq> ''blind_signature_token'' \<or> c \<notin> set legacy_token_columns \<Longrightarrow> same_col n c db db'"
  "create_ballot_tables db = Inr db' \<Longrightarrow> same_col n c db db'"
proof -
  show "scope_vote env b db = Inr db' \<Longrightarrow> (n, c) \<noteq> (''vote'', ''user_id'') \<Longrightarrow> same_col n c db db'"
    unfolding scope_vote_def Let_def case_prod_beta by (erule col_kept(6)) auto
  show "scope_token env db = Inr db' \<Longrightarrow> n \<noteq> ''blind_signature_token'' \<or> c \<notin> set legacy_token_columns \<Longrightarrow> same_col n c db db'"
    unfolding scope_token_def Let_def case_prod_beta by (erule col_kept(6)) auto
  show "create_ballot_tables db = Inr db' \<Longrightarrow> same_col n c db db'"
    unfolding create_ballot_tables_def
    by (auto elim!: sc.kept_then intro: col_kept(5) simp: nullifier_table_def result_key_table_def signed_result_table_def fresh_table_def)
qed (auto simp: scope_election_def scope_candidate_def scope_receipt_def drop_voted_flag_def intro: sc.kept_refl dest!: col_kept(6) [where name = n and k = c] split: if_splits)

lemma col_scope_tables:
  assumes "scope_tables env legacy_user legacy_flag db = Inr db'"
    and "(n, c) \<notin> {(''vote'', ''user_id''), (''user'', ''has_voted'')}" and "n \<noteq> ''blind_signature_token'' \<or> c \<notin> set legacy_token_columns"
  shows "same_col n c db db'"
  using assms unfolding scope_tables_def by (elim sc.kept_then) (auto intro: col_scope_parts)

section \<open>Receipts\<close>

lemma has_receipt_col: "has_receipt db u \<longleftrightarrow> u \<noteq> None \<and> u \<in> set (col_of db ''vote_receipt'' ''user_id'')"
  by (auto simp: has_receipt_def list_ex_iff col_of_def)

lemma insert_receipt_col:
  assumes "insert_receipt u eid t db = Inr db'"
  shows "col_of db' ''vote_receipt'' ''user_id'' = col_of db ''vote_receipt'' ''user_id'' @ [u]"
    and "col_of db' ''vote_receipt'' ''election_id'' = col_of db ''vote_receipt'' ''election_id'' @ [eid]"
  using assms by (auto simp: insert_receipt_def intro!: insert_row_col(2))

lemma receipts_of_votes_col:
  assumes "receipts_of_votes eid db = Inr db'"
  shows "set (col_of db ''vote_receipt'' ''user_id'') \<union> {u \<in> set (col_of db ''vote'' ''user_id''). u \<noteq> None}
    \<subseteq> set (col_of db' ''vote_receipt'' ''user_id'')"
    and "set (col_of db' ''vote_receipt'' ''election_id'') \<subseteq> insert eid (set (col_of db ''vote_receipt'' ''election_id''))"
proof -
  let ?vs = "filter (\<lambda>v. v ''user_id'' \<noteq> None \<and> \<not> has_receipt db (v ''user_id'')) (rows_of db ''vote'')"
  let ?f = "\<lambda>v. insert_receipt (v ''user_id'') eid (v ''created_at'')"
  have run: "for_each ?f ?vs db = Inr db'" using assms by (simp add: receipts_of_votes_def split: if_splits)
  have old: "set (col_of db ''vote_receipt'' ''user_id'') \<subseteq> set (col_of db' ''vote_receipt'' ''user_id'')"
    by (rule for_each_invariant [OF run, where I = "\<lambda>s. set (col_of db ''vote_receipt'' ''user_id'') \<subseteq> set (col_of s ''vote_receipt'' ''user_id'')"])
       (auto dest!: insert_receipt_col(1))
  have new: "v ''user_id'' \<in> set (col_of db' ''vote_receipt'' ''user_id'')" if "v \<in> set ?vs" for v
    by (rule for_each_establish [OF run that]) (auto dest!: insert_receipt_col(1))
  show "set (col_of db ''vote_receipt'' ''user_id'') \<union> {u \<in> set (col_of db ''vote'' ''user_id''). u \<noteq> None}
    \<subseteq> set (col_of db' ''vote_receipt'' ''user_id'')"
  proof (intro Un_least old subsetI)
    fix u assume "u \<in> {u \<in> set (col_of db ''vote'' ''user_id''). u \<noteq> None}"
    then obtain v where v: "v \<in> set (rows_of db ''vote'')" "u = v ''user_id''" "u \<noteq> None" by (auto simp: col_of_def)
    show "u \<in> set (col_of db' ''vote_receipt'' ''user_id'')"
    proof (cases "has_receipt db u")
      case True
      then show ?thesis using old by (auto simp: has_receipt_col)
    next
      case False
      then show ?thesis using new [of v] v by simp
    qed
  qed
  show "set (col_of db' ''vote_receipt'' ''election_id'') \<subseteq> insert eid (set (col_of db ''vote_receipt'' ''election_id''))"
    by (rule for_each_invariant [OF run, where I = "\<lambda>s. set (col_of s ''vote_receipt'' ''election_id'') \<subseteq> insert eid (set (col_of db ''vote_receipt'' ''election_id''))"])
       (auto dest!: insert_receipt_col(2))
qed

definition flagged_users :: "tables \<Rightarrow> sql_value option set" where
  "flagged_users db = (\<lambda>u. u ''id'') ` {u \<in> set (rows_of db ''user''). u ''has_voted'' = Some (SBool True)}"

lemma receipts_of_flags_col:
  assumes "receipts_of_flags env eid db = Inr db'"
  shows "set (col_of db ''vote_receipt'' ''user_id'') \<union> flagged_users db \<subseteq> set (col_of db' ''vote_receipt'' ''user_id'')"
    and "set (col_of db' ''vote_receipt'' ''election_id'') \<subseteq> insert eid (set (col_of db ''vote_receipt'' ''election_id''))"
proof -
  let ?us = "filter (\<lambda>u. u ''has_voted'' = Some (SBool True)) (rows_of db ''user'')"
  let ?f = "\<lambda>u db. if has_receipt db (u ''id'') then Inr db else insert_receipt (u ''id'') eid (Some (SInt (mig_now env))) db"
  have run: "for_each ?f ?us db = Inr db'" using assms by (simp add: receipts_of_flags_def)
  have old: "set (col_of db ''vote_receipt'' ''user_id'') \<subseteq> set (col_of db' ''vote_receipt'' ''user_id'')"
    by (rule for_each_invariant [OF run, where I = "\<lambda>s. set (col_of db ''vote_receipt'' ''user_id'') \<subseteq> set (col_of s ''vote_receipt'' ''user_id'')"])
       (auto dest!: insert_receipt_col(1) split: if_splits)
  have new: "u ''id'' \<in> set (col_of db' ''vote_receipt'' ''user_id'')" if "u \<in> set ?us" for u
    by (rule for_each_establish [OF run that]) (auto simp: has_receipt_col dest!: insert_receipt_col(1) split: if_splits)
  show "set (col_of db ''vote_receipt'' ''user_id'') \<union> flagged_users db \<subseteq> set (col_of db' ''vote_receipt'' ''user_id'')"
    using old new by (auto simp: flagged_users_def)
  show "set (col_of db' ''vote_receipt'' ''election_id'') \<subseteq> insert eid (set (col_of db ''vote_receipt'' ''election_id''))"
    by (rule for_each_invariant [OF run, where I = "\<lambda>s. set (col_of s ''vote_receipt'' ''election_id'') \<subseteq> insert eid (set (col_of db ''vote_receipt'' ''election_id''))"])
       (auto dest!: insert_receipt_col(2) split: if_splits)
qed

section \<open>Elections\<close>

lemma earliest_in: "earliest rs = Some r \<Longrightarrow> r \<in> set rs" and earliest_None: "earliest rs = None \<longleftrightarrow> rs = []"
  by (induction rs arbitrary: r) (auto split: option.splits if_splits)

lemma choose_election_row:
  assumes "choose_election env db = Inr (eid, db')"
  shows "eid \<in> set (col_of db' ''election'' ''id'')"
  using assms
  by (auto simp: choose_election_def then_do_Inr_iff col_of_def rows_of_def schema_of_def insert_row_def new_row_def
      dest: earliest_in split: if_splits option.splits elim!: on_table_InrD)

lemma assign_election_col:
  assumes "assign_election eid db = Inr db'"
  shows "set (col_of db' ''candidate'' ''election_id'') \<subseteq> {eid}" and "set (col_of db' ''vote'' ''election_id'') \<subseteq> {eid, None}"
    and "set (col_of db' ''vote_receipt'' ''election_id'') \<subseteq> {eid}"
proof -
  obtain db1 db2 where c: "set_column ''candidate'' ''election_id'' (\<lambda>_. eid) db = Inr db1"
    and v: "set_column ''vote'' ''election_id'' (\<lambda>v. election_of_candidate db1 (v ''candidate_id'')) db1 = Inr db2"
    and r: "set_column ''vote_receipt'' ''election_id'' (\<lambda>_. eid) db2 = Inr db'"
    using assms by (auto simp: assign_election_def then_do_Inr_iff)
  note cols = set_column_col [OF c] set_column_col [OF v] set_column_col [OF r]
  have c1: "\<forall>x \<in> set (rows_of db1 ''candidate''). x ''election_id'' = eid" using cols(1) by (auto simp: col_of_def dest!: arg_cong [where f = set])
  have "election_of_candidate db1 x \<in> {eid, None}" for x
    using c1 by (auto simp: election_of_candidate_def dest: find_Some_in split: option.splits)
  then have v1: "set (col_of db2 ''vote'' ''election_id'') \<subseteq> {eid, None}" unfolding cols(2) by (simp add: image_subset_iff)
  show "set (col_of db' ''candidate'' ''election_id'') \<subseteq> {eid}"
    using cols(1) col_kept(1) [OF v, of "''candidate''" "''election_id''"] col_kept(1) [OF r, of "''candidate''" "''election_id''"]
    by (auto simp: same_col_def)
  show "set (col_of db' ''vote'' ''election_id'') \<subseteq> {eid, None}"
    using v1 col_kept(1) [OF r, of "''vote''" "''election_id''"] by (simp add: same_col_def)
  show "set (col_of db' ''vote_receipt'' ''election_id'') \<subseteq> {eid}" unfolding cols(3) by auto
qed

lemma retire_authorizations_effect:
  assumes "retire_authorizations db = Inr db'"
  shows "col_of db' ''blind_signature_token'' ''id'' = []"
    and "rows_of db ''blind_signature_token'' \<noteq> [] \<Longrightarrow>
      \<forall>e \<in> set (rows_of db' ''election''). e ''status'' = Some (SText ''open'') \<longrightarrow> e ''blind_key_recovery_required'' = Some (SBool True)"
  using assms
  by (auto simp: retire_authorizations_def then_do_Inr_iff table_of_def delete_rows_def set_column_def col_of_def rows_of_def
      split: option.splits if_splits elim!: on_table_InrD)

lemma rows_eqI:
  assumes "\<And>c. map (\<lambda>r. r c) xs = map (\<lambda>r. r c) ys"
  shows "xs = (ys :: row list)"
proof (rule nth_equalityI)
  show len: "length xs = length ys" using assms [THEN map_eq_imp_length_eq] by blast
  fix i assume "i < length xs"
  then show "xs ! i = ys ! i" using arg_cong [OF assms, of "\<lambda>zs. zs ! i"] len by (intro ext) simp
qed

text \<open>The rows of the elections are not touched by the new constraints.\<close>

lemma rows_scope_tables:
  assumes "scope_tables env legacy_user legacy_flag db = Inr db'"
  shows "rows_of db' ''election'' = rows_of db ''election''"
proof -
  have "map (\<lambda>r. r c) (rows_of db' ''election'') = map (\<lambda>r. r c) (rows_of db ''election'')" for c
    using col_scope_tables [OF assms, of "''election''" c] by (simp add: same_col_def col_of_def)
  then show ?thesis by (rule rows_eqI)
qed

text \<open>The databases between the parts of the row migration.\<close>

lemma move_rowsE:
  assumes "move_rows env legacy_user legacy_flag db = Inr db'"
  obtains eid db1 db2 db3 db4 db5 db6 where "add_voter_tokens env db = Inr db1" "add_scope_columns db1 = Inr db2"
    "choose_election env db2 = Inr (eid, db3)" "assign_election eid db3 = Inr db4"
    "(if legacy_user then receipts_of_votes eid db4 else Inr db4) = Inr db5"
    "(if legacy_flag then receipts_of_flags env eid db5 else Inr db5) = Inr db6" "retire_authorizations db6 = Inr db'"
  using assms unfolding move_rows_def
  by (elim then_doE) (simp only: split_paired_all prod.case, elim then_doE, rule that)

lemma col_move_rows:
  assumes "move_rows env legacy_user legacy_flag db = Inr db'" and "n \<notin> {''election'', ''vote_receipt'', ''blind_signature_token''}"
    and "c \<notin> {''voter_token'', ''election_id'', ''blind_signing_key_id'', ''blind_key_recovery_required''}"
  shows "same_col n c db db'"
proof (rule move_rowsE [OF assms(1)])
  fix eid db1 db2 db3 db4 db5 db6
  assume s: "add_voter_tokens env db = Inr db1" "add_scope_columns db1 = Inr db2"
    "choose_election env db2 = Inr (eid, db3)" "assign_election eid db3 = Inr db4"
    "(if legacy_user then receipts_of_votes eid db4 else Inr db4) = Inr db5"
    "(if legacy_flag then receipts_of_flags env eid db5 else Inr db5) = Inr db6" "retire_authorizations db6 = Inr db'"
  have "same_col n c db db1" "same_col n c db1 db2" "same_col n c db2 db3" "same_col n c db3 db4" "same_col n c db6 db'"
    using assms(2,3) col_add_voter_tokens [OF s(1)] col_add_scope_columns [OF s(2)] col_choose_election [OF s(3)]
      col_assign_election [OF s(4)] col_retire_authorizations [OF s(7)] by auto
  moreover have "same_col n c db4 db5" "same_col n c db5 db6"
    using s(5,6) assms(2) col_receipts_of_votes col_receipts_of_flags by (auto intro: sc.kept_refl split: if_splits)
  ultimately show ?thesis by (simp add: same_col_def)
qed

section \<open>The schema afterwards\<close>

text \<open>What the check of the current schema asks of the five tables that were there before.\<close>

definition migrated_facts :: "(string \<times> schema_fact) list" where
  "migrated_facts =
     [(''election'', Has_column ''id''), (''election'', Has_column ''blind_signing_key_id''),
      (''election'', Is_not_null ''blind_key_recovery_required''),
      (''candidate'', Has_column ''id''), (''candidate'', Is_not_null ''election_id''),
      (''candidate'', Declares_unique ''uq_candidate_id_election'' [''id'', ''election_id'']),
      (''candidate'', Declares_foreign_key ''fk_candidate_election'' [''election_id''] ''election'' [''id'']),
      (''vote'', Has_column ''id''), (''vote'', Is_not_null ''voter_token''), (''vote'', Is_not_null ''candidate_id''),
      (''vote'', Is_not_null ''election_id''), (''vote'', Lacks_column ''user_id''), (''vote'', Declares_unique ''uq_vote_voter_token'' [''voter_token'']),
      (''vote'', Declares_foreign_key ''fk_vote_candidate_election'' [''candidate_id'', ''election_id''] ''candidate'' [''id'', ''election_id'']),
      (''vote'', Declares_foreign_key ''fk_vote_election'' [''election_id''] ''election'' [''id'']),
      (''vote_receipt'', Has_column ''id''), (''vote_receipt'', Is_not_null ''user_id''), (''vote_receipt'', Is_not_null ''election_id''),
      (''vote_receipt'', Declares_unique ''uq_vote_receipt_user_election'' [''user_id'', ''election_id'']),
      (''vote_receipt'', Declares_foreign_key ''fk_vote_receipt_election'' [''election_id''] ''election'' [''id'']),
      (''blind_signature_token'', Has_column ''id''), (''blind_signature_token'', Is_not_null ''user_id''),
      (''blind_signature_token'', Is_not_null ''election_id''), (''blind_signature_token'', Lacks_column ''ballot_nonce_hash''),
      (''blind_signature_token'', Lacks_column ''issued_at''), (''blind_signature_token'', Lacks_column ''redeemed''),
      (''blind_signature_token'', Lacks_column ''redeemed_at''),
      (''blind_signature_token'', Declares_unique ''uq_blind_sig_token_user_election'' [''user_id'', ''election_id'']),
      (''blind_signature_token'', Declares_foreign_key ''fk_blind_signature_token_election'' [''election_id''] ''election'' [''id''])]"

text \<open>The part of it the old schema already has.\<close>

definition legacy_facts :: "(string \<times> schema_fact) list" where
  "legacy_facts =
     [(''election'', Has_column ''id''), (''candidate'', Has_column ''id''), (''vote'', Has_column ''id''), (''vote'', Is_not_null ''candidate_id''),
      (''vote_receipt'', Has_column ''id''), (''vote_receipt'', Is_not_null ''user_id''),
      (''blind_signature_token'', Has_column ''id''), (''blind_signature_token'', Is_not_null ''user_id'')]"

definition legacy_schema :: "tables \<Rightarrow> bool" where
  "legacy_schema db \<longleftrightarrow> list_all (\<lambda>(n, f). db_fact db n f) legacy_facts"

definition added_columns :: "string list" where
  "added_columns = [''voter_token'', ''election_id'', ''blind_signing_key_id'', ''blind_key_recovery_required'']"

lemma fact_row_moves:
  assumes "f \<notin> Lacks_column ` set added_columns \<union> Is_not_null ` set added_columns"
  shows "add_voter_tokens env db = Inr db' \<Longrightarrow> fact_kept n f db db'"
    and "add_scope_columns db = Inr db' \<Longrightarrow> fact_kept n f db db'"
proof -
  show "fact_kept n f db db'" if "add_voter_tokens env db = Inr db'"
    using that assms unfolding add_voter_tokens_def added_columns_def
    by (auto elim!: fk.kept_then fk.kept_for_each intro: fk.kept_refl fact_stays split: if_splits)
  show "fact_kept n f db db'" if "add_scope_columns db = Inr db'"
    using that assms unfolding add_scope_columns_def added_columns_def
    by (elim fk.kept_then) (auto intro: fact_stays)
qed

lemma fact_later_moves:
  "choose_election env db = Inr (eid, db') \<Longrightarrow> fact_kept n f db db'"
  "assign_election eid db = Inr db' \<Longrightarrow> fact_kept n f db db'"
  "receipts_of_votes eid db = Inr db' \<Longrightarrow> fact_kept n f db db'"
  "receipts_of_flags env eid db = Inr db' \<Longrightarrow> fact_kept n f db db'"
  "retire_authorizations db = Inr db' \<Longrightarrow> fact_kept n f db db'"
proof -
  show "choose_election env db = Inr (eid, db') \<Longrightarrow> fact_kept n f db db'"
    unfolding choose_election_def by (auto simp: then_do_Inr_iff intro: fk.kept_refl fact_stays split: if_splits option.splits)
  show "assign_election eid db = Inr db' \<Longrightarrow> fact_kept n f db db'"
    unfolding assign_election_def by (elim fk.kept_then) (auto intro: fact_stays)
  show "receipts_of_votes eid db = Inr db' \<Longrightarrow> fact_kept n f db db'"
    unfolding receipts_of_votes_def insert_receipt_def by (auto elim!: fk.kept_for_each intro: fact_stays split: if_splits)
  show "receipts_of_flags env eid db = Inr db' \<Longrightarrow> fact_kept n f db db'"
    unfolding receipts_of_flags_def insert_receipt_def
    by (auto elim!: fk.kept_for_each intro: fk.kept_refl fact_stays split: if_splits)
  show "retire_authorizations db = Inr db' \<Longrightarrow> fact_kept n f db db'"
    unfolding retire_authorizations_def
    by (auto simp: then_do_Inr_iff [of "table_of _ _"] elim!: fk.kept_then intro: fk.kept_refl fact_stays split: if_splits)
qed

lemma fact_add_scope_columns:
  assumes "add_scope_columns db = Inr db'"
  shows "db_fact db' ''election'' (Has_column ''blind_signing_key_id'') \<and> db_fact db' ''election'' (Is_not_null ''blind_key_recovery_required'')"
proof -
  obtain db1 db2 where s: "add_column ''election'' ''blind_signing_key_id'' True None db = Inr db1"
    "add_column ''election'' ''blind_key_recovery_required'' False (Some (SBool False)) db1 = Inr db2"
    and run: "then_do (add_column ''candidate'' ''election_id'' True None db2) (\<lambda>db.
       then_do (add_column ''vote'' ''election_id'' True None db) (\<lambda>db.
       then_do (add_column ''vote_receipt'' ''election_id'' True None db) (add_column ''blind_signature_token'' ''election_id'' True None)))
       = Inr db'"
    using assms unfolding add_scope_columns_def by (auto simp: then_do_Inr_iff [of "add_column ''election'' _ _ _ _"])
  have rest: "fact_kept ''election'' f db2 db'" for f
    using run by (elim fk.kept_then) (auto intro: fact_stays(5))
  show ?thesis
    using fact_add_column(1) [OF s(1)] fact_add_column(2) [OF s(2)] fact_stays(5) [OF s(2), of "''election''" "Has_column ''blind_signing_key_id''"]
      rest by (simp add: fact_kept_def)
qed

text \<open>After the rows have moved: the old facts, and the two columns of the elections.\<close>

lemma fact_move_rows:
  assumes "move_rows env legacy_user legacy_flag db = Inr db'"
  shows "f \<notin> Lacks_column ` set added_columns \<union> Is_not_null ` set added_columns \<Longrightarrow> fact_kept n f db db'"
    and "db_fact db' ''election'' (Has_column ''blind_signing_key_id'')"
    and "db_fact db' ''election'' (Is_not_null ''blind_key_recovery_required'')"
proof -
  obtain db1 db2 where s: "add_voter_tokens env db = Inr db1" "add_scope_columns db1 = Inr db2"
    and rest: "fact_kept n f db2 db'" for n f
  proof (rule move_rowsE [OF assms])
    fix eid db1 db2 db3 db4 db5 db6
    assume s: "add_voter_tokens env db = Inr db1" "add_scope_columns db1 = Inr db2"
      "choose_election env db2 = Inr (eid, db3)" "assign_election eid db3 = Inr db4"
      "(if legacy_user then receipts_of_votes eid db4 else Inr db4) = Inr db5"
      "(if legacy_flag then receipts_of_flags env eid db5 else Inr db5) = Inr db6" "retire_authorizations db6 = Inr db'"
    have "fact_kept n f db4 db5" "fact_kept n f db5 db6" for n f
      using s(5,6) by (auto intro: fk.kept_refl fact_later_moves split: if_splits)
    then have "fact_kept n f db2 db'" for n f
      using fact_later_moves(1) [OF s(3)] fact_later_moves(2) [OF s(4)] fact_later_moves(5) [OF s(7)] by (meson fk.kept_trans)
    with s(1,2) show thesis by (rule that)
  qed
  show "fact_kept n f db db'" if "f \<notin> Lacks_column ` set added_columns \<union> Is_not_null ` set added_columns"
    using fact_row_moves(1) [OF that s(1)] fact_row_moves(2) [OF that s(2)] rest by (meson fk.kept_trans)
  have "db_fact db2 ''election'' (Has_column ''blind_signing_key_id'') \<and> db_fact db2 ''election'' (Is_not_null ''blind_key_recovery_required'')"
    by (rule fact_add_scope_columns [OF s(2)])
  then show "db_fact db' ''election'' (Has_column ''blind_signing_key_id'')"
    and "db_fact db' ''election'' (Is_not_null ''blind_key_recovery_required'')"
    using rest by (auto simp: fact_kept_def)
qed

text \<open>The new constraints of one table leave the facts of the others.\<close>

lemma fact_other_scopes:
  "scope_election env db = Inr db' \<Longrightarrow> fact_kept n f db db'"
  "scope_candidate env db = Inr db' \<Longrightarrow> fact_kept n f db db'"
  "scope_vote env b db = Inr db' \<Longrightarrow> n \<noteq> ''vote'' \<Longrightarrow> fact_kept n f db db'"
  "scope_receipt env db = Inr db' \<Longrightarrow> n \<noteq> ''vote_receipt'' \<Longrightarrow> fact_kept n f db db'"
  "drop_voted_flag env b db = Inr db' \<Longrightarrow> n \<noteq> ''user'' \<Longrightarrow> fact_kept n f db db'"
  "scope_token env db = Inr db' \<Longrightarrow> n \<noteq> ''blind_signature_token'' \<Longrightarrow> fact_kept n f db db'"
  "create_ballot_tables db = Inr db' \<Longrightarrow> fact_kept n f db db'"
proof -
  show "create_ballot_tables db = Inr db' \<Longrightarrow> fact_kept n f db db'"
    unfolding create_ballot_tables_def by (elim fk.kept_then) (auto intro: fact_stays)
qed (auto simp: scope_election_def scope_candidate_def scope_vote_def scope_receipt_def drop_voted_flag_def scope_token_def
    Let_def case_prod_beta intro: fk.kept_refl dest!: fact_stays(6) [where n = n and f = f] split: if_splits)

lemma batch_table:
  assumes "batch_alter_table fk n (d # ds) db = Inr db'"
  obtains t where "db n = Some t"
  using assms by (auto simp: batch_alter_table_def then_do_Inr_iff elim!: on_table_InrD)

lemma fact_scope_candidate:
  assumes "scope_candidate env db = Inr db'"
  shows "db_fact db' ''candidate'' (Is_not_null ''election_id'')"
    and "db_fact db' ''candidate'' (Declares_unique ''uq_candidate_id_election'' [''id'', ''election_id''])"
    and "db_fact db' ''candidate'' (Declares_foreign_key ''fk_candidate_election'' [''election_id''] ''election'' [''id''])"
proof -
  obtain t where t: "db ''candidate'' = Some t" using assms unfolding scope_candidate_def by (rule batch_table)
  note fact = fact_batch [OF assms [unfolded scope_candidate_def] t]
  show "db_fact db' ''candidate'' (Is_not_null ''election_id'')"
    "db_fact db' ''candidate'' (Declares_unique ''uq_candidate_id_election'' [''id'', ''election_id''])"
    "db_fact db' ''candidate'' (Declares_foreign_key ''fk_candidate_election'' [''election_id''] ''election'' [''id''])"
    by (rule fact, simp)+
qed

lemma fact_scope_vote:
  assumes "scope_vote env b db = Inr db'" and "db ''vote'' = Some t"
  shows "db_fact db' ''vote'' (Is_not_null ''voter_token'')" and "db_fact db' ''vote'' (Is_not_null ''election_id'')"
    and "db_fact db' ''vote'' (Declares_unique ''uq_vote_voter_token'' [''voter_token''])"
    and "db_fact db' ''vote'' (Declares_foreign_key ''fk_vote_candidate_election'' [''candidate_id'', ''election_id''] ''candidate'' [''id'', ''election_id''])"
    and "db_fact db' ''vote'' (Declares_foreign_key ''fk_vote_election'' [''election_id''] ''election'' [''id''])"
    and "b \<or> fact_holds t (Lacks_column ''user_id'') \<Longrightarrow> db_fact db' ''vote'' (Lacks_column ''user_id'')"
    and "f = Has_column c \<or> f = Is_not_null c \<Longrightarrow> c \<noteq> ''user_id'' \<Longrightarrow> fact_holds t f \<Longrightarrow> db_fact db' ''vote'' f"
proof -
  note run = assms(1) [unfolded scope_vote_def Let_def case_prod_beta]
  note fact = fact_batch [OF run assms(2)]
  show "db_fact db' ''vote'' (Is_not_null ''voter_token'')" "db_fact db' ''vote'' (Is_not_null ''election_id'')"
    "db_fact db' ''vote'' (Declares_unique ''uq_vote_voter_token'' [''voter_token''])"
    "db_fact db' ''vote'' (Declares_foreign_key ''fk_vote_candidate_election'' [''candidate_id'', ''election_id''] ''candidate'' [''id'', ''election_id''])"
    "db_fact db' ''vote'' (Declares_foreign_key ''fk_vote_election'' [''election_id''] ''election'' [''id''])"
    by (rule fact, simp)+
  show "db_fact db' ''vote'' (Lacks_column ''user_id'')" if "b \<or> fact_holds t (Lacks_column ''user_id'')"
    using that by (intro fact; cases b) (auto intro: holds_after_kept holds_after_established)
  show "db_fact db' ''vote'' f" if "f = Has_column c \<or> f = Is_not_null c" "c \<noteq> ''user_id''" "fact_holds t f"
    using that by (intro fact holds_after_kept) auto
qed

lemma fact_scope_receipt:
  assumes "scope_receipt env db = Inr db'" and "db ''vote_receipt'' = Some t"
  shows "db_fact db' ''vote_receipt'' (Is_not_null ''election_id'')"
    and "db_fact db' ''vote_receipt'' (Declares_unique ''uq_vote_receipt_user_election'' [''user_id'', ''election_id''])"
    and "db_fact db' ''vote_receipt'' (Declares_foreign_key ''fk_vote_receipt_election'' [''election_id''] ''election'' [''id''])"
    and "f = Has_column c \<or> f = Is_not_null c \<Longrightarrow> fact_holds t f \<Longrightarrow> db_fact db' ''vote_receipt'' f"
proof -
  note fact = fact_batch [OF assms(1) [unfolded scope_receipt_def] assms(2)]
  show "db_fact db' ''vote_receipt'' (Is_not_null ''election_id'')"
    "db_fact db' ''vote_receipt'' (Declares_unique ''uq_vote_receipt_user_election'' [''user_id'', ''election_id''])"
    "db_fact db' ''vote_receipt'' (Declares_foreign_key ''fk_vote_receipt_election'' [''election_id''] ''election'' [''id''])"
    by (rule fact, simp)+
  show "db_fact db' ''vote_receipt'' f" if "f = Has_column c \<or> f = Is_not_null c" "fact_holds t f"
    using that by (intro fact holds_after_kept) auto
qed

lemma fact_scope_token:
  assumes "scope_token env db = Inr db'" and "db ''blind_signature_token'' = Some t"
  shows "db_fact db' ''blind_signature_token'' (Is_not_null ''election_id'')"
    and "db_fact db' ''blind_signature_token'' (Declares_unique ''uq_blind_sig_token_user_election'' [''user_id'', ''election_id''])"
    and "db_fact db' ''blind_signature_token'' (Declares_foreign_key ''fk_blind_signature_token_election'' [''election_id''] ''election'' [''id''])"
    and "c \<in> set legacy_token_columns \<Longrightarrow> db_fact db' ''blind_signature_token'' (Lacks_column c)"
    and "f = Has_column k \<or> f = Is_not_null k \<Longrightarrow> k \<notin> set legacy_token_columns \<Longrightarrow> fact_holds t f \<Longrightarrow> db_fact db' ''blind_signature_token'' f"
proof -
  note run = assms(1) [unfolded scope_token_def Let_def case_prod_beta]
  note fact = fact_batch [OF run assms(2)]
  have t: "schema_of db ''blind_signature_token'' = t" using assms(2) by (simp add: schema_of_def)
  have keep: "holds_after (map Drop_column (filter P legacy_token_columns)) f b"
    if "b" "case f of Is_not_null c \<Rightarrow> c \<notin> set legacy_token_columns | Lacks_column c \<Rightarrow> True | Declares_unique n cols \<Rightarrow> set cols \<inter> set legacy_token_columns = {}
      | _ \<Rightarrow> False" for P f b
    using that by (intro holds_after_kept) (auto split: schema_fact.splits)
  show "db_fact db' ''blind_signature_token'' (Is_not_null ''election_id'')"
    "db_fact db' ''blind_signature_token'' (Declares_unique ''uq_blind_sig_token_user_election'' [''user_id'', ''election_id''])"
    by (rule fact, simp, rule keep, simp, simp add: legacy_token_columns_def)+
  show "db_fact db' ''blind_signature_token'' (Declares_foreign_key ''fk_blind_signature_token_election'' [''election_id''] ''election'' [''id''])"
    by (rule fact) simp
  show "db_fact db' ''blind_signature_token'' (Lacks_column c)" if c: "c \<in> set legacy_token_columns"
  proof (cases "c \<in> set (column_names t)")
    case True
    then show ?thesis using c by (intro fact holds_after_established [of "Drop_column c"]) (auto simp: t)
  next
    case False
    then show ?thesis by (intro fact holds_after_kept) auto
  qed
  show "db_fact db' ''blind_signature_token'' f" if "f = Has_column k \<or> f = Is_not_null k" "k \<notin> set legacy_token_columns" "fact_holds t f"
    using that by (intro fact holds_after_kept) auto
qed

text \<open>The databases between the parts of the schema migration.\<close>

lemma scope_tablesE:
  assumes "scope_tables env legacy_user legacy_flag db = Inr db'"
  obtains db1 db2 db3 db4 db5 db6 where "scope_election env db = Inr db1" "scope_candidate env db1 = Inr db2"
    "scope_vote env legacy_user db2 = Inr db3" "scope_receipt env db3 = Inr db4" "drop_voted_flag env legacy_flag db4 = Inr db5"
    "scope_token env db5 = Inr db6" "create_ballot_tables db6 = Inr db'"
  using assms unfolding scope_tables_def by (elim then_doE) (rule that)

lemma fact_scope_tables:
  assumes "scope_tables env legacy_user legacy_flag db = Inr db'" and "legacy_schema db"
    and "db_fact db ''election'' (Has_column ''blind_signing_key_id'')" "db_fact db ''election'' (Is_not_null ''blind_key_recovery_required'')"
    and "legacy_user \<or> db_fact db ''vote'' (Lacks_column ''user_id'')"
  shows "list_all (\<lambda>(n, f). db_fact db' n f) migrated_facts"
proof (rule scope_tablesE [OF assms(1)])
  fix db1 db2 db3 db4 db5 db6
  assume s: "scope_election env db = Inr db1" "scope_candidate env db1 = Inr db2"
    "scope_vote env legacy_user db2 = Inr db3" "scope_receipt env db3 = Inr db4" "drop_voted_flag env legacy_flag db4 = Inr db5"
    "scope_token env db5 = Inr db6" "create_ballot_tables db6 = Inr db'"
  have k2: "fact_kept n f db db2" for n f
    using fact_other_scopes(1) [OF s(1)] fact_other_scopes(2) [OF s(2)] by (meson fk.kept_trans)
  have k3: "fact_kept n f db3 db'" if "n = ''election'' \<or> n = ''candidate'' \<or> n = ''vote''" for n f
    using that fact_other_scopes(4) [OF s(4)] fact_other_scopes(5) [OF s(5)] fact_other_scopes(6) [OF s(6)] fact_other_scopes(7) [OF s(7)]
    by (auto simp: fact_kept_def)
  have k4: "fact_kept ''vote_receipt'' f db4 db'" for f
    using fact_other_scopes(5) [OF s(5)] fact_other_scopes(6) [OF s(6)] fact_other_scopes(7) [OF s(7)] by (simp add: fact_kept_def)
  have k5: "fact_kept ''vote_receipt'' f db db3" "fact_kept ''blind_signature_token'' f db db5" for f
    using k2 fact_other_scopes(3) [OF s(3)] fact_other_scopes(4) [OF s(4)] fact_other_scopes(5) [OF s(5)] by (simp_all add: fact_kept_def)
  have l: "db_fact db n f" if "(n, f) \<in> set legacy_facts" for n f using assms(2) that by (auto simp: legacy_schema_def list_all_iff)
  obtain tv where tv: "db2 ''vote'' = Some tv" "fact_holds tv (Has_column ''id'')" "fact_holds tv (Is_not_null ''candidate_id'')"
    "legacy_user \<or> fact_holds tv (Lacks_column ''user_id'')"
    using k2 [of "''vote''" "Has_column ''id''"] k2 [of "''vote''" "Is_not_null ''candidate_id''"] k2 [of "''vote''" "Lacks_column ''user_id''"]
      l [of "''vote''" "Has_column ''id''"] l [of "''vote''" "Is_not_null ''candidate_id''"] assms(5)
    by (auto simp: fact_kept_def db_fact_def legacy_facts_def)
  obtain tr where tr: "db3 ''vote_receipt'' = Some tr" "fact_holds tr (Has_column ''id'')" "fact_holds tr (Is_not_null ''user_id'')"
    using k5(1) [of "Has_column ''id''"] k5(1) [of "Is_not_null ''user_id''"] l [of "''vote_receipt''" "Has_column ''id''"] l [of "''vote_receipt''" "Is_not_null ''user_id''"]
    by (auto simp: fact_kept_def db_fact_def legacy_facts_def)
  obtain tt where tt: "db5 ''blind_signature_token'' = Some tt" "fact_holds tt (Has_column ''id'')" "fact_holds tt (Is_not_null ''user_id'')"
    using k5(2) [of "Has_column ''id''"] k5(2) [of "Is_not_null ''user_id''"] l [of "''blind_signature_token''" "Has_column ''id''"] l [of "''blind_signature_token''" "Is_not_null ''user_id''"]
    by (auto simp: fact_kept_def db_fact_def legacy_facts_def)
  have e: "db_fact db' ''election'' f" if "db_fact db ''election'' f" for f
    using that k2 fact_other_scopes(3) [OF s(3)] k3 [of "''election''"] by (simp add: fact_kept_def)
  have c: "db_fact db' ''candidate'' f" if "db_fact db2 ''candidate'' f" for f
    using that fact_other_scopes(3) [OF s(3)] k3 [of "''candidate''"] by (simp add: fact_kept_def)
  have ci: "db_fact db' ''candidate'' (Has_column ''id'')"
    using c k2 l [of "''candidate''" "Has_column ''id''"] by (simp add: fact_kept_def legacy_facts_def)
  have t: "db_fact db' ''blind_signature_token'' f" if "db_fact db6 ''blind_signature_token'' f" for f
    using that fact_other_scopes(7) [OF s(7)] by (simp add: fact_kept_def)
  note v = fact_scope_vote(1-5) [OF s(3) tv(1)] fact_scope_vote(6) [OF s(3) tv(1,4)]
    fact_scope_vote(7) [OF s(3) tv(1) _ _ tv(2)] fact_scope_vote(7) [OF s(3) tv(1) _ _ tv(3)]
  note r = fact_scope_receipt(1-3) [OF s(4) tr(1)] fact_scope_receipt(4) [OF s(4) tr(1) _ tr(2)] fact_scope_receipt(4) [OF s(4) tr(1) _ tr(3)]
  note b = fact_scope_token(1-4) [OF s(6) tt(1)] fact_scope_token(5) [OF s(6) tt(1) _ _ tt(2)] fact_scope_token(5) [OF s(6) tt(1) _ _ tt(3)]
  have k3': "db_fact db3 ''vote'' f \<Longrightarrow> db_fact db' ''vote'' f" for f using k3 by (simp add: fact_kept_def)
  have k4': "db_fact db4 ''vote_receipt'' f \<Longrightarrow> db_fact db' ''vote_receipt'' f" for f using k4 by (simp add: fact_kept_def)
  show "list_all (\<lambda>(n, f). db_fact db' n f) migrated_facts"
    unfolding migrated_facts_def list.pred_inject prod.case
    using fact_scope_candidate [OF s(2), THEN c] ci e assms(3,4) l [of "''election''" "Has_column ''id''"]
    by (simp add: v [THEN k3'] r [THEN k4'] b [THEN t] legacy_facts_def legacy_token_columns_def)
qed

lemma ballot_tables:
  assumes "create_ballot_tables db = Inr db'"
  shows "db' ''spent_ballot_nullifier'' = Some nullifier_table" and "db' ''result_signing_public_key'' = Some result_key_table"
    and "db' ''signed_election_result'' = Some signed_result_table"
  using assms by (auto simp: create_ballot_tables_def create_table_def then_do_Inr_iff split: if_splits)

lemma is_nullable_fact: "db_fact db n (Is_not_null c) \<Longrightarrow> \<not> is_nullable (schema_of db n) c"
proof -
  assume "db_fact db n (Is_not_null c)"
  then obtain t where t: "db n = Some t" "c \<in> set (column_names t)" "\<forall>k \<in> set (t_columns t). col_name k = c \<longrightarrow> \<not> col_nullable k"
    by (auto simp: db_fact_def)
  then obtain k where k: "find (\<lambda>k. col_name k = c) (t_columns t) = Some k"
    by (cases "find (\<lambda>k. col_name k = c) (t_columns t)") (auto simp: find_None_iff column_names_def)
  then have "\<not> col_nullable k" using t(3) find_Some_in [OF k] by blast
  then show ?thesis using k t(1) by (simp add: is_nullable_def schema_of_def)
qed

lemma has_unique_fact: "db_fact db n (Declares_unique m cols) \<Longrightarrow> has_unique (schema_of db n) cols"
  by (force simp: db_fact_def has_unique_def schema_of_def list_ex_iff)

lemma has_foreign_key_fact: "db_fact db n (Declares_foreign_key m cols ref refcols) \<Longrightarrow> has_foreign_key (schema_of db n) cols ref refcols"
  by (force simp: db_fact_def has_foreign_key_def schema_of_def list_ex_iff)

lemma column_fact:
  "db_fact db n (Has_column c) \<Longrightarrow> c \<in> set (column_names (schema_of db n))"
  "db_fact db n (Is_not_null c) \<Longrightarrow> c \<in> set (column_names (schema_of db n))"
  "db_fact db n (Lacks_column c) \<Longrightarrow> c \<notin> set (column_names (schema_of db n))"
  by (auto simp: db_fact_def schema_of_def)

lemma fact_table: "db_fact db n f \<Longrightarrow> db n = Some (schema_of db n)"
  by (auto simp: db_fact_def schema_of_def)

text \<open>A database with these facts and the three new tables passes the check.\<close>

lemma schema_passes:
  assumes "list_all (\<lambda>(n, f). db_fact db n f) migrated_facts"
    and "db ''spent_ballot_nullifier'' = Some nullifier_table" "db ''result_signing_public_key'' = Some result_key_table"
      "db ''signed_election_result'' = Some signed_result_table"
  shows "current_schema_errors db = []"
proof -
  have fs: "db_fact db n f" if "(n, f) \<in> set migrated_facts" for n f using assms(1) that by (auto simp: list_all_iff)
  have new: "schema_of db ''spent_ballot_nullifier'' = nullifier_table" "schema_of db ''result_signing_public_key'' = result_key_table"
    "schema_of db ''signed_election_result'' = signed_result_table" using assms(2-4) by (simp_all add: schema_of_def)
  have tables: "db n = Some (schema_of db n)" if "(n, Has_column ''id'') \<in> set migrated_facts" for n
    using fs [OF that] by (rule fact_table)
  have cols: "c \<in> set (column_names (schema_of db n))"
    if "(n, Has_column c) \<in> set migrated_facts \<or> (n, Is_not_null c) \<in> set migrated_facts" for n c
    using that fs column_fact by blast
  have missing: "missing_columns db = []"
    using assms(2-4)
    by (simp add: missing_columns_def required_columns_def tables cols migrated_facts_def)
       (simp add: nullifier_table_def result_key_table_def signed_result_table_def fresh_table_def column_names_def)
  have nn: "\<not> is_nullable (schema_of db n) c" if "(n, Is_not_null c) \<in> set migrated_facts" for n c
    using fs [OF that] by (rule is_nullable_fact)
  have nullable: "concat (map (\<lambda>(name, cols). map (Nullable_column name) (filter (is_nullable (schema_of db name)) cols)) non_nullable) = []"
    by (simp add: non_nullable_def new nn migrated_facts_def)
       (simp add: nullifier_table_def signed_result_table_def fresh_table_def is_nullable_def)
  have la: "c \<notin> set (column_names (schema_of db n))" if "(n, Lacks_column c) \<in> set migrated_facts" for n c
    using fs [OF that] by (rule column_fact)
  have legacy: "concat (map (\<lambda>(name, cols). map (Legacy_column name) (sort (filter (\<lambda>c. c \<in> set (column_names (schema_of db name))) cols)))
      forbidden_columns) = []"
    by (simp add: forbidden_columns_def legacy_token_columns_def la migrated_facts_def)
  have u: "has_unique (schema_of db n) cols" if "(n, Declares_unique m cols) \<in> set migrated_facts" for n m cols
    using fs [OF that] by (rule has_unique_fact)
  have uniques: "filter (\<lambda>(name, cols). \<not> has_unique (schema_of db name) cols) unique_requirements = []"
    using u [of "''candidate''"] u [of "''vote''"] u [of "''vote_receipt''"] u [of "''blind_signature_token''"]
    by (simp add: unique_requirements_def new migrated_facts_def)
       (simp add: nullifier_table_def signed_result_table_def fresh_table_def has_unique_def)
  have r: "has_foreign_key (schema_of db n) cols ref refcols"
    if "(n, Declares_foreign_key m cols ref refcols) \<in> set migrated_facts" for n m cols ref refcols
    using fs [OF that] by (rule has_foreign_key_fact)
  have refs: "filter (\<lambda>(name, cols, ref, refcols). \<not> has_foreign_key (schema_of db name) cols ref refcols) foreign_key_requirements = []"
    using r [of "''candidate''"] r [of "''vote''"] r [of "''vote_receipt''"] r [of "''blind_signature_token''"]
    by (simp add: foreign_key_requirements_def new migrated_facts_def)
       (simp add: nullifier_table_def signed_result_table_def fresh_table_def has_foreign_key_def)
  show ?thesis unfolding current_schema_errors_def using missing nullable legacy uniques refs by simp
qed

section \<open>Properties\<close>

lemma typing_moves:
  "add_voter_tokens env db = Inr db' \<Longrightarrow> typing_kept db db'"
  "add_scope_columns db = Inr db' \<Longrightarrow> typing_kept db db'"
  "choose_election env db = Inr (eid, db') \<Longrightarrow> typing_kept db db'"
  "assign_election eid db = Inr db' \<Longrightarrow> typing_kept db db'"
  "receipts_of_votes eid db = Inr db' \<Longrightarrow> typing_kept db db'"
  "receipts_of_flags env eid db = Inr db' \<Longrightarrow> typing_kept db db'"
  "retire_authorizations db = Inr db' \<Longrightarrow> typing_kept db db'"
proof -
  show "add_voter_tokens env db = Inr db' \<Longrightarrow> typing_kept db db'"
    unfolding add_voter_tokens_def by (auto elim!: ty.kept_then ty.kept_for_each intro: ty.kept_refl typing_stays split: if_splits)
  show "add_scope_columns db = Inr db' \<Longrightarrow> typing_kept db db'"
    unfolding add_scope_columns_def by (elim ty.kept_then) (auto intro: typing_stays)
  show "choose_election env db = Inr (eid, db') \<Longrightarrow> typing_kept db db'"
    unfolding choose_election_def by (auto simp: then_do_Inr_iff intro: ty.kept_refl typing_stays split: if_splits option.splits)
  show "assign_election eid db = Inr db' \<Longrightarrow> typing_kept db db'"
    unfolding assign_election_def by (elim ty.kept_then) (auto intro: typing_stays)
  show "receipts_of_votes eid db = Inr db' \<Longrightarrow> typing_kept db db'"
    unfolding receipts_of_votes_def insert_receipt_def by (auto elim!: ty.kept_for_each intro: typing_stays split: if_splits)
  show "receipts_of_flags env eid db = Inr db' \<Longrightarrow> typing_kept db db'"
    unfolding receipts_of_flags_def insert_receipt_def by (auto elim!: ty.kept_for_each intro: ty.kept_refl typing_stays split: if_splits)
  show "retire_authorizations db = Inr db' \<Longrightarrow> typing_kept db db'"
    unfolding retire_authorizations_def
    by (auto simp: then_do_Inr_iff [of "table_of _ _"] elim!: ty.kept_then intro: ty.kept_refl typing_stays split: if_splits)
qed

lemma typing_scopes:
  "scope_election env db = Inr db' \<Longrightarrow> typing_kept db db'"
  "scope_candidate env db = Inr db' \<Longrightarrow> typing_kept db db'"
  "scope_vote env b db = Inr db' \<Longrightarrow> typing_kept db db'"
  "scope_receipt env db = Inr db' \<Longrightarrow> typing_kept db db'"
  "drop_voted_flag env b db = Inr db' \<Longrightarrow> typing_kept db db'"
  "scope_token env db = Inr db' \<Longrightarrow> typing_kept db db'"
  "create_ballot_tables db = Inr db' \<Longrightarrow> typing_kept db db'"
proof -
  have "typed nullifier_table" "typed result_key_table" "typed signed_result_table"
    by (auto simp: nullifier_table_def result_key_table_def signed_result_table_def fresh_table_def typed_def rows_ok_def
        not_null_holds_def unique_holds_def column_names_def List.map_filter_def)
  then show "create_ballot_tables db = Inr db' \<Longrightarrow> typing_kept db db'"
    unfolding create_ballot_tables_def by (elim ty.kept_then) (auto intro: typing_stays)
qed (auto simp: scope_election_def scope_candidate_def scope_vote_def scope_receipt_def drop_voted_flag_def scope_token_def
    Let_def case_prod_beta intro: ty.kept_refl dest: typing_stays(6) split: if_splits)

lemma typing_upgrade_legacy:
  assumes "upgrade_legacy env db = Inr db'" and "well_typed db"
  shows "well_typed db'"
proof -
  obtain db1 u f where m: "move_rows env u f db = Inr db1" and s: "scope_tables env u f db1 = Inr db'"
    using assms(1) by (auto simp: upgrade_legacy_def Let_def then_do_Inr_iff)
  have "typing_kept db db1"
  proof (rule move_rowsE [OF m])
    fix eid db1' db2 db3 db4 db5 db6
    assume s: "add_voter_tokens env db = Inr db1'" "add_scope_columns db1' = Inr db2"
      "choose_election env db2 = Inr (eid, db3)" "assign_election eid db3 = Inr db4"
      "(if u then receipts_of_votes eid db4 else Inr db4) = Inr db5"
      "(if f then receipts_of_flags env eid db5 else Inr db5) = Inr db6" "retire_authorizations db6 = Inr db1"
    have "typing_kept db4 db5" "typing_kept db5 db6"
      using s(5,6) by (auto intro: ty.kept_refl typing_moves split: if_splits)
    then show "typing_kept db db1"
      using typing_moves(1) [OF s(1)] typing_moves(2) [OF s(2)] typing_moves(3) [OF s(3)] typing_moves(4) [OF s(4)] typing_moves(7) [OF s(7)]
      by (simp add: typing_kept_def)
  qed
  moreover have "typing_kept db1 db'"
    using s unfolding scope_tables_def by (elim ty.kept_then) (auto intro: typing_scopes)
  ultimately show ?thesis using assms(2) by (simp add: typing_kept_def)
qed

text \<open>The old schema has no mark of the new one, so the whole migration runs.\<close>

lemma upgrade_runs:
  assumes "upgrade env db pragma = (Inr db', p)" and "current_markers db = []"
  shows "upgrade_legacy env db = Inr db'"
  using assms by (auto simp: upgrade_def Let_def split: sum.splits)

lemma upgrade_legacyE:
  assumes "upgrade_legacy env db = Inr db'" and "legacy_schema db"
  obtains db1 u f where "move_rows env u f db = Inr db1" "scope_tables env u f db1 = Inr db'"
    "u \<longleftrightarrow> ''user_id'' \<in> set (column_names (schema_of db ''vote''))" "f \<longleftrightarrow> ''has_voted'' \<in> set (column_names (schema_of db ''user''))"
    "list_all (\<lambda>(n, f). db_fact db' n f) migrated_facts"
proof -
  define u where "u \<longleftrightarrow> ''user_id'' \<in> set (column_names (schema_of db ''vote''))"
  define f where "f \<longleftrightarrow> ''has_voted'' \<in> set (column_names (schema_of db ''user''))"
  obtain db1 where m: "move_rows env u f db = Inr db1" and s: "scope_tables env u f db1 = Inr db'"
    using assms(1)
    by (auto simp: upgrade_legacy_def Let_def then_do_Inr_iff table_of_def u_def f_def schema_of_def split: option.splits)
  have "db_fact db1 n x" if "(n, x) \<in> set legacy_facts" for n x
  proof -
    have "fact_kept n x db db1" using that by (intro fact_move_rows(1) [OF m]) (auto simp: legacy_facts_def added_columns_def)
    then show ?thesis using that assms(2) by (auto simp: fact_kept_def legacy_schema_def list_all_iff)
  qed
  then have l: "legacy_schema db1" by (auto simp: legacy_schema_def list_all_iff)
  have "u \<or> db_fact db1 ''vote'' (Lacks_column ''user_id'')"
  proof -
    have "db_fact db ''vote'' (Has_column ''id'')" using assms(2) by (simp add: legacy_schema_def legacy_facts_def)
    then have "u \<or> db_fact db ''vote'' (Lacks_column ''user_id'')" by (auto simp: u_def db_fact_def schema_of_def)
    then show ?thesis using fact_move_rows(1) [OF m, of "Lacks_column ''user_id''" "''vote''"] by (auto simp: fact_kept_def added_columns_def)
  qed
  then have "list_all (\<lambda>(n, f). db_fact db' n f) migrated_facts"
    using fact_scope_tables [OF s l] fact_move_rows(2,3) [OF m] by blast
  with m s show thesis using that by (simp add: u_def f_def)
qed

lemma migrated_receipts:
  assumes "move_rows env u f db = Inr db1" and "well_typed db"
    and "u \<longleftrightarrow> ''user_id'' \<in> set (column_names (schema_of db ''vote''))" and "f \<longleftrightarrow> ''has_voted'' \<in> set (column_names (schema_of db ''user''))"
  shows "set (col_of db ''vote_receipt'' ''user_id'') \<union> {x \<in> set (col_of db ''vote'' ''user_id''). x \<noteq> None} \<union> flagged_users db
    \<subseteq> set (col_of db1 ''vote_receipt'' ''user_id'')" and "\<exists>eid \<in> set (col_of db1 ''election'' ''id'').
       set (col_of db1 ''candidate'' ''election_id'') \<subseteq> {eid} \<and> set (col_of db1 ''vote'' ''election_id'') \<subseteq> {eid, None}
       \<and> set (col_of db1 ''vote_receipt'' ''election_id'') \<subseteq> {eid}"
    and "rows_of db ''blind_signature_token'' \<noteq> [] \<Longrightarrow> \<forall>e \<in> set (rows_of db1 ''election'').
      e ''status'' = Some (SText ''open'') \<longrightarrow> e ''blind_key_recovery_required'' = Some (SBool True)"
    and "col_of db1 ''blind_signature_token'' ''id'' = []"
proof -
  obtain eid d1 d2 d3 d4 d5 d6 where s: "add_voter_tokens env db = Inr d1" "add_scope_columns d1 = Inr d2"
    "choose_election env d2 = Inr (eid, d3)" "assign_election eid d3 = Inr d4"
    "(if u then receipts_of_votes eid d4 else Inr d4) = Inr d5"
    "(if f then receipts_of_flags env eid d5 else Inr d5) = Inr d6" "retire_authorizations d6 = Inr db1"
    by (rule move_rowsE [OF assms(1)])
  have early: "same_col n c db d4" if "n \<noteq> ''election''" "n = ''user'' \<or> c \<notin> {''voter_token'', ''election_id'', ''blind_signing_key_id'', ''blind_key_recovery_required''}" for n c
    using that col_add_voter_tokens [OF s(1), of n c] col_add_scope_columns [OF s(2), of c n] col_choose_election [OF s(3), of n c]
      col_assign_election [OF s(4), of c n] by (auto simp: same_col_def)
  have mid: "same_col n c d4 d5" "same_col n c d5 d6" if "n \<noteq> ''vote_receipt''" for n c
    using that s(5,6) by (auto intro: sc.kept_refl col_receipts_of_votes col_receipts_of_flags split: if_splits)
  have late: "same_col n c d6 db1" if "n \<noteq> ''blind_signature_token''" "n \<noteq> ''election'' \<or> c \<noteq> ''blind_key_recovery_required''" for n c
    using that col_retire_authorizations [OF s(7), of n c] by simp
  have votes: "set (col_of d4 ''vote_receipt'' ''user_id'') \<union> {x \<in> set (col_of db ''vote'' ''user_id''). x \<noteq> None}
      \<subseteq> set (col_of d5 ''vote_receipt'' ''user_id'')"
  proof (cases u)
    case True
    then show ?thesis using receipts_of_votes_col(1) [of eid d4 d5] s(5) early [of "''vote''" "''user_id''"] by (simp add: same_col_def)
  next
    case False
    then have "set (col_of db ''vote'' ''user_id'') \<subseteq> {None}"
      using assms(2,3) by (fastforce simp: well_typed_def typed_def col_of_def rows_of_def schema_of_def split: option.splits)
    then show ?thesis using False s(5) by auto
  qed
  have users: "rows_of d5 ''user'' = rows_of db ''user''"
    by (rule rows_eqI) (use early [of "''user''"] mid(1) [of "''user''"] in \<open>simp add: same_col_def col_of_def\<close>)
  have flags: "set (col_of d5 ''vote_receipt'' ''user_id'') \<union> flagged_users db \<subseteq> set (col_of d6 ''vote_receipt'' ''user_id'')"
  proof (cases f)
    case True
    then show ?thesis using receipts_of_flags_col(1) [of env eid d5 d6] s(6) by (simp add: flagged_users_def users)
  next
    case False
    then have "flagged_users db = {}"
      using assms(2,4) by (fastforce simp: flagged_users_def well_typed_def typed_def rows_of_def schema_of_def split: option.splits)
    then show ?thesis using False s(6) by simp
  qed
  show "set (col_of db ''vote_receipt'' ''user_id'') \<union> {x \<in> set (col_of db ''vote'' ''user_id''). x \<noteq> None} \<union> flagged_users db
    \<subseteq> set (col_of db1 ''vote_receipt'' ''user_id'')"
    using votes flags early [of "''vote_receipt''" "''user_id''"] late [of "''vote_receipt''" "''user_id''"] by (auto simp: same_col_def)
  have rec: "set (col_of d6 ''vote_receipt'' ''election_id'') \<subseteq> {eid}"
    using assign_election_col(3) [OF s(4)] receipts_of_votes_col(2) [of eid d4 d5] receipts_of_flags_col(2) [of env eid d5 d6] s(5,6)
    by (auto split: if_splits)
  have "eid \<in> set (col_of db1 ''election'' ''id'')"
    using choose_election_row [OF s(3)] col_assign_election [OF s(4), of "''id''" "''election''"] mid [of "''election''" "''id''"]
      late [of "''election''" "''id''"] by (simp add: same_col_def)
  moreover have "set (col_of db1 ''candidate'' ''election_id'') \<subseteq> {eid} \<and> set (col_of db1 ''vote'' ''election_id'') \<subseteq> {eid, None}
       \<and> set (col_of db1 ''vote_receipt'' ''election_id'') \<subseteq> {eid}"
    using assign_election_col(1,2) [OF s(4)] rec mid [of "''candidate''" "''election_id''"] mid [of "''vote''" "''election_id''"]
      late [of _ "''election_id''"] by (simp add: same_col_def)
  ultimately show "\<exists>eid \<in> set (col_of db1 ''election'' ''id'').
       set (col_of db1 ''candidate'' ''election_id'') \<subseteq> {eid} \<and> set (col_of db1 ''vote'' ''election_id'') \<subseteq> {eid, None}
       \<and> set (col_of db1 ''vote_receipt'' ''election_id'') \<subseteq> {eid}" by blast
  have "same_col ''blind_signature_token'' ''id'' db d6" using early mid by (simp add: same_col_def)
  then have "rows_of d6 ''blind_signature_token'' = [] \<longleftrightarrow> rows_of db ''blind_signature_token'' = []" by (auto simp: same_col_def col_of_def)
  then show "rows_of db ''blind_signature_token'' \<noteq> [] \<Longrightarrow> \<forall>e \<in> set (rows_of db1 ''election'').
      e ''status'' = Some (SText ''open'') \<longrightarrow> e ''blind_key_recovery_required'' = Some (SBool True)"
    using retire_authorizations_effect(2) [OF s(7)] by blast
  show "col_of db1 ''blind_signature_token'' ''id'' = []" by (rule retire_authorizations_effect(1) [OF s(7)])
qed


lemma migrated_schema_passes:
  assumes "upgrade_legacy env db = Inr db'" and "legacy_schema db"
  shows "current_schema_errors db' = []" and "current_markers db' \<noteq> []"
proof -
  obtain db1 u f where s: "scope_tables env u f db1 = Inr db'" and facts: "list_all (\<lambda>(n, f). db_fact db' n f) migrated_facts"
    by (rule upgrade_legacyE [OF assms])
  obtain db6 where c: "create_ballot_tables db6 = Inr db'" by (rule scope_tablesE [OF s])
  show "current_schema_errors db' = []" by (rule schema_passes [OF facts ballot_tables [OF c]])
  show "current_markers db' \<noteq> []" using ballot_tables(1) [OF c] by (simp add: current_markers_def)
qed

text \<open>
  The migration arrives where it says. On an old schema that has the primary keys and the required
  references, a completed migration gives a schema with every column, uniqueness and reference
  its own check asks for and none of the columns it forbids, so that running it again, on
  any engine, accepts the database and changes nothing.
\<close>

theorem migration_completes_schema:
  assumes "upgrade env db pragma = (Inr db', p)" and "current_markers db = []" and "legacy_schema db"
  shows "current_schema_errors db' = [] \<and> current_markers db' \<noteq> [] \<and> upgrade env2 db' q = (Inr db', mig_sqlite env2 \<or> q)"
proof -
  note ok = migrated_schema_passes [OF upgrade_runs [OF assms(1,2)] assms(3)]
  then show ?thesis by (simp add: upgrade_def)
qed

text \<open>A key that no row leaves empty tells the rows apart.\<close>

lemma unique_not_null:
  assumes "unique_holds cols rs" and "\<And>c. c \<in> set cols \<Longrightarrow> None \<notin> set (map (\<lambda>r. r c) rs)"
  shows "distinct (map (\<lambda>r. map r cols) rs)"
proof -
  have nn: "r c \<noteq> None" if "r \<in> set rs" "c \<in> set cols" for r c
    using assms(2) [OF that(2)] that(1) unfolding set_map image_iff by metis
  have key: "row_key cols r = Some (map (\<lambda>c. the (r c)) cols)" if "r \<in> set rs" for r
    using nn [OF that] by (auto simp: row_key_def list_ex_iff)
  have rs: "List.map_filter (row_key cols) rs = map (\<lambda>r. map (\<lambda>c. the (r c)) cols) rs"
    using key by (induction rs) (simp_all add: List.map_filter_def)
  have "map r cols = map Some (map (\<lambda>c. the (r c)) cols)" if "r \<in> set rs" for r
    using nn [OF that] by (auto simp: comp_def)
  then have "map (\<lambda>r. map r cols) rs = map (map Some) (map (\<lambda>r. map (\<lambda>c. the (r c)) cols) rs)" by simp
  moreover have "inj_on (map Some) A" for A :: "sql_value list set" by (rule inj_on_mapI) (simp add: inj_on_def)
  ultimately show ?thesis using assms(1) rs by (simp add: unique_holds_def distinct_map del: map_map)
qed

lemma schema_check_ok:
  assumes "current_schema_errors db = []"
  shows "(n, cols) \<in> set non_nullable \<Longrightarrow> c \<in> set cols \<Longrightarrow> \<not> is_nullable (schema_of db n) c"
    and "(n, cols) \<in> set forbidden_columns \<Longrightarrow> c \<in> set cols \<Longrightarrow> c \<notin> set (column_names (schema_of db n))"
    and "(n, cols) \<in> set unique_requirements \<Longrightarrow> has_unique (schema_of db n) cols"
    and "n \<in> set (map fst required_columns) \<Longrightarrow> db n = Some (schema_of db n)"
proof -
  have m: "missing_columns db = []" using assms by (auto simp: current_schema_errors_def split: if_splits)
  note parts = assms [unfolded current_schema_errors_def if_not_P [OF not_not [THEN iffD2, OF m]] append_is_Nil_conv]
  show "(n, cols) \<in> set non_nullable \<Longrightarrow> c \<in> set cols \<Longrightarrow> \<not> is_nullable (schema_of db n) c"
    using parts [THEN conjunct1] by (fastforce simp: filter_empty_conv)
  show "(n, cols) \<in> set forbidden_columns \<Longrightarrow> c \<in> set cols \<Longrightarrow> c \<notin> set (column_names (schema_of db n))"
    using parts [THEN conjunct2, THEN conjunct1] by (fastforce simp: filter_empty_conv dest: arg_cong [where f = set])
  show "(n, cols) \<in> set unique_requirements \<Longrightarrow> has_unique (schema_of db n) cols"
    using parts [THEN conjunct2, THEN conjunct2, THEN conjunct1] by (fastforce simp: filter_empty_conv)
  show "db n = Some (schema_of db n)" if n: "n \<in> set (map fst required_columns)"
  proof (cases "db n")
    case None
    with n m show ?thesis by (force simp: missing_columns_def)
  qed (simp add: schema_of_def)
qed

lemma passing_schema_keys:
  assumes "current_schema_errors db = []" and "well_typed db" and "(n, cols) \<in> set unique_requirements" and "n \<noteq> ''candidate''"
  shows "distinct (map (\<lambda>r. map r cols) (rows_of db n)) \<and> (\<forall>c \<in> set cols. None \<notin> set (col_of db n c))"
proof -
  note ok = schema_check_ok [OF assms(1)]
  have n: "n \<in> set (map fst required_columns)" using assms(3) by (auto simp: unique_requirements_def required_columns_def)
  have "\<exists>ks. (n, ks) \<in> set non_nullable \<and> set cols \<subseteq> set ks"
  proof -
    have "list_all (\<lambda>(n, cols). n = ''candidate'' \<or> list_ex (\<lambda>(m, ks). m = n \<and> list_all (\<lambda>c. c \<in> set ks) cols) non_nullable) unique_requirements"
      by code_simp
    then have "list_ex (\<lambda>(m, ks). m = n \<and> list_all (\<lambda>c. c \<in> set ks) cols) non_nullable"
      using assms(3,4) unfolding list_all_iff by blast
    then show ?thesis by (auto simp: list_ex_iff list_all_iff)
  qed
  then obtain ks where ks: "(n, ks) \<in> set non_nullable" "set cols \<subseteq> set ks" by blast
  have nn: "None \<notin> set (col_of db n c)" if "c \<in> set cols" for c
  proof -
    have "\<not> is_nullable (schema_of db n) c" using ok(1) [OF ks(1)] ks(2) that by blast
    then obtain k where k: "find (\<lambda>k. col_name k = c) (t_columns (schema_of db n)) = Some k" "\<not> col_nullable k"
      by (auto simp: is_nullable_def split: option.splits)
    show ?thesis using not_null_col [OF assms(2) ok(4) [OF n] find_Some_in(1) [OF k(1)] k(2)] find_Some_in(2) [OF k(1)] by simp
  qed
  have "unique_holds cols (rows_of db n)"
  proof -
    obtain k where k: "k \<in> set (t_uniques (schema_of db n))" "uq_columns k = cols"
      using ok(3) [OF assms(3)] by (auto simp: has_unique_def list_ex_iff)
    have "rows_ok (schema_of db n)" using assms(2) ok(4) [OF n] by (auto simp: well_typed_def typed_def)
    then show ?thesis using k ok(4) [OF n] by (auto simp: rows_ok_def list_all_iff rows_of_Some)
  qed
  then show ?thesis using unique_not_null nn by (auto simp: col_of_def)
qed


section \<open>An old database\<close>

definition demo_table :: "(string \<times> bool) list \<Rightarrow> (string \<times> string list) list \<Rightarrow> (string \<times> sql_value) list list \<Rightarrow> table" where
  "demo_table cols uniques rs = (fresh_table cols (map (\<lambda>(n, cs). (Some n, cs)) uniques) [] [])\<lparr>t_rows := map map_of rs\<rparr>"

definition demo_specs :: "(string \<times> (string \<times> bool) list \<times> (string \<times> string list) list \<times> (string \<times> sql_value) list list) list" where
  "demo_specs =
     [(''user'', [(''id'', False), (''has_voted'', False)], [],
        [[(''id'', SInt 1), (''has_voted'', SBool True)], [(''id'', SInt 2), (''has_voted'', SBool True)], [(''id'', SInt 3), (''has_voted'', SBool False)]]),
      (''election'', [(''id'', False), (''name'', False), (''status'', False), (''created_at'', True)], [],
        [[(''id'', SInt 1), (''name'', SText ''Legacy''), (''status'', SText ''open''), (''created_at'', SInt 5)]]),
      (''candidate'', [(''id'', False), (''name'', False)], [], [[(''id'', SInt 4), (''name'', SText ''A'')], [(''id'', SInt 5), (''name'', SText ''B'')]]),
      (''vote'', [(''id'', False), (''user_id'', True), (''candidate_id'', False), (''created_at'', True)], [(''uq_vote_user'', [''user_id''])],
        [[(''id'', SInt 1), (''user_id'', SInt 1), (''candidate_id'', SInt 5), (''created_at'', SInt 6)]]),
      (''vote_receipt'', [(''id'', False), (''user_id'', False), (''voted_at'', True)], [(''uq_vote_receipt_user'', [''user_id''])], []),
      (''blind_signature_token'', [(''id'', False), (''user_id'', False), (''ballot_nonce_hash'', False)],
        [(''uq_nonce'', [''ballot_nonce_hash'']), (''uq_blind_sig_token_user'', [''user_id''])],
        [[(''id'', SInt 1), (''user_id'', SInt 3), (''ballot_nonce_hash'', SText ''b'')]])]"

definition demo_legacy :: tables where
  "demo_legacy = map_of (map (\<lambda>(n, cols, us, rs). (n, demo_table cols us rs)) demo_specs)"

definition demo_mig_env :: mig_env where
  "demo_mig_env = \<lparr>mig_sqlite = True, mig_now = 9, mig_token = (\<lambda>n. ''token'' @ show_int (int n))\<rparr>"

definition demo_migrated :: tables where
  "demo_migrated = projr (fst (upgrade demo_mig_env demo_legacy True))"

lemma upgrade_success: "\<not> isl (fst (upgrade env db p)) \<Longrightarrow> upgrade env db p = (Inr (projr (fst (upgrade env db p))), mig_sqlite env \<or> p)"
  by (auto simp: upgrade_def Let_def split: sum.splits)

lemma demo_upgrade: "upgrade demo_mig_env demo_legacy True = (Inr demo_migrated, True)"
proof -
  have "isl (fst (upgrade demo_mig_env demo_legacy True)) = False" by code_simp
  then show ?thesis using upgrade_success [of demo_mig_env demo_legacy True] by (simp add: demo_migrated_def)
qed

lemma typed_demo_table:
  assumes "rows_ok (demo_table cols us rs)" and "list_all (\<lambda>kvs. list_all (\<lambda>(c, v). c \<in> set (map fst cols)) kvs) rs"
    and "list_all (\<lambda>(n, cs). list_all (\<lambda>c. c \<in> set (map fst cols)) cs) us"
  shows "typed (demo_table cols us rs)"
proof -
  have names: "column_names (demo_table cols us rs) = map fst cols"
    by (simp add: demo_table_def fresh_table_def column_names_def comp_def case_prod_beta)
  have "c \<in> set (map fst cols)" if r: "r \<in> set (t_rows (demo_table cols us rs))" "r c \<noteq> None" for r c
  proof -
    obtain kvs v where "kvs \<in> set rs" "map_of kvs c = Some v" using r by (auto simp: demo_table_def)
    then show ?thesis using assms(2) by (fastforce simp: list_all_iff dest: map_of_SomeD)
  qed
  moreover have "c \<in> set (map fst cols)" if "u \<in> set (t_uniques (demo_table cols us rs))" "c \<in> set (uq_columns u)" for u c
    using that assms(3) by (auto simp: demo_table_def fresh_table_def list_all_iff)
  ultimately show ?thesis using assms(1) unfolding typed_def names by blast
qed

lemma demo_well_typed: "well_typed demo_legacy"
proof -
  have "list_all (\<lambda>(n, cols, us, rs). rows_ok (demo_table cols us rs) \<and> list_all (\<lambda>kvs. list_all (\<lambda>(c, v). c \<in> set (map fst cols)) kvs) rs
      \<and> list_all (\<lambda>(n, cs). list_all (\<lambda>c. c \<in> set (map fst cols)) cs) us) demo_specs" by code_simp
  then have ok: "typed (demo_table cols us rs)" if "(n, cols, us, rs) \<in> set demo_specs" for n cols us rs
    using that unfolding list_all_iff [of _ demo_specs] by (intro typed_demo_table) auto
  show ?thesis unfolding well_typed_def demo_legacy_def
  proof (intro allI impI)
    fix n t assume "map_of (map (\<lambda>(n, cols, us, rs). (n, demo_table cols us rs)) demo_specs) n = Some t"
    then show "typed t" using ok by (auto dest!: map_of_SomeD)
  qed
qed

lemma demo_legacy_start: "current_markers demo_legacy = []" "legacy_schema demo_legacy"
proof -
  show "current_markers demo_legacy = []" by code_simp
  show "legacy_schema demo_legacy"
    by (simp add: legacy_schema_def legacy_facts_def db_fact_def demo_legacy_def demo_specs_def demo_table_def fresh_table_def column_names_def)
qed

lemma flagged_users_set:
  "flagged_users db = set (map (\<lambda>u. u ''id'') (filter (\<lambda>u. u ''has_voted'' = Some (SBool True)) (rows_of db ''user'')))"
  by (simp add: flagged_users_def)


theorem migration_completes_schema_witness:
  "current_schema_errors demo_migrated = [] \<and> upgrade demo_mig_env demo_migrated False = (Inr demo_migrated, True)"
  using migration_completes_schema [OF demo_upgrade demo_legacy_start, of demo_mig_env False] by (simp add: demo_mig_env_def)


end
