(* ===== verification/Pii_Migration.thy ===== *)
theory Pii_Migration
  imports Encryption Relational
begin

text \<open>
  The migration of stored personal data to the authenticated envelope: \<^verbatim>\<open>scripts/migrate_pii_envelope.py\<close>.
  The operator names the old format; the run is one transaction, refused as a whole when a value
  does not have it.

  Fernet of the cryptography package is a parameter. The random nonces are a sequence, used in order.
\<close>

section \<open>Columns\<close>

datatype column_type = String_type "nat option" | Other_type string

text \<open>Column types of a table as reflected, \<open>None\<close> for a column that is not there.\<close>

type_synonym reflected = "string \<Rightarrow> string \<Rightarrow> column_type option"

definition FIELDS :: "(string \<times> string list) list" where
  "FIELDS = [(''user'', [''driver_lic_no'']),
     (''electoral_roll'', [''driver_license_number'', ''full_name'', ''address_line1'', ''address_line2'', ''suburb'', ''state'', ''postcode''])]"

definition LICENCE_HASH_COLUMNS :: "string \<Rightarrow> string \<Rightarrow> string option" where
  "LICENCE_HASH_COLUMNS tab field =
     (if (tab, field) = (''user'', ''driver_lic_no'') then Some ''driver_lic_hash''
      else if (tab, field) = (''electoral_roll'', ''driver_license_number'') then Some ''driver_license_hash'' else None)"

definition MIN_ENCRYPTED_COLUMN_LENGTHS :: "((string \<times> string) \<times> nat) list" where
  "MIN_ENCRYPTED_COLUMN_LENGTHS =
     [((''user'', ''driver_lic_no''), 255), ((''electoral_roll'', ''driver_license_number''), 255),
      ((''electoral_roll'', ''full_name''), 1536), ((''electoral_roll'', ''address_line1''), 1536),
      ((''electoral_roll'', ''address_line2''), 1536), ((''electoral_roll'', ''suburb''), 1536),
      ((''electoral_roll'', ''state''), 512), ((''electoral_roll'', ''postcode''), 512)]"

text \<open>The capacity of one column against its minimum: \<open>Some\<close> is the failure line.\<close>

definition capacity_failure :: "reflected \<Rightarrow> (string \<times> string) \<times> nat \<Rightarrow> string option" where
  "capacity_failure types req =
     (case req of ((tab, field), required) \<Rightarrow>
        (case types tab field of
           None \<Rightarrow> None
         | Some (Other_type ty) \<Rightarrow> Some (tab @ ''.'' @ field @ '' is '' @ ty @ '', expected a text column'')
         | Some (String_type None) \<Rightarrow> None
         | Some (String_type (Some n)) \<Rightarrow>
             if n < required
             then Some (tab @ ''.'' @ field @ '' has capacity '' @ show_int (int n) @ '', '' @ ''requires at least '' @ show_int (int required))
             else None))"

datatype pii_mig_error =
    Capacity_refused "string list"
  | Fernet_key_error string
  | Rejected_value string string "sql_value option"
  | Hash_error runtime_error

definition validate_encrypted_column_capacity :: "reflected \<Rightarrow> pii_mig_error + (string \<Rightarrow> string \<Rightarrow> nat option)" where
  "validate_encrypted_column_capacity types =
     (let failures = List.map_filter (capacity_failure types) MIN_ENCRYPTED_COLUMN_LENGTHS in
      if failures \<noteq> [] then Inl (Capacity_refused failures)
      else Inr (\<lambda>tab field. case types tab field of Some (String_type n) \<Rightarrow> n | _ \<Rightarrow> None))"

section \<open>One value\<close>

datatype pii_source = Legacy_chacha | Legacy_fernet | Marked_plaintext

text \<open>\<open>fernet_new\<close> builds a decryptor from a key text, \<open>None\<close> for an invalid key; a decryptor yields \<open>None\<close>
  for \<open>InvalidToken\<close>.\<close>

type_synonym fernet = "bytes \<Rightarrow> bytes option"

definition legacy_fernet :: "(string \<Rightarrow> fernet option) \<Rightarrow> pii_source \<Rightarrow> string option \<Rightarrow> pii_mig_error + fernet option" where
  "legacy_fernet fernet_new source old_key =
     (if source \<noteq> Legacy_fernet then Inr None
      else
        (case or_else old_key None of
           None \<Rightarrow> Inl (Fernet_key_error ''OLD_FERNET_KEY is required for legacy-fernet migration'')
         | Some k \<Rightarrow>
             (case fernet_new k of
                None \<Rightarrow> Inl (Fernet_key_error ''OLD_FERNET_KEY is not a valid Fernet key'')
              | Some f \<Rightarrow> Inr (Some f))))"

definition is_ascii_text :: "string \<Rightarrow> bool" where
  "is_ascii_text s \<longleftrightarrow> list_all (\<lambda>c. ord c < 128) s"

text \<open>\<open>fernet.decrypt(value.encode('ascii')).decode('utf-8')\<close>\<close>

definition fernet_plaintext :: "fernet \<Rightarrow> string \<Rightarrow> string option" where
  "fernet_plaintext f v =
     (if \<not> is_ascii_text v then None
      else (case f (utf8_encode v) of None \<Rightarrow> None | Some m \<Rightarrow> utf8_decode m))"

text \<open>\<open>_convert\<close>: the stored text and whether it changed; \<open>None\<close> is any exception, all of which the caller
  turns into the same rejection.\<close>

definition convert :: "aead \<Rightarrow> bytes \<Rightarrow> bytes \<Rightarrow> string \<Rightarrow> pii_source \<Rightarrow> fernet option \<Rightarrow> (string \<times> bool) option" where
  "convert lib key nonce v source f =
     (if startswith v ENVELOPE_PREFIX
      then (case decrypt lib key (Some v) of Inl _ \<Rightarrow> None | Inr _ \<Rightarrow> Some (v, False))
      else
        (case source of
           Legacy_chacha \<Rightarrow> (case migrate_legacy_ciphertext lib key nonce v of Inr (Some e) \<Rightarrow> Some (e, True) | _ \<Rightarrow> None)
         | Legacy_fernet \<Rightarrow>
             (case f of
                None \<Rightarrow> None
              | Some d \<Rightarrow>
                  (case fernet_plaintext d v of
                     None \<Rightarrow> None
                   | Some p \<Rightarrow> map_option (\<lambda>e. (e, True)) (encrypt lib key nonce (Some p))))
         | Marked_plaintext \<Rightarrow> (case migrate_legacy_plaintext lib key nonce v of Inr (Some e) \<Rightarrow> Some (e, True) | _ \<Rightarrow> None)))"

section \<open>The run\<close>

record pii_run =
  pr_lib :: aead
  pr_key :: bytes
  pr_nonce :: "nat \<Rightarrow> bytes"
  pr_source :: pii_source
  pr_fernet :: "fernet option"
  pr_capacity :: "string \<Rightarrow> string \<Rightarrow> nat option"
  pr_types :: reflected
  pr_pepper :: pepper_config

record field_state =
  fs_updates :: "(string \<times> sql_value option) list"
  fs_drawn :: nat
  fs_converted :: int

text \<open>One field of one row: its new text and, for a licence, the keyed index of the plaintext.\<close>

definition migrate_field :: "pii_run \<Rightarrow> string \<Rightarrow> row \<Rightarrow> string \<Rightarrow> field_state \<Rightarrow> pii_mig_error + field_state" where
  "migrate_field run tab r field s =
     (case r field of
        None \<Rightarrow> Inr s
      | Some (SText v) \<Rightarrow>
          (case convert (pr_lib run) (pr_key run) (pr_nonce run (fs_drawn s)) v (pr_source run) (pr_fernet run) of
             None \<Rightarrow> Inl (Rejected_value tab field (r ''id''))
           | Some (migrated, changed) \<Rightarrow>
               if (case pr_capacity run tab field of None \<Rightarrow> False | Some n \<Rightarrow> n < length migrated)
               then Inl (Rejected_value tab field (r ''id''))
               else if \<not> changed then Inr s
               else
                 (let s1 = s\<lparr>fs_updates := fs_updates s @ [(field, Some (SText migrated))], fs_drawn := fs_drawn s + 1,
                            fs_converted := fs_converted s + 1\<rparr> in
                  (case LICENCE_HASH_COLUMNS tab field of
                     None \<Rightarrow> Inr s1
                   | Some hc \<Rightarrow>
                       if pr_types run tab hc = None then Inr s1
                       else
                         (case decrypt (pr_lib run) (pr_key run) (Some migrated) of
                            Inl _ \<Rightarrow> Inl (Rejected_value tab field (r ''id''))
                          | Inr p \<Rightarrow>
                              (case hash_lic (pr_pepper run) p of
                                 Inl e \<Rightarrow> Inl (Hash_error e)
                               | Inr h \<Rightarrow> Inr (s1\<lparr>fs_updates := fs_updates s1 @ [(hc, map_option SText h)]\<rparr>))))))
      | Some _ \<Rightarrow> Inl (Rejected_value tab field (r ''id'')))"

definition apply_updates :: "(string \<times> sql_value option) list \<Rightarrow> row \<Rightarrow> row" where
  "apply_updates us r = fold (\<lambda>(c, v) r. r(c := v)) us r"

record table_state =
  ts_rows :: "row list"
  ts_drawn :: nat
  ts_converted :: int

definition migrate_row :: "pii_run \<Rightarrow> bool \<Rightarrow> string \<Rightarrow> string list \<Rightarrow> row \<Rightarrow> table_state \<Rightarrow> pii_mig_error + table_state" where
  "migrate_row run apply_changes tab flds r s =
     then_do (for_each (migrate_field run tab r) flds
               \<lparr>fs_updates = [], fs_drawn = ts_drawn s, fs_converted = ts_converted s\<rparr>) (\<lambda>fs.
       Inr \<lparr>ts_rows = (if fs_updates fs \<noteq> [] \<and> apply_changes
                        then map (\<lambda>x. if x ''id'' = r ''id'' then apply_updates (fs_updates fs) x else x) (ts_rows s)
                        else ts_rows s),
            ts_drawn = fs_drawn fs, ts_converted = fs_converted fs\<rparr>)"

record run_state =
  rs_tables :: tables
  rs_drawn :: nat
  rs_converted :: int

definition migrate_table :: "pii_run \<Rightarrow> bool \<Rightarrow> string \<times> string list \<Rightarrow> run_state \<Rightarrow> pii_mig_error + run_state" where
  "migrate_table run apply_changes spec s =
     (case spec of (tab, expected) \<Rightarrow>
        (case rs_tables s tab of
           None \<Rightarrow> Inr s
         | Some t \<Rightarrow>
             (let flds = filter (\<lambda>f. pr_types run tab f \<noteq> None) expected in
              if flds = [] then Inr s
              else
                then_do (for_each (migrate_row run apply_changes tab flds) (t_rows t)
                          \<lparr>ts_rows = t_rows t, ts_drawn = rs_drawn s, ts_converted = rs_converted s\<rparr>) (\<lambda>ts.
                  Inr \<lparr>rs_tables = (rs_tables s)(tab \<mapsto> t\<lparr>t_rows := ts_rows ts\<rparr>), rs_drawn = ts_drawn ts,
                       rs_converted = ts_converted ts\<rparr>))))"

text \<open>What a run has read before its first row: the capacities of the columns and the old decryptor.\<close>

definition prepare :: "(string \<Rightarrow> fernet option) \<Rightarrow> pii_run \<Rightarrow> string option \<Rightarrow> tables \<Rightarrow> pii_mig_error + pii_run" where
  "prepare fernet_new run old_key db =
     then_do (validate_encrypted_column_capacity (\<lambda>tab f. if db tab = None then None else pr_types run tab f)) (\<lambda>capacity.
       then_do (legacy_fernet fernet_new (pr_source run) old_key) (\<lambda>f.
         Inr (run\<lparr>pr_capacity := capacity, pr_fernet := f\<rparr>)))"

text \<open>
  \<open>migrate\<close> with the database it leaves: the transaction rolls back on every exception. The environment
  gives the old Fernet key.
\<close>

definition migrate ::
  "(string \<Rightarrow> fernet option) \<Rightarrow> pii_run \<Rightarrow> string option \<Rightarrow> bool \<Rightarrow> tables \<Rightarrow> (pii_mig_error + int) \<times> tables" where
  "migrate fernet_new run old_key apply_changes db =
     (case then_do (prepare fernet_new run old_key db) (\<lambda>run.
             for_each (migrate_table run apply_changes) FIELDS \<lparr>rs_tables = db, rs_drawn = 0, rs_converted = 0\<rparr>) of
        Inl e \<Rightarrow> (Inl e, db)
      | Inr s \<Rightarrow> (Inr (rs_converted s), rs_tables s))"

section \<open>What a stored value stands for\<close>

text \<open>The plaintext of a value under the format the operator names.\<close>

definition stands_for :: "pii_run \<Rightarrow> string \<Rightarrow> string option" where
  "stands_for run v =
     (if startswith v ENVELOPE_PREFIX
      then (case decrypt (pr_lib run) (pr_key run) (Some v) of Inl _ \<Rightarrow> None | Inr p \<Rightarrow> p)
      else
        (case pr_source run of
           Legacy_chacha \<Rightarrow>
             (case decode_payload v of
                Inl _ \<Rightarrow> None
              | Inr c \<Rightarrow> (case decrypt_combined (pr_lib run) (pr_key run) c None of Inl _ \<Rightarrow> None | Inr p \<Rightarrow> Some p))
         | Legacy_fernet \<Rightarrow> (case pr_fernet run of None \<Rightarrow> None | Some f \<Rightarrow> fernet_plaintext f v)
         | Marked_plaintext \<Rightarrow>
             if startswith v LEGACY_PLAINTEXT_PREFIX then Some (drop (length LEGACY_PLAINTEXT_PREFIX) v) else None))"

definition run_ok :: "pii_run \<Rightarrow> bool" where
  "run_ok run \<longleftrightarrow> aead_ok (pr_lib run) \<and> (\<forall>n. length (pr_nonce run n) = NONCE_BYTES)"

abbreviation convert_in :: "pii_run \<Rightarrow> nat \<Rightarrow> string \<Rightarrow> (string \<times> bool) option" where
  "convert_in run n v \<equiv> convert (pr_lib run) (pr_key run) (pr_nonce run n) v (pr_source run) (pr_fernet run)"

lemma encrypt_Some_prefix: "encrypt lib key nonce (Some p) = Some m \<Longrightarrow> startswith m ENVELOPE_PREFIX"
  by (auto simp: encrypt_def)

lemma convert_ok:
  assumes "run_ok run"
    and "convert_in run n v = Some (m, changed)"
  shows "\<exists>p. stands_for run v = Some p \<and> decrypt (pr_lib run) (pr_key run) (Some m) = Inr (Some p)"
    and "startswith m ENVELOPE_PREFIX" and "changed \<longleftrightarrow> \<not> startswith v ENVELOPE_PREFIX" and "\<not> changed \<Longrightarrow> m = v"
proof -
  have reads: "decrypt (pr_lib run) (pr_key run) (Some e) = Inr (Some p)"
    if "encrypt (pr_lib run) (pr_key run) (pr_nonce run n) (Some p) = Some e" for e p
    using decrypt_encrypt [of "pr_lib run" "pr_nonce run n" "pr_key run" "Some p"] that assms(1) by (simp add: run_ok_def)
  have no_none: "decrypt (pr_lib run) (pr_key run) (Some v) \<noteq> Inr None"
    by (auto simp: decrypt_def split: sum.splits)
  show "\<exists>p. stands_for run v = Some p \<and> decrypt (pr_lib run) (pr_key run) (Some m) = Inr (Some p)"
  proof (cases "startswith v ENVELOPE_PREFIX")
    case True
    then show ?thesis using assms(2) no_none by (auto simp: convert_def stands_for_def split: sum.splits option.splits)
  next
    case False
    then obtain p where "stands_for run v = Some p" "encrypt (pr_lib run) (pr_key run) (pr_nonce run n) (Some p) = Some m"
      using assms(2)
      by (auto simp: convert_def stands_for_def migrate_legacy_ciphertext_def migrate_legacy_plaintext_def
          split: pii_source.splits option.splits sum.splits if_splits)
    then show ?thesis using reads by blast
  qed
  show "startswith m ENVELOPE_PREFIX" "changed \<longleftrightarrow> \<not> startswith v ENVELOPE_PREFIX" "\<not> changed \<Longrightarrow> m = v"
    using assms(2) encrypt_Some_prefix
    by (auto simp: convert_def migrate_legacy_ciphertext_def migrate_legacy_plaintext_def
        split: pii_source.splits option.splits sum.splits if_splits)
qed

section \<open>Rows\<close>

definition migrated_field :: "pii_run \<Rightarrow> string \<Rightarrow> row \<Rightarrow> row \<Rightarrow> string \<Rightarrow> bool" where
  "migrated_field run tab r r' f \<longleftrightarrow>
     (case r f of
        None \<Rightarrow> r' f = None
      | Some v \<Rightarrow>
          (\<exists>s m p. v = SText s \<and> r' f = Some (SText m) \<and> stands_for run s = Some p
             \<and> decrypt (pr_lib run) (pr_key run) (Some m) = Inr (Some p) \<and> startswith m ENVELOPE_PREFIX
             \<and> (case pr_capacity run tab f of None \<Rightarrow> True | Some n \<Rightarrow> length m \<le> n)
             \<and> (\<forall>hc. LICENCE_HASH_COLUMNS tab f = Some hc \<and> pr_types run tab hc \<noteq> None \<and> \<not> startswith s ENVELOPE_PREFIX \<longrightarrow>
                   hash_lic (pr_pepper run) (Some p) = Inr (case r' hc of Some (SText h) \<Rightarrow> Some h | _ \<Rightarrow> None))))"

definition touched :: "string \<Rightarrow> string list \<Rightarrow> string set" where
  "touched tab flds = set flds \<union> {hc. \<exists>f \<in> set flds. LICENCE_HASH_COLUMNS tab f = Some hc}"

lemma apply_updates_other: "c \<notin> fst ` set us \<Longrightarrow> apply_updates us r c = r c"
  unfolding apply_updates_def by (induction us arbitrary: r) (simp_all add: case_prod_beta)

lemma apply_updates_append: "apply_updates (us @ vs) r = apply_updates vs (apply_updates us r)"
  by (simp add: apply_updates_def)

lemma apply_updates_Cons: "apply_updates (u # us) r = apply_updates us (r(fst u := snd u))"
  by (simp add: apply_updates_def case_prod_beta)

lemma apply_updates_at: "r1 c = r2 c \<Longrightarrow> apply_updates us r1 c = apply_updates us r2 c"
proof (induction us arbitrary: r1 r2)
  case (Cons u us)
  have "(r1(fst u := snd u)) c = (r2(fst u := snd u)) c" using Cons.prems by (simp only: fun_upd_apply)
  then show ?case unfolding apply_updates_Cons by (rule Cons.IH)
qed (simp add: apply_updates_def)

lemma licence_field_unique:
  "LICENCE_HASH_COLUMNS tab f = Some hc \<Longrightarrow> LICENCE_HASH_COLUMNS tab g = Some hc' \<Longrightarrow> f = g"
  by (auto simp: LICENCE_HASH_COLUMNS_def split: if_splits)

lemma migrate_field_effect:
  assumes "run_ok run" and "migrate_field run tab r f s = Inr s'" and "LICENCE_HASH_COLUMNS tab f \<noteq> Some f"
  shows "\<exists>us. fs_updates s' = fs_updates s @ us \<and> fst ` set us \<subseteq> touched tab [f]
    \<and> migrated_field run tab r (apply_updates us r) f"
proof (cases "r f")
  case None
  then have "fs_updates s' = fs_updates s @ []" using assms(2) by (simp add: migrate_field_def)
  moreover have "migrated_field run tab r (apply_updates [] r) f" using None by (simp add: migrated_field_def apply_updates_def)
  ultimately show ?thesis by (metis empty_iff empty_set image_empty subsetI)
next
  case (Some v)
  then obtain w where w: "v = SText w" using assms(2) by (cases v) (simp_all add: migrate_field_def)
  obtain m changed where c: "convert_in run (fs_drawn s) w = Some (m, changed)"
    and cap: "case pr_capacity run tab f of None \<Rightarrow> True | Some n \<Rightarrow> length m \<le> n"
    using assms(2) Some w by (auto simp: migrate_field_def split: option.splits if_splits)
  note ok = convert_ok [OF assms(1) c]
  obtain p where p: "stands_for run w = Some p" "decrypt (pr_lib run) (pr_key run) (Some m) = Inr (Some p)" using ok(1) by blast
  show ?thesis
  proof (cases changed)
    case False
    then have "fs_updates s' = fs_updates s @ []" using assms(2) Some w c cap by (auto simp: migrate_field_def split: option.splits if_splits)
    moreover have "migrated_field run tab r (apply_updates [] r) f"
      using Some w p ok(2,3,4) False cap by (auto simp: migrated_field_def apply_updates_def)
    ultimately show ?thesis by (metis empty_iff empty_set image_empty subsetI)
  next
    case True
    show ?thesis
    proof (cases "\<exists>hc. LICENCE_HASH_COLUMNS tab f = Some hc \<and> pr_types run tab hc \<noteq> None")
      case False
      then have "fs_updates s' = fs_updates s @ [(f, Some (SText m))]"
        using assms(2) Some w c cap True by (auto simp: migrate_field_def Let_def split: option.splits if_splits)
      moreover have "migrated_field run tab r (apply_updates [(f, Some (SText m))] r) f"
        using Some w p ok(2,3) True cap False by (auto simp: migrated_field_def apply_updates_def)
      ultimately show ?thesis by (intro exI [of _ "[(f, Some (SText m))]"]) (simp add: touched_def)
    next
      case hc: True
      then obtain hc where hc: "LICENCE_HASH_COLUMNS tab f = Some hc" "pr_types run tab hc \<noteq> None" by blast
      then obtain h where h: "hash_lic (pr_pepper run) (Some p) = Inr h"
        and us: "fs_updates s' = fs_updates s @ [(f, Some (SText m)), (hc, map_option SText h)]"
        using assms(2) Some w c cap True p(2) by (auto simp: migrate_field_def Let_def split: option.splits if_splits sum.splits)
      have "hc \<noteq> f" using assms(3) hc(1) by auto
      then have "migrated_field run tab r (apply_updates [(f, Some (SText m)), (hc, map_option SText h)] r) f"
        using Some w p ok(2,3) True cap hc h by (auto simp: migrated_field_def apply_updates_def split: option.splits)
      with us hc(1) show ?thesis by (intro exI [of _ "[(f, Some (SText m)), (hc, map_option SText h)]"]) (simp add: touched_def)
    qed
  qed
qed

text \<open>The fields of one row, one after the other: a later field touches nothing of an earlier one.\<close>

definition separate :: "string \<Rightarrow> string list \<Rightarrow> bool" where
  "separate tab flds \<longleftrightarrow> distinct flds \<and> ''id'' \<notin> touched tab flds
     \<and> (\<forall>f \<in> set flds. \<forall>hc. LICENCE_HASH_COLUMNS tab f = Some hc \<longrightarrow> hc \<notin> set flds)"

lemma migrated_field_cong:
  assumes "r1 f = r2 f" and "\<And>hc. LICENCE_HASH_COLUMNS tab f = Some hc \<Longrightarrow> r1 hc = r2 hc"
  shows "migrated_field run tab r r1 f = migrated_field run tab r r2 f"
  using assms by (auto simp: migrated_field_def split: option.splits)

lemma migrate_fields_effect:
  assumes "run_ok run" and "separate tab flds" and "for_each (migrate_field run tab r) flds s = Inr s'"
  shows "\<exists>us. fs_updates s' = fs_updates s @ us \<and> fst ` set us \<subseteq> touched tab flds
    \<and> (\<forall>f \<in> set flds. migrated_field run tab r (apply_updates us r) f)"
  using assms(2,3)
proof (induction flds arbitrary: s)
  case (Cons f flds)
  obtain s1 where s1: "migrate_field run tab r f s = Inr s1" and rest: "for_each (migrate_field run tab r) flds s1 = Inr s'"
    using Cons.prems(2) by (auto simp: then_do_Inr_iff)
  have f: "LICENCE_HASH_COLUMNS tab f \<noteq> Some f" using Cons.prems(1) by (auto simp: separate_def)
  obtain us1 where us1: "fs_updates s1 = fs_updates s @ us1" "fst ` set us1 \<subseteq> touched tab [f]"
    "migrated_field run tab r (apply_updates us1 r) f"
    using migrate_field_effect [OF assms(1) s1 f] by blast
  have "separate tab flds" using Cons.prems(1) by (auto simp: separate_def touched_def)
  then obtain us2 where us2: "fs_updates s' = fs_updates s1 @ us2" "fst ` set us2 \<subseteq> touched tab flds"
    "\<forall>g \<in> set flds. migrated_field run tab r (apply_updates us2 r) g"
    using Cons.IH [OF _ rest] by blast
  have apart: "touched tab [f] \<inter> touched tab flds = {}"
    using Cons.prems(1) licence_field_unique by (fastforce simp: separate_def touched_def)
  have first: "apply_updates (us1 @ us2) r c = apply_updates us1 r c" if "c \<in> touched tab [f]" for c
  proof -
    have "c \<notin> fst ` set us2" using that apart us2(2) by blast
    then show ?thesis by (simp add: apply_updates_append apply_updates_other)
  qed
  have second: "apply_updates (us1 @ us2) r c = apply_updates us2 r c" if "c \<in> touched tab flds" for c
  proof -
    have "c \<notin> fst ` set us1" using that apart us1(2) by blast
    then have eq: "apply_updates us1 r c = r c" by (rule apply_updates_other)
    then show ?thesis using apply_updates_at [of "apply_updates us1 r" c r, OF eq] by (simp add: apply_updates_append)
  qed
  have "migrated_field run tab r (apply_updates (us1 @ us2) r) f"
    using us1(3) migrated_field_cong [of "apply_updates (us1 @ us2) r" f "apply_updates us1 r" tab run r] first
    by (auto simp: touched_def)
  moreover have "migrated_field run tab r (apply_updates (us1 @ us2) r) g" if "g \<in> set flds" for g
    using us2(3) that migrated_field_cong [of "apply_updates (us1 @ us2) r" g "apply_updates us2 r" tab run r] second
    by (auto simp: touched_def)
  moreover have "fst ` set (us1 @ us2) \<subseteq> touched tab (f # flds)" using us1(2) us2(2) by (auto simp: touched_def)
  ultimately show ?case using us1(1) us2(1) by (intro exI [of _ "us1 @ us2"]) auto
qed (simp add: apply_updates_def)

definition migrated_row :: "pii_run \<Rightarrow> string \<Rightarrow> string list \<Rightarrow> row \<Rightarrow> row \<Rightarrow> bool" where
  "migrated_row run tab flds r r' \<longleftrightarrow> (\<forall>f \<in> set flds. migrated_field run tab r r' f) \<and> (\<forall>c. c \<notin> touched tab flds \<longrightarrow> r' c = r c)"

text \<open>The rows of a table, told apart by their ids.\<close>

lemma migrate_rows_effect:
  assumes "run_ok run" and "separate tab flds"
    and "for_each (migrate_row run True tab flds) rs s = Inr s'" and "ts_rows s = pre @ rs" and "distinct (map (\<lambda>r. r ''id'') (pre @ rs))"
  shows "\<exists>rs'. ts_rows s' = pre @ rs' \<and> list_all2 (migrated_row run tab flds) rs rs'"
  using assms(3-5)
proof (induction rs arbitrary: pre s)
  case (Cons r rs)
  obtain s1 where s1: "migrate_row run True tab flds r s = Inr s1" and rest: "for_each (migrate_row run True tab flds) rs s1 = Inr s'"
    using Cons.prems(1) by (auto simp: then_do_Inr_iff)
  obtain fs where fs: "for_each (migrate_field run tab r) flds \<lparr>fs_updates = [], fs_drawn = ts_drawn s, fs_converted = ts_converted s\<rparr> = Inr fs"
    and rows: "ts_rows s1 = (if fs_updates fs \<noteq> [] then map (\<lambda>x. if x ''id'' = r ''id'' then apply_updates (fs_updates fs) x else x) (ts_rows s) else ts_rows s)"
    using s1 by (auto simp: migrate_row_def then_do_Inr_iff)
  obtain us where us: "fs_updates fs = us" "fst ` set us \<subseteq> touched tab flds" "\<forall>f \<in> set flds. migrated_field run tab r (apply_updates us r) f"
    using migrate_fields_effect [OF assms(1,2) fs] by auto
  let ?r = "apply_updates us r"
  have row: "migrated_row run tab flds r ?r" using us(2,3) apply_updates_other by (fastforce simp: migrated_row_def)
  have id: "?r ''id'' = r ''id''" using us(2) assms(2) by (intro apply_updates_other) (auto simp: separate_def)
  have others: "map (\<lambda>x. if x ''id'' = r ''id'' then apply_updates us x else x) ys = ys" if "r ''id'' \<notin> (\<lambda>x. x ''id'') ` set ys" for ys
    using that by (intro map_idI) (metis image_eqI)
  have "r ''id'' \<notin> (\<lambda>x. x ''id'') ` set pre" "r ''id'' \<notin> (\<lambda>x. x ''id'') ` set rs" using Cons.prems(3) by auto
  then have "map (\<lambda>x. if x ''id'' = r ''id'' then apply_updates us x else x) (pre @ r # rs) = pre @ ?r # rs"
    using others by simp
  then have "ts_rows s1 = (pre @ [?r]) @ rs"
    using rows us(1) Cons.prems(2) by (auto simp: apply_updates_def split: if_splits)
  moreover have "distinct (map (\<lambda>r. r ''id'') ((pre @ [?r]) @ rs))" using Cons.prems(3) id by simp
  ultimately obtain rs' where "ts_rows s' = (pre @ [?r]) @ rs'" "list_all2 (migrated_row run tab flds) rs rs'"
    using Cons.IH [OF rest] by blast
  then show ?case using row by (intro exI [of _ "?r # rs'"]) simp
qed simp


section \<open>Tables\<close>

definition present_fields :: "pii_run \<Rightarrow> string \<Rightarrow> string list" where
  "present_fields run tab =
     filter (\<lambda>f. pr_types run tab f \<noteq> None) (case map_of FIELDS tab of None \<Rightarrow> [] | Some fs \<Rightarrow> fs)"

lemma FIELDS_separate: "(tab, fs) \<in> set FIELDS \<Longrightarrow> separate tab (filter P fs)"
  by (auto simp: FIELDS_def separate_def touched_def LICENCE_HASH_COLUMNS_def split: if_splits)

lemma FIELDS_distinct: "distinct (map fst FIELDS)"
  by (simp add: FIELDS_def)

lemma present_fields_separate: "separate tab (present_fields run tab)"
proof (cases "map_of FIELDS tab")
  case (Some fs)
  then show ?thesis using FIELDS_separate [OF map_of_SomeD [OF Some]] by (simp add: present_fields_def)
qed (simp add: present_fields_def separate_def touched_def)

text \<open>A table before and after: the same table but for its rows, which are migrated one by one.\<close>

definition migrated_table :: "pii_run \<Rightarrow> string \<Rightarrow> table option \<Rightarrow> table option \<Rightarrow> bool" where
  "migrated_table run tab before after \<longleftrightarrow>
     (case before of
        None \<Rightarrow> after = None
      | Some t \<Rightarrow> \<exists>rs. after = Some (t\<lparr>t_rows := rs\<rparr>) \<and> list_all2 (migrated_row run tab (present_fields run tab)) (t_rows t) rs)"

definition ids_distinct :: "tables \<Rightarrow> bool" where
  "ids_distinct db \<longleftrightarrow> (\<forall>tab t. db tab = Some t \<longrightarrow> distinct (map (\<lambda>r. r ''id'') (t_rows t)))"

lemma migrated_row_unchanged: "migrated_row run tab [] r r"
  by (simp add: migrated_row_def)

lemma migrated_table_unchanged:
  assumes "present_fields run tab = [] \<or> before = None" shows "migrated_table run tab before before"
proof (cases before)
  case (Some t)
  then have "list_all2 (migrated_row run tab (present_fields run tab)) (t_rows t) (t_rows t)"
    using assms by (auto intro!: list.rel_refl migrated_row_unchanged)
  then show ?thesis using Some by (auto simp: migrated_table_def intro!: exI [of _ "t_rows t"])
qed (simp add: migrated_table_def)

lemma migrated_rows_ids:
  assumes "list_all2 (migrated_row run tab (present_fields run tab)) rs rs'"
  shows "map (\<lambda>r. r ''id'') rs' = map (\<lambda>r. r ''id'') rs"
  using assms
proof (induction rule: list_all2_induct)
  case (Cons x xs y ys)
  moreover have "y ''id'' = x ''id''" using Cons(1) present_fields_separate [of tab run] by (simp add: migrated_row_def separate_def)
  ultimately show ?case by simp
qed simp

lemma migrated_table_ids:
  assumes "migrated_table run tab before (Some t')" and "\<And>t. before = Some t \<Longrightarrow> distinct (map (\<lambda>r. r ''id'') (t_rows t))"
  shows "distinct (map (\<lambda>r. r ''id'') (t_rows t'))"
proof (cases before)
  case (Some t)
  then obtain rs where rs: "t' = t\<lparr>t_rows := rs\<rparr>" "list_all2 (migrated_row run tab (present_fields run tab)) (t_rows t) rs"
    using assms(1) by (auto simp: migrated_table_def)
  then show ?thesis using assms(2) [OF Some] migrated_rows_ids [OF rs(2)] by simp
qed (use assms(1) in \<open>simp add: migrated_table_def\<close>)

lemma ids_after:
  assumes "ids_distinct db" and "migrated_table run tab (db tab) (db' tab)" and "\<And>c. c \<noteq> tab \<Longrightarrow> db' c = db c"
  shows "ids_distinct db'"
  unfolding ids_distinct_def
proof (intro allI impI)
  fix c t assume t: "db' c = Some t"
  show "distinct (map (\<lambda>r. r ''id'') (t_rows t))"
  proof (cases "c = tab")
    case True
    with t assms(2) have "migrated_table run tab (db tab) (Some t)" by simp
    then show ?thesis using assms(1) by (rule_tac migrated_table_ids) (auto simp: ids_distinct_def)
  next
    case False
    then show ?thesis using t assms(1) assms(3) [OF False] by (simp add: ids_distinct_def)
  qed
qed

lemma migrate_table_effect:
  assumes "run_ok run" and "(tab, fs) \<in> set FIELDS" and "migrate_table run True (tab, fs) s = Inr s'"
    and "\<And>t. rs_tables s tab = Some t \<Longrightarrow> distinct (map (\<lambda>r. r ''id'') (t_rows t))"
  shows "migrated_table run tab (rs_tables s tab) (rs_tables s' tab)" and "c \<noteq> tab \<Longrightarrow> rs_tables s' c = rs_tables s c"
proof -
  let ?flds = "filter (\<lambda>f. pr_types run tab f \<noteq> None) fs"
  have flds: "present_fields run tab = ?flds"
    using map_of_is_SomeI [OF FIELDS_distinct assms(2)] by (simp add: present_fields_def)
  show "c \<noteq> tab \<Longrightarrow> rs_tables s' c = rs_tables s c"
    using assms(3) by (auto simp: migrate_table_def then_do_Inr_iff Let_def split: option.splits if_splits)
  show "migrated_table run tab (rs_tables s tab) (rs_tables s' tab)"
  proof (cases "rs_tables s tab = None \<or> ?flds = []")
    case True
    then have "s' = s" using assms(3) by (auto simp: migrate_table_def split: option.splits)
    then show ?thesis using True flds by (auto intro!: migrated_table_unchanged)
  next
    case False
    then obtain t ts where t: "rs_tables s tab = Some t"
      and ts: "for_each (migrate_row run True tab ?flds) (t_rows t) \<lparr>ts_rows = t_rows t, ts_drawn = rs_drawn s, ts_converted = rs_converted s\<rparr> = Inr ts"
      and s': "rs_tables s' tab = Some (t\<lparr>t_rows := ts_rows ts\<rparr>)"
      using assms(3) by (auto simp: migrate_table_def then_do_Inr_iff Let_def split: option.splits if_splits)
    have "list_all2 (migrated_row run tab ?flds) (t_rows t) (ts_rows ts)"
      using migrate_rows_effect [OF assms(1) FIELDS_separate [OF assms(2)] ts, of "[]"] assms(4) [OF t] by auto
    then show ?thesis using t s' flds by (auto simp: migrated_table_def)
  qed
qed

lemma migrate_tables_effect:
  assumes "run_ok run" and "set specs \<subseteq> set FIELDS" and "distinct (map fst specs)" and "ids_distinct (rs_tables s)"
    and "for_each (migrate_table run True) specs s = Inr s'"
  shows "if tab \<in> fst ` set specs then migrated_table run tab (rs_tables s tab) (rs_tables s' tab)
    else rs_tables s' tab = rs_tables s tab"
  using assms(2-5)
proof (induction specs arbitrary: s)
  case (Cons spec specs)
  obtain c fs where spec: "spec = (c, fs)" by (cases spec)
  obtain s1 where s1: "migrate_table run True (c, fs) s = Inr s1" and rest: "for_each (migrate_table run True) specs s1 = Inr s'"
    using Cons.prems(4) spec by (auto simp: then_do_Inr_iff)
  have dist: "\<And>t. rs_tables s c = Some t \<Longrightarrow> distinct (map (\<lambda>r. r ''id'') (t_rows t))"
    using Cons.prems(3) by (simp add: ids_distinct_def)
  have "(c, fs) \<in> set FIELDS" using Cons.prems(1) spec by auto
  note eff = migrate_table_effect [OF assms(1) this s1 dist]
  have ids: "ids_distinct (rs_tables s1)" using ids_after [OF Cons.prems(3)] eff by metis
  have IH: "if tab \<in> fst ` set specs then migrated_table run tab (rs_tables s1 tab) (rs_tables s' tab)
    else rs_tables s' tab = rs_tables s1 tab"
    using Cons.IH [of s1] Cons.prems(1,2) rest ids by simp
  show ?case
  proof (cases "tab = c")
    case True
    then have "c \<notin> fst ` set specs" using Cons.prems(2) spec by simp
    then show ?thesis using IH eff(1) True spec by simp
  next
    case False
    then show ?thesis using IH eff(2) [of tab] spec by (simp split: if_splits)
  qed
qed simp


section \<open>The whole run\<close>

lemma prepare_ok:
  assumes "prepare fernet_new run old_key db = Inr run'"
  shows "run_ok run' = run_ok run" and "pr_types run' = pr_types run" and "pr_lib run' = pr_lib run" and "pr_key run' = pr_key run"
    and "pr_source run' = pr_source run"
  using assms by (auto simp: prepare_def then_do_Inr_iff run_ok_def)

lemma prepare_same_tables:
  assumes "\<And>tab. (db' tab = None) = (db tab = None)"
  shows "prepare fernet_new run old_key db' = prepare fernet_new run old_key db"
  using assms by (simp add: prepare_def)

lemma migrate_Inr:
  assumes "migrate fernet_new run old_key b db = (Inr n, db')"
  obtains run' s where "prepare fernet_new run old_key db = Inr run'"
    "for_each (migrate_table run' b) FIELDS \<lparr>rs_tables = db, rs_drawn = 0, rs_converted = 0\<rparr> = Inr s"
    "rs_converted s = n" "rs_tables s = db'"
  using assms by (auto simp: migrate_def then_do_Inr_iff split: sum.splits)

text \<open>A dry run writes nothing.\<close>

lemma dry_row: "migrate_row run False tab flds r s = Inr s' \<Longrightarrow> ts_rows s' = ts_rows s"
  by (auto simp: migrate_row_def then_do_Inr_iff)

lemma dry_rows: "for_each (migrate_row run False tab flds) rs s = Inr s' \<Longrightarrow> ts_rows s' = ts_rows s"
  by (induction rs arbitrary: s) (auto simp: then_do_Inr_iff dest: dry_row)

lemma dry_table: "migrate_table run False spec s = Inr s' \<Longrightarrow> rs_tables s' = rs_tables s"
  by (auto simp: migrate_table_def then_do_Inr_iff Let_def split: prod.splits option.splits if_splits dest!: dry_rows)

lemma dry_tables: "for_each (migrate_table run False) specs s = Inr s' \<Longrightarrow> rs_tables s' = rs_tables s"
  by (induction specs arbitrary: s) (auto simp: then_do_Inr_iff dest: dry_table)

lemma migrate_unchanged: "\<not> b \<or> (\<exists>e. fst (migrate fernet_new run old_key b db) = Inl e) \<Longrightarrow> snd (migrate fernet_new run old_key b db) = db"
  by (cases b) (auto simp: migrate_def then_do_Inr_iff split: sum.splits dest!: dry_tables)

text \<open>A run over rows that are already migrated converts nothing, whatever its source and nonces.\<close>

definition current_field :: "pii_run \<Rightarrow> string \<Rightarrow> row \<Rightarrow> string \<Rightarrow> bool" where
  "current_field run tab r f \<longleftrightarrow>
     (case r f of
        None \<Rightarrow> True
      | Some v \<Rightarrow> \<exists>m p. v = SText m \<and> startswith m ENVELOPE_PREFIX \<and> decrypt (pr_lib run) (pr_key run) (Some m) = Inr p
          \<and> (case pr_capacity run tab f of None \<Rightarrow> True | Some n \<Rightarrow> length m \<le> n))"

lemma migrated_is_current: "migrated_field run tab r r' f \<Longrightarrow> current_field run tab r' f"
  by (auto simp: migrated_field_def current_field_def split: option.splits)

lemma current_field_kept: "current_field run tab r f \<Longrightarrow> migrate_field run tab r f s = Inr s"
  by (auto simp: migrate_field_def current_field_def convert_def split: option.splits)

lemma current_fields_kept: "\<forall>f \<in> set flds. current_field run tab r f \<Longrightarrow> for_each (migrate_field run tab r) flds s = Inr s"
  by (induction flds) (simp_all add: current_field_kept)

lemma current_row_kept:
  assumes "\<forall>f \<in> set flds. current_field run tab r f" shows "migrate_row run b tab flds r s = Inr s"
  using assms by (cases s) (simp add: migrate_row_def current_fields_kept)

lemma current_rows_kept:
  assumes "\<forall>r \<in> set rs. \<forall>f \<in> set flds. current_field run tab r f"
  shows "for_each (migrate_row run b tab flds) rs s = Inr s"
  using assms by (induction rs) (simp_all add: current_row_kept)

lemma current_table_kept:
  assumes "(tab, fs) \<in> set FIELDS"
    and "\<And>t. rs_tables s tab = Some t \<Longrightarrow> \<forall>r \<in> set (t_rows t). \<forall>f \<in> set (present_fields run tab). current_field run tab r f"
  shows "migrate_table run b (tab, fs) s = Inr s"
proof -
  have "present_fields run tab = filter (\<lambda>f. pr_types run tab f \<noteq> None) fs"
    using map_of_is_SomeI [OF FIELDS_distinct assms(1)] by (simp add: present_fields_def)
  then show ?thesis
    using assms(2) by (cases s) (auto simp: migrate_table_def Let_def current_rows_kept fun_upd_idem split: option.splits)
qed

lemma migrated_rows_current:
  assumes "list_all2 (migrated_row run tab flds) rs rs'"
  shows "\<forall>r \<in> set rs'. \<forall>f \<in> set flds. current_field run tab r f"
  using assms by (induction rule: list_all2_induct) (auto simp: migrated_row_def intro: migrated_is_current)

lemma migrated_tables_kept:
  assumes "set specs \<subseteq> set FIELDS" and "\<And>tab. tab \<in> fst ` set FIELDS \<Longrightarrow> migrated_table run tab (db tab) (rs_tables s tab)"
  shows "for_each (migrate_table run b) specs s = Inr s"
  using assms(1)
proof (induction specs)
  case (Cons spec specs)
  obtain tab fs where spec: "spec = (tab, fs)" by (cases spec)
  then have in_F: "(tab, fs) \<in> set FIELDS" using Cons.prems by simp
  then have "migrated_table run tab (db tab) (rs_tables s tab)" using assms(2) by force
  then have "migrate_table run b (tab, fs) s = Inr s"
    by (intro current_table_kept [OF in_F]) (auto simp: migrated_table_def dest!: migrated_rows_current split: option.splits)
  then show ?case using Cons spec by simp
qed simp

lemma migrated_table_None: "migrated_table run tab x y \<Longrightarrow> (y = None) = (x = None)"
  by (auto simp: migrated_table_def split: option.splits)

lemma migrate_effect:
  assumes "run_ok run" and "ids_distinct db" and "migrate fernet_new run old_key True db = (Inr n, db')"
  obtains run' where "prepare fernet_new run old_key db = Inr run'"
    and "\<And>tab. tab \<in> fst ` set FIELDS \<Longrightarrow> migrated_table run' tab (db tab) (db' tab)"
    and "\<And>tab. tab \<notin> fst ` set FIELDS \<Longrightarrow> db' tab = db tab"
proof -
  obtain run' s where s: "prepare fernet_new run old_key db = Inr run'"
    "for_each (migrate_table run' True) FIELDS \<lparr>rs_tables = db, rs_drawn = 0, rs_converted = 0\<rparr> = Inr s" "rs_tables s = db'"
    using migrate_Inr [OF assms(3)] by metis
  have ok: "run_ok run'" using assms(1) prepare_ok(1) [OF s(1)] by simp
  have "if tab \<in> fst ` set FIELDS then migrated_table run' tab (db tab) (db' tab) else db' tab = db tab" for tab
    using migrate_tables_effect [OF ok subset_refl FIELDS_distinct _ s(2), of tab] assms(2) s(3) by (simp split: if_splits)
  then show ?thesis using that [OF s(1)] by presburger
qed


section \<open>A run\<close>

definition sample_run :: pii_run where
  "sample_run = \<lparr>pr_lib = toy_aead, pr_key = [], pr_nonce = (\<lambda>n. replicate 12 1), pr_source = Marked_plaintext,
     pr_fernet = None, pr_capacity = (\<lambda>tab f. None),
     pr_types = (\<lambda>tab f. if tab = ''user'' \<and> f = ''driver_lic_no'' then Some (String_type (Some 255)) else None),
     pr_pepper = undefined\<rparr>"

definition sample_users :: tables where
  "sample_users tab =
     (if tab = ''user''
      then Some \<lparr>t_columns = [], t_uniques = [], t_fks = [], t_indexes = [],
                 t_rows = [\<lambda>c. if c = ''id'' then Some (SInt 1) else if c = ''driver_lic_no'' then Some (SText ''svpii:legacy-plaintext:v0:7'') else None,
                           \<lambda>c. if c = ''id'' then Some (SInt 2) else None]\<rparr>
      else None)"

lemma sample_migrates: "fst (migrate (\<lambda>k. None) sample_run None True sample_users) = Inr 1"
  by code_simp


end
