(* ===== verification/Schema_Revisions.thy ===== *)
theory Schema_Revisions
  imports Election_Scope_Correct Pii_Migration
begin

text \<open>
  The revisions under \<^verbatim>\<open>migrations/versions\<close> around the election-scope one, and the chain their
  \<open>down_revision\<close> fields give: \<^verbatim>\<open>20251005_add_uq_vote_user.py\<close>, \<^verbatim>\<open>20260714_election_scope.py\<close>,
  \<^verbatim>\<open>20260714_server_side_otp.py\<close>, \<^verbatim>\<open>20260714_auth_session_version.py\<close>, \<^verbatim>\<open>20260714_pii_envelope_v1.py\<close>.

  Two things come from outside: the tables \<open>create_all\<close> builds from the models, and what Alembic's
  rebuild of a table in batch mode leaves of it. Check constraints are not part of a table here.
\<close>

section \<open>One vote per user in the old schema\<close>

definition upgrade_uq_vote_user :: "bool \<Rightarrow> tables \<Rightarrow> tables \<Rightarrow> sql_error + tables" where
  "upgrade_uq_vote_user fk_checked created db =
     (case db ''vote'' of
        None \<Rightarrow> Inr (\<lambda>n. case db n of None \<Rightarrow> created n | Some t \<Rightarrow> Some t)
      | Some v \<Rightarrow>
          if ''user_id'' \<notin> set (column_names v) then Inr db
          else if has_unique v [''user_id''] then Inr db
          else batch_alter_table fk_checked ''vote'' [Create_unique ''uq_vote_user'' [''user_id'']] db)"

definition downgrade_uq_vote_user :: "bool \<Rightarrow> tables \<Rightarrow> sql_error + tables" where
  "downgrade_uq_vote_user fk_checked db =
     (case db ''vote'' of
        None \<Rightarrow> Inr db
      | Some v \<Rightarrow>
          if Some ''uq_vote_user'' \<in> set (map uq_name (t_uniques v))
          then batch_alter_table fk_checked ''vote'' [Drop_unique ''uq_vote_user''] db else Inr db)"

section \<open>Codes kept on the server\<close>

definition otp_challenge_table :: table where
  "otp_challenge_table = fresh_table
     [(''id'', False), (''user_id'', False), (''purpose'', False), (''code_digest'', False), (''expires_at'', False),
      (''failed_attempts'', False), (''consumed_at'', True), (''created_at'', False)]
     [(Some ''uq_otp_challenge_user_purpose'', [''user_id'', ''purpose''])] [([''user_id''], ''user'')]
     [(''ix_otp_challenge_user_id'', [''user_id''])]"

definition upgrade_server_side_otp :: "tables \<Rightarrow> sql_error + tables" where
  "upgrade_server_side_otp db =
     (if db ''otp_challenge'' \<noteq> None then Inr db else create_table ''otp_challenge'' otp_challenge_table db)"

definition downgrade_server_side_otp :: "bool \<Rightarrow> tables \<Rightarrow> sql_error + tables" where
  "downgrade_server_side_otp fk_checked db =
     then_do (on_table ''otp_challenge'' (alter_table fk_checked db ''otp_challenge'' (Drop_index ''ix_otp_challenge_user_id'')) db)
       (\<lambda>db. Inr (db(''otp_challenge'' := None)))"

section \<open>The session version\<close>

definition upgrade_auth_session_version :: "tables \<Rightarrow> sql_error + tables" where
  "upgrade_auth_session_version db =
     then_do (table_of db ''user'') (\<lambda>u.
       if ''session_version'' \<notin> set (column_names u)
       then add_column ''user'' ''session_version'' False (Some (SInt 0)) db else Inr db)"

definition downgrade_auth_session_version :: "bool \<Rightarrow> tables \<Rightarrow> sql_error + tables" where
  "downgrade_auth_session_version fk_checked db =
     then_do (table_of db ''user'') (\<lambda>u.
       if ''session_version'' \<in> set (column_names u)
       then batch_alter_table fk_checked ''user'' [Drop_column ''session_version''] db else Inr db)"

section \<open>Room for the envelope\<close>

definition TARGET_LENGTHS :: "(string \<times> (string \<times> nat) list) list" where
  "TARGET_LENGTHS =
     [(''user'', [(''driver_lic_no'', 255)]),
      (''electoral_roll'', [(''driver_license_number'', 255), (''full_name'', 1536), (''address_line1'', 1536),
        (''address_line2'', 1536), (''suburb'', 1536), (''state'', 512), (''postcode'', 512)])]"

text \<open>Only text types report a length.\<close>

definition widen_columns :: "reflected \<Rightarrow> string \<Rightarrow> (string \<times> nat) list \<Rightarrow> (string \<times> nat) list" where
  "widen_columns types tab targets =
     filter (\<lambda>(c, n). case types tab c of Some (String_type (Some old)) \<Rightarrow> old < n | _ \<Rightarrow> False) targets"

definition widened :: "reflected \<Rightarrow> string \<Rightarrow> (string \<times> nat) list \<Rightarrow> reflected" where
  "widened types tab changes =
     (\<lambda>t c. if t = tab then (case map_of changes c of Some n \<Rightarrow> Some (String_type (Some n)) | None \<Rightarrow> types t c) else types t c)"

definition widen_table :: "(table \<Rightarrow> table) \<Rightarrow> string \<times> (string \<times> nat) list \<Rightarrow> tables \<times> reflected \<Rightarrow> sql_error + tables \<times> reflected" where
  "widen_table recreated spec s =
     (case (spec, s) of ((tab, targets), (db, types)) \<Rightarrow>
        (case db tab of
           None \<Rightarrow> Inr (db, types)
         | Some t \<Rightarrow>
             (let changes = widen_columns types tab targets in
              if changes = [] then Inr (db, types) else Inr (db(tab \<mapsto> recreated t), widened types tab changes))))"

definition rebuild_with :: "bool \<Rightarrow> (table \<Rightarrow> table) \<Rightarrow> string \<Rightarrow> ddl list \<Rightarrow> tables \<Rightarrow> sql_error + tables" where
  "rebuild_with fk_checked recreated tab ds db =
     then_do (on_table tab (\<lambda>t. Inr (recreated t)) db) (batch_alter_table fk_checked tab ds)"

definition ciphertext_unique_constraints :: "table \<Rightarrow> string list" where
  "ciphertext_unique_constraints t =
     List.map_filter (\<lambda>u. case uq_name u of
         Some n \<Rightarrow> if n \<noteq> [] \<and> uq_columns u = [''driver_license_number''] then Some n else None
       | None \<Rightarrow> None) (t_uniques t)"

text \<open>The uniqueness of the roll moves from the ciphertext to the keyed index.\<close>

definition index_licence_hash :: "bool \<Rightarrow> (table \<Rightarrow> table) \<Rightarrow> tables \<Rightarrow> sql_error + tables" where
  "index_licence_hash fk_checked recreated db =
     (case db ''electoral_roll'' of
        None \<Rightarrow> Inr db
      | Some t \<Rightarrow>
          then_do (let ns = ciphertext_unique_constraints t in
                   if ns = [] then Inr db else rebuild_with fk_checked recreated ''electoral_roll'' (map Drop_unique ns) db) (\<lambda>db1.
            if ''driver_license_hash'' \<in> set (column_names t) \<and> \<not> has_unique (schema_of db1 ''electoral_roll'') [''driver_license_hash'']
            then rebuild_with fk_checked recreated ''electoral_roll''
                   [Create_unique ''uq_electoral_roll_driver_license_hash'' [''driver_license_hash'']] db1
            else Inr db1))"

definition upgrade_pii_envelope :: "bool \<Rightarrow> (table \<Rightarrow> table) \<Rightarrow> tables \<times> reflected \<Rightarrow> sql_error + tables \<times> reflected" where
  "upgrade_pii_envelope fk_checked recreated s =
     then_do (for_each (widen_table recreated) TARGET_LENGTHS s) (\<lambda>(db, types).
       then_do (index_licence_hash fk_checked recreated db) (\<lambda>db. Inr (db, types)))"

section \<open>The chain\<close>

definition run_revisions :: "mig_env \<Rightarrow> tables \<Rightarrow> (table \<Rightarrow> table) \<Rightarrow> tables \<times> reflected \<Rightarrow> sql_error + tables \<times> reflected" where
  "run_revisions env created recreated s =
     (let fk_checked = \<not> mig_sqlite env in
      case s of (db, types) \<Rightarrow>
        then_do (upgrade_uq_vote_user fk_checked created db) (\<lambda>db.
        then_do (fst (upgrade env db True)) (\<lambda>db.
        then_do (upgrade_server_side_otp db) (\<lambda>db.
        then_do (upgrade_auth_session_version db) (\<lambda>db.
          upgrade_pii_envelope fk_checked recreated (db, types))))))"

section \<open>What each revision touches\<close>

definition rebuild_ok :: "(table \<Rightarrow> table) \<Rightarrow> bool" where
  "rebuild_ok recreated \<longleftrightarrow> (\<forall>t. t_rows (recreated t) = t_rows t \<and> t_columns (recreated t) = t_columns t
     \<and> set (t_uniques (recreated t)) \<subseteq> set (t_uniques t))"

lemma rebuilt_typed:
  assumes "rebuild_ok recreated" and "typed t"
  shows "typed (recreated t)"
proof -
  have r: "t_rows (recreated t) = t_rows t" "t_columns (recreated t) = t_columns t" "set (t_uniques (recreated t)) \<subseteq> set (t_uniques t)"
    using assms(1) by (simp_all add: rebuild_ok_def)
  then have "rows_ok (recreated t)" using assms(2) by (auto simp: typed_def rows_ok_def list_all_iff)
  then show ?thesis using assms(2) r by (auto simp: typed_def column_names_def)
qed

lemma well_typed_upd: "well_typed db \<Longrightarrow> typed t \<Longrightarrow> well_typed (db(n \<mapsto> t))"
  by (simp add: well_typed_def)

lemma well_typedD: "well_typed db \<Longrightarrow> db n = Some t \<Longrightarrow> typed t"
  by (simp add: well_typed_def)

text \<open>A revision that leaves the other tables alone and keeps the typing.\<close>

definition confined :: "string set \<Rightarrow> tables \<Rightarrow> tables \<Rightarrow> bool" where
  "confined S db db' \<longleftrightarrow> (\<forall>n. n \<notin> S \<longrightarrow> db' n = db n) \<and> (\<forall>n. db n \<noteq> None \<longrightarrow> db' n \<noteq> None) \<and> (well_typed db \<longrightarrow> well_typed db')"

interpretation cf: step_relation "confined S" for S
  by unfold_locales (auto simp: confined_def)

lemma confined_batch: "batch_alter_table fk n ds db = Inr db' \<Longrightarrow> confined {n} db db'"
proof -
  assume b: "batch_alter_table fk n ds db = Inr db'"
  have "\<forall>m. (m \<noteq> n \<longrightarrow> db' m = db m) \<and> (db m \<noteq> None \<longrightarrow> db' m \<noteq> None)"
    using b unfolding batch_alter_table_def
    by (rule for_each_invariant [where I = "\<lambda>x. \<forall>m. (m \<noteq> n \<longrightarrow> x m = db m) \<and> (db m \<noteq> None \<longrightarrow> x m \<noteq> None)"])
      (auto elim!: on_table_InrD split: if_splits)
  then show ?thesis using well_typed_batch [OF b] by (simp add: confined_def)
qed

lemma confined_on_table:
  assumes "on_table n f db = Inr db'" and "\<And>t t'. typed t \<Longrightarrow> f t = Inr t' \<Longrightarrow> typed t'"
  shows "confined {n} db db'"
proof (rule on_table_InrD [OF assms(1)])
  fix t t' assume t: "db n = Some t" "f t = Inr t'" "db' = db(n \<mapsto> t')"
  have "well_typed db \<longrightarrow> well_typed db'" using well_typed_on_table [OF assms(1)] assms(2) by blast
  then show ?thesis using t by (simp add: confined_def)
qed

lemma confined_rebuild:
  assumes "rebuild_with fk recreated n ds db = Inr db'" and "rebuild_ok recreated"
  shows "confined {n} db db'"
proof -
  obtain db1 where "on_table n (\<lambda>t. Inr (recreated t)) db = Inr db1" "batch_alter_table fk n ds db1 = Inr db'"
    using assms(1) by (auto simp: rebuild_with_def then_do_Inr_iff)
  moreover from this(1) have "confined {n} db db1"
    by (rule confined_on_table) (auto intro: rebuilt_typed [OF assms(2)])
  ultimately show ?thesis using confined_batch cf.kept_trans by blast
qed

lemma confined_mono: "confined S db db' \<Longrightarrow> S \<subseteq> T \<Longrightarrow> confined T db db'"
  by (auto simp: confined_def)

lemma confined_otp: "upgrade_server_side_otp db = Inr db' \<Longrightarrow> confined {''otp_challenge''} db db' \<and> db' ''otp_challenge'' \<noteq> None"
proof -
  assume u: "upgrade_server_side_otp db = Inr db'"
  have "typed otp_challenge_table"
    by (simp add: otp_challenge_table_def fresh_table_def typed_def rows_ok_def column_names_def unique_holds_def not_null_holds_def List.map_filter_def)
  then have "create_table ''otp_challenge'' otp_challenge_table db = Inr db' \<Longrightarrow> well_typed db \<Longrightarrow> well_typed db'"
    using well_typed_statements(5) by blast
  then show ?thesis using u
    by (auto simp: upgrade_server_side_otp_def confined_def create_table_def split: if_splits)
qed

lemma confined_session: "upgrade_auth_session_version db = Inr db' \<Longrightarrow> confined {''user''} db db' \<and> has_column db' ''user'' ''session_version''"
proof -
  assume u: "upgrade_auth_session_version db = Inr db'"
  then obtain t where t: "db ''user'' = Some t" by (auto simp: upgrade_auth_session_version_def table_of_def then_do_Inr_iff split: option.splits)
  show ?thesis
  proof (cases "''session_version'' \<in> set (column_names t)")
    case True
    then show ?thesis using u t by (simp add: upgrade_auth_session_version_def table_of_def has_column_def schema_of_def confined_def)
  next
    case False
    then have a: "add_column ''user'' ''session_version'' False (Some (SInt 0)) db = Inr db'"
      using u t by (simp add: upgrade_auth_session_version_def table_of_def)
    have wt: "well_typed db \<longrightarrow> well_typed db'" using well_typed_statements(4) a by blast
    show ?thesis
    proof (rule on_table_InrD [OF a [unfolded add_column_def]])
      fix t t' assume "db ''user'' = Some t" "db' = db(''user'' \<mapsto> t')"
        "(if ''session_version'' \<in> set (column_names t) then Inl (DuplicateColumn ''user'' ''session_version'')
          else checked ''user'' (t\<lparr>t_columns := t_columns t @ [\<lparr>col_name = ''session_version'', col_nullable = False, col_default = Some (SInt 0)\<rparr>],
                 t_rows := map (\<lambda>r. r(''session_version'' := Some (SInt 0))) (t_rows t)\<rparr>)) = Inr t'"
      then show ?thesis using wt by (auto simp: confined_def has_column_def schema_of_def column_names_def split: if_splits)
    qed
  qed
qed

lemma kept_columns:
  assumes "confined S db db'" and "n \<notin> S" shows "schema_of db' n = schema_of db n"
  using assms by (simp add: confined_def schema_of_def)


section \<open>Wide enough columns\<close>

definition roomy :: "reflected \<Rightarrow> string \<Rightarrow> string \<times> nat \<Rightarrow> bool" where
  "roomy types tab target \<longleftrightarrow>
     (case types tab (fst target) of Some (String_type (Some n)) \<Rightarrow> snd target \<le> n | _ \<Rightarrow> True)"

lemma widen_columns_empty: "widen_columns types tab targets = [] \<longleftrightarrow> list_all (roomy types tab) targets"
  by (induction targets) (auto simp: widen_columns_def roomy_def split: option.splits column_type.splits)

lemma widened_roomy:
  assumes "distinct (map fst targets)"
  shows "list_all (roomy (widened types tab (widen_columns types tab targets)) tab) targets"
proof -
  have "roomy (widened types tab (widen_columns types tab targets)) tab (c, n)" if "(c, n) \<in> set targets" for c n
  proof (cases "(c, n) \<in> set (widen_columns types tab targets)")
    case True
    have "distinct (map fst (widen_columns types tab targets))" using assms unfolding widen_columns_def by (rule distinct_map_filter)
    then have "map_of (widen_columns types tab targets) c = Some n" using True by (rule map_of_is_SomeI)
    then show ?thesis by (simp add: roomy_def widened_def)
  next
    case False
    have "m = n" if "(c, m) \<in> set (widen_columns types tab targets)" for m
      using that \<open>(c, n) \<in> set targets\<close> assms eq_key_imp_eq_value by (fastforce simp: widen_columns_def)
    then have "map_of (widen_columns types tab targets) c = None" using False by (cases "map_of (widen_columns types tab targets) c") (auto dest: map_of_SomeD)
    moreover have "roomy types tab (c, n)"
      using False that by (auto simp: widen_columns_def roomy_def split: option.splits column_type.splits)
    ultimately show ?thesis by (simp add: roomy_def widened_def)
  qed
  then show ?thesis by (auto simp: list_all_iff)
qed

lemma widen_table_effect:
  assumes "widen_table recreated (tab, targets) (db, types) = Inr (db', types')" and "distinct (map fst targets)" and "rebuild_ok recreated"
  shows "confined {tab} db db'" and "db tab \<noteq> None \<longrightarrow> list_all (roomy types' tab) targets"
    and "t \<noteq> tab \<Longrightarrow> types' t = types t" and "db' n = None \<longleftrightarrow> db n = None"
    and "column_names (schema_of db' n) = column_names (schema_of db n)"
proof -
  show "column_names (schema_of db' n) = column_names (schema_of db n)"
    using assms(1,3) by (auto simp: widen_table_def schema_of_def rebuild_ok_def column_names_def Let_def split: option.splits if_splits)
  show "confined {tab} db db'"
    using assms(1) rebuilt_typed [OF assms(3)] well_typedD well_typed_upd
    by (auto simp: widen_table_def confined_def Let_def split: option.splits if_splits)
  show "db tab \<noteq> None \<longrightarrow> list_all (roomy types' tab) targets"
    using assms(1) widened_roomy [OF assms(2), of types tab]
    by (auto simp: widen_table_def Let_def widen_columns_empty split: option.splits if_splits)
  show "t \<noteq> tab \<Longrightarrow> types' t = types t" "db' n = None \<longleftrightarrow> db n = None"
    using assms(1) by (auto simp: widen_table_def widened_def Let_def split: option.splits if_splits)
qed

lemma roomy_table_kept: "db tab \<noteq> None \<longrightarrow> list_all (roomy types tab) targets \<Longrightarrow> widen_table recreated (tab, targets) (db, types) = Inr (db, types)"
  by (auto simp: widen_table_def Let_def widen_columns_empty split: option.splits)

definition all_roomy :: "tables \<Rightarrow> reflected \<Rightarrow> bool" where
  "all_roomy db types \<longleftrightarrow> list_all (\<lambda>(tab, targets). db tab \<noteq> None \<longrightarrow> list_all (roomy types tab) targets) TARGET_LENGTHS"

lemma widen_tables_effect:
  assumes "for_each (widen_table recreated) TARGET_LENGTHS (db, types) = Inr (db', types')" and "rebuild_ok recreated"
  shows "confined {''user'', ''electoral_roll''} db db'" and "all_roomy db' types'" and "db' n = None \<longleftrightarrow> db n = None"
    and "t \<notin> {''user'', ''electoral_roll''} \<Longrightarrow> types' t = types t"
    and "column_names (schema_of db' n) = column_names (schema_of db n)"
proof -
  let ?u = "(''user'', [(''driver_lic_no'', 255)]) :: string \<times> (string \<times> nat) list"
  let ?e = "TARGET_LENGTHS ! 1"
  have spec: "TARGET_LENGTHS = [?u, ?e]" "fst ?e = ''electoral_roll''" "distinct (map fst (snd ?e))" by (simp_all add: TARGET_LENGTHS_def)
  have e: "?e = (''electoral_roll'', snd ?e)" using spec(2) by (metis prod.collapse)
  have "for_each (widen_table recreated) [?u, ?e] (db, types) = Inr (db', types')" using assms(1) spec(1) by simp
  then obtain s1 where s1: "widen_table recreated ?u (db, types) = Inr s1" "widen_table recreated ?e s1 = Inr (db', types')"
    by (auto simp: then_do_Inr_iff)
  obtain db1 types1 where s1_eq: "s1 = (db1, types1)" by (cases s1)
  have s: "widen_table recreated ?u (db, types) = Inr (db1, types1)"
    "widen_table recreated (''electoral_roll'', snd ?e) (db1, types1) = Inr (db', types')"
    using s1 s1_eq e by simp_all
  note u = widen_table_effect [OF s(1) _ assms(2)]
  note e = widen_table_effect [OF s(2) spec(3) assms(2)]
  show "confined {''user'', ''electoral_roll''} db db'"
    using confined_mono [OF u(1)] confined_mono [OF e(1)] cf.kept_trans [of "{''user'', ''electoral_roll''}" db db1 db'] by simp
  have none: "db' n = None \<longleftrightarrow> db n = None" for n using u(4) e(4) by simp
  then show "db' n = None \<longleftrightarrow> db n = None" .
  have ut: "types' ''user'' = types1 ''user''" using e(3) by simp
  have "db' ''user'' \<noteq> None \<longrightarrow> list_all (roomy types' ''user'') [(''driver_lic_no'', 255)]"
    using u(2) none [of "''user''"] ut by (simp add: roomy_def)
  moreover have "db' ''electoral_roll'' \<noteq> None \<longrightarrow> list_all (roomy types' ''electoral_roll'') (snd ?e)" using e(2,4) by simp
  moreover have "all_roomy db' types' \<longleftrightarrow> (db' ''user'' \<noteq> None \<longrightarrow> list_all (roomy types' ''user'') [(''driver_lic_no'', 255)])
      \<and> (db' ''electoral_roll'' \<noteq> None \<longrightarrow> list_all (roomy types' ''electoral_roll'') (snd ?e))"
    by (simp add: all_roomy_def TARGET_LENGTHS_def)
  ultimately show "all_roomy db' types'" by simp
  show "t \<notin> {''user'', ''electoral_roll''} \<Longrightarrow> types' t = types t" using u(3) e(3) by simp
  show "column_names (schema_of db' n) = column_names (schema_of db n)" using u(5) e(5) by simp
qed

lemma roomy_tables_kept: "all_roomy db types \<Longrightarrow> for_each (widen_table recreated) TARGET_LENGTHS (db, types) = Inr (db, types)"
  by (simp add: all_roomy_def TARGET_LENGTHS_def roomy_table_kept)

text \<open>The script of the personal data accepts such columns, where they are text.\<close>

definition text_columns :: "reflected \<Rightarrow> bool" where
  "text_columns types \<longleftrightarrow> (\<forall>tab c ty. types tab c \<noteq> Some (Other_type ty))"

lemma roomy_capacity:
  assumes "all_roomy db types" and "text_columns types"
  shows "\<not> isl (validate_encrypted_column_capacity (\<lambda>tab f. if db tab = None then None else types tab f))"
proof -
  have lengths: "MIN_ENCRYPTED_COLUMN_LENGTHS = concat (map (\<lambda>(tab, ts). map (\<lambda>(c, n). ((tab, c), n)) ts) TARGET_LENGTHS)"
    by (simp add: MIN_ENCRYPTED_COLUMN_LENGTHS_def TARGET_LENGTHS_def)
  have "capacity_failure (\<lambda>tab f. if db tab = None then None else types tab f) ((tab, c), n) = None"
    if "(tab, ts) \<in> set TARGET_LENGTHS" "(c, n) \<in> set ts" for tab ts c n
    using assms that
    by (fastforce simp: all_roomy_def list_all_iff roomy_def capacity_failure_def text_columns_def split: option.splits column_type.splits)
  then have "List.map_filter (capacity_failure (\<lambda>tab f. if db tab = None then None else types tab f)) MIN_ENCRYPTED_COLUMN_LENGTHS = []"
    by (auto simp: lengths List.map_filter_def filter_empty_conv)
  then show ?thesis by (simp add: validate_encrypted_column_capacity_def)
qed


section \<open>The key of the roll\<close>

lemma batch_drop_uniques:
  assumes "batch_alter_table fk n (map Drop_unique ns) db = Inr db'" and "db n = Some t"
  shows "db' n = Some (t\<lparr>t_uniques := filter (\<lambda>u. uq_name u \<notin> Some ` set ns) (t_uniques t)\<rparr>)"
  using assms unfolding batch_alter_table_def
proof (induction ns arbitrary: db t)
  case (Cons m ns)
  obtain db1 where db1: "on_table n (alter_table fk db n (Drop_unique m)) db = Inr db1"
    and rest: "for_each (\<lambda>d db. on_table n (alter_table fk db n d) db) (map Drop_unique ns) db1 = Inr db'"
    using Cons.prems(1) by (auto simp: then_do_Inr_iff)
  have "db1 n = Some (t\<lparr>t_uniques := filter (\<lambda>u. uq_name u \<noteq> Some m) (t_uniques t)\<rparr>)"
    using db1 Cons.prems(2) by (auto simp: alter_table_def elim!: on_table_InrD split: if_splits)
  from Cons.IH [OF rest this] show ?case by (simp add: conj_commute)
qed simp

lemma rebuilt_uniques:
  assumes "rebuild_with fk recreated n (map Drop_unique ns) db = Inr db'" and "db n = Some t"
  shows "db' n = Some ((recreated t)\<lparr>t_uniques := filter (\<lambda>u. uq_name u \<notin> Some ` set ns) (t_uniques (recreated t))\<rparr>)"
proof -
  have "batch_alter_table fk n (map Drop_unique ns) (db(n \<mapsto> recreated t)) = Inr db'"
    using assms by (auto simp: rebuild_with_def on_table_def table_of_def)
  from batch_drop_uniques [OF this] show ?thesis by simp
qed

lemma rebuilt_unique_added:
  assumes "rebuild_with fk recreated n [Create_unique k cols] db = Inr db'" and "db n = Some t"
  shows "db' n = Some ((recreated t)\<lparr>t_uniques := t_uniques (recreated t) @ [\<lparr>uq_name = Some k, uq_columns = cols\<rparr>]\<rparr>)"
  using assms
  by (auto simp: rebuild_with_def on_table_def table_of_def batch_alter_table_def then_do_Inr_iff alter_table_def split: if_splits)

definition roll_keyed :: "table \<Rightarrow> bool" where
  "roll_keyed t \<longleftrightarrow> ciphertext_unique_constraints t = []
     \<and> (''driver_license_hash'' \<in> set (column_names t) \<longrightarrow> has_unique t [''driver_license_hash''])"

lemma ciphertext_unique_iff:
  "ciphertext_unique_constraints t = [] \<longleftrightarrow>
     (\<forall>u \<in> set (t_uniques t). \<forall>n. uq_columns u = [''driver_license_number''] \<and> uq_name u = Some n \<longrightarrow> n = [])"
  by (auto simp: ciphertext_unique_constraints_def List.map_filter_def filter_empty_conv split: option.splits if_splits)

lemma ciphertext_names:
  assumes "u \<in> set (t_uniques t)" and "uq_columns u = [''driver_license_number'']" and "uq_name u = Some n" and "n \<noteq> []"
  shows "n \<in> set (ciphertext_unique_constraints t)"
  using assms by (force simp: ciphertext_unique_constraints_def List.map_filter_def)

lemma ciphertext_dropped:
  assumes "db ''electoral_roll'' = Some t" and "rebuild_ok recreated"
    and "(let ns = ciphertext_unique_constraints t in
          if ns = [] then Inr db else rebuild_with fk recreated ''electoral_roll'' (map Drop_unique ns) db) = Inr db1"
  obtains t1 where "db1 ''electoral_roll'' = Some t1" "column_names t1 = column_names t" "ciphertext_unique_constraints t1 = []"
proof (cases "ciphertext_unique_constraints t = []")
  case True
  then show ?thesis using that [of t] assms by simp
next
  case False
  let ?ns = "ciphertext_unique_constraints t"
  let ?t1 = "(recreated t)\<lparr>t_uniques := filter (\<lambda>u. uq_name u \<notin> Some ` set ?ns) (t_uniques (recreated t))\<rparr>"
  have "rebuild_with fk recreated ''electoral_roll'' (map Drop_unique ?ns) db = Inr db1" using assms(3) False by (simp add: Let_def)
  then have "db1 ''electoral_roll'' = Some ?t1" using assms(1) by (rule rebuilt_uniques)
  moreover have "column_names ?t1 = column_names t" using assms(2) by (simp add: rebuild_ok_def column_names_def)
  moreover have "ciphertext_unique_constraints ?t1 = []"
    unfolding ciphertext_unique_iff using ciphertext_names [of _ t] assms(2) by (fastforce simp: rebuild_ok_def)
  ultimately show ?thesis by (rule that)
qed

lemma index_licence_hash_effect:
  assumes "index_licence_hash fk recreated db = Inr db'" and "rebuild_ok recreated"
  shows "confined {''electoral_roll''} db db'" and "\<And>t. db' ''electoral_roll'' = Some t \<Longrightarrow> roll_keyed t"
    and "db' n = None \<longleftrightarrow> db n = None"
proof -
  show c: "confined {''electoral_roll''} db db'"
    using assms(1) unfolding index_licence_hash_def Let_def
    by (auto elim!: cf.kept_then intro: cf.kept_refl confined_rebuild [OF _ assms(2)] split: option.splits if_splits)
  show "db' n = None \<longleftrightarrow> db n = None"
  proof (cases "db ''electoral_roll''")
    case None
    then show ?thesis using assms(1) by (simp add: index_licence_hash_def)
  next
    case (Some t)
    then show ?thesis using c unfolding confined_def by (metis option.simps(3) singletonD)
  qed
  fix t' assume t': "db' ''electoral_roll'' = Some t'"
  show "roll_keyed t'"
  proof (cases "db ''electoral_roll''")
    case None
    then show ?thesis using assms(1) t' by (simp add: index_licence_hash_def)
  next
    case (Some t)
    let ?need = "\<lambda>db1. ''driver_license_hash'' \<in> set (column_names t) \<and> \<not> has_unique (schema_of db1 ''electoral_roll'') [''driver_license_hash'']"
    obtain db1 where d: "(let ns = ciphertext_unique_constraints t in
        if ns = [] then Inr db else rebuild_with fk recreated ''electoral_roll'' (map Drop_unique ns) db) = Inr db1"
      and c: "(if ?need db1 then rebuild_with fk recreated ''electoral_roll''
                 [Create_unique ''uq_electoral_roll_driver_license_hash'' [''driver_license_hash'']] db1 else Inr db1) = Inr db'"
      using assms(1) Some by (auto simp: index_licence_hash_def then_do_Inr_iff)
    obtain t1 where t1: "db1 ''electoral_roll'' = Some t1" "column_names t1 = column_names t" "ciphertext_unique_constraints t1 = []"
      using ciphertext_dropped [OF Some assms(2) d] by blast
    show ?thesis
    proof (cases "?need db1")
      case False
      then have "db' = db1" using c by (simp split: if_splits)
      then show ?thesis using False t1 t' by (auto simp: roll_keyed_def schema_of_def)
    next
      case True
      then have "rebuild_with fk recreated ''electoral_roll''
          [Create_unique ''uq_electoral_roll_driver_license_hash'' [''driver_license_hash'']] db1 = Inr db'" using c by simp
      from rebuilt_unique_added [OF this t1(1)] have "t' = (recreated t1)\<lparr>t_uniques := t_uniques (recreated t1) @
          [\<lparr>uq_name = Some ''uq_electoral_roll_driver_license_hash'', uq_columns = [''driver_license_hash'']\<rparr>]\<rparr>"
        using t' by simp
      then show ?thesis using t1(3) assms(2) by (auto simp: roll_keyed_def ciphertext_unique_iff has_unique_def rebuild_ok_def)
    qed
  qed
qed

lemma keyed_roll_kept:
  assumes "\<And>t. db ''electoral_roll'' = Some t \<Longrightarrow> roll_keyed t"
  shows "index_licence_hash fk recreated db = Inr db"
  using assms by (auto simp: index_licence_hash_def roll_keyed_def schema_of_def split: option.splits)


section \<open>The first revisions\<close>

lemma add_uq_vote_user_effect:
  assumes "upgrade_uq_vote_user fk created db = Inr db'"
  shows "well_typed db \<Longrightarrow> well_typed created \<Longrightarrow> well_typed db'"
    and "db ''vote'' \<noteq> None \<Longrightarrow> legacy_schema db \<Longrightarrow> legacy_schema db'"
    and "db ''vote'' \<noteq> None \<Longrightarrow> current_markers db' = current_markers db"
proof -
  show "well_typed db'" if "well_typed db" "well_typed created"
    using assms that by (auto simp: upgrade_uq_vote_user_def dest: well_typed_batch split: option.splits if_splits)
      (auto simp: well_typed_def split: option.splits)
  assume v: "db ''vote'' \<noteq> None"
  then obtain t where "db ''vote'' = Some t" by blast
  then have "Inr db = Inr db' \<or> batch_alter_table fk ''vote'' [Create_unique ''uq_vote_user'' [''user_id'']] db = Inr db'"
    using assms unfolding upgrade_uq_vote_user_def by (simp split: if_splits)
  then consider "db' = db" | "batch_alter_table fk ''vote'' [Create_unique ''uq_vote_user'' [''user_id'']] db = Inr db'" by auto
  then have "(legacy_schema db \<longrightarrow> legacy_schema db') \<and> current_markers db' = current_markers db"
  proof cases
    case 2
    have "db_fact db' n f" if nf: "(n, f) \<in> set legacy_facts" "db_fact db n f" for n f
    proof (cases "n = ''vote''")
      case True
      obtain t where t: "db ''vote'' = Some t" "fact_holds t f" using nf(2) True by (auto simp: db_fact_def)
      have "f \<noteq> Declares_unique k cols" for k cols using nf(1) by (auto simp: legacy_facts_def)
      then show ?thesis using fact_batch [OF 2 t(1), of f] t(2) True nf(1) by (auto simp: legacy_facts_def)
    next
      case False
      then show ?thesis using confined_batch [OF 2] nf(2) by (simp add: confined_def db_fact_def)
    qed
    moreover have "current_markers db' = current_markers db"
      using confined_batch [OF 2] by (simp add: current_markers_def confined_def)
    ultimately show ?thesis by (auto simp: legacy_schema_def list_all_iff)
  qed simp
  then show "legacy_schema db \<Longrightarrow> legacy_schema db'" "current_markers db' = current_markers db" by blast+
qed

lemma scope_revision_effect:
  assumes "fst (upgrade env db p) = Inr db'" and "well_typed db" and "current_markers db = [] \<longrightarrow> legacy_schema db"
  shows "well_typed db' \<and> current_schema_errors db' = [] \<and> current_markers db' \<noteq> []"
proof (cases "current_markers db = []")
  case True
  obtain q where "upgrade env db p = (Inr db', q)" using assms(1) by (metis prod.collapse)
  then show ?thesis using True assms typing_upgrade_legacy upgrade_runs migrated_schema_passes by metis
next
  case False
  then show ?thesis using assms by (auto simp: upgrade_def Let_def split: if_splits)
qed

text \<open>The later revisions leave the tables that the check reads alone.\<close>

lemma listed_key: "(n, x) \<in> set xs \<Longrightarrow> list_all P (map fst xs) \<Longrightarrow> P n"
  by (auto simp: list_all_iff)

lemma scope_check_cong:
  assumes "\<And>n. n \<in> set (map fst required_columns) \<Longrightarrow> db' n = db n"
  shows "current_schema_errors db' = current_schema_errors db" and "current_markers db' = current_markers db"
proof -
  have s: "schema_of db' n = schema_of db n" if "n \<in> set (map fst required_columns)" for n using assms [OF that] by (simp add: schema_of_def)
  have sn: "schema_of db' n = schema_of db n" if "(n, x) \<in> set non_nullable" for n x
    by (rule s, rule listed_key [OF that, where P = "\<lambda>n. n \<in> set (map fst required_columns)"]) code_simp
  have sf: "schema_of db' n = schema_of db n" if "(n, x) \<in> set forbidden_columns" for n x
    by (rule s, rule listed_key [OF that, where P = "\<lambda>n. n \<in> set (map fst required_columns)"]) code_simp
  have su: "schema_of db' n = schema_of db n" if "(n, x) \<in> set unique_requirements" for n x
    by (rule s, rule listed_key [OF that, where P = "\<lambda>n. n \<in> set (map fst required_columns)"]) code_simp
  have sk: "schema_of db' n = schema_of db n" if "(n, x) \<in> set foreign_key_requirements" for n x
    by (rule s, rule listed_key [OF that, where P = "\<lambda>n. n \<in> set (map fst required_columns)"]) code_simp
  have sr: "db' n = db n" if "(n, x) \<in> set required_columns" for n x
    by (rule assms, rule listed_key [OF that]) (simp add: list_all_iff)
  have "missing_columns db' = missing_columns db"
    unfolding missing_columns_def using sr by (intro arg_cong [of _ _ concat] map_cong refl) (auto split: option.splits)
  moreover have "map (\<lambda>(n, cols). map (Nullable_column n) (filter (is_nullable (schema_of db' n)) cols)) non_nullable
      = map (\<lambda>(n, cols). map (Nullable_column n) (filter (is_nullable (schema_of db n)) cols)) non_nullable"
    "map (\<lambda>(n, cols). map (Legacy_column n) (sort (filter (\<lambda>c. c \<in> set (column_names (schema_of db' n))) cols))) forbidden_columns
      = map (\<lambda>(n, cols). map (Legacy_column n) (sort (filter (\<lambda>c. c \<in> set (column_names (schema_of db n))) cols))) forbidden_columns"
    by (auto simp: sn sf intro!: map_cong)
  moreover have "filter (\<lambda>(n, cols). \<not> has_unique (schema_of db' n) cols) unique_requirements
      = filter (\<lambda>(n, cols). \<not> has_unique (schema_of db n) cols) unique_requirements"
    "filter (\<lambda>(n, cols, ref, refcols). \<not> has_foreign_key (schema_of db' n) cols ref refcols) foreign_key_requirements
      = filter (\<lambda>(n, cols, ref, refcols). \<not> has_foreign_key (schema_of db n) cols ref refcols) foreign_key_requirements"
    by (auto simp: su sk intro!: filter_cong)
  ultimately show "current_schema_errors db' = current_schema_errors db" by (simp only: current_schema_errors_def)
  have "db' n = db n" if "n \<in> {''election'', ''spent_ballot_nullifier'', ''result_signing_public_key'', ''signed_election_result''}" for n
    using that by (intro assms) (auto simp: required_columns_def)
  then show "current_markers db' = current_markers db" by (simp add: current_markers_def)
qed


section \<open>The whole chain\<close>

lemma run_revisionsE:
  assumes "run_revisions env created recreated (db, types) = Inr (db', types')"
  obtains db1 db2 db3 db4 db5 where "upgrade_uq_vote_user (\<not> mig_sqlite env) created db = Inr db1" "fst (upgrade env db1 True) = Inr db2"
    "upgrade_server_side_otp db2 = Inr db3" "upgrade_auth_session_version db3 = Inr db4"
    "for_each (widen_table recreated) TARGET_LENGTHS (db4, types) = Inr (db5, types')"
    "index_licence_hash (\<not> mig_sqlite env) recreated db5 = Inr db'"
  using assms by (auto simp: run_revisions_def upgrade_pii_envelope_def Let_def then_do_Inr_iff)

text \<open>The state that every revision recognises as its own result.\<close>

definition up_to_date :: "tables \<Rightarrow> reflected \<Rightarrow> bool" where
  "up_to_date db types \<longleftrightarrow> current_schema_errors db = [] \<and> current_markers db \<noteq> [] \<and> db ''otp_challenge'' \<noteq> None
     \<and> has_column db ''user'' ''session_version'' \<and> all_roomy db types
     \<and> (\<forall>t. db ''electoral_roll'' = Some t \<longrightarrow> roll_keyed t)"

lemma up_to_date_kept:
  assumes "up_to_date db types"
  shows "run_revisions env created recreated (db, types) = Inr (db, types)"
proof -
  note u = assms [unfolded up_to_date_def]
  obtain v where v: "db ''vote'' = Some v"
    using schema_check_ok(4) [of db "''vote''"] u by (auto simp: required_columns_def)
  have "''user_id'' \<notin> set (column_names v)"
    using schema_check_ok(2) [of db "''vote''" "[''user_id'']" "''user_id''"] u v by (simp add: forbidden_columns_def schema_of_def)
  then have "upgrade_uq_vote_user fk created db = Inr db" for fk using v by (simp add: upgrade_uq_vote_user_def)
  moreover have "fst (upgrade env db True) = Inr db" using u by (simp add: upgrade_def)
  moreover have "upgrade_server_side_otp db = Inr db" using u by (simp add: upgrade_server_side_otp_def)
  moreover have "upgrade_auth_session_version db = Inr db"
    using u by (auto simp: upgrade_auth_session_version_def table_of_def has_column_def schema_of_def column_names_def split: option.splits)
  moreover have "for_each (widen_table recreated) TARGET_LENGTHS (db, types) = Inr (db, types)" using u by (intro roomy_tables_kept) simp
  moreover have "index_licence_hash fk recreated db = Inr db" for fk using u by (intro keyed_roll_kept) simp
  ultimately show ?thesis by (simp add: run_revisions_def upgrade_pii_envelope_def Let_def)
qed

text \<open>A database the chain can start from: without ballots, already scoped, or of the old schema.\<close>

definition known_start :: "tables \<Rightarrow> bool" where
  "known_start db \<longleftrightarrow> db ''vote'' = None \<or> current_markers db \<noteq> [] \<or> legacy_schema db"

lemma first_revision_start:
  assumes "upgrade_uq_vote_user fk created db = Inr db1" and "known_start db" and "created ''spent_ballot_nullifier'' \<noteq> None"
  shows "current_markers db1 = [] \<longrightarrow> legacy_schema db1"
proof (cases "db ''vote''")
  case None
  then have "db1 = (\<lambda>n. case db n of None \<Rightarrow> created n | Some t \<Rightarrow> Some t)" using assms(1) by (simp add: upgrade_uq_vote_user_def)
  then have "db1 ''spent_ballot_nullifier'' \<noteq> None" using assms(3) by (simp split: option.splits)
  then show ?thesis by (simp add: current_markers_def)
next
  case (Some v)
  then show ?thesis using add_uq_vote_user_effect(2,3) [OF assms(1)] assms(2) by (auto simp: known_start_def)
qed

lemma revisions_reach:
  assumes "run_revisions env created recreated (db, types) = Inr (db', types')" and "rebuild_ok recreated"
    and "well_typed db" and "known_start db" and "well_typed created" and "created ''spent_ballot_nullifier'' \<noteq> None"
  shows "well_typed db'" and "up_to_date db' types'"
proof -
  obtain db1 db2 db3 db4 db5 where r: "upgrade_uq_vote_user (\<not> mig_sqlite env) created db = Inr db1" "fst (upgrade env db1 True) = Inr db2"
    "upgrade_server_side_otp db2 = Inr db3" "upgrade_auth_session_version db3 = Inr db4"
    "for_each (widen_table recreated) TARGET_LENGTHS (db4, types) = Inr (db5, types')"
    "index_licence_hash (\<not> mig_sqlite env) recreated db5 = Inr db'" by (rule run_revisionsE [OF assms(1)])
  have t1: "well_typed db1" using add_uq_vote_user_effect(1) [OF r(1)] assms(3,5) by blast
  have s2: "well_typed db2" "current_schema_errors db2 = []" "current_markers db2 \<noteq> []"
    using scope_revision_effect [OF r(2) t1 first_revision_start [OF r(1) assms(4,6)]] by simp_all
  note c3 = confined_otp [OF r(3)] and c4 = confined_session [OF r(4)]
  note w = widen_tables_effect [OF r(5) assms(2)] and h = index_licence_hash_effect [OF r(6) assms(2)]
  let ?S = "{''otp_challenge'', ''user'', ''electoral_roll''}"
  have c: "confined ?S db2 db3" "confined ?S db3 db4" "confined ?S db4 db5" "confined ?S db5 db'"
    using confined_mono [OF c3 [THEN conjunct1], of ?S] confined_mono [OF c4 [THEN conjunct1], of ?S]
      confined_mono [OF w(1), of ?S] confined_mono [OF h(1), of ?S] by simp_all
  then have all: "confined ?S db2 db'" using cf.kept_trans by blast
  then show "well_typed db'" using s2(1) by (simp add: confined_def)
  have same: "db' n = db2 n" if "n \<in> set (map fst required_columns)" for n
  proof -
    have "list_all (\<lambda>n. n \<notin> ?S) (map fst required_columns)" by code_simp
    then have "n \<notin> ?S" using that unfolding list_all_iff by blast
    then show ?thesis using all unfolding confined_def by blast
  qed
  have "db' ''otp_challenge'' \<noteq> None" using c3 c(2-4) by (simp add: confined_def)
  moreover have "has_column db' ''user'' ''session_version''"
  proof -
    have "has_column db5 ''user'' ''session_version''" using c4 w(5) [of "''user''"] by (simp add: has_column_def)
    then show ?thesis using kept_columns [OF h(1), of "''user''"] by (simp add: has_column_def)
  qed
  moreover have "all_roomy db' types'" using w(2) h(3) by (simp add: all_roomy_def)
  ultimately show "up_to_date db' types'"
    using scope_check_cong [OF same] s2(2,3) h(2) by (simp add: up_to_date_def)
qed


text \<open>
  C34: bringing a database up to date. When the chain of revisions runs to its end on a well-typed database
  that has no ballot table, is already scoped or has the old schema, the result satisfies every declared
  constraint, passes the complete check of the election schema, has the table of the codes and the session
  version, tells the roll apart by the keyed index and no longer by ciphertext, and has room for the
  envelopes, so the script that encrypts the personal data accepts its columns where they are text. Running
  the chain again, on either engine, changes nothing.
\<close>

theorem revisions_bring_up_to_date:
  assumes "run_revisions env created recreated (db, types) = Inr (db', types')" and "rebuild_ok recreated"
    and "well_typed db" and "known_start db" and "well_typed created" and "created ''spent_ballot_nullifier'' \<noteq> None"
  shows "well_typed db' \<and> current_schema_errors db' = [] \<and> db' ''otp_challenge'' \<noteq> None \<and> has_column db' ''user'' ''session_version''
    \<and> (\<forall>t. db' ''electoral_roll'' = Some t \<longrightarrow> roll_keyed t)
    \<and> (text_columns types' \<longrightarrow> \<not> isl (validate_encrypted_column_capacity (\<lambda>tab f. if db' tab = None then None else types' tab f)))
    \<and> run_revisions env2 created recreated (db', types') = Inr (db', types')"
proof -
  note r = revisions_reach [OF assms]
  then show ?thesis using up_to_date_kept [OF r(2)] roomy_capacity by (auto simp: up_to_date_def)
qed

section \<open>The chain on an old database\<close>

definition demo_roll :: table where
  "demo_roll = demo_table [(''id'', False), (''driver_license_number'', True), (''driver_license_hash'', True)]
     [(''uq_licence'', [''driver_license_number''])] [[(''id'', SInt 1), (''driver_license_number'', SText ''x'')]]"

definition demo_created :: tables where
  "demo_created = [''spent_ballot_nullifier'' \<mapsto> nullifier_table]"

definition demo_types :: reflected where
  "demo_types tab c = (if tab = ''electoral_roll'' \<and> c = ''driver_license_number'' then Some (String_type (Some 20)) else None)"

definition demo_old :: tables where
  "demo_old = demo_legacy(''electoral_roll'' \<mapsto> demo_roll)"

lemma demo_chain_runs: "\<not> isl (run_revisions demo_mig_env demo_created id (demo_old, demo_types))"
  by code_simp


lemma demo_old_start: "well_typed demo_old" "known_start demo_old" "well_typed demo_created"
proof -
  have "typed demo_roll" unfolding demo_roll_def by (rule typed_demo_table) code_simp+
  then show "well_typed demo_old" unfolding demo_old_def by (intro well_typed_upd demo_well_typed)
  have "db_fact demo_old n f" if "(n, f) \<in> set legacy_facts" for n f
  proof -
    have "n \<noteq> ''electoral_roll''" by (rule listed_key [OF that]) code_simp
    moreover have "db_fact demo_legacy n f" using demo_legacy_start(2) that by (auto simp: legacy_schema_def list_all_iff)
    ultimately show ?thesis by (simp add: db_fact_def demo_old_def)
  qed
  then show "known_start demo_old" by (auto simp: known_start_def legacy_schema_def list_all_iff)
  have "typed nullifier_table"
    by (simp add: nullifier_table_def fresh_table_def typed_def rows_ok_def column_names_def unique_holds_def not_null_holds_def List.map_filter_def)
  then show "well_typed demo_created" by (simp add: demo_created_def well_typed_def)
qed

theorem revisions_bring_up_to_date_witness:
  "\<exists>db' types'. run_revisions demo_mig_env demo_created id (demo_old, demo_types) = Inr (db', types') \<and> well_typed db'
    \<and> current_schema_errors db' = [] \<and> run_revisions demo_mig_env demo_created id (db', types') = Inr (db', types')"
proof -
  obtain db' types' where r: "run_revisions demo_mig_env demo_created id (demo_old, demo_types) = Inr (db', types')"
    using demo_chain_runs by (cases "run_revisions demo_mig_env demo_created id (demo_old, demo_types)") auto
  have "rebuild_ok id" by (simp add: rebuild_ok_def)
  then show ?thesis
    using revisions_bring_up_to_date [OF r _ demo_old_start] r by (auto simp: demo_created_def)
qed

end
