(* ===== verification/Seeding.thy ===== *)
theory Seeding
  imports Account_System Config
begin

text \<open>
  The rows a new installation starts with: \<^verbatim>\<open>scripts/bootstrap_reference_data.py\<close>,
  \<^verbatim>\<open>scripts/bootstrap_manager.py\<close>, \<^verbatim>\<open>scripts/anchor_open_election_keys.py\<close> and the demonstration data of
  \<^verbatim>\<open>app/init_db.py\<close>. The tables exist; each run is one transaction of the session.

  The generated test voters, the value \<open>hash\<close> gives for a name and the salts of the password
  library are parameters.
\<close>

section \<open>Licence numbers\<close>

text \<open>\<open>_checksum11\<close>: letters count from 10 on. The sum is meant for letters and digits of ASCII.\<close>

definition checksum_value :: "char \<Rightarrow> int" where
  "checksum_value c =
     (if isdigit [c] then int (ord c) - 48
      else 10 + (int (ord (hd (upper [c]))) - 65))"

definition checksum11 :: "string \<Rightarrow> int" where
  "checksum11 body = (\<Sum>(i, c) \<leftarrow> enumerate 1 body. checksum_value c * int i) mod 11"

definition make_lic :: "string \<Rightarrow> string" where
  "make_lic text =
     (let alnum = filter is_alnum_ascii (filter (\<lambda>c. c \<noteq> CHR '' '') (strip text));
          body = (if 5 \<le> length alnum \<and> length alnum \<le> 9 then alnum else ''VIC001'');
          chk = checksum11 body in
      body @ (if chk = 10 then ''X'' else show_int chk))"

text \<open>The unused checker of \<^verbatim>\<open>app/auth.py\<close>: the same sum, without the last character.\<close>

definition auth_checksum11 :: "string \<Rightarrow> int" where
  "auth_checksum11 s = checksum11 (butlast s)"

section \<open>Reference rows\<close>

definition ROLES :: "(string \<times> string) list" where
  "ROLES = [(''voter'', ''Can cast one vote''), (''delegate'', ''Manages candidates, cannot vote''), (''manager'', ''System admin, cannot vote'')]"

definition REGIONS :: "string list" where
  "REGIONS = [''Sydney'', ''VIC east'', ''VIC west'', ''NSW'', ''SA'', ''QLD'', ''WA'', ''TAS'', ''ACT'', ''NT'']"

definition role_named :: "database \<Rightarrow> string \<Rightarrow> role option" where
  "role_named db name = find (\<lambda>r. r_name r = name) (roles db)"

definition region_named :: "database \<Rightarrow> string \<Rightarrow> region option" where
  "region_named db name = find (\<lambda>g. g_name g = name) (regions db)"

definition add_role :: "string \<Rightarrow> string \<Rightarrow> database \<Rightarrow> database" where
  "add_role name desc db =
     db\<lparr>roles := roles db @ [\<lparr>r_id = fresh_id (map r_id (roles db)), r_name = name, r_description = Some desc\<rparr>]\<rparr>"

definition add_region :: "string \<Rightarrow> database \<Rightarrow> database" where
  "add_region name db = db\<lparr>regions := regions db @ [\<lparr>g_id = fresh_id (map g_id (regions db)), g_name = name\<rparr>]\<rparr>"

definition get_or_create_region :: "string \<Rightarrow> database \<Rightarrow> database" where
  "get_or_create_region name db = (if region_named db name = None then add_region name db else db)"

text \<open>\<open>get_or_create\<close> of the demonstration data, and the script's own loop, which also fills an empty description.\<close>

definition get_or_create_role :: "string \<times> string \<Rightarrow> database \<Rightarrow> database" where
  "get_or_create_role nd db = (if role_named db (fst nd) = None then add_role (fst nd) (snd nd) db else db)"

definition reference_role :: "string \<times> string \<Rightarrow> database \<Rightarrow> database" where
  "reference_role nd db =
     (case role_named db (fst nd) of
        None \<Rightarrow> add_role (fst nd) (snd nd) db
      | Some r \<Rightarrow>
          if or_else (r_description r) None = None
          then db\<lparr>roles := update_where (\<lambda>x. r_id x = r_id r) (\<lambda>x. x\<lparr>r_description := Some (snd nd)\<rparr>) (roles db)\<rparr>
          else db)"

definition bootstrap_reference_data :: "database \<Rightarrow> database option" where
  "bootstrap_reference_data db = commit (fold get_or_create_region REGIONS (fold reference_role ROLES db))"

section \<open>The first manager\<close>

record seed_env =
  se_app :: app_env
  se_password :: password_lib
  se_salt :: "string \<Rightarrow> string"
  se_pepper :: pepper_config
  se_environ :: environ

datatype seed_error =
    Seed_refused string
  | Password_refused password_error
  | Licence_error runtime_error
  | Key_refused key_exc
  | Integrity_error

abbreviation se_now :: "seed_env \<Rightarrow> timestamp" where
  "se_now env \<equiv> e_now (se_app env)"

definition required_setting :: "environ \<Rightarrow> string \<Rightarrow> seed_error + string" where
  "required_setting e name =
     (let v = strip (getenv e name) in
      if v = [] \<or> placeholder [''CHANGE_ME'', ''REPLACE_''] v
      then Inl (Seed_refused (name @ '' must be set to a non-placeholder value'')) else Inr v)"

text \<open>A new row of the user table; the defaults of the model for what is not given.\<close>

definition seed_user :: "seed_env \<Rightarrow> database \<Rightarrow> string \<Rightarrow> string \<Rightarrow> string \<Rightarrow> string \<Rightarrow> role \<Rightarrow> user" where
  "seed_user env db name address lic lic_state r =
     \<lparr>u_id = fresh_id (map u_id (users db)), username = name, email = Some address, password_hash = [], driver_lic_no = lic,
      driver_lic_hash = None, driver_lic_state = Some lic_state, u_role_id = r_id r, account_status = ''approved'',
      email_verified = True, u_created_at = se_now env, password_changed_at = None, session_version = 0,
      failed_login_attempts = 0, account_locked_until = None\<rparr>"

text \<open>\<open>set_password\<close>, then the insert with its listener.\<close>

definition add_user :: "seed_env \<Rightarrow> user \<Rightarrow> string \<Rightarrow> (user \<Rightarrow> user) \<Rightarrow> database \<Rightarrow> seed_error + database" where
  "add_user env u password adjust db =
     (case set_password (se_password env) (se_salt env (username u)) (se_now env) u password of
        Inl e \<Rightarrow> Inl (Password_refused e)
      | Inr u1 \<Rightarrow>
          (case user_set_lic_hash_before_insert (se_pepper env) (adjust u1) of
             Inl e \<Rightarrow> Inl (Licence_error e)
           | Inr u2 \<Rightarrow> Inr (db\<lparr>users := users db @ [u2]\<rparr>)))"

definition flush :: "database \<Rightarrow> seed_error + database" where
  "flush db = (case commit db of None \<Rightarrow> Inl Integrity_error | Some db' \<Rightarrow> Inr db')"

text \<open>\<open>Inr\<close> with the unchanged database is the run that is skipped.\<close>

definition bootstrap_manager :: "seed_env \<Rightarrow> database \<Rightarrow> seed_error + database" where
  "bootstrap_manager env db =
     (case role_named db ''manager'' of
        None \<Rightarrow> Inl (Seed_refused ''Manager role is missing; run reference bootstrap first'')
      | Some r \<Rightarrow>
          if list_ex (\<lambda>u. u_role_id u = r_id r) (users db) then Inr db
          else
            then_do (required_setting (se_environ env) ''BOOTSTRAP_MANAGER_USERNAME'') (\<lambda>name.
            then_do (required_setting (se_environ env) ''BOOTSTRAP_MANAGER_EMAIL'') (\<lambda>address.
            then_do (required_setting (se_environ env) ''BOOTSTRAP_MANAGER_PASSWORD'') (\<lambda>password.
            then_do (required_setting (se_environ env) ''BOOTSTRAP_MANAGER_LICENSE'') (\<lambda>licence.
            then_do (required_setting (se_environ env) ''BOOTSTRAP_MANAGER_LICENSE_STATE'') (\<lambda>licence_state.
              if list_ex (\<lambda>u. username u = name) (users db) then Inl (Seed_refused ''Bootstrap manager username is already in use'')
              else if list_ex (\<lambda>u. email u = Some address) (users db) then Inl (Seed_refused ''Bootstrap manager email is already in use'')
              else
                then_do (add_user env (seed_user env db name address licence licence_state r) password
                          (\<lambda>u. u\<lparr>password_changed_at := Some (se_now env - days 91)\<rparr>) db) flush))))))"

section \<open>Demonstration data\<close>

record demo_login =
  dl_username :: string
  dl_email :: string
  dl_licence :: string
  dl_state :: string
  dl_role :: string
  dl_password :: string

definition DEMO_LOGINS :: "demo_login list" where
  "DEMO_LOGINS =
     [\<lparr>dl_username = ''admin'', dl_email = ''admin@securevote.example.invalid'', dl_licence = ''ADMIN01'', dl_state = ''VIC'',
       dl_role = ''manager'', dl_password = ''Admin@123456!''\<rparr>,
      \<lparr>dl_username = ''delegate1'', dl_email = ''delegate1@securevote.example.invalid'', dl_licence = ''DELEG01'', dl_state = ''NSW'',
       dl_role = ''delegate'', dl_password = ''Delegate@123!''\<rparr>,
      \<lparr>dl_username = ''voter1'', dl_email = ''voter1@securevote.example.invalid'', dl_licence = ''VOTER01'', dl_state = ''NSW'',
       dl_role = ''voter'', dl_password = ''Password@123!''\<rparr>,
      \<lparr>dl_username = ''lix'', dl_email = ''voter2@securevote.example.invalid'', dl_licence = ''LIX0001'', dl_state = ''VIC'',
       dl_role = ''voter'', dl_password = ''Password@123!''\<rparr>]"

definition user_named :: "database \<Rightarrow> string \<Rightarrow> user option" where
  "user_named db name = find (\<lambda>u. username u = name) (users db)"

text \<open>An existing account keeps what it has; only the address of the manager is set again.\<close>

definition complete_user :: "database \<Rightarrow> demo_login \<Rightarrow> role \<Rightarrow> user \<Rightarrow> user" where
  "complete_user db d r u =
     u\<lparr>email := (if dl_username d = ''admin'' then Some (dl_email d) else email u),
       driver_lic_no := (if driver_lic_no u = [] then make_lic (dl_licence d) else driver_lic_no u),
       driver_lic_state := or_else (driver_lic_state u) (Some (dl_state d)),
       u_role_id := (if role_of db u = None then r_id r else u_role_id u),
       account_status := (if account_status u = [] then ''approved'' else account_status u)\<rparr>"

definition seed_login :: "seed_env \<Rightarrow> demo_login \<Rightarrow> database \<Rightarrow> seed_error + database" where
  "seed_login env d db =
     (case role_named db (dl_role d) of
        None \<Rightarrow> Inl Integrity_error
      | Some r \<Rightarrow>
          (case user_named db (dl_username d) of
             None \<Rightarrow> add_user env (seed_user env db (dl_username d) (dl_email d) (make_lic (dl_licence d)) (dl_state d) r) (dl_password d) id db
           | Some u \<Rightarrow>
               (case user_set_lic_hash_before_update (se_pepper env) u (complete_user db d r u) of
                  Inl e \<Rightarrow> Inl (Licence_error e)
                | Inr u' \<Rightarrow> Inr (update_user u' db))))"

record test_voter =
  tv_username :: string
  tv_email :: string
  tv_password :: string
  tv_full_name :: string
  tv_date_of_birth :: string
  tv_address_line1 :: string
  tv_suburb :: string
  tv_state :: string
  tv_postcode :: string
  tv_licence :: string
  tv_roll_number :: string

text \<open>The hash is set directly, so the strength of the password is not checked.\<close>

definition add_test_user :: "seed_env \<Rightarrow> role \<Rightarrow> test_voter \<Rightarrow> database \<Rightarrow> seed_error + database" where
  "add_test_user env r v db =
     (case user_set_lic_hash_before_insert (se_pepper env)
             ((seed_user env db (tv_username v) (tv_email v) (tv_licence v) (tv_state v) r)
                \<lparr>password_hash := pw_generate (se_password env) (se_salt env (tv_username v)) (tv_password v),
                 password_changed_at := Some (se_now env)\<rparr>) of
        Inl e \<Rightarrow> Inl (Licence_error e)
      | Inr u \<Rightarrow> Inr (db\<lparr>users := users db @ [u]\<rparr>))"

definition seed_test_users :: "seed_env \<Rightarrow> test_voter list \<Rightarrow> database \<Rightarrow> seed_error + database" where
  "seed_test_users env vs db =
     (case role_named db ''voter'' of
        None \<Rightarrow> Inl Integrity_error
      | Some r \<Rightarrow>
          if \<not> list_ex (\<lambda>u. startswith (username u) ''testvoter'') (users db) then for_each (add_test_user env r) vs db
          else for_each (\<lambda>v db. if user_named db (tv_username v) = None then add_test_user env r v db else Inr db) vs db)"

definition add_roll :: "seed_env \<Rightarrow> electoral_roll \<Rightarrow> database \<Rightarrow> seed_error + database" where
  "add_roll env r db =
     (case roll_set_lic_hash (se_pepper env) (r\<lparr>er_id := fresh_id (map er_id (electoral_rolls db))\<rparr>) of
        Inl e \<Rightarrow> Inl (Licence_error e)
      | Inr r' \<Rightarrow> Inr (db\<lparr>electoral_rolls := electoral_rolls db @ [r']\<rparr>))"

definition active_roll :: "seed_env \<Rightarrow> string \<Rightarrow> string \<Rightarrow> string \<Rightarrow> string \<Rightarrow> string \<Rightarrow> string \<Rightarrow> string \<Rightarrow> string \<Rightarrow> int \<Rightarrow> int \<Rightarrow> electoral_roll" where
  "active_roll env number lic name born street town state code region uid =
     \<lparr>er_id = 0, roll_number = number, driver_license_number = lic, driver_license_hash = None, full_name = name, date_of_birth = born,
      address_line1 = street, address_line2 = None, suburb = town, er_state = state, postcode = code, er_region_id = Some region,
      er_status = ''active'', verified = True, verified_at = Some (se_now env), er_user_id = Some uid\<rparr>"

definition seed_voter_roll :: "seed_env \<Rightarrow> database \<Rightarrow> seed_error + database" where
  "seed_voter_roll env db =
     (case (user_named db ''voter1'', region_named db ''Sydney'') of
        (Some u, Some g) \<Rightarrow>
          if enrolment_of db (u_id u) = None
          then add_roll env (active_roll env ''ER-0001'' (driver_lic_no u) ''Voter One'' ''1990-05-10'' ''1 King St'' ''Sydney'' ''NSW'' ''2000''
                 (g_id g) (u_id u)) db
          else Inr db
      | _ \<Rightarrow> Inr db)"

text \<open>The region of a test voter: \<open>regions[hash(username) % len(regions)]\<close>.\<close>

definition test_roll :: "seed_env \<Rightarrow> (string \<Rightarrow> nat) \<Rightarrow> test_voter \<Rightarrow> user \<Rightarrow> database \<Rightarrow> electoral_roll" where
  "test_roll env hash v u db =
     active_roll env (tv_roll_number v) (tv_licence v) (tv_full_name v) (tv_date_of_birth v) (tv_address_line1 v) (tv_suburb v) (tv_state v)
       (tv_postcode v) (g_id (regions db ! (hash (tv_username v) mod length (regions db)))) (u_id u)"

definition seed_test_rolls :: "seed_env \<Rightarrow> (string \<Rightarrow> nat) \<Rightarrow> test_voter list \<Rightarrow> database \<Rightarrow> seed_error + database" where
  "seed_test_rolls env hash vs db =
     (if \<not> list_ex (\<lambda>r. startswith (roll_number r) ''ER-1'') (electoral_rolls db)
      then for_each (\<lambda>v db. case user_named db (tv_username v) of
             Some u \<Rightarrow> if startswith (username u) ''testvoter'' \<and> u_id u \<noteq> 0 then add_roll env (test_roll env hash v u db) db else Inr db
           | None \<Rightarrow> Inr db) vs db
      else for_each (\<lambda>v db. case user_named db (tv_username v) of
             Some u \<Rightarrow> if enrolment_of db (u_id u) = None then add_roll env (test_roll env hash v u db) db else Inr db
           | None \<Rightarrow> Inr db) vs db)"

section \<open>The elections of the demonstration\<close>

definition new_election :: "seed_env \<Rightarrow> database \<Rightarrow> string \<Rightarrow> string \<Rightarrow> timestamp option \<Rightarrow> election" where
  "new_election env db name status opens =
     \<lparr>el_id = fresh_id (map el_id (elections db)), el_name = name, el_status = status, open_at = opens, close_at = None,
      blind_signing_key_id = None, blind_key_recovery_required = False, created_by = map_option u_id (user_named db ''admin''),
      el_created_at = se_now env\<rparr>"

definition add_election :: "election \<Rightarrow> database \<Rightarrow> database" where
  "add_election e db = db\<lparr>elections := elections db @ [e]\<rparr>"

definition add_candidate :: "int \<Rightarrow> int \<Rightarrow> string \<times> string \<Rightarrow> database \<Rightarrow> database" where
  "add_candidate region eid np db =
     db\<lparr>candidates := candidates db @ [\<lparr>c_id = fresh_id (map c_id (candidates db)), c_name = fst np, party = Some (snd np),
         c_position = ''House of Representatives'', c_region_id = region, c_election_id = eid\<rparr>]\<rparr>"

definition sydney_candidates :: "(string \<times> string) list" where
  "sydney_candidates = [(''John Smith'', ''Labor Party''), (''Sarah Johnson'', ''Liberal Party''), (''Mike Brown'', ''Greens'')]"

definition vic_candidates :: "(string \<times> string) list" where
  "vic_candidates = [(''Edward Green'', ''Labor Party''), (''Alice White'', ''Liberal Party''), (''Tom Black'', ''Greens'')]"

definition seed_elections :: "seed_env \<Rightarrow> database \<Rightarrow> seed_error + database" where
  "seed_elections env db =
     (if candidates db \<noteq> [] then Inr db
      else
        (case (region_named db ''Sydney'', region_named db ''VIC east'') of
           (Some sydney, Some vic_east) \<Rightarrow>
             (let has_open = list_ex (\<lambda>e. el_status e = ''open'') (elections db);
                  syd = new_election env db ''Sydney House Election 2025'' (if has_open then ''draft'' else ''open'')
                          (if has_open then None else Some (se_now env));
                  db1 = add_election syd db;
                  vic = new_election env db1 ''Victoria East House Election 2025'' ''draft'' None in
              then_do (flush (add_election vic db1)) (\<lambda>db2.
                Inr (fold (add_candidate (g_id vic_east) (el_id vic)) vic_candidates
                      (fold (add_candidate (g_id sydney) (el_id syd)) sydney_candidates db2))))
         | _ \<Rightarrow> Inl Integrity_error))"

section \<open>The seeding run\<close>

definition demo_seed_allowed :: "environ \<Rightarrow> bool" where
  "demo_seed_allowed e \<longleftrightarrow> lower (case e ''ALLOW_DEMO_SEED'' of None \<Rightarrow> ''false'' | Some v \<Rightarrow> v) \<in> {''true'', ''1'', ''yes''}"

definition create_test_voters :: "environ \<Rightarrow> bool" where
  "create_test_voters e \<longleftrightarrow> lower (case e ''CREATE_TEST_VOTERS'' of None \<Rightarrow> ''false'' | Some v \<Rightarrow> v) = ''true''"

definition seed_rows :: "seed_env \<Rightarrow> (string \<Rightarrow> nat) \<Rightarrow> test_voter list option \<Rightarrow> database \<Rightarrow> seed_error + database" where
  "seed_rows env hash generator db =
     (let voters = (if create_test_voters (se_environ env) then generator else None);
          with_voters = (\<lambda>f db. case voters of None \<Rightarrow> Inr db | Some vs \<Rightarrow> f vs db) in
      then_do (flush (fold get_or_create_region REGIONS (fold get_or_create_role ROLES db))) (\<lambda>db.
      then_do (for_each (seed_login env) DEMO_LOGINS db) (\<lambda>db.
      then_do (with_voters (seed_test_users env) db) (\<lambda>db.
      then_do (flush db) (\<lambda>db.
      then_do (seed_voter_roll env db) (\<lambda>db.
      then_do (with_voters (seed_test_rolls env hash) db) (\<lambda>db.
        seed_elections env db)))))))"

text \<open>The whole run. An error rolls the session back; key files that were written stay.\<close>

definition init_database ::
  "seed_env \<Rightarrow> (string \<Rightarrow> nat) \<Rightarrow> test_voter list option \<Rightarrow> app_state \<Rightarrow> (seed_error + unit) \<times> app_state" where
  "init_database env hash generator st =
     (if \<not> demo_seed_allowed (se_environ env)
      then (Inl (Seed_refused (''Demo seeding is disabled. Set ALLOW_DEMO_SEED=true only for an '' @ ''intentional local demonstration.'')), st)
      else
        (case seed_rows env hash generator (a_db st) of
           Inl e \<Rightarrow> (Inl e, st)
         | Inr db1 \<Rightarrow>
             (case reconcile_open_election_keys (se_app env) db1 (a_keys st) of
                (Inl x, ks) \<Rightarrow> (Inl (Key_refused x), st\<lparr>a_keys := ks\<rparr>)
              | (Inr (_, db2), ks) \<Rightarrow>
                  (case commit db2 of
                     None \<Rightarrow> (Inl Integrity_error, st\<lparr>a_keys := ks\<rparr>)
                   | Some db' \<Rightarrow> (Inr (), st\<lparr>a_db := db', a_keys := ks\<rparr>)))))"

text \<open>The script that anchors the keys of open elections after a migration.\<close>

definition anchor_open_election_keys :: "app_env \<Rightarrow> app_state \<Rightarrow> (seed_error + nat) \<times> app_state" where
  "anchor_open_election_keys env st =
     (case reconcile_open_election_keys env (a_db st) (a_keys st) of
        (Inl x, ks) \<Rightarrow> (Inl (Key_refused x), st\<lparr>a_keys := ks\<rparr>)
      | (Inr (n, db), ks) \<Rightarrow>
          (case commit db of
             None \<Rightarrow> (Inl Integrity_error, st\<lparr>a_keys := ks\<rparr>)
           | Some db' \<Rightarrow> (Inr n, st\<lparr>a_db := db', a_keys := ks\<rparr>)))"

section \<open>What the runs guarantee\<close>

lemma flush_Inr_iff: "flush db = Inr db' \<longleftrightarrow> db' = db \<and> db_ok db"
  by (auto simp: flush_def commit_def)

lemma role_named_SomeD: "role_named db name = Some r \<Longrightarrow> r \<in> set (roles db) \<and> r_name r = name"
  by (auto simp: role_named_def find_Some_iff)

text \<open>What an added account is like; \<open>adjust\<close> may still set fields of it.\<close>

lemma add_user_InrD:
  assumes "add_user env u password adjust db = Inr db'"
  obtains h where "fst (validate_password_strength password)"
    and "db' = db\<lparr>users := users db @ [(adjust (u\<lparr>password_hash := pw_generate (se_password env) (se_salt env (username u)) password,
         password_changed_at := Some (se_now env), session_version := session_version u + 1, failed_login_attempts := 0,
         account_locked_until := None\<rparr>))\<lparr>driver_lic_hash := h\<rparr>]\<rparr>"
  using assms
  by (auto simp: add_user_def set_password_cases user_set_lic_hash_before_insert_def split: if_splits sum.splits)

definition has_manager :: "database \<Rightarrow> bool" where
  "has_manager db \<longleftrightarrow> (\<exists>r \<in> set (roles db). r_name r = ''manager'' \<and> (\<exists>u \<in> set (users db). u_role_id u = r_id r))"

lemma role_named_unique:
  assumes "db_ok db" and "r \<in> set (roles db)"
  shows "role_named db (r_name r) = Some r"
  using assms find_unique_key [of r_name "roles db" r] by (simp add: role_named_def db_ok_def roles_ok_def)

lemma has_manager_iff:
  assumes "db_ok db" and "role_named db ''manager'' = Some r"
  shows "has_manager db \<longleftrightarrow> (\<exists>u \<in> set (users db). u_role_id u = r_id r)"
  using role_named_SomeD [OF assms(2)] role_named_unique [OF assms(1)] assms(2)
  by (auto simp: has_manager_def) (metis option.inject)

lemma bootstrap_manager_again:
  assumes "db_ok db" and "has_manager db"
  shows "bootstrap_manager env db = Inr db"
proof -
  obtain r u where r: "r \<in> set (roles db)" "r_name r = ''manager''" and u: "u \<in> set (users db)" "u_role_id u = r_id r"
    using assms(2) by (auto simp: has_manager_def)
  then have "role_named db ''manager'' = Some r" using role_named_unique [OF assms(1) r(1)] by simp
  with u show ?thesis by (auto simp: bootstrap_manager_def list_ex_iff)
qed

definition first_manager :: "seed_env \<Rightarrow> database \<Rightarrow> user \<Rightarrow> bool" where
  "first_manager env db u \<longleftrightarrow>
     required_setting (se_environ env) ''BOOTSTRAP_MANAGER_USERNAME'' = Inr (username u)
     \<and> map_option Inr (email u) = Some (required_setting (se_environ env) ''BOOTSTRAP_MANAGER_EMAIL'')
     \<and> has_role db u [''manager''] \<and> account_status u = ''approved'' \<and> email_verified u
     \<and> is_password_expired (se_now env) 90 u
     \<and> (\<exists>p. required_setting (se_environ env) ''BOOTSTRAP_MANAGER_PASSWORD'' = Inr p \<and> fst (validate_password_strength p)
          \<and> (\<forall>q. check_password (se_password env) u q \<longleftrightarrow> q = p))"

text \<open>
  C39: the first manager is made once. A successful run on a sound database leaves a sound database
  with a manager. If there was a manager, nothing has changed; otherwise exactly one row was added,
  an approved and verified manager with the configured name and address, whose password passed the
  policy, opens the account and no other does, and already counts as expired, so that the first login
  has to change it. Every further run, whatever its settings, changes nothing.
\<close>

theorem bootstrap_manager_once:
  assumes "db_ok db" and "password_lib_ok (se_password env)" and "bootstrap_manager env db = Inr db'"
  shows "db_ok db' \<and> has_manager db'
    \<and> (if has_manager db then db' = db else \<exists>u. db' = db\<lparr>users := users db @ [u]\<rparr> \<and> first_manager env db' u)
    \<and> (\<forall>env'. bootstrap_manager env' db' = Inr db')"
proof (cases "has_manager db")
  case True
  with assms bootstrap_manager_again [OF assms(1)] show ?thesis by simp
next
  case False
  obtain r where r: "role_named db ''manager'' = Some r" using assms(3) by (auto simp: bootstrap_manager_def split: option.splits)
  note role = role_named_SomeD [OF r]
  from False r assms(1) have none: "\<not> list_ex (\<lambda>u. u_role_id u = r_id r) (users db)"
    by (simp add: has_manager_iff list_ex_iff)
  obtain name address p lic st where set: "required_setting (se_environ env) ''BOOTSTRAP_MANAGER_USERNAME'' = Inr name"
    "required_setting (se_environ env) ''BOOTSTRAP_MANAGER_EMAIL'' = Inr address"
    "required_setting (se_environ env) ''BOOTSTRAP_MANAGER_PASSWORD'' = Inr p"
    and add: "add_user env (seed_user env db name address lic st r) p
       (\<lambda>u. u\<lparr>password_changed_at := Some (se_now env - days 91)\<rparr>) db = Inr db'" and ok: "db_ok db'"
    using assms(3) none by (auto simp: bootstrap_manager_def r then_do_Inr_iff flush_Inr_iff split: if_splits)
  obtain u where u: "db' = db\<lparr>users := users db @ [u]\<rparr>" "fst (validate_password_strength p)" "username u = name"
    "email u = Some address" "u_role_id u = r_id r" "account_status u = ''approved''" "email_verified u"
    "password_changed_at u = Some (se_now env - days 91)" "password_hash u = pw_generate (se_password env) (se_salt env name) p"
    using add by (rule add_user_InrD) (simp add: seed_user_def)
  have man: "has_manager db'" using role u(1,5) by (auto simp: has_manager_def)
  have "has_role db' u [''manager'']"
  proof -
    have "role_of db' u = Some r"
      using find_unique_key [of r_id "roles db" r] role assms(1) u(1,5) by (simp add: role_of_def db_ok_def roles_ok_def)
    with role show ?thesis by (simp add: has_role_def)
  qed
  moreover have "is_password_expired (se_now env) 90 u" using u(8) by (simp add: is_password_expired_def days_def seconds_def)
  moreover have "\<forall>q. check_password (se_password env) u q \<longleftrightarrow> q = p"
    using assms(2) u(9) by (simp add: check_password_def password_lib_ok_def)
  ultimately have "first_manager env db' u" using set u by (simp add: first_manager_def)
  with False u(1) ok man bootstrap_manager_again [OF ok man] show ?thesis by auto
qed

definition demo_seed_environ :: environ where
  "demo_seed_environ = map_of
     [(''ALLOW_DEMO_SEED'', ''Yes''), (''BOOTSTRAP_MANAGER_USERNAME'', '' root''), (''BOOTSTRAP_MANAGER_EMAIL'', ''root@vote.example''),
      (''BOOTSTRAP_MANAGER_PASSWORD'', ''Correct-Horse-9''), (''BOOTSTRAP_MANAGER_LICENSE'', ''NSW 12345''),
      (''BOOTSTRAP_MANAGER_LICENSE_STATE'', ''NSW'')]"

definition demo_seed_env :: seed_env where
  "demo_seed_env = \<lparr>se_app = demo_vote_env, se_password = demo_password_lib, se_salt = (\<lambda>_. ''s''), se_pepper = demo_pepper,
     se_environ = demo_seed_environ\<rparr>"

lemma demo_settings:
  "required_setting demo_seed_environ ''BOOTSTRAP_MANAGER_USERNAME'' = Inr ''root''"
  "required_setting demo_seed_environ ''BOOTSTRAP_MANAGER_EMAIL'' = Inr ''root@vote.example''"
  "required_setting demo_seed_environ ''BOOTSTRAP_MANAGER_PASSWORD'' = Inr ''Correct-Horse-9''"
  "required_setting demo_seed_environ ''BOOTSTRAP_MANAGER_LICENSE'' = Inr ''NSW 12345''"
  "required_setting demo_seed_environ ''BOOTSTRAP_MANAGER_LICENSE_STATE'' = Inr ''NSW''"
  by code_simp+

definition demo_unmanaged :: database where
  "demo_unmanaged = demo_db\<lparr>users := [demo_user, demo_manager\<lparr>u_role_id := 2\<rparr>]\<rparr>"

lemma demo_unmanaged_ok: "db_ok demo_unmanaged"
  by (simp add: demo_unmanaged_def db_ok_def constraint_defs demo_defs map_filter_simps)

lemma demo_bootstrap_runs: "\<exists>db'. bootstrap_manager demo_seed_env demo_unmanaged = Inr db'"
proof -
  let ?db = "demo_unmanaged"
  obtain h where h: "hash_lic demo_pepper (Some ''NSW 12345'') = Inr (Some h)" "length h = 64" using demo_licence by blast
  then have hs: "h \<noteq> []" "''h7'' \<noteq> h" "''h8'' \<noteq> h" "h \<noteq> ''h7''" "h \<noteq> ''h8''" by auto
  let ?r = "\<lparr>r_id = 3, r_name = ''manager'', r_description = None\<rparr>"
  have role: "role_named ?db ''manager'' = Some ?r" by (simp add: role_named_def demo_unmanaged_def demo_db_def)
  have env: "se_pepper demo_seed_env = demo_pepper" "se_environ demo_seed_env = demo_seed_environ"
    by (simp_all add: demo_seed_env_def)
  obtain db' where add: "add_user demo_seed_env (seed_user demo_seed_env ?db ''root'' ''root@vote.example'' ''NSW 12345'' ''NSW'' ?r)
      ''Correct-Horse-9'' (\<lambda>u. u\<lparr>password_changed_at := Some (se_now demo_seed_env - days 91)\<rparr>) ?db = Inr db'" "db_ok db'"
    using demo_strong h(1) hs
    by (auto simp: add_user_def set_password_cases user_set_lic_hash_before_insert_def or_else_def env seed_user_def
        db_ok_def constraint_defs demo_unmanaged_def demo_defs map_filter_simps fresh_id_def)
  have free: "\<not> list_ex (\<lambda>u. u_role_id u = 3) (users ?db)" "\<not> list_ex (\<lambda>u. username u = ''root'') (users ?db)"
    "\<not> list_ex (\<lambda>u. email u = Some ''root@vote.example'') (users ?db)" by (simp_all add: demo_unmanaged_def demo_defs)
  show ?thesis using add free by (simp add: bootstrap_manager_def role env demo_settings flush_def commit_ok)
qed

theorem bootstrap_manager_once_witness:
  "\<exists>u db'. db' = demo_unmanaged\<lparr>users := users demo_unmanaged @ [u]\<rparr> \<and> bootstrap_manager demo_seed_env demo_unmanaged = Inr db'
     \<and> username u = ''root'' \<and> has_role db' u [''manager''] \<and> is_password_expired 5 90 u"
proof -
  obtain db' where run: "bootstrap_manager demo_seed_env demo_unmanaged = Inr db'"
    using demo_bootstrap_runs by blast
  have lib: "password_lib_ok (se_password demo_seed_env)" by (simp add: demo_seed_env_def demo_password_lib_ok)
  have none: "\<not> has_manager demo_unmanaged" by (simp add: has_manager_def demo_unmanaged_def demo_defs)
  from bootstrap_manager_once [OF demo_unmanaged_ok lib run] none obtain u where "db' = demo_unmanaged\<lparr>users := users demo_unmanaged @ [u]\<rparr>" "first_manager demo_seed_env db' u"
    by auto
  with run show ?thesis
    by (auto simp: first_manager_def demo_seed_env_def demo_settings demo_vote_env_def)
qed

section \<open>The reference rows\<close>

lemma fold_keeps: "(\<And>x s. P s \<Longrightarrow> P (f x s)) \<Longrightarrow> P s \<Longrightarrow> P (fold f xs s)"
  by (induction xs arbitrary: s) auto

lemma db_ok_more_roles:
  assumes "db_ok db" and "roles_ok (db\<lparr>roles := rs\<rparr>)" and "role_ids db \<subseteq> r_id ` set rs"
  shows "db_ok (db\<lparr>roles := rs\<rparr>)"
  using assms by (auto simp: db_ok_def constraint_defs list_all_iff)

lemma db_ok_more_regions:
  assumes "db_ok db" and "regions_ok (db\<lparr>regions := gs\<rparr>)" and "region_ids db \<subseteq> g_id ` set gs"
  shows "db_ok (db\<lparr>regions := gs\<rparr>)"
  using assms by (auto simp: db_ok_def constraint_defs list_all_iff split: option.splits)

lemma role_named_None: "role_named db name = None \<longleftrightarrow> name \<notin> r_name ` set (roles db)"
  by (auto simp: role_named_def find_None_iff)

lemma region_named_None: "region_named db name = None \<longleftrightarrow> name \<notin> g_name ` set (regions db)"
  by (auto simp: region_named_def find_None_iff)

lemma reference_role_ok:
  assumes "db_ok db"
  shows "db_ok (reference_role nd db)"
proof (cases "role_named db (fst nd)")
  case None
  have "db_ok (add_role (fst nd) (snd nd) db)"
    unfolding add_role_def using assms None fresh_id_not_in [of "map r_id (roles db)"]
    by (intro db_ok_more_roles) (auto simp: role_named_None db_ok_def roles_ok_def role_ids_def)
  with None show ?thesis by (simp add: reference_role_def)
next
  case (Some r)
  let ?rs = "update_where (\<lambda>x. r_id x = r_id r) (\<lambda>x. x\<lparr>r_description := Some (snd nd)\<rparr>) (roles db)"
  have ids: "map r_id ?rs = map r_id (roles db)" "map r_name ?rs = map r_name (roles db)" by (rule map_update_where, simp)+
  then have "r_id ` set ?rs = role_ids db" unfolding role_ids_def by (metis set_map)
  then have "db_ok (db\<lparr>roles := ?rs\<rparr>)"
    using assms ids by (intro db_ok_more_roles) (simp_all add: db_ok_def roles_ok_def)
  with Some assms show ?thesis by (simp add: reference_role_def)
qed

lemma region_ok:
  assumes "db_ok db"
  shows "db_ok (get_or_create_region name db)"
proof (cases "region_named db name")
  case None
  have "db_ok (add_region name db)"
    unfolding add_region_def using assms None fresh_id_not_in [of "map g_id (regions db)"]
    by (intro db_ok_more_regions) (auto simp: region_named_None db_ok_def regions_ok_def region_ids_def)
  with None show ?thesis by (simp add: get_or_create_region_def)
qed (use assms in \<open>simp add: get_or_create_region_def\<close>)

definition reference_only :: "database \<Rightarrow> database \<Rightarrow> bool" where
  "reference_only db db' \<longleftrightarrow> (\<exists>rs gs. db' = db\<lparr>roles := rs, regions := gs\<rparr> \<and> r_name ` set (roles db) \<subseteq> r_name ` set rs
     \<and> g_name ` set (regions db) \<subseteq> g_name ` set gs \<and> role_ids db \<subseteq> r_id ` set rs)"

lemma reference_only_refl: "reference_only db db"
  by (auto simp: reference_only_def role_ids_def intro!: exI [of _ "roles db"] exI [of _ "regions db"])

lemma reference_only_trans: "reference_only a b \<Longrightarrow> reference_only b c \<Longrightarrow> reference_only a c"
  by (fastforce simp: reference_only_def role_ids_def)

lemma reference_role_step: "reference_only db (reference_role nd db) \<and> fst nd \<in> r_name ` set (roles (reference_role nd db))"
proof (cases "role_named db (fst nd)")
  case None
  then show ?thesis
    by (auto simp: reference_role_def add_role_def reference_only_def role_ids_def intro!: exI [of _ "regions db"])
next
  case (Some r)
  let ?rs = "update_where (\<lambda>x. r_id x = r_id r) (\<lambda>x. x\<lparr>r_description := Some (snd nd)\<rparr>) (roles db)"
  have "map r_id ?rs = map r_id (roles db)" "map r_name ?rs = map r_name (roles db)" by (rule map_update_where, simp)+
  then have eqs: "r_id ` set ?rs = r_id ` set (roles db)" "r_name ` set ?rs = r_name ` set (roles db)" by (metis set_map)+
  have "reference_only db (db\<lparr>roles := ?rs\<rparr>)"
    unfolding reference_only_def
    by (rule exI [of _ ?rs], rule exI [of _ "regions db"]) (simp add: eqs role_ids_def)
  moreover have "fst nd \<in> r_name ` set (roles db)" using Some by (metis option.distinct(1) role_named_None)
  ultimately show ?thesis using Some eqs(2) reference_only_refl by (simp add: reference_role_def)
qed

lemma region_step: "reference_only db (get_or_create_region name db) \<and> name \<in> g_name ` set (regions (get_or_create_region name db))"
proof (cases "region_named db name")
  case None
  then show ?thesis
    by (auto simp: get_or_create_region_def add_region_def reference_only_def role_ids_def intro!: exI [of _ "roles db"])
next
  case (Some g)
  then have "name \<in> g_name ` set (regions db)" by (metis option.distinct(1) region_named_None)
  with Some show ?thesis by (simp add: get_or_create_region_def reference_only_refl)
qed

lemma fold_reference:
  assumes "\<And>x db. reference_only db (f x db) \<and> P x (f x db)" and "\<And>x db db'. reference_only db db' \<Longrightarrow> P x db \<Longrightarrow> P x db'"
  shows "reference_only db (fold f xs db) \<and> (\<forall>x \<in> set xs. P x (fold f xs db))"
proof (induction xs arbitrary: db)
  case (Cons x xs)
  from Cons.IH [of "f x db"] assms show ?case by (auto intro: reference_only_trans)
qed (simp add: reference_only_refl)

text \<open>
  The reference rows can always be written, however many of them exist; nothing else changes, and
  afterwards every role and region the program looks up by name is there.
\<close>

theorem reference_data_complete:
  assumes "db_ok db"
  shows "\<exists>db'. bootstrap_reference_data db = Some db' \<and> db_ok db' \<and> reference_only db db'
    \<and> (\<forall>name \<in> fst ` set ROLES. role_named db' name \<noteq> None) \<and> (\<forall>name \<in> set REGIONS. region_named db' name \<noteq> None)"
proof -
  let ?db1 = "fold reference_role ROLES db"
  let ?db2 = "fold get_or_create_region REGIONS ?db1"
  have ok: "db_ok ?db2" by (intro fold_keeps [where P = db_ok] reference_role_ok region_ok assms)
  have "reference_only db ?db1 \<and> (\<forall>nd \<in> set ROLES. fst nd \<in> r_name ` set (roles ?db1))"
    by (rule fold_reference [where P = "\<lambda>nd db. fst nd \<in> r_name ` set (roles db)"])
      (use reference_role_step in blast, auto simp: reference_only_def)
  moreover have "reference_only ?db1 ?db2 \<and> (\<forall>g \<in> set REGIONS. g \<in> g_name ` set (regions ?db2))"
    by (rule fold_reference [where P = "\<lambda>g db. g \<in> g_name ` set (regions db)"])
      (use region_step in blast, auto simp: reference_only_def)
  moreover from this have "r_name ` set (roles ?db1) \<subseteq> r_name ` set (roles ?db2)" by (auto simp: reference_only_def)
  ultimately show ?thesis
    using ok by (intro exI [of _ ?db2]) (auto simp: bootstrap_reference_data_def commit_ok role_named_None region_named_None
        simp del: fold_simps intro: reference_only_trans)
qed

text \<open>A made licence number is one that registration accepts.\<close>

lemma made_licence_ok: "list_all (\<lambda>d. validate_driver_lic (make_lic (dl_licence d)) (Some (dl_state d))) DEMO_LOGINS"
  by code_simp

text \<open>Anchoring after a migration has nothing to do on a database in which the invariant holds.\<close>

lemma anchoring_keeps_db: "election_inv (a_db st) \<Longrightarrow> anchor_open_election_keys env st = (r, st') \<Longrightarrow> a_db st' = a_db st"
  by (auto simp: anchor_open_election_keys_def commit_Some_iff dest: reconcile_keeps_db split: sum.splits prod.splits option.splits)

section \<open>What seeding keeps\<close>

text \<open>An account that existed before: only what was empty is filled in, and the address of \<open>admin\<close> is set.\<close>

definition account_kept :: "user \<Rightarrow> user \<Rightarrow> bool" where
  "account_kept u u' \<longleftrightarrow> u_id u' = u_id u \<and> username u' = username u \<and> password_hash u' = password_hash u
     \<and> password_changed_at u' = password_changed_at u \<and> session_version u' = session_version u
     \<and> failed_login_attempts u' = failed_login_attempts u \<and> account_locked_until u' = account_locked_until u
     \<and> email_verified u' = email_verified u \<and> u_role_id u' = u_role_id u
     \<and> (username u \<noteq> ''admin'' \<longrightarrow> email u' = email u) \<and> (account_status u \<noteq> [] \<longrightarrow> account_status u' = account_status u)
     \<and> (driver_lic_no u \<noteq> [] \<longrightarrow> driver_lic_no u' = driver_lic_no u \<and> driver_lic_hash u' = driver_lic_hash u)"

lemma account_kept_refl [simp]: "account_kept u u"
  by (simp add: account_kept_def)

lemma account_kept_trans: "account_kept u v \<Longrightarrow> account_kept v w \<Longrightarrow> account_kept u w"
  by (auto simp: account_kept_def)

definition same_ballots :: "database \<Rightarrow> database \<Rightarrow> bool" where
  "same_ballots db db' \<longleftrightarrow> votes db' = votes db \<and> vote_receipts db' = vote_receipts db \<and> blind_tokens db' = blind_tokens db
     \<and> nullifiers db' = nullifiers db \<and> result_keys db' = result_keys db \<and> signed_results db' = signed_results db
     \<and> otp_challenges db' = otp_challenges db"

definition accounts_kept :: "database \<Rightarrow> database \<Rightarrow> bool" where
  "accounts_kept db db' \<longleftrightarrow> (\<forall>u \<in> set (users db). \<exists>u' \<in> set (users db'). account_kept u u')"

text \<open>The state of the rows during the run, relative to the rows before it.\<close>

definition seeded :: "database \<Rightarrow> database \<Rightarrow> bool" where
  "seeded b db \<longleftrightarrow> same_ballots b db \<and> elections db = elections b \<and> candidates db = candidates b
     \<and> role_ids b \<subseteq> role_ids db \<and> unique_on u_id (users db) \<and> accounts_kept b db
     \<and> (\<exists>rs. electoral_rolls db = electoral_rolls b @ rs)"

lemma seeded_start: "db_ok db \<Longrightarrow> seeded db db"
  by (auto simp: seeded_def same_ballots_def accounts_kept_def db_ok_def users_ok_def intro: account_kept_refl)

lemma seeded_role: "seeded b db \<Longrightarrow> seeded b (get_or_create_role nd db)"
  by (auto simp: get_or_create_role_def add_role_def seeded_def same_ballots_def accounts_kept_def role_ids_def)

lemma seeded_region: "seeded b db \<Longrightarrow> seeded b (get_or_create_region name db)"
  by (auto simp: get_or_create_region_def add_region_def seeded_def same_ballots_def accounts_kept_def role_ids_def)

lemma seeded_joins:
  assumes "seeded b db" and "u_id u = fresh_id (map u_id (users db))"
  shows "seeded b (db\<lparr>users := users db @ [u]\<rparr>)"
  using assms fresh_id_not_in [of "map u_id (users db)"]
  by (auto simp: seeded_def same_ballots_def accounts_kept_def role_ids_def)

lemma seeded_add_user:
  assumes "seeded b db" and "add_user env (seed_user env db name address lic state r) p id db = Inr db'"
  shows "seeded b db'"
  using assms(2) by (rule add_user_InrD) (auto intro: seeded_joins [OF assms(1)] simp: seed_user_def)

lemma seeded_add_test_user: "seeded b db \<Longrightarrow> add_test_user env r v db = Inr db' \<Longrightarrow> seeded b db'"
  by (auto simp: add_test_user_def user_set_lic_hash_before_insert_def seed_user_def intro!: seeded_joins split: sum.splits)

lemma seeded_roll: "seeded b db \<Longrightarrow> add_roll env r db = Inr db' \<Longrightarrow> seeded b db'"
  by (auto simp: add_roll_def seeded_def same_ballots_def accounts_kept_def role_ids_def split: sum.splits)

lemma complete_user_kept:
  assumes "user_set_lic_hash_before_update pepper u (complete_user db d r u) = Inr u'"
    and "u_role_id u \<in> role_ids db" and "username u = dl_username d"
  shows "account_kept u u'"
proof -
  have "role_of db u \<noteq> None" using assms(2) by (auto simp: role_of_def role_ids_def find_None_iff)
  with assms(1,3) show ?thesis
    by (auto simp: user_set_lic_hash_before_update_def complete_user_def account_kept_def split: if_splits sum.splits)
qed

lemma seeded_completed:
  assumes "seeded b db" and "db_ok b" and "u \<in> set (users db)" and "u_id u' = u_id u"
    and "u_role_id u \<in> role_ids db \<Longrightarrow> account_kept u u'"
  shows "seeded b (update_user u' db)"
proof -
  have ids: "map u_id (users (update_user u' db)) = map u_id (users db)"
    by (simp add: update_user_def, rule map_update_where) (simp add: assms(4))
  have "\<exists>v' \<in> set (users (update_user u' db)). account_kept v v'" if v: "v \<in> set (users b)" for v
  proof -
    obtain w where w: "w \<in> set (users db)" "account_kept v w" using assms(1) v by (auto simp: seeded_def accounts_kept_def)
    have "u_role_id v \<in> role_ids b" using assms(2) v by (auto simp: db_ok_def users_ok_def refs_ok_def list_all_iff)
    then have role: "u_role_id w \<in> role_ids db" using assms(1) w(2) by (auto simp: seeded_def account_kept_def)
    show ?thesis
    proof (cases "u_id w = u_id u")
      case True
      then have "w = u" using unique_on_eqD [of u_id "users db" w u] assms(1,3) w(1) by (simp add: seeded_def)
      then have "account_kept v u'" using account_kept_trans [OF w(2)] assms(5) role by simp
      moreover have "u' \<in> set (users (update_user u' db))"
        using assms(3,4) by (auto simp: update_user_def in_update_where_const)
      ultimately show ?thesis by blast
    next
      case False
      then have "w \<in> set (users (update_user u' db))" using w(1) assms(4) by (auto simp: update_user_def in_update_where_const)
      with w(2) show ?thesis by blast
    qed
  qed
  then have "accounts_kept b (update_user u' db)" by (simp add: accounts_kept_def)
  moreover have "unique_on u_id (users (update_user u' db))" using ids assms(1) by (simp add: seeded_def)
  ultimately show ?thesis using assms(1) by (simp add: seeded_def same_ballots_def role_ids_def update_user_def)
qed

lemma seeded_login:
  assumes "seeded b db" and "db_ok b" and "seed_login env d db = Inr db'"
  shows "seeded b db'"
proof -
  obtain r where r: "role_named db (dl_role d) = Some r" using assms(3) by (auto simp: seed_login_def split: option.splits)
  show ?thesis
  proof (cases "user_named db (dl_username d)")
    case None
    with assms(3) r show ?thesis by (auto simp: seed_login_def intro: seeded_add_user [OF assms(1)])
  next
    case (Some u)
    then have u: "u \<in> set (users db)" "username u = dl_username d" by (auto simp: user_named_def find_Some_iff)
    obtain u' where u': "user_set_lic_hash_before_update (se_pepper env) u (complete_user db d r u) = Inr u'" "db' = update_user u' db"
      using assms(3) r Some by (auto simp: seed_login_def split: sum.splits)
    have "u_id u' = u_id u"
      using u'(1) by (auto simp: user_set_lic_hash_before_update_def complete_user_def split: if_splits sum.splits)
    with seeded_completed [OF assms(1,2) u(1)] complete_user_kept [OF u'(1) _ u(2)] u'(2) show ?thesis by blast
  qed
qed

lemma seeded_test_users:
  assumes "seeded b db" and "seed_test_users env vs db = Inr db'"
  shows "seeded b db'"
  using assms(2) unfolding seed_test_users_def
  by (auto split: option.splits if_splits elim!: for_each_invariant [where I = "seeded b"] intro: assms(1) seeded_add_test_user)

lemma seeded_test_rolls:
  assumes "seeded b db" and "seed_test_rolls env hash vs db = Inr db'"
  shows "seeded b db'"
  using assms(2) unfolding seed_test_rolls_def
  by (auto split: option.splits if_splits elim!: for_each_invariant [where I = "seeded b"] intro: assms(1) seeded_roll)

lemma seeded_voter_roll: "seeded b db \<Longrightarrow> seed_voter_roll env db = Inr db' \<Longrightarrow> seeded b db'"
  by (auto simp: seed_voter_roll_def split: option.splits if_splits intro: seeded_roll)

text \<open>Up to the elections the run is of this kind.\<close>

lemma seed_rows_InrD:
  assumes "db_ok b" and "seed_rows env hash generator b = Inr db'"
  obtains db where "seeded b db" and "seed_elections env db = Inr db'"
proof -
  define vs where "vs = (if create_test_voters (se_environ env) then generator else None)"
  let ?db0 = "fold get_or_create_region REGIONS (fold get_or_create_role ROLES b)"
  obtain db1 db2 db3 db4 where run: "for_each (seed_login env) DEMO_LOGINS ?db0 = Inr db1"
    "(case vs of None \<Rightarrow> Inr db1 | Some vs \<Rightarrow> seed_test_users env vs db1) = Inr db2"
    "seed_voter_roll env db2 = Inr db3"
    "(case vs of None \<Rightarrow> Inr db3 | Some vs \<Rightarrow> seed_test_rolls env hash vs db3) = Inr db4"
    "seed_elections env db4 = Inr db'"
    using assms(2) by (auto simp: seed_rows_def Let_def then_do_Inr_iff flush_Inr_iff simp flip: vs_def)
  have "seeded b ?db0"
    by (intro fold_keeps [where P = "seeded b"] seeded_role seeded_region seeded_start [OF assms(1)])
  then have "seeded b db1"
    by (rule for_each_invariant [OF run(1)]) (rule seeded_login [OF _ assms(1)])
  then have "seeded b db2" using run(2) by (auto intro: seeded_test_users split: option.splits)
  then have "seeded b db3" using run(3) by (rule seeded_voter_roll)
  then have "seeded b db4" using run(4) by (auto intro: seeded_test_rolls split: option.splits)
  then show thesis using run(5) by (rule that)
qed

section \<open>The seeded elections\<close>

lemma fold_add_candidate:
  "\<exists>cs. fold (add_candidate region eid) nps db = db\<lparr>candidates := candidates db @ cs\<rparr> \<and> length cs = length nps
     \<and> (\<forall>c \<in> set cs. c_election_id c = eid \<and> c_region_id c = region \<and> c_position c = ''House of Representatives'')"
proof (induction nps arbitrary: db)
  case (Cons np nps)
  obtain c where c: "add_candidate region eid np db = db\<lparr>candidates := candidates db @ [c]\<rparr>"
    "c_election_id c = eid" "c_region_id c = region" "c_position c = ''House of Representatives''"
    by (simp add: add_candidate_def)
  obtain cs where "fold (add_candidate region eid) nps (db\<lparr>candidates := candidates db @ [c]\<rparr>) = db\<lparr>candidates := candidates db @ c # cs\<rparr>"
    "length cs = length nps" "\<forall>c \<in> set cs. c_election_id c = eid \<and> c_region_id c = region \<and> c_position c = ''House of Representatives''"
    using Cons.IH [of "db\<lparr>candidates := candidates db @ [c]\<rparr>"] by auto
  with c show ?case by (intro exI [of _ "c # cs"]) simp
qed simp

lemma remdups_constant:
  assumes "xs \<noteq> []" and "\<And>x. x \<in> set xs \<Longrightarrow> f x = k"
  shows "remdups (map f xs) = [k]"
  using assms
proof (induction xs)
  case (Cons x xs)
  then show ?case by (cases xs) (auto simp: image_iff)
qed simp

text \<open>Two elections whose numbers are new, each with a single region and contest; the first is open unless another is.\<close>

lemma seed_elections_InrD:
  assumes "seed_elections env db = Inr db'" and "candidates db = []"
  obtains syd vic and cs :: "candidate list" where "db' = db\<lparr>elections := elections db @ [syd, vic], candidates := cs\<rparr>"
    and "el_id syd \<notin> election_ids db" and "el_id vic \<notin> election_ids db" and "el_id syd \<noteq> el_id vic"
    and "el_status syd = (if \<exists>e \<in> set (elections db). el_status e = ''open'' then ''draft'' else ''open'')" and "el_status vic = ''draft''"
    and "blind_signing_key_id syd = None" and "single_contest db' (el_id syd)"
proof -
  define syd where "syd = new_election env db ''Sydney House Election 2025''
     (if \<exists>e \<in> set (elections db). el_status e = ''open'' then ''draft'' else ''open'')
     (if \<exists>e \<in> set (elections db). el_status e = ''open'' then None else Some (se_now env))"
  define vic where "vic = new_election env (add_election syd db) ''Victoria East House Election 2025'' ''draft'' None"
  let ?db = "db\<lparr>elections := elections db @ [syd, vic]\<rparr>"
  obtain g1 g2 where run: "db' = fold (add_candidate g2 (el_id vic)) vic_candidates (fold (add_candidate g1 (el_id syd)) sydney_candidates ?db)"
    using assms by (auto simp: seed_elections_def Let_def then_do_Inr_iff flush_Inr_iff list_ex_iff add_election_def
        syd_def vic_def split: option.splits if_splits)
  obtain cs1 cs2 where cs: "db' = ?db\<lparr>candidates := cs1 @ cs2\<rparr>" "length cs1 = 3"
    "\<forall>c \<in> set cs1. c_election_id c = el_id syd \<and> c_region_id c = g1 \<and> c_position c = ''House of Representatives''"
    "\<forall>c \<in> set cs2. c_election_id c = el_id vic"
    using fold_add_candidate [of g1 "el_id syd" sydney_candidates ?db]
      fold_add_candidate [of g2 "el_id vic" vic_candidates "fold (add_candidate g1 (el_id syd)) sydney_candidates ?db"]
      run assms(2) by (auto simp: sydney_candidates_def)
  have new: "el_id syd \<notin> election_ids db" "el_id vic \<notin> insert (el_id syd) (election_ids db)"
    using fresh_id_not_in [of "map el_id (elections db)"] fresh_id_not_in [of "map el_id (elections (add_election syd db))"]
    by (simp_all add: syd_def vic_def new_election_def election_ids_def add_election_def)
  have "candidates_of db' (el_id syd) = cs1"
    using cs new by (auto simp: candidates_of_def filter_empty_conv filter_id_conv)
  moreover have "cs1 \<noteq> []" using cs(2) by auto
  ultimately have "single_contest db' (el_id syd)"
    using cs(3) by (simp add: single_contest_def election_regions_def election_positions_def remdups_constant)
  with new cs(1) show thesis
    by (intro that [of "cs1 @ cs2" syd vic]) (auto simp: syd_def vic_def new_election_def)
qed

lemma no_candidates_no_open: "election_inv db \<Longrightarrow> candidates db = [] \<Longrightarrow> e \<in> set (elections db) \<Longrightarrow> el_status e \<noteq> ''open''"
  using election_invD(3) [of db e] by (auto simp: single_contest_def election_regions_def candidates_of_def)

text \<open>Anchoring the one open election that the run has made.\<close>

lemma reconcile_one:
  assumes "reconcile_open_election_keys env db ks = (Inr (n, db'), ks')"
    and "filter (\<lambda>e. el_status e = ''open'') (elections db) = [e]" and "blind_signing_key_id e = None"
  obtains k where "db' = update_election (e\<lparr>blind_signing_key_id := Some k\<rparr>) db" and "valid_fingerprint k"
  using assms by (auto simp: reconcile_open_election_keys_def dest: ensure_key_id(1) split: if_splits sum.splits prod.splits)

lemma seeded_unused:
  assumes "election_inv b" and "same_ballots b db" and "i \<notin> election_ids b"
  shows "unused db i"
  using assms election_invD(1) [OF assms(1)]
  by (auto simp: unused_def same_ballots_def db_ok_def votes_ok_def blind_tokens_ok_def nullifiers_ok_def refs_ok_def list_all_iff)

lemma seeded_elections_inv:
  assumes "election_inv b" and "same_ballots b db" and "db_ok db" and "elections db = elections b @ [syd, vic]"
    and "el_id vic \<notin> election_ids b" and "el_status syd = ''open''" and "el_status vic = ''draft''"
    and "single_contest db (el_id syd)" and "\<exists>k. blind_signing_key_id syd = Some k \<and> valid_fingerprint k"
    and "\<forall>e \<in> set (elections b). el_status e \<noteq> ''open''"
  shows "election_inv db"
proof -
  note inv = election_invD [OF assms(1)]
  have eqs: "votes db = votes b" "blind_tokens db = blind_tokens b" "nullifiers db = nullifiers b" "signed_results db = signed_results b"
    using assms(2) by (simp_all add: same_ballots_def)
  have "unused db (el_id e)" if "e \<in> set (elections b)" "el_status e = ''draft''" for e
    using inv(5) [OF that] eqs by (simp add: unused_def)
  moreover have "unused db (el_id vic)" using seeded_unused [OF assms(1,2,5)] .
  moreover have "\<exists>e \<in> set (elections db). el_id e = sr_election_id r \<and> el_status e = ''closed''" if "r \<in> set (signed_results db)" for r
    using inv(6) [of r] that eqs assms(4) by auto
  ultimately show ?thesis
    using assms(3-10) unfolding election_inv_def by auto
qed

section \<open>The whole run\<close>

text \<open>The elections of before stay as they are; new ones are made only where no candidate exists.\<close>

definition elections_extended :: "database \<Rightarrow> database \<Rightarrow> bool" where
  "elections_extended db db' \<longleftrightarrow>
     (if candidates db = [] then \<exists>syd vic. elections db' = elections db @ [syd, vic] \<and> el_status syd = ''open'' \<and> el_status vic = ''draft''
      else elections db' = elections db \<and> candidates db' = candidates db)"

lemma seeding_done:
  assumes "election_inv b" and "seed_rows env hash generator b = Inr db1"
    and "reconcile_open_election_keys aenv db1 ks = (Inr (n, db2), ks')" and "db_ok db2"
  shows "election_inv db2 \<and> same_ballots b db2 \<and> accounts_kept b db2 \<and> elections_extended b db2"
proof -
  obtain db where db: "seeded b db" and el: "seed_elections env db = Inr db1"
    using seed_rows_InrD [OF election_invD(1) [OF assms(1)] assms(2)] by blast
  note kept = db [unfolded seeded_def]
  show ?thesis
  proof (cases "candidates b = []")
    case True
    then have none: "\<forall>e \<in> set (elections b). el_status e \<noteq> ''open''" using no_candidates_no_open [OF assms(1)] by blast
    obtain syd vic cs where db1: "db1 = db\<lparr>elections := elections db @ [syd, vic], candidates := cs\<rparr>"
      and new: "el_id syd \<notin> election_ids b" "el_id vic \<notin> election_ids b" "el_id syd \<noteq> el_id vic"
      and st: "el_status syd = ''open''" "el_status vic = ''draft''" "blind_signing_key_id syd = None" "single_contest db1 (el_id syd)"
      using seed_elections_InrD [OF el] kept True none by (simp add: election_ids_def) metis
    have "filter (\<lambda>e. el_status e = ''open'') (elections db1) = [syd]"
      using db1 kept none st by (simp add: filter_empty_conv)
    then obtain k where k: "db2 = update_election (syd\<lparr>blind_signing_key_id := Some k\<rparr>) db1" "valid_fingerprint k"
      using reconcile_one [OF assms(3)] st(3) by blast
    let ?syd = "syd\<lparr>blind_signing_key_id := Some k\<rparr>"
    have els: "elections db2 = elections b @ [?syd, vic]"
    proof -
      have "update_where (\<lambda>x. el_id x = el_id syd) (\<lambda>_. ?syd) (elections b) = elections b"
        using new(1) by (auto simp: update_where_def election_ids_def image_iff intro!: map_idI)
      then show ?thesis using new(3) kept by (simp add: k(1) db1 update_election_def update_where_def)
    qed
    have same: "same_ballots b db2" "accounts_kept b db2"
      using kept by (simp_all add: k(1) db1 update_election_def same_ballots_def accounts_kept_def)
    have "candidates db2 = candidates db1" by (simp add: k(1) update_election_def)
    then have "single_contest db2 (el_id syd)"
      using st(4) single_contest_same_roster [of db2 "el_id syd" db1] by (simp add: candidates_of_def)
    then have "election_inv db2"
      using seeded_elections_inv [OF assms(1) same(1) assms(4) els new(2)] st k(2) none by simp
    with same els st show ?thesis by (auto simp: elections_extended_def True)
  next
    case False
    then have db1: "db1 = db" using el kept by (simp add: seed_elections_def)
    have "db2 = db1"
    proof (rule reconcile_anchored [OF _ assms(3) [unfolded reconcile_open_election_keys_def]])
      fix e assume "e \<in> set (filter (\<lambda>e. el_status e = ''open'') (elections db1))"
      then show "blind_signing_key_id e \<noteq> None" using election_invD(4) [OF assms(1), of e] kept db1 by auto
    qed
    moreover have "election_inv db"
      using assms(4) kept \<open>db2 = db1\<close> db1
      by (intro election_inv_same_elections [OF assms(1)]) (simp_all add: same_ballots_def candidates_of_def unused_def)
    ultimately show ?thesis using kept db1 False by (simp add: elections_extended_def)
  qed
qed

text \<open>
  C40: seeding the demonstration data harms no election. However the run ends, the election invariant
  still holds, and votes, receipts, authorizations, nullifiers, result keys, signed results and login
  codes are the same. A run that fails leaves the database as it was. A run that succeeds was allowed
  by the setting; every account of before is still there with its password, session version, role
  and lock; with candidates in the database, elections and candidates are unchanged, and without
  any, exactly one open and one draft election are added.
\<close>

theorem seeding_keeps_elections:
  assumes "election_inv (a_db st)" and "init_database env hash generator st = (res, st')"
  shows "election_inv (a_db st') \<and> same_ballots (a_db st) (a_db st')
    \<and> (case res of
         Inl _ \<Rightarrow> a_db st' = a_db st
       | Inr _ \<Rightarrow> demo_seed_allowed (se_environ env) \<and> accounts_kept (a_db st) (a_db st') \<and> elections_extended (a_db st) (a_db st'))"
proof -
  have same: "same_ballots (a_db st) (a_db st)" by (simp add: same_ballots_def)
  from assms(2) consider "a_db st' = a_db st" "\<exists>e. res = Inl e"
    | db1 ks n where "res = Inr ()" "demo_seed_allowed (se_environ env)" "seed_rows env hash generator (a_db st) = Inr db1"
        "reconcile_open_election_keys (se_app env) db1 (a_keys st) = (Inr (n, a_db st'), ks)" "db_ok (a_db st')"
    by (auto simp: init_database_def commit_Some_iff split: if_splits sum.splits prod.splits option.splits)
  then show ?thesis
  proof cases
    case 1
    with assms(1) same show ?thesis by auto
  next
    case 2
    with seeding_done [OF assms(1) 2(3-5)] show ?thesis by simp
  qed
qed

text \<open>A run on a database whose accounts exist, without elections.\<close>

definition demo_account :: "int \<Rightarrow> string \<Rightarrow> int \<Rightarrow> user" where
  "demo_account i name role =
     demo_user\<lparr>u_id := i, username := name, email := Some name, driver_lic_hash := Some name, u_role_id := role\<rparr>"

definition seed_base :: database where
  "seed_base = demo_db\<lparr>users := [demo_account 1 ''admin'' 3, demo_account 2 ''delegate1'' 2, demo_account 7 ''voter1'' 1, demo_account 8 ''lix'' 1],
     elections := [], candidates := []\<rparr>"

definition seed_result :: database where
  "seed_result = projr (seed_rows demo_seed_env (\<lambda>_. 0) None seed_base)"

lemma seed_result: "seed_rows demo_seed_env (\<lambda>_. 0) None seed_base = Inr seed_result"
proof -
  have "\<not> isl (seed_rows demo_seed_env (\<lambda>_. 0) None seed_base)" by code_simp
  then show ?thesis by (simp add: seed_result_def)
qed

lemma seed_base_inv: "election_inv seed_base"
proof -
  have "db_ok seed_base" by code_simp
  then show ?thesis by (simp add: election_inv_def seed_base_def demo_db_def)
qed

lemma seed_result_db: "db_ok seed_result" "map (\<lambda>e. (el_id e, el_status e, blind_signing_key_id e, blind_key_recovery_required e)) (elections seed_result)
    = [(1, ''open'', None, False), (2, ''draft'', None, False)]" "blind_tokens seed_result = []"
  by code_simp+


theorem seeding_keeps_elections_witness:
  "\<exists>st' syd vic. init_database demo_seed_env (\<lambda>_. 0) None \<lparr>a_db = seed_base, a_keys = empty_store, a_audit = init_audit_handler [] None\<rparr> = (Inr (), st')
     \<and> election_inv (a_db st') \<and> elections (a_db st') = [syd, vic] \<and> el_status syd = ''open''
     \<and> (\<exists>u \<in> set (users (a_db st')). username u = ''admin'' \<and> password_hash u = ''x'')"
proof -
  let ?st = "\<lparr>a_db = seed_base, a_keys = empty_store, a_audit = init_audit_handler [] None\<rparr>"
  obtain e e2 where els: "elections seed_result = [e, e2]" "el_id e = 1" "el_status e = ''open''" "blind_signing_key_id e = None"
    "\<not> blind_key_recovery_required e" "el_status e2 = ''draft''" "el_id e2 = 2"
    using seed_result_db(2) by auto
  obtain comps ks where key: "ensure_election_blind_signing_key toy_lib demo_key_env empty_store 1 None True = (Inr comps, ks)"
    using provision_then_restart [OF toy_lib_ok _ demo_provision(5,6,1-4), of demo_key_env] by auto
  let ?db = "update_election (e\<lparr>blind_signing_key_id := Some (kc_key_id comps)\<rparr>) seed_result"
  have "e_lib (se_app demo_seed_env) = toy_lib" "e_key_env (se_app demo_seed_env) = demo_key_env"
    by (simp_all add: demo_seed_env_def demo_vote_env_def)
  then have rec: "reconcile_open_election_keys (se_app demo_seed_env) seed_result empty_store = (Inr (1, ?db), ks)"
    using els key by (simp add: reconcile_open_election_keys_def seed_result_db(3))
  have "db_ok ?db"
  proof -
    have "elections ?db = [e\<lparr>blind_signing_key_id := Some (kc_key_id comps)\<rparr>, e2]" using els by (simp add: update_election_def)
    with seed_result_db(1) els show ?thesis
      by (simp add: db_ok_def constraint_defs)
  qed
  moreover have "demo_seed_allowed (se_environ demo_seed_env)" by code_simp
  ultimately have run: "init_database demo_seed_env (\<lambda>_. 0) None ?st = (Inr (), ?st\<lparr>a_db := ?db, a_keys := ks\<rparr>)"
    using seed_result rec by (simp add: init_database_def commit_ok)
  let ?st' = "?st\<lparr>a_db := ?db, a_keys := ks\<rparr>"
  from seeding_keeps_elections [OF _ run] seed_base_inv
  have after: "election_inv ?db" "accounts_kept seed_base ?db" "elections_extended seed_base ?db" by simp_all
  have "\<exists>u \<in> set (users ?db). username u = ''admin'' \<and> password_hash u = ''x''"
    using after(2) unfolding accounts_kept_def
    by (force simp: seed_base_def demo_account_def demo_user_def account_kept_def)
  moreover obtain syd vic where "elections ?db = [syd, vic]" "el_status syd = ''open''"
    using after(3) by (auto simp: elections_extended_def seed_base_def)
  ultimately show ?thesis using run after(1) by (intro exI [of _ ?st'] exI [of _ syd] exI [of _ vic]) simp
qed

end
