(* ===== verification/Test_Voters.thy ===== *)
theory Test_Voters
  imports Seeding
begin

text \<open>
  The generated voters of the demonstration, \<^verbatim>\<open>app/generate_test_voters.py\<close>, and the lines of the settings
  file that \<^verbatim>\<open>scripts/create_test_voters.py\<close> rewrites. The positions the random choices draw are
  arguments.
\<close>

section \<open>The pools\<close>

definition FIRST_NAMES :: "string list" where
  "FIRST_NAMES =
     [''James'', ''Mary'', ''John'', ''Patricia'', ''Robert'', ''Jennifer'', ''Michael'', ''Linda'', ''William'',
      ''Elizabeth'', ''David'', ''Barbara'', ''Richard'', ''Susan'', ''Joseph'', ''Jessica'', ''Thomas'', ''Sarah'',
      ''Christopher'', ''Karen'', ''Charles'', ''Nancy'', ''Daniel'', ''Lisa'', ''Matthew'', ''Betty'', ''Anthony'',
      ''Helen'', ''Mark'', ''Sandra'', ''Donald'', ''Donna'', ''Steven'', ''Carol'', ''Paul'', ''Ruth'', ''Andrew'',
      ''Sharon'', ''Joshua'', ''Michelle'', ''Kenneth'', ''Laura'', ''Kevin'', ''Sarah'', ''Brian'', ''Kimberly'',
      ''George'', ''Deborah'', ''Edward'', ''Dorothy'', ''Ronald'', ''Lisa'', ''Timothy'', ''Nancy'', ''Jason'', ''Karen'',
      ''Jeffrey'', ''Betty'', ''Ryan'', ''Helen'', ''Jacob'', ''Sandra'', ''Gary'', ''Donna'', ''Nicholas'', ''Carol'',
      ''Eric'', ''Ruth'', ''Jonathan'', ''Sharon'', ''Stephen'', ''Michelle'', ''Larry'', ''Laura'', ''Justin'', ''Sarah'',
      ''Scott'', ''Kimberly'', ''Brandon'', ''Deborah'', ''Benjamin'', ''Dorothy'', ''Samuel'', ''Amy'', ''Gregory'',
      ''Angela'', ''Alexander'', ''Ashley'', ''Patrick'', ''Brenda'', ''Jack'', ''Emma'', ''Dennis'', ''Olivia'',
      ''Jerry'', ''Cynthia'', ''Tyler'', ''Marie'', ''Aaron'', ''Janet'', ''Jose'', ''Catherine'', ''Henry'', ''Frances'',
      ''Adam'', ''Christine'', ''Douglas'', ''Samantha'', ''Nathan'', ''Debra'', ''Peter'', ''Rachel'', ''Zachary'',
      ''Carolyn'', ''Kyle'', ''Janet'', ''Walter'', ''Virginia'', ''Harold'', ''Maria'', ''Carl'', ''Heather'', ''Arthur'',
      ''Diane'', ''Ryan'', ''Julie'', ''Roger'', ''Joyce'', ''Joe'', ''Victoria'', ''Juan'', ''Kelly'', ''Jack'',
      ''Christina'', ''Albert'', ''Joan'', ''Wayne'', ''Evelyn'', ''Ralph'', ''Lauren'', ''Mason'', ''Judith'', ''Roy'',
      ''Megan'', ''Eugene'', ''Cheryl'', ''Louis'', ''Andrea'', ''Philip'', ''Hannah'', ''Bobby'', ''Jacqueline'',
      ''Johnny'', ''Martha'', ''Terry'', ''Gloria'', ''Sean'', ''Teresa'', ''Billy'', ''Sara'']"

definition LAST_NAMES :: "string list" where
  "LAST_NAMES =
     [''Smith'', ''Johnson'', ''Williams'', ''Brown'', ''Jones'', ''Garcia'', ''Miller'', ''Davis'', ''Rodriguez'',
      ''Martinez'', ''Hernandez'', ''Lopez'', ''Gonzalez'', ''Wilson'', ''Anderson'', ''Thomas'', ''Taylor'', ''Moore'',
      ''Jackson'', ''Martin'', ''Lee'', ''Perez'', ''Thompson'', ''White'', ''Harris'', ''Sanchez'', ''Clark'',
      ''Ramirez'', ''Lewis'', ''Robinson'', ''Walker'', ''Young'', ''Allen'', ''King'', ''Wright'', ''Scott'', ''Torres'',
      ''Nguyen'', ''Hill'', ''Flores'', ''Green'', ''Adams'', ''Nelson'', ''Baker'', ''Hall'', ''Rivera'', ''Campbell'',
      ''Mitchell'', ''Carter'', ''Roberts'', ''Gomez'', ''Phillips'', ''Evans'', ''Turner'', ''Diaz'', ''Parker'',
      ''Cruz'', ''Edwards'', ''Collins'', ''Reyes'', ''Stewart'', ''Morris'', ''Morales'', ''Murphy'', ''Cook'',
      ''Rogers'', ''Gutierrez'', ''Ortiz'', ''Morgan'', ''Cooper'', ''Peterson'', ''Bailey'', ''Reed'', ''Kelly'',
      ''Howard'', ''Ramos'', ''Kim'', ''Cox'', ''Ward'', ''Richardson'', ''Watson'', ''Brooks'', ''Chavez'', ''Wood'',
      ''James'', ''Bennett'', ''Gray'', ''Mendoza'', ''Ruiz'', ''Hughes'', ''Price'', ''Alvarez'', ''Castillo'',
      ''Sanders'', ''Patel'', ''Myers'', ''Long'', ''Ross'', ''Foster'', ''Jimenez'', ''Powell'', ''Jenkins'', ''Perry'',
      ''Russell'', ''Sullivan'', ''Bell'', ''Coleman'', ''Butler'', ''Henderson'', ''Barnes'', ''Gonzales'', ''Fisher'',
      ''Vasquez'', ''Simmons'', ''Romero'', ''Jordan'', ''Patterson'', ''Alexander'', ''Hamilton'', ''Graham'',
      ''Reynolds'', ''Griffin'', ''Wallace'', ''Moreno'', ''West'', ''Cole'', ''Hayes'', ''Bryant'', ''Herrera'',
      ''Gibson'', ''Ellis'', ''Tran'', ''Medina'', ''Aguilar'', ''Stevens'', ''Murray'', ''Ford'', ''Castro'',
      ''Marshall'', ''Owens'', ''Harrison'', ''Fernandez'', ''McDonald'', ''Woods'', ''Washington'', ''Kennedy'',
      ''Wells'', ''Vargas'', ''Henry'', ''Chen'', ''Freeman'', ''Webb'', ''Tucker'', ''Guzman'', ''Burns'', ''Crawford'',
      ''Olson'', ''Simpson'', ''Porter'', ''Hunter'']"

definition STREET_NAMES :: "string list" where
  "STREET_NAMES =
     [''King Street'', ''Queen Street'', ''George Street'', ''Elizabeth Street'', ''Collins Street'', ''Bourke Street'',
      ''Flinders Street'', ''Spencer Street'', ''Swanston Street'', ''Russell Street'', ''William Street'',
      ''High Street'', ''Main Street'', ''Church Street'', ''Park Street'', ''Victoria Street'', ''Albert Street'',
      ''James Street'', ''Smith Street'', ''Brown Street'', ''Jones Street'', ''Miller Street'', ''Davis Street'',
      ''Wilson Street'', ''Moore Street'', ''Taylor Street'', ''Anderson Street'', ''Thomas Street'', ''Jackson Street'',
      ''White Street'', ''Harris Street'', ''Martin Street'', ''Thompson Street'', ''Garcia Street'', ''Martinez Street'',
      ''Robinson Street'', ''Clark Street'', ''Rodriguez Street'', ''Lewis Street'', ''Lee Street'', ''Walker Street'',
      ''Hall Street'', ''Allen Street'', ''Young Street'', ''Hernandez Street'', ''King Avenue'', ''Queen Avenue'',
      ''George Avenue'', ''Elizabeth Avenue'', ''Collins Avenue'']"

text \<open>Suburb, state and postcode.\<close>

definition AUSTRALIAN_LOCATIONS :: "(string \<times> string \<times> string) list" where
  "AUSTRALIAN_LOCATIONS =
     [(''Sydney'', ''NSW'', ''2000''), (''Melbourne'', ''VIC'', ''3000''), (''Brisbane'', ''QLD'', ''4000''),
      (''Perth'', ''WA'', ''6000''), (''Adelaide'', ''SA'', ''5000''), (''Canberra'', ''ACT'', ''2600''),
      (''Darwin'', ''NT'', ''0800''), (''Hobart'', ''TAS'', ''7000''), (''Parramatta'', ''NSW'', ''2150''),
      (''Blacktown'', ''NSW'', ''2148''), (''Newcastle'', ''NSW'', ''2300''), (''Wollongong'', ''NSW'', ''2500''),
      (''Geelong'', ''VIC'', ''3220''), (''Ballarat'', ''VIC'', ''3350''), (''Bendigo'', ''VIC'', ''3550''),
      (''Gold Coast'', ''QLD'', ''4217''), (''Townsville'', ''QLD'', ''4810''), (''Cairns'', ''QLD'', ''4870''),
      (''Toowoomba'', ''QLD'', ''4350''), (''Rockingham'', ''WA'', ''6168''), (''Mandurah'', ''WA'', ''6210''),
      (''Bunbury'', ''WA'', ''6230''), (''Mount Gambier'', ''SA'', ''5290''), (''Whyalla'', ''SA'', ''5600''),
      (''Port Augusta'', ''SA'', ''5700'')]"

section \<open>The generator\<close>

record voter_draws =
  dr_first :: nat
  dr_last :: nat
  dr_location :: nat
  dr_house :: nat
  dr_street :: nat
  dr_year :: nat
  dr_month :: nat
  dr_day :: nat
  dr_letters :: "nat list"
  dr_digits :: "nat list"

text \<open>The ranges of the draws.\<close>

definition draws_ok :: "voter_draws \<Rightarrow> bool" where
  "draws_ok d \<longleftrightarrow> dr_first d < length FIRST_NAMES \<and> dr_last d < length LAST_NAMES \<and> dr_location d < length AUSTRALIAN_LOCATIONS
     \<and> 1 \<le> dr_house d \<and> dr_house d \<le> 999 \<and> dr_street d < length STREET_NAMES \<and> 1944 \<le> dr_year d \<and> dr_year d \<le> 2006
     \<and> 1 \<le> dr_month d \<and> dr_month d \<le> 12 \<and> 1 \<le> dr_day d \<and> dr_day d \<le> 28
     \<and> length (dr_letters d) = 2 \<and> list_all (\<lambda>k. k < 26) (dr_letters d) \<and> length (dr_digits d) = 6 \<and> list_all (\<lambda>k. k < 10) (dr_digits d)"

definition driver_license :: "voter_draws \<Rightarrow> string" where
  "driver_license d = map ((!) ''ABCDEFGHIJKLMNOPQRSTUVWXYZ'') (dr_letters d) @ map ((!) ''0123456789'') (dr_digits d)"

definition generate_random_voter_data :: "nat \<Rightarrow> voter_draws \<Rightarrow> test_voter" where
  "generate_random_voter_data index d =
     (let first_name = FIRST_NAMES ! dr_first d; last_name = LAST_NAMES ! dr_last d;
          (town, state, code) = AUSTRALIAN_LOCATIONS ! dr_location d in
      \<lparr>tv_username = ''testvoter'' @ zpad 3 (int index),
       tv_email = lower first_name @ ''.'' @ lower last_name @ show_nat 10 index @ ''@testvoters.com'',
       tv_password = ''testpass123'',
       tv_full_name = first_name @ '' '' @ last_name,
       tv_date_of_birth = zpad 4 (int (dr_year d)) @ ''-'' @ zpad 2 (int (dr_month d)) @ ''-'' @ zpad 2 (int (dr_day d)),
       tv_address_line1 = show_nat 10 (dr_house d) @ '' '' @ STREET_NAMES ! dr_street d,
       tv_suburb = town, tv_state = state, tv_postcode = code,
       tv_licence = driver_license d,
       tv_roll_number = ''ER-'' @ zpad 4 (1000 + int index)\<rparr>)"

definition TEST_VOTERS :: "(nat \<Rightarrow> voter_draws) \<Rightarrow> test_voter list" where
  "TEST_VOTERS draws = map (\<lambda>i. generate_random_voter_data (i + 1) (draws i)) [0..<100]"

definition get_test_voter_count :: "(nat \<Rightarrow> voter_draws) \<Rightarrow> nat" where
  "get_test_voter_count draws = length (TEST_VOTERS draws)"

section \<open>The settings file\<close>

text \<open>The lines, with their line ends; a last line without one is continued by the added line, as in the code.\<close>

definition setting_line :: "bool \<Rightarrow> string" where
  "setting_line enable = ''CREATE_TEST_VOTERS='' @ (if enable then ''true'' else ''false'') @ [CHR 0x0A]"

fun update_first :: "('a \<Rightarrow> bool) \<Rightarrow> 'a \<Rightarrow> 'a list \<Rightarrow> 'a list" where
  "update_first P y [] = []"
| "update_first P y (x # xs) = (if P x then y # xs else x # update_first P y xs)"

definition update_env_file :: "bool \<Rightarrow> string list option \<Rightarrow> string list" where
  "update_env_file enable content =
     (let lines = (case content of
            None \<Rightarrow> [''# Auto-created by create_test_voters.py for tests'' @ [CHR 0x0A], setting_line False]
          | Some ls \<Rightarrow> ls) in
      if list_ex (\<lambda>l. startswith l ''CREATE_TEST_VOTERS='') lines
      then update_first (\<lambda>l. startswith l ''CREATE_TEST_VOTERS='') (setting_line enable) lines
      else lines @ [setting_line enable])"

section \<open>What the generator gives\<close>

lemma voter_names:
  "map tv_username (TEST_VOTERS draws) = map (\<lambda>i. ''testvoter'' @ zpad 3 (int (i + 1))) [0..<100]"
  "map tv_roll_number (TEST_VOTERS draws) = map (\<lambda>i. ''ER-'' @ zpad 4 (1000 + int (i + 1))) [0..<100]"
  by (simp_all add: TEST_VOTERS_def generate_random_voter_data_def split_def Let_def)

text \<open>Padding with zeros loses nothing.\<close>

lemma zpad_zeros: "dropWhile (\<lambda>c. c = CHR ''0'') (zpad w (int n)) = (if n = 0 then [] else show_nat 10 n)"
proof -
  have "dropWhile (\<lambda>c. c = CHR ''0'') (replicate k (CHR ''0'') @ s) = dropWhile (\<lambda>c. c = CHR ''0'') s" for k s
    by (induction k) auto
  then have "dropWhile (\<lambda>c. c = CHR ''0'') (zpad w (int n)) = dropWhile (\<lambda>c. c = CHR ''0'') (show_nat 10 n)"
    by (simp add: zpad_def show_int_def Let_def)
  also have "\<dots> = (if n = 0 then [] else show_nat 10 n)"
    using show_nat_10_hd0 [of n] by (cases "show_nat 10 n") (auto simp: show_nat_small digit_char_def)
  finally show ?thesis .
qed

lemma zpad_inject: "zpad w (int m) = zpad w (int n) \<longleftrightarrow> m = n"
proof
  assume eq: "zpad w (int m) = zpad w (int n)"
  then have "(if m = 0 then [] else show_nat 10 m) = (if n = 0 then [] else show_nat 10 n)" using zpad_zeros by metis
  then show "m = n"
    using show_int_inject [of "int m" "int n"] show_nat_not_Nil [of 10 m] show_nat_not_Nil [of 10 n]
    by (auto simp: show_int_def eq_commute [of "[]"] split: if_splits)
qed simp

lemma roll_number_prefix:
  assumes "1000 \<le> n" and "n < 2000"
  shows "\<exists>s. zpad 4 (int n) = CHR ''1'' # s"
proof -
  have "show_nat 10 n = show_nat 10 (n div 10 div 10 div 10) @ [digit_char (n div 10 div 10 mod 10)] @ [digit_char (n div 10 mod 10)] @ [digit_char (n mod 10)]"
    using assms by (simp add: show_nat_big)
  moreover have "n div 10 div 10 div 10 = 1" using assms by simp
  moreover have "char_of (49 :: nat) = CHR ''1''" by code_simp
  ultimately show ?thesis by (simp add: zpad_def show_int_def Let_def show_nat_small digit_char_def)
qed

lemma location_states: "list_all (\<lambda>(t, s, c). upper s \<in> {''ACT'', ''NSW'', ''NT'', ''QLD'', ''SA'', ''TAS'', ''VIC'', ''WA''} \<and> s \<noteq> []) AUSTRALIAN_LOCATIONS"
  by code_simp

lemma letters_plain: "list_all (\<lambda>c. is_alnum_ascii c \<and> \<not> is_space c) ''ABCDEFGHIJKLMNOPQRSTUVWXYZ''" "list_all (\<lambda>c. is_alnum_ascii c \<and> \<not> is_space c) ''0123456789''"
  by code_simp+

lemma draw_in: "k < length s \<Longrightarrow> list_all P s \<Longrightarrow> P (s ! k)"
  by (simp add: list_all_length)

lemma driver_license_ok:
  assumes "draws_ok d"
  shows "length (driver_license d) = 8 \<and> list_all (\<lambda>c. is_alnum_ascii c \<and> \<not> is_space c) (driver_license d)"
proof -
  have "is_alnum_ascii (''ABCDEFGHIJKLMNOPQRSTUVWXYZ'' ! k) \<and> \<not> is_space (''ABCDEFGHIJKLMNOPQRSTUVWXYZ'' ! k)" if "k < 26" for k
    using draw_in [OF _ letters_plain(1), of k] that by simp
  moreover have "is_alnum_ascii (''0123456789'' ! k) \<and> \<not> is_space (''0123456789'' ! k)" if "k < 10" for k
    using draw_in [OF _ letters_plain(2), of k] that by simp
  ultimately show ?thesis
    using assms by (simp add: draws_ok_def driver_license_def list_all_iff ball_Un ball_simps image_iff)
qed

text \<open>
  Whatever is drawn, there are a hundred voters with different names and roll numbers, of the forms the
  seeding looks for, and with a licence that registration would accept for their state; their common
  password is one the policy refuses.
\<close>

theorem generated_voters:
  assumes "\<And>i. draws_ok (draws i)"
  shows "get_test_voter_count draws = 100 \<and> distinct (map tv_username (TEST_VOTERS draws)) \<and> distinct (map tv_roll_number (TEST_VOTERS draws))
    \<and> (\<forall>v \<in> set (TEST_VOTERS draws). startswith (tv_username v) ''testvoter'' \<and> startswith (tv_roll_number v) ''ER-1''
        \<and> validate_driver_lic (tv_licence v) (Some (tv_state v)) \<and> \<not> fst (validate_password_strength (tv_password v)))"
proof -
  have name: "tv_username (generate_random_voter_data i d) = ''testvoter'' @ zpad 3 (int i)"
    "tv_roll_number (generate_random_voter_data i d) = ''ER-'' @ zpad 4 (int (1000 + i))"
    "tv_password (generate_random_voter_data i d) = ''testpass123''" "tv_licence (generate_random_voter_data i d) = driver_license d"
    "tv_state (generate_random_voter_data i d) = fst (snd (AUSTRALIAN_LOCATIONS ! dr_location d))" for i d
    by (simp_all add: generate_random_voter_data_def split_def Let_def)
  have "distinct (map tv_username (TEST_VOTERS draws))" "distinct (map tv_roll_number (TEST_VOTERS draws))"
    by (simp_all only: TEST_VOTERS_def map_map distinct_map distinct_upt inj_on_def comp_def name zpad_inject same_append_eq) auto
  moreover have "startswith (''testvoter'' @ t) ''testvoter''" for t by (metis startswith_iff)
  moreover have "startswith (''ER-'' @ zpad 4 (1001 + int i)) ''ER-1''" if i: "i < 100" for i
  proof -
    obtain t where "zpad 4 (1001 + int i) = CHR ''1'' # t" using roll_number_prefix [of "1001 + i"] i by auto
    then have "''ER-'' @ zpad 4 (1001 + int i) = ''ER-1'' @ t" by simp
    then show ?thesis by (metis startswith_iff)
  qed
  moreover have "validate_driver_lic (driver_license (draws i)) (Some (fst (snd (AUSTRALIAN_LOCATIONS ! dr_location (draws i)))))" for i
  proof -
    let ?l = "driver_license (draws i)" and ?loc = "AUSTRALIAN_LOCATIONS ! dr_location (draws i)"
    note l = driver_license_ok [OF assms, of i]
    have "?l \<noteq> []" using l by auto
    then have "strip ?l = ?l" using l by (intro strip_id) (auto simp: list_all_iff)
    moreover have "filter (\<lambda>c. c \<noteq> CHR '' '') ?l = ?l"
    proof -
      have "is_space (CHR '' '')" by code_simp
      then show ?thesis using l by (auto simp: filter_id_conv list_all_iff)
    qed
    moreover have "upper (fst (snd ?loc)) \<in> {''ACT'', ''NSW'', ''NT'', ''QLD'', ''SA'', ''TAS'', ''VIC'', ''WA''} \<and> fst (snd ?loc) \<noteq> []"
      using draw_in [OF _ location_states, of "dr_location (draws i)"] assms [of i] by (simp add: draws_ok_def split_def)
    ultimately show ?thesis using l \<open>?l \<noteq> []\<close>
      by (simp add: validate_driver_lic_def or_else_def list_all_iff)
  qed
  moreover have "\<not> fst (validate_password_strength ''testpass123'')" by code_simp
  moreover have "get_test_voter_count draws = 100" by (simp add: get_test_voter_count_def TEST_VOTERS_def)
  ultimately show ?thesis
    by (auto simp: TEST_VOTERS_def name simp del: upt_rec_numeral)
qed

text \<open>Enabling and reading back: one line of the file decides, and no other changes.\<close>

lemma update_first_spec:
  "list_ex P xs \<Longrightarrow> \<exists>ys x zs. xs = ys @ x # zs \<and> \<not> list_ex P ys \<and> P x \<and> update_first P y xs = ys @ y # zs"
proof (induction xs)
  case (Cons x xs)
  show ?case
  proof (cases "P x")
    case True
    then show ?thesis by (intro exI [of _ "[]"]) simp
  next
    case False
    with Cons obtain ys z zs where "xs = ys @ z # zs" "\<not> list_ex P ys" "P z" "update_first P y xs = ys @ y # zs" by auto
    with False show ?thesis by (intro exI [of _ "x # ys"]) simp
  qed
qed simp

lemma update_env_file_idempotent: "update_env_file b (Some (update_env_file b c)) = update_env_file b c"
proof -
  let ?P = "\<lambda>l. startswith l ''CREATE_TEST_VOTERS=''"
  have p: "?P (setting_line b)" by (simp add: startswith_def setting_line_def)
  have again: "update_first ?P y (update_first ?P y xs) = update_first ?P y xs" if "?P y" for y xs
    using that by (induction xs) auto
  have none: "update_first ?P y (xs @ [y]) = xs @ [y]" if "?P y" "\<not> list_ex ?P xs" for y xs
    using that by (induction xs) auto
  have ex: "list_ex ?P (update_first ?P y xs)" if "?P y" "list_ex ?P xs" for y xs
    using that by (induction xs) auto
  show ?thesis using p again none ex by (auto simp: update_env_file_def Let_def)
qed

end
