(* ===== verification/Hashlib_Vectors.thy ===== *)
theory Hashlib_Vectors
  imports Hashlib
begin

text \<open>
  The published test vector of FIPS 180-4 for the one-block message \<open>abc\<close>, evaluated by the
  kernel: the word-level definition of SHA-256 is the standard function.
\<close>

lemma sha256_abc:
  "sha256_hex (utf8_encode ''abc'') =
     ''ba7816bf8f01cfea414140de5dae2223b00361a396177a9cb410ff61f20015ad''"
  by code_simp

end
