(* ===== verification/Spec2Isabelle.thy ===== *)
theory Spec2Isabelle
  imports Election_Refinement Access_Filters Db_Users Schema_Revisions Test_Voters Hashlib_Vectors
begin

text \<open>
  Verification library of the voting platform.

  \<^bold>\<open>The program.\<close> A Flask application lets managers draft, open and close elections of one region and one
  contest, lets enrolled voters obtain one blind signature per election and cast a ballot that carries the
  unblinded signature but no identity, and publishes signed counts. Around this stand accounts (registration,
  two factors, sessions, password maintenance, approval), the configuration at start-up, encryption of
  personal data, the audit log, database migrations and the scripts that provision an installation.
  Source paths below are relative to \<^verbatim>\<open>src/\<close>.

  \<^bold>\<open>How to read it.\<close> A table is a record per row and a list of rows in \<open>database\<close>; the declared constraints are
  the predicate \<open>db_ok\<close>, which \<open>commit\<close> checks and without which it is \<open>IntegrityError\<close>. A handler is a function
  from its environment (clock, random draws, libraries, settings), the current user, the submitted values and
  the state to a reply and the next state; redirects, JSON answers with their status and aborts are constructors
  of \<open>reply\<close>. Exceptions are \<open>Inl\<close> values. Random draws and salts are arguments.

  \<^bold>\<open>Ground.\<close>
  \<^item> \<open>Prelude\<close>: the rewrite collections, generic facts and the interfaces \<open>codec\<close>, \<open>constrained_table\<close>,
    \<open>transition_system\<close> and \<open>simulation\<close>, each interpreted by the components that provide it.
  \<^item> \<open>Py_Text\<close>, \<open>Py_Errors\<close>, \<open>Json\<close>, \<open>Base64\<close>, \<open>Ip_Address\<close>, \<open>Hashlib\<close> (with \<open>Hashlib_Vectors\<close>): what the program uses of the
    language and its standard library, with the round trips of the encoders. SHA-256 and HMAC are executable.

  \<^bold>\<open>Components.\<close>
  \<^item> \<open>Models\<close>: \<^verbatim>\<open>app/models.py\<close>, all tables, constraints and user methods. \<open>Password_Policy\<close>:
    \<^verbatim>\<open>app/security/password_validator.py\<close>. \<open>Otp\<close>: \<^verbatim>\<open>app/services/otp_service.py\<close>.
  \<^item> \<open>Web\<close>, \<open>App_State\<close>: \<^verbatim>\<open>app/helpers.py\<close>, \<^verbatim>\<open>app/utils/auth_decorators.py\<close>, \<^verbatim>\<open>app/security/csrf.py\<close> and the state
    the handlers share. \<open>Audit_Log\<close>: \<^verbatim>\<open>app/logging_service.py\<close>, \<^verbatim>\<open>app/routes/audit.py\<close>.
  \<^item> \<open>Blind_Signature\<close>: \<^verbatim>\<open>app/security/blind_signature.py\<close> with the key directory and the cache of a process, and the
    browser's blinding. \<open>Voting\<close>: \<^verbatim>\<open>app/routes/main.py\<close>, \<^verbatim>\<open>app/vote_service.py\<close>. \<open>Elections\<close>: \<^verbatim>\<open>app/routes/elections.py\<close>,
    \<^verbatim>\<open>app/routes/candidates.py\<close>, \<^verbatim>\<open>app/services/election_key_service.py\<close> and the election invariant.
  \<^item> \<open>Signing\<close>: \<^verbatim>\<open>app/security/vault_client.py\<close>, \<^verbatim>\<open>app/security/signing_service.py\<close>. \<open>Results\<close>: \<^verbatim>\<open>app/routes/results.py\<close>,
    \<^verbatim>\<open>app/services/results_service.py\<close>; the tally query is modelled as its join and grouping.
  \<^item> \<open>Sessions\<close>: \<^verbatim>\<open>app/security/jwt_helpers.py\<close> and the request hooks of \<^verbatim>\<open>app/__init__.py\<close>. \<open>Accounts\<close>:
    \<^verbatim>\<open>app/routes/password.py\<close>, \<^verbatim>\<open>password_reset.py\<close>, \<^verbatim>\<open>registration.py\<close>, \<^verbatim>\<open>admin_users.py\<close>. \<open>Auth\<close>: \<^verbatim>\<open>app/auth.py\<close>.
  \<^item> \<open>Config\<close>, \<open>Environment\<close>: \<open>create_app\<close> in \<^verbatim>\<open>app/__init__.py\<close>, \<^verbatim>\<open>app/utils/db_utils.py\<close>, \<^verbatim>\<open>app/environment.py\<close>.
    \<open>Encryption\<close>: \<^verbatim>\<open>app/security/encryption.py\<close>. \<open>Access_Filters\<close>: \<^verbatim>\<open>app/security/helpers.py\<close>, \<^verbatim>\<open>app/geo_service.py\<close>,
    \<^verbatim>\<open>app/middleware.py\<close>, \<^verbatim>\<open>app/routes/dev_routes.py\<close>, \<^verbatim>\<open>app/routes/health.py\<close> and the session's \<open>get_bind\<close>.
  \<^item> \<open>Relational\<close>, \<open>Schema_Analysis\<close>: tables, schema operations and SQL of the migrations, and an analysis of what a run of
    them can change. \<open>Election_Scope\<close>, \<open>Election_Scope_Correct\<close>, \<open>Schema_Revisions\<close>: \<^verbatim>\<open>migrations/versions\<close>.
    \<open>Pii_Migration\<close>: \<^verbatim>\<open>scripts/migrate_pii_envelope.py\<close>.
  \<^item> \<open>Db_Users\<close>: \<^verbatim>\<open>scripts/init_db_users.py\<close>, the privileges of the two database accounts and that the routes need no others.
    \<open>Seeding\<close>, \<open>Test_Voters\<close>: \<^verbatim>\<open>app/init_db.py\<close>, \<^verbatim>\<open>app/generate_test_voters.py\<close>, the bootstrap scripts,
    \<^verbatim>\<open>scripts/anchor_open_election_keys.py\<close> and \<^verbatim>\<open>scripts/create_test_voters.py\<close>.

  \<^bold>\<open>Composition.\<close> \<open>Voting_System\<close> interleaves the routes as a step relation in which the two voting requests decide
  and commit in separate steps, with the row lock that closing an election needs; \<open>Account_System\<close> does so for the
  account routes. \<open>Ideal_Election\<close> is the abstract election and \<open>Election_Refinement\<close> the simulation. This theory has the
  properties of the whole: the refinement, the accounting of ballots, the life cycle of elections, the permanence of
  signed results and progress.

  \<^bold>\<open>What the lemmas show.\<close> Each component theory gives its operations' effect on every branch and the preservation
  of \<open>db_ok\<close>; the properties are then: who may vote and what a stored ballot proves (\<open>Voting\<close>); blinding, replay and
  key permanence (\<open>Blind_Signature\<close>); tamper evidence and its limit (\<open>Audit_Log\<close>); bounded guesses (\<open>Otp\<close>); identity,
  second factor and revocation (\<open>Sessions\<close>, \<open>Auth\<close>, \<open>Accounts\<close>); counts, signatures and verification (\<open>Results\<close>, \<open>Signing\<close>);
  refusal of unsafe configurations (\<open>Config\<close>); fail-closed personal data (\<open>Encryption\<close>, \<open>Pii_Migration\<close>); migrations that
  lose no ballot and arrive at the checked schema; filters, privileges and first rows.

  \<^bold>\<open>Loops and bounds.\<close> All recursions are structural or over the attempts left, so none needs fuel: the waiting
  loops count down the allowed attempts and \<open>database_wait_ends\<close> states their result. Python integers are \<open>int\<close>;
  SHA-256 works on 32-bit words.

  \<^bold>\<open>Parameters and their laws.\<close> PyJWT, itsdangerous, werkzeug's password hashes, the RSA, PSS, AEAD and Fernet primitives, PEM
  coding and key generation, the Vault server, SQLAlchemy's URL parser, the GeoIP readers, \<open>fromisoformat\<close> and host-bracket
  parsing are arguments; what a property needs of one is a named hypothesis such as \<open>crypto_lib_ok\<close> or \<open>password_lib_ok\<close>,
  and its witness instantiates it.

  \<^bold>\<open>Limits.\<close> Texts have code points below 256 and are ordered by code points; database collations are not
  modelled, \<open>LIKE\<close> patterns have no escapes and rows that tie in an \<open>ORDER BY\<close> keep the table order. JSON numbers are exact
  decimals. A request reads the clock once; dates in tokens are integers. Input and output fail only where a
  failure is an argument. Primary keys are constraints of the models but not among the named constraints of \<open>Relational\<close>;
  check constraints of migrations are tested when created and not kept. Script sets are lists in their written
  order. Account statements of the database server take effect at once. Flash messages are without their pictographs.

  \<^bold>\<open>Not modelled.\<close> Templates and static files; counters (\<^verbatim>\<open>app/routes/metrics.py\<close>) and log lines other than the audit log;
  \<open>seal_log\<close>; the fixed page of \<open>results_test_panel\<close>; in \<open>create_app\<close> the overrides tests pass, the loggers and error
  pages; the cookie demonstrations and machine facts of the developer pages; creation of tables by \<open>create_all\<close>
  and the one column \<^verbatim>\<open>app/init_db.py\<close> adds late; downgrades that only raise; \<^verbatim>\<open>app/wsgi.py\<close>, \<^verbatim>\<open>migrations/env.py\<close> and the
  developer scripts (\<^verbatim>\<open>debug_login\<close>, \<^verbatim>\<open>demo_vault_signing\<close>, \<^verbatim>\<open>generate_*\<close>, \<^verbatim>\<open>run_*\<close>, \<^verbatim>\<open>*_check\<close>), which call the above or outside
  services and keep no state.
\<close>

section \<open>The whole platform\<close>

definition status_rank :: "election \<Rightarrow> nat" where
  "status_rank e = (case phase_of e of Drafted \<Rightarrow> 0 | Polling \<Rightarrow> 1 | Finished \<Rightarrow> 2)"

definition continues :: "database \<Rightarrow> int \<Rightarrow> election \<Rightarrow> database \<Rightarrow> bool" where
  "continues db i e db' \<longleftrightarrow> (\<exists>e'. get_election db' i = Some e' \<and> el_name e' = el_name e \<and> status_rank e \<le> status_rank e'
     \<and> (\<forall>k. blind_signing_key_id e = Some k \<longrightarrow> blind_signing_key_id e' = Some k)
     \<and> (el_status e \<noteq> ''draft'' \<longrightarrow> candidates_of db' i = candidates_of db i)
     \<and> (el_status e = ''closed'' \<longrightarrow> e' = e \<and> votes_in db' i = votes_in db i \<and> tokens_in db' i = tokens_in db i
          \<and> nullifiers_in db' i = nullifiers_in db i))"

lemma moved_keeps:
  assumes "moved db e e'"
  shows "el_name e' = el_name e" and "status_rank e \<le> status_rank e'"
    and "blind_signing_key_id e = Some k \<Longrightarrow> blind_signing_key_id e' = Some k"
    and "el_status e \<noteq> ''draft'' \<Longrightarrow> el_status e' \<noteq> ''draft''"
    and "el_status e = ''closed'' \<Longrightarrow> e' = e"
  using assms by (auto simp: moved_def opens_to_def closes_to_def status_rank_def phase_of_def)

lemma continues_change:
  assumes "continues db i e db1" and "change db1 db2"
  shows "continues db i e db2"
proof -
  obtain e1 where e1: "get_election db1 i = Some e1" "el_name e1 = el_name e" "status_rank e \<le> status_rank e1"
    "\<forall>k. blind_signing_key_id e = Some k \<longrightarrow> blind_signing_key_id e1 = Some k"
    "el_status e \<noteq> ''draft'' \<longrightarrow> candidates_of db1 i = candidates_of db i"
    "el_status e = ''closed'' \<longrightarrow> e1 = e \<and> votes_in db1 i = votes_in db i \<and> tokens_in db1 i = tokens_in db i
          \<and> nullifiers_in db1 i = nullifiers_in db i"
    using assms(1) by (auto simp: continues_def)
  obtain e2 where e2: "get_election db2 i = Some e2" "moved db1 e1 e2" using change_election [OF assms(2) e1(1)] by blast
  have "el_status e1 \<noteq> ''draft''" if "el_status e \<noteq> ''draft''"
    using e1(3) that by (auto simp: status_rank_def phase_of_def split: if_splits)
  then have "el_status e \<noteq> ''draft'' \<longrightarrow> candidates_of db2 i = candidates_of db i"
    using change_roster [OF assms(2) e1(1)] e1(5) by auto
  moreover have "el_status e = ''closed'' \<longrightarrow> e2 = e \<and> votes_in db2 i = votes_in db i \<and> tokens_in db2 i = tokens_in db i
          \<and> nullifiers_in db2 i = nullifiers_in db i"
    using change_not_open [OF assms(2) e1(1)] e1(6) moved_keeps(5) [OF e2(2)] by auto
  moreover have "el_name e2 = el_name e" "status_rank e \<le> status_rank e2"
    "\<forall>k. blind_signing_key_id e = Some k \<longrightarrow> blind_signing_key_id e2 = Some k"
    using e1(2,3,4) moved_keeps(1,2,3) [OF e2(2)] by auto
  ultimately show ?thesis using e2(1) unfolding continues_def by blast
qed

text \<open>
  C3: the life of an election in the running platform. Whatever requests are served, in whatever
  order and interleaving, an election row never disappears or changes its name, its status only
  moves from draft to open to closed, an anchored signing key is never replaced, its candidates are
  fixed from the moment it opens, and once it is closed its row, votes, authorizations and spent
  nullifiers never change again.
\<close>

theorem election_lifecycle:
  assumes "sys_inv s" and "step\<^sup>*\<^sup>* s t" and "get_election (sys_db s) i = Some e"
  shows "continues (sys_db s) i e (sys_db t)"
proof (rule reachable_change [OF assms(2,1)])
  show "continues (sys_db s) i e (sys_db s)" using assms(3) by (simp add: continues_def)
qed (rule continues_change)

definition demo_system :: system where
  "demo_system = \<lparr>sys_app = demo_vote_state, sys_signer = no_signer, sys_tokens = [], sys_ballots = []\<rparr>"

lemma demo_system_inv: "sys_inv demo_system"
proof -
  have "votes (a_db demo_vote_state) = []" "nullifiers (a_db demo_vote_state) = []" "signed_results (a_db demo_vote_state) = []"
    by (simp_all add: demo_vote_state_def demo_db_def)
  then show ?thesis
    using demo_vote_inv by (simp add: sys_inv_def demo_system_def balanced_def results_true_def pending_ok_def)
qed

lemma demo_system_election: "get_election (sys_db demo_system) 1 = Some demo_open_election"
  by (simp add: demo_system_def demo_vote_state_def get_election_def demo_election_def)

abbreviation demo_restarted :: system where
  "demo_restarted \<equiv> demo_system\<lparr>sys_app := (sys_app demo_system)\<lparr>a_keys := (a_keys (sys_app demo_system))\<lparr>ks_cache := (\<lambda>_. None)\<rparr>\<rparr>,
    sys_signer := no_signer, sys_tokens := [], sys_ballots := []\<rparr>"

theorem election_lifecycle_witness:
  "\<exists>t. step demo_system t \<and> continues (sys_db demo_system) 1 demo_open_election (sys_db t)"
  using election_lifecycle [OF demo_system_inv r_into_rtranclp [of step, OF step.restarted [of demo_system]] demo_system_election]
    step.restarted [of demo_system] by blast

text \<open>
  C2: every reachable state accounts for its ballots. From a new installation, after any sequence
  of steps: a voter has at most one authorization per election, a nullifier is spent at most once,
  the number of recorded ballots of an election equals the number of its spent nullifiers, at most
  one election is open, and a draft has neither ballots nor authorizations.
\<close>

theorem ballots_accounted:
  assumes "sys_init s" and "step\<^sup>*\<^sup>* s t"
  shows "(\<forall>u i. length (filter (\<lambda>x. (bt_user_id x, bt_election_id x) = (u, i)) (blind_tokens (sys_db t))) \<le> 1)
    \<and> (\<forall>i h. length (filter (\<lambda>n. (sn_election_id n, nullifier_hash n) = (i, h)) (nullifiers (sys_db t))) \<le> 1)
    \<and> (\<forall>i. length (votes_in (sys_db t) i) = length (nullifiers_in (sys_db t) i))
    \<and> (\<forall>i j e f. get_election (sys_db t) i = Some e \<and> el_status e = ''open''
         \<and> get_election (sys_db t) j = Some f \<and> el_status f = ''open'' \<longrightarrow> i = j)
    \<and> (\<forall>i e. get_election (sys_db t) i = Some e \<and> el_status e = ''draft'' \<longrightarrow>
         votes_in (sys_db t) i = [] \<and> tokens_in (sys_db t) i = [])"
proof -
  have inv: "election_inv (sys_db t)" "balanced (sys_db t)" using sys_inv_reachable [OF assms] by (simp_all add: sys_inv_def)
  note ok = election_invD(1) [OF inv(1)]
  have "i = j" if "get_election (sys_db t) i = Some e" "el_status e = ''open''" "get_election (sys_db t) j = Some f"
    "el_status f = ''open''" for i j e f
    using election_invD(2) [OF inv(1), of e f] that get_election_SomeD by metis
  moreover have "votes_in (sys_db t) i = [] \<and> tokens_in (sys_db t) i = []"
    if "get_election (sys_db t) i = Some e" "el_status e = ''draft''" for i e
  proof -
    have "unused (sys_db t) i" using election_invD(5) [OF inv(1), of e] that get_election_SomeD [OF that(1)] by blast
    then show ?thesis by (auto simp: unused_def filter_empty_conv)
  qed
  ultimately show ?thesis
    using tokens.at_most_one_per_key [OF ok] spent.at_most_one_per_key [OF ok] inv(2)
    unfolding balanced_def by blast
qed

definition demo_start :: system where
  "demo_start = demo_system\<lparr>sys_app := demo_vote_state\<lparr>a_db := demo_db\<lparr>elections := [], candidates := []\<rparr>\<rparr>\<rparr>"

lemma demo_start_init: "sys_init demo_start"
proof -
  have "db_ok (demo_db\<lparr>elections := [], candidates := []\<rparr>)"
    using demo_db_ok by (simp add: db_ok_def constraint_defs demo_db_def)
  then show ?thesis by (simp add: sys_init_def demo_start_def demo_system_def)
qed

definition demo_next :: system where
  "demo_next = demo_start\<lparr>sys_app := snd (create_election demo_vote_env (\<lambda>_. None) (Some demo_manager)
     (Some ''General'') None None (sys_app demo_start))\<rparr>"

lemma demo_next_step: "step\<^sup>*\<^sup>* demo_start demo_next"
  unfolding demo_next_def by (rule r_into_rtranclp, rule step.election_created [OF surjective_pairing])

theorem ballots_accounted_witness:
  "length (votes_in (sys_db demo_next) 1) = length (nullifiers_in (sys_db demo_next) 1)"
  using ballots_accounted [OF demo_start_init demo_next_step] by blast

text \<open>
  C5: published results stay true. From any state of the invariant, after any sequence of steps, the
  payload of every signed result is the canonical text of its closed election's name and the tallies
  of the votes that are in the database then, so no later request can make a published result
  disagree with the ballots.
\<close>

theorem signed_results_stay_true:
  assumes "sys_inv s" and "step\<^sup>*\<^sup>* s t" and "get_signed_result (sys_db t) i = Some r"
  shows "\<exists>e at ts. get_election (sys_db t) i = Some e \<and> el_status e = ''closed''
    \<and> get_vote_tallies True (sys_db t) (JInt i) = Inr ts \<and> sr_payload r = dumps_canonical (election_results e at ts)"
proof -
  have "sys_inv t" by (rule platform.invariant_star [where I = sys_inv, OF assms(2,1) sys_inv_step])
  then have inv: "election_inv (sys_db t)" "results_true (sys_db t)" by (simp_all add: sys_inv_def)
  note ok = election_invD(1) [OF inv(1)]
  have r: "r \<in> set (signed_results (sys_db t))" "sr_election_id r = i"
    using assms(3) by (auto simp: get_signed_result_def dest: find_Some_in)
  obtain e at where e: "get_election (sys_db t) i = Some e" "sr_payload r = dumps_canonical (election_results e at
         (order_tallies (map (tally_of (sys_db t)) (candidates_of (sys_db t) (el_id e)))))"
    using inv(2) r by (auto simp: results_true_def)
  obtain x where x: "x \<in> set (elections (sys_db t))" "el_id x = i" "el_status x = ''closed''"
    using election_invD(6) [OF inv(1) r(1)] r(2) by blast
  have "el_status e = ''closed''" using other_status [OF ok e(1) x(1)] x(2,3) by metis
  moreover have "el_id e = i" using get_election_SomeD [OF e(1)] by simp
  ultimately show ?thesis using e get_vote_tallies_eq [OF ok, of i] by auto
qed

definition demo_closed_system :: system where
  "demo_closed_system = demo_system\<lparr>sys_app := demo_closed_state\<rparr>"

lemma demo_closed_inv: "sys_inv demo_closed_system"
proof -
  have "election_inv demo_closed_db"
    using demo_closed_db_ok by (simp add: election_inv_def demo_closed_db_def demo_db_def demo_election_def)
  moreover have "balanced demo_closed_db"
    by (simp add: balanced_def demo_closed_db_def demo_cast_def demo_spent_def)
  moreover have "results_true demo_closed_db" by (simp add: results_true_def demo_closed_db_def demo_db_def)
  ultimately show ?thesis
    by (simp add: sys_inv_def demo_closed_system_def demo_closed_state_def demo_system_def pending_ok_def)
qed

theorem signed_results_stay_true_witness:
  "\<exists>t r e at ts. step\<^sup>*\<^sup>* demo_closed_system t \<and> get_signed_result (sys_db t) 1 = Some r
    \<and> get_vote_tallies True (sys_db t) (JInt 1) = Inr ts \<and> sr_payload r = dumps_canonical (election_results e at ts)"
proof -
  obtain j sn' st' where run: "sign_election_results demo_results_env (Some demo_manager) demo_sign_body None
     (no_signer, demo_closed_state) = (Json_reply 200 j, sn', st')" using demo_signs by blast
  let ?t = "demo_closed_system\<lparr>sys_app := st', sys_signer := sn'\<rparr>"
  have "step demo_closed_system ?t"
    by (rule step.results_signed [where renv = demo_results_env and cu = "Some demo_manager" and body = demo_sign_body
          and form = None]) (use run in \<open>simp add: demo_closed_system_def demo_system_def\<close>)
  then have steps: "step\<^sup>*\<^sup>* demo_closed_system ?t" by (rule r_into_rtranclp)
  have "\<exists>r. get_signed_result (a_db st') 1 = Some r"
  proof (rule sign_success [OF run])
    show "db_ok (a_db demo_closed_state)" using demo_closed_db_ok by (simp add: demo_closed_state_def)
  next
    fix u e ts sig db1 payload
    assume e: "get_election (a_db demo_closed_state) (el_id e) = Some e"
      and row: "a_db st' = db1\<lparr>signed_results := signed_results db1 @ [result_row db1 e u payload sig (e_now (re_app demo_results_env))]\<rparr>"
    have "el_id e = 1"
      using e by (auto simp: get_election_def demo_closed_state_def demo_closed_db_def demo_election_def split: if_splits)
    then have "sr_election_id (result_row db1 e u payload sig (e_now (re_app demo_results_env))) = 1"
      by (simp add: result_row_def)
    then have "find (\<lambda>r. sr_election_id r = 1) (signed_results (a_db st')) \<noteq> None"
      unfolding row find_None_iff by auto
    then show ?thesis by (simp add: get_signed_result_def)
  qed
  then obtain r where r: "get_signed_result (sys_db ?t) 1 = Some r" by auto
  obtain e at ts where "get_vote_tallies True (sys_db ?t) (JInt 1) = Inr ts" "sr_payload r = dumps_canonical (election_results e at ts)"
    using signed_results_stay_true [OF demo_closed_inv steps r] by (elim exE conjE)
  with r steps show ?thesis by (intro exI conjI)
qed

text \<open>
  C1: the platform implements the ideal election. Every run of the composed routes from a new
  installation, seen through the abstraction, is a run of the ideal election: phases, one
  authorization per voter, ballots against fresh nullifiers, and published counts that are the
  counts of the ballots. So what holds in the ideal election holds of the tables: the published
  count of every candidate, read back from the signed payload, is the number of that candidate's
  votes.
\<close>

theorem implements_ideal_election:
  assumes "sys_init s" and "step\<^sup>*\<^sup>* s t"
  shows "ideal_init (ideal_of_db (sys_db s)) \<and> ideal_step\<^sup>*\<^sup>* (ideal_of_db (sys_db s)) (ideal_of_db (sys_db t))
    \<and> ideal_inv (ideal_of_db (sys_db t))
    \<and> (\<forall>i r c. get_signed_result (sys_db t) i = Some r \<longrightarrow>
        payload_votes (sr_payload r) c = length (filter (\<lambda>v. v_election_id v = i \<and> v_candidate_id v = c) (votes (sys_db t))))"
proof -
  note run = refinement.refines [OF assms]
  have inv: "ideal_inv (ideal_of_db (sys_db t))" using ideal_inv_reachable run by blast
  have "payload_votes (sr_payload r) c = count (ballot_pairs (sys_db t)) (i, c)"
    if "get_signed_result (sys_db t) i = Some r" for i r c
  proof -
    have "i_published (ideal_of_db (sys_db t)) i = Some (payload_votes (sr_payload r))"
      using that by (simp add: ideal_of_db_def)
    with inv have "payload_votes (sr_payload r) = (\<lambda>c. count (i_ballots (ideal_of_db (sys_db t))) (i, c))"
      by (auto simp: ideal_inv_def)
    then show ?thesis by (simp add: ideal_of_db_def)
  qed
  with run inv show ?thesis by (simp add: count_ballot_pairs)
qed

theorem implements_ideal_election_witness:
  "ideal_step\<^sup>*\<^sup>* (ideal_of_db (sys_db demo_start)) (ideal_of_db (sys_db demo_next))"
  using implements_ideal_election [OF demo_start_init demo_next_step] by blast

text \<open>
  C4: voting is never stuck. From every state that satisfies the invariant, a prepared ballot whose
  nullifier and random token are unused is accepted when it commits, however many other requests
  committed meanwhile; and while a manager exists an open election can be brought to its close,
  all requests under way finishing first.
\<close>

theorem voting_never_stuck:
  assumes "sys_inv s"
  shows "(\<forall>b env. b \<in> set (sys_ballots s) \<and> b_voter_token b \<notin> voter_token ` set (votes (sys_db s))
      \<and> (b_election_id b, b_nonce_hash b) \<notin> (\<lambda>n. (sn_election_id n, nullifier_hash n)) ` set (nullifiers (sys_db s)) \<longrightarrow>
      (\<exists>j. fst (commit_ballot env b (sys_app s)) = Json_reply 200 j))
    \<and> (\<forall>i e u. get_election (sys_db s) i = Some e \<and> el_status e = ''open'' \<and> is_manager (sys_db s) u \<longrightarrow>
      (\<exists>t e'. step\<^sup>*\<^sup>* s t \<and> get_election (sys_db t) i = Some e' \<and> el_status e' = ''closed''))"
  using open_election_can_close [OF assms] prepared_ballot_accepted [OF assms]
  by (fastforce simp: commit_ballot_def)

theorem voting_never_stuck_witness:
  "\<exists>t e'. step\<^sup>*\<^sup>* demo_system t \<and> get_election (sys_db t) 1 = Some e' \<and> el_status e' = ''closed''"
proof -
  have "is_manager (sys_db demo_system) demo_manager"
    by (simp add: is_manager_def has_role_def role_of_def demo_system_def demo_vote_state_def demo_db_def demo_manager_def demo_user_def)
  moreover have "el_status demo_open_election = ''open''" by (simp add: demo_election_def)
  ultimately show ?thesis using voting_never_stuck [OF demo_system_inv] demo_system_election by blast
qed

end
